(* ===== verification/Prelude.thy ===== *)
theory Prelude
  imports Complex_Main "HOL-Library.Multiset"
begin

text \<open>
  Shared vocabulary of the development: the result type of JavaScript code that may throw,
  its sequencing combinators, and the string operations of the JavaScript standard library
  that the sources use.  Strings are HOL's \<open>string\<close> (lists of 8-bit characters); every string
  the sources build or inspect is ASCII.
\<close>

named_theorems res_simps \<open>when a computation that may throw succeeds\<close>
named_theorems prog_ok \<open>when a script program returns, and in which world\<close>
named_theorems prog_simps \<open>unfolding of script programs over the world\<close>

section \<open>Results: a value or a thrown error\<close>

text \<open>
  \<open>AssertionError\<close> is chai's error, raised by every \<open>assert.*\<close> call; its message is text for the
  operator and is not modelled.  \<open>Error\<close> is \<open>throw new Error(msg)\<close> of the sources themselves,
  \<open>TypeError\<close> the engine's own exception for a property access on \<open>undefined\<close> or \<open>null\<close>, and
  \<open>External\<close> an exception raised by code outside the repository (the node, web3, truffle, fs).
\<close>

datatype jserr = AssertionError | Error string | TypeError | External string

type_synonym 'a res = "jserr + 'a"

definition bindR :: "'a res \<Rightarrow> ('a \<Rightarrow> 'b res) \<Rightarrow> 'b res" where
  "bindR m f = (case m of Inl e \<Rightarrow> Inl e | Inr a \<Rightarrow> f a)"

definition assertR :: "bool \<Rightarrow> unit res" where
  "assertR b = (if b then Inr () else Inl AssertionError)"

fun seqR :: "unit res list \<Rightarrow> unit res" where
  "seqR [] = Inr ()"
| "seqR (m # ms) = (case m of Inl e \<Rightarrow> Inl e | Inr _ \<Rightarrow> seqR ms)"

fun mapR :: "('a \<Rightarrow> 'b res) \<Rightarrow> 'a list \<Rightarrow> 'b list res" where
  "mapR f [] = Inr []"
| "mapR f (x # xs) =
     (case f x of Inl e \<Rightarrow> Inl e
      | Inr y \<Rightarrow> (case mapR f xs of Inl e \<Rightarrow> Inl e | Inr ys \<Rightarrow> Inr (y # ys)))"

fun forR :: "('a \<Rightarrow> unit res) \<Rightarrow> 'a list \<Rightarrow> unit res" where
  "forR f [] = Inr ()"
| "forR f (x # xs) = (case f x of Inl e \<Rightarrow> Inl e | Inr _ \<Rightarrow> forR f xs)"

definition okR :: "'a res \<Rightarrow> bool" where
  "okR m = (case m of Inl _ \<Rightarrow> False | Inr _ \<Rightarrow> True)"

lemma okR_simps [simp]: "okR (Inr x)" "\<not> okR (Inl e)"
  by (simp_all add: okR_def)

lemma okR_iff: "okR m \<longleftrightarrow> (\<exists>x. m = Inr x)"
  by (cases m) auto

lemma okR_unit [res_simps]: "m = Inr () \<longleftrightarrow> okR m"
  by (cases m) auto

lemma bindR_simps [simp]: "bindR (Inr x) f = f x" "bindR (Inl e) f = Inl e"
  by (simp_all add: bindR_def)

lemma bindR_eq_Inr: "bindR m f = Inr y \<longleftrightarrow> (\<exists>x. m = Inr x \<and> f x = Inr y)"
  by (cases m) auto

lemma okR_bindR: "okR (bindR m f) \<longleftrightarrow> (\<exists>x. m = Inr x \<and> okR (f x))"
  by (cases m) auto

lemma okR_bindR_unit [simp]: "okR (bindR (m :: unit res) f) \<longleftrightarrow> okR m \<and> okR (f ())"
  by (cases m) auto

lemma okR_assertR [simp]: "okR (assertR b) \<longleftrightarrow> b"
  by (simp add: assertR_def)

lemma assertR_eq_Inr [simp]: "assertR b = Inr u \<longleftrightarrow> b"
  by (simp add: assertR_def)

lemma okR_seqR [simp]: "okR (seqR ms) \<longleftrightarrow> list_all okR ms"
  by (induction ms) (auto split: sum.splits)

lemma okR_forR [simp]: "okR (forR f xs) \<longleftrightarrow> list_all (\<lambda>x. okR (f x)) xs"
  by (induction xs) (auto split: sum.splits)

lemma mapR_eq_Inr: "mapR f xs = Inr ys \<longleftrightarrow> list_all2 (\<lambda>x y. f x = Inr y) xs ys"
proof (induction xs arbitrary: ys)
  case Nil
  then show ?case by (cases ys) auto
next
  case (Cons x xs)
  show ?case
  proof (cases "f x")
    case (Inl e)
    then show ?thesis by (cases ys) auto
  next
    case (Inr y)
    then have "mapR f (x # xs) = Inr ys \<longleftrightarrow> (\<exists>zs. mapR f xs = Inr zs \<and> ys = y # zs)"
      by (auto split: sum.splits)
    also have "\<dots> \<longleftrightarrow> (\<exists>zs. list_all2 (\<lambda>x y. f x = Inr y) xs zs \<and> ys = y # zs)"
      by (simp only: Cons.IH)
    also have "\<dots> \<longleftrightarrow> list_all2 (\<lambda>x y. f x = Inr y) (x # xs) ys"
      using Inr by (auto simp: list_all2_Cons1)
    finally show ?thesis .
  qed
qed

lemma okR_mapR: "okR (mapR f xs) \<longleftrightarrow> list_all (\<lambda>x. okR (f x)) xs"
  by (induction xs) (auto split: sum.splits)

lemma mapR_total: "(\<And>x. x \<in> set xs \<Longrightarrow> f x = Inr (g x)) \<Longrightarrow> mapR f xs = Inr (map g xs)"
  by (induction xs) auto

section \<open>Strings\<close>

definition lower_char :: "char \<Rightarrow> char" where
  "lower_char c =
     (let n = (of_char c :: nat) in if 65 \<le> n \<and> n \<le> 90 then char_of (n + 32) else c)"

definition to_lower :: "string \<Rightarrow> string" where
  "to_lower s = map lower_char s"

definition starts_with :: "string \<Rightarrow> string \<Rightarrow> bool" where
  "starts_with p s \<longleftrightarrow> take (length p) s = p"

definition ends_with :: "string \<Rightarrow> string \<Rightarrow> bool" where
  "ends_with p s \<longleftrightarrow> length p \<le> length s \<and> drop (length s - length p) s = p"

definition contains :: "string \<Rightarrow> string \<Rightarrow> bool" where
  "contains sub s \<longleftrightarrow> list_ex (\<lambda>i. take (length sub) (drop i s) = sub) [0..<Suc (length s)]"

fun index_of :: "char \<Rightarrow> string \<Rightarrow> nat option" where
  "index_of c [] = None"
| "index_of c (d # s) = (if c = d then Some 0 else map_option Suc (index_of c s))"

fun split_on :: "char \<Rightarrow> string \<Rightarrow> string list" where
  "split_on c [] = [[]]"
| "split_on c (d # s) =
     (if c = d then [] # split_on c s
      else (case split_on c s of [] \<Rightarrow> [[d]] | p # ps \<Rightarrow> (d # p) # ps))"

fun join_with :: "string \<Rightarrow> string list \<Rightarrow> string" where
  "join_with sep [] = []"
| "join_with sep [s] = s"
| "join_with sep (s # t # ts) = s @ sep @ join_with sep (t # ts)"

text \<open>Decimal digits of a non-negative integer (on \<open>int\<close>, whose code equations are binary).\<close>

function dec_digits :: "int \<Rightarrow> string" where
  "dec_digits n =
     (if n < 10 then [char_of (48 + n)] else dec_digits (n div 10) @ [char_of (48 + n mod 10)])"
  by pat_completeness auto
termination
  by (relation "measure nat") auto

declare dec_digits.simps [simp del]

definition dec_int :: "int \<Rightarrow> string" where
  "dec_int i = (if i < 0 then ''-'' @ dec_digits (- i) else dec_digits i)"

lemma split_on_nonempty [simp]: "split_on c s \<noteq> []"
  by (induction s) (auto split: list.splits)

lemma split_on_join: "join_with [c] (split_on c s) = s"
proof (induction s)
  case Nil
  then show ?case by simp
next
  case (Cons d s)
  obtain p ps where ps: "split_on c s = p # ps"
    by (cases "split_on c s") auto
  show ?case
  proof (cases "c = d")
    case True
    with Cons ps show ?thesis by simp
  next
    case False
    with Cons ps show ?thesis by (cases ps) auto
  qed
qed

lemma split_on_no_sep: "p \<in> set (split_on c s) \<Longrightarrow> c \<notin> set p"
proof (induction s arbitrary: p)
  case Nil
  then show ?case by simp
next
  case (Cons d s)
  obtain q qs where qs: "split_on c s = q # qs"
    by (cases "split_on c s") auto
  from Cons qs show ?case by (auto split: if_splits)
qed

lemma index_of_Some:
  "index_of c s = Some i \<Longrightarrow> i < length s \<and> s ! i = c \<and> c \<notin> set (take i s)"
proof (induction s arbitrary: i)
  case Nil
  then show ?case by simp
next
  case (Cons d s)
  then show ?case by (cases i) (auto split: if_splits)
qed

lemma index_of_None: "index_of c s = None \<longleftrightarrow> c \<notin> set s"
  by (induction s) auto

lemma lower_char_idem [simp]: "lower_char (lower_char c) = lower_char c"
proof -
  have "of_char c < (256 :: nat)" by simp
  then show ?thesis
    by (auto simp: lower_char_def Let_def of_char_of take_bit_eq_mod split: if_splits)
qed

lemma to_lower_idem [simp]: "to_lower (to_lower s) = to_lower s"
  by (simp add: to_lower_def)

lemma to_lower_append [simp]: "to_lower (s @ t) = to_lower s @ to_lower t"
  by (simp add: to_lower_def)

lemma length_to_lower [simp]: "length (to_lower s) = length s"
  by (simp add: to_lower_def)

lemma dec_digits_nonempty [simp]: "dec_digits n \<noteq> []"
  by (subst dec_digits.simps) simp

lemma last_dec_digits: "0 \<le> n \<Longrightarrow> last (dec_digits n) = char_of (48 + n mod 10)"
  by (subst dec_digits.simps) simp

end
