(* ===== verification/JsNumber.thy ===== *)
theory JsNumber
  imports Prelude
begin

text \<open>
  JavaScript numbers.  A finite number is the rational it denotes; every arithmetic operation
  rounds its exact result to the nearest IEEE 754 double, ties to even (\<open>dbl\<close>).  Minus zero is
  identified with zero: no source below distinguishes them.  \<open>to_int32\<close> is the conversion done
  by the bitwise operators (\<open>x | 0\<close>), \<open>math_floor\<close> and \<open>math_round\<close> are \<open>Math.floor\<close> and
  \<open>Math.round\<close>, \<open>num_str\<close> is \<open>Number::toString\<close> with radix 10.
\<close>

datatype jnum = Fin rat | NaN | PosInf | NegInf

section \<open>Rounding to a double\<close>

function blen :: "int \<Rightarrow> nat" where
  "blen n = (if n \<le> 0 then 0 else Suc (blen (n div 2)))"
  by pat_completeness auto
termination
  by (relation "measure nat") auto

declare blen.simps [simp del]

definition pow2 :: "int \<Rightarrow> rat" where
  "pow2 e = (if 0 \<le> e then 2 ^ nat e else 1 / 2 ^ nat (- e))"

definition ilog2 :: "rat \<Rightarrow> int" where
  "ilog2 a =
     (let (n, d) = quotient_of a; e = int (blen n) - int (blen d)
      in if pow2 e \<le> a then e else e - 1)"

definition round_even :: "rat \<Rightarrow> int" where
  "round_even x =
     (let f = \<lfloor>x\<rfloor>; r = x - of_int f
      in if r < 1 / 2 then f else if 1 / 2 < r then f + 1 else if even f then f else f + 1)"

definition dbl :: "rat \<Rightarrow> jnum" where
  "dbl q =
     (if q = 0 then Fin 0
      else let a = \<bar>q\<bar>; u = pow2 (max (ilog2 a - 52) (- 1074));
               r = of_int (round_even (a / u)) * u
           in if 1024 \<le> ilog2 r then (if 0 < q then PosInf else NegInf)
              else Fin (if 0 < q then r else - r))"

lemma blen_0 [simp]: "blen 0 = 0"
  by (subst blen.simps) simp

lemma blen_bounds: "0 < n \<Longrightarrow> 2 ^ (blen n - 1) \<le> n \<and> n < 2 ^ blen n \<and> 0 < blen n"
proof (induction n rule: blen.induct)
  case (1 n)
  show ?case
  proof (cases "n div 2 = 0")
    case True
    with "1.prems" have "n = 1" by linarith
    then show ?thesis by (simp add: blen.simps [of 1])
  next
    case False
    with 1 have IH: "2 ^ (blen (n div 2) - 1) \<le> n div 2" "n div 2 < 2 ^ blen (n div 2)"
      "0 < blen (n div 2)" by auto
    have b: "blen n = Suc (blen (n div 2))"
      using "1.prems" by (subst blen.simps) simp
    have p: "(2::int) ^ blen (n div 2) = 2 * 2 ^ (blen (n div 2) - 1)"
      using IH(3) by (metis Suc_diff_1 power_Suc)
    define t where "t = (2::int) ^ (blen (n div 2) - 1)"
    have "t \<le> n div 2" "n div 2 < 2 * t" using IH p by (simp_all add: t_def)
    then have "2 * t \<le> n" "n < 4 * t" by linarith+
    moreover have "(2::int) ^ (blen n - 1) = 2 * t" "(2::int) ^ blen n = 4 * t"
      using b p by (simp_all add: t_def)
    ultimately show ?thesis using b by simp
  qed
qed

lemma pow2_pos [simp]: "0 < pow2 e"
  by (simp add: pow2_def)

lemma pow2_nonzero [simp]: "pow2 e \<noteq> 0"
  using pow2_pos [of e] by linarith

lemma pow2_nat_diff: "pow2 (int a - int b) = 2 ^ a / 2 ^ b"
proof (cases "b \<le> a")
  case True
  then have "nat (int a - int b) = a - b" by simp
  with True show ?thesis by (simp add: pow2_def power_diff)
next
  case False
  then have "nat (- (int a - int b)) = b - a" by simp
  with False show ?thesis by (simp add: pow2_def power_diff)
qed

lemma pow2_add: "pow2 (e + f) = pow2 e * pow2 f"
proof -
  obtain a b where e: "e = int a - int b" by (metis diff_conv_add_uminus int_diff_cases)
  obtain c d where f: "f = int c - int d" by (metis diff_conv_add_uminus int_diff_cases)
  have "e + f = int (a + c) - int (b + d)" using e f by simp
  then show ?thesis using e f by (simp only: pow2_nat_diff) (simp add: power_add)
qed

lemma pow2_mono: "e \<le> f \<Longrightarrow> pow2 e \<le> pow2 f"
proof -
  assume "e \<le> f"
  then have "1 \<le> pow2 (f - e)" by (simp add: pow2_def)
  then have "pow2 e * 1 \<le> pow2 e * pow2 (f - e)" by (intro mult_left_mono) (simp_all add: less_imp_le)
  then show ?thesis by (simp flip: pow2_add)
qed

lemma ilog2_lower:
  assumes "0 < a"
  shows "pow2 (ilog2 a) \<le> a"
proof -
  obtain n d where nd: "quotient_of a = (n, d)" by (cases "quotient_of a") auto
  have d: "0 < d" using nd by (rule quotient_of_denom_pos)
  have a: "a = of_int n / of_int d" using nd by (rule quotient_of_div)
  with assms d have n: "0 < n" by (simp add: zero_less_divide_iff)
  define bn where "bn = blen n"
  define bd where "bd = blen d"
  have B: "2 ^ (bn - 1) \<le> n" "d < 2 ^ bd" "0 < bn"
    using blen_bounds [of n] blen_bounds [of d] n d by (auto simp: bn_def bd_def)
  have "(2::rat) ^ (bn - 1) \<le> of_int n"
    using B(1) by (metis of_int_le_iff of_int_numeral of_int_power)
  moreover have "of_int d \<le> (2::rat) ^ bd"
    using B(2) by (metis less_imp_le of_int_le_iff of_int_numeral of_int_power)
  ultimately have "(2::rat) ^ (bn - 1) / 2 ^ bd \<le> of_int n / of_int d"
    using d n by (intro frac_le) auto
  moreover have "pow2 (int bn - int bd - 1) = 2 ^ (bn - 1) / 2 ^ bd"
    using B(3) pow2_nat_diff [of "bn - 1" bd] by (simp add: of_nat_diff algebra_simps)
  ultimately have "pow2 (int bn - int bd - 1) \<le> a" using a by simp
  then show ?thesis by (simp add: ilog2_def nd Let_def bn_def bd_def)
qed

lemma round_even_error: "\<bar>of_int (round_even x) - x\<bar> \<le> 1 / 2"
proof -
  have "of_int \<lfloor>x\<rfloor> \<le> x" "x < of_int \<lfloor>x\<rfloor> + 1" by linarith+
  then show ?thesis by (auto simp: round_even_def Let_def abs_le_iff)
qed

text \<open>In the normal range the relative rounding error is at most \<open>2 ^ -53\<close>.\<close>

lemma dbl_error:
  assumes "pow2 (- 1022) \<le> a" "a < 2 ^ 1000"
  shows "\<exists>r. dbl a = Fin r \<and> \<bar>r - a\<bar> \<le> a / 2 ^ 53"
proof -
  have a0: "0 < a" using assms(1) pow2_pos [of "- 1022"] by linarith
  define u where "u = pow2 (max (ilog2 a - 52) (- 1074))"
  define r where "r = of_int (round_even (a / u)) * u"
  have u0: "0 < u" by (simp add: u_def)
  have u52: "u \<le> a / 2 ^ 52"
  proof (cases "ilog2 a - 52 \<le> - 1074")
    case True
    then have "u = pow2 (- 1022 + - 52)" by (simp add: u_def max_def)
    also have "\<dots> = pow2 (- 1022) * pow2 (- 52)" by (rule pow2_add)
    also have "\<dots> = pow2 (- 1022) / 2 ^ 52" by (simp add: pow2_def [of "- 52"])
    finally show ?thesis using assms(1) by (simp add: divide_right_mono)
  next
    case False
    then have "u = pow2 (ilog2 a + - 52)" by (simp add: u_def max_def)
    also have "\<dots> = pow2 (ilog2 a) / 2 ^ 52" by (simp only: pow2_add) (simp add: pow2_def [of "- 52"])
    finally show ?thesis using ilog2_lower [OF a0] by (simp add: divide_right_mono)
  qed
  have "r - a = (of_int (round_even (a / u)) - a / u) * u"
    using u0 by (simp add: r_def left_diff_distrib)
  then have "\<bar>r - a\<bar> = \<bar>of_int (round_even (a / u)) - a / u\<bar> * u"
    using u0 by (simp add: abs_mult)
  also have "\<dots> \<le> 1 / 2 * u"
    using round_even_error u0 by (intro mult_right_mono) auto
  also have "\<dots> \<le> a / 2 ^ 53" using u52 by simp
  finally have err: "\<bar>r - a\<bar> \<le> a / 2 ^ 53" .
  then have "r \<le> a + a / 2 ^ 53" by linarith
  also have "\<dots> \<le> 2 * a" using a0 by simp
  also have "\<dots> < 2 * 2 ^ 1000" using assms(2) by simp
  also have "\<dots> < (2::rat) ^ 1024" by (simp del: power_numeral flip: power_Suc)
  finally have "r < 2 ^ 1024" .
  then have "r < pow2 1024" by (simp add: pow2_def)
  moreover have "0 < r \<Longrightarrow> pow2 (ilog2 r) \<le> r" by (rule ilog2_lower)
  moreover have "ilog2 0 < 1024" by code_simp
  moreover have "0 \<le> r"
  proof -
    have "a / 2 ^ 53 \<le> a" using a0 by simp
    with err show ?thesis by linarith
  qed
  ultimately have "ilog2 r < 1024"
    using pow2_mono [of 1024 "ilog2 r"] by (cases "r = 0") fastforce+
  then have "dbl a = Fin r"
    using a0 by (simp add: dbl_def u_def r_def Let_def)
  with err show ?thesis by blast
qed

section \<open>Arithmetic\<close>

definition num_sgn :: "jnum \<Rightarrow> int" where
  "num_sgn x = (case x of Fin q \<Rightarrow> (if 0 < q then 1 else if q < 0 then - 1 else 0)
                 | NaN \<Rightarrow> 0 | PosInf \<Rightarrow> 1 | NegInf \<Rightarrow> - 1)"

fun js_mul :: "jnum \<Rightarrow> jnum \<Rightarrow> jnum" where
  "js_mul NaN y = NaN"
| "js_mul x NaN = NaN"
| "js_mul (Fin p) (Fin q) = dbl (p * q)"
| "js_mul x y =
     (if num_sgn x * num_sgn y = 0 then NaN
      else if 0 < num_sgn x * num_sgn y then PosInf else NegInf)"

fun js_div :: "jnum \<Rightarrow> jnum \<Rightarrow> jnum" where
  "js_div NaN y = NaN"
| "js_div x NaN = NaN"
| "js_div (Fin p) (Fin q) =
     (if q = 0 then (if p = 0 then NaN else if 0 < p then PosInf else NegInf) else dbl (p / q))"
| "js_div (Fin p) y = Fin 0"
| "js_div x (Fin q) = (if (0 \<le> q) = (x = PosInf) then PosInf else NegInf)"
| "js_div x y = NaN"

fun math_floor :: "jnum \<Rightarrow> jnum" where
  "math_floor (Fin q) = Fin (of_int \<lfloor>q\<rfloor>)"
| "math_floor x = x"

fun math_round :: "jnum \<Rightarrow> jnum" where
  "math_round (Fin q) = Fin (of_int \<lfloor>q + 1 / 2\<rfloor>)"
| "math_round x = x"

definition trunc_rat :: "rat \<Rightarrow> int" where
  "trunc_rat q = (if 0 \<le> q then \<lfloor>q\<rfloor> else - \<lfloor>- q\<rfloor>)"

definition wrap32 :: "int \<Rightarrow> int" where
  "wrap32 i = (let m = i mod 2 ^ 32 in if 2 ^ 31 \<le> m then m - 2 ^ 32 else m)"

fun to_int32 :: "jnum \<Rightarrow> int" where
  "to_int32 (Fin q) = wrap32 (trunc_rat q)"
| "to_int32 _ = 0"

lemma wrap32_id: "- (2 ^ 31) \<le> i \<Longrightarrow> i < 2 ^ 31 \<Longrightarrow> wrap32 i = i"
proof (cases "0 \<le> i")
  case False
  assume "- (2 ^ 31) \<le> i" "i < 2 ^ 31"
  with False have "(i + 2 ^ 32) mod 2 ^ 32 = i + 2 ^ 32" by (intro mod_pos_pos_trivial) auto
  then have "i mod 2 ^ 32 = i + 2 ^ 32" by simp
  with \<open>- (2 ^ 31) \<le> i\<close> show ?thesis by (simp add: wrap32_def)
qed (simp add: wrap32_def)

lemma wrap32_bounds: "- (2 ^ 31) \<le> wrap32 i \<and> wrap32 i < 2 ^ 31"
proof -
  have "0 \<le> i mod 2 ^ 32" "i mod 2 ^ 32 < (2 ^ 32 :: int)" by simp_all
  then show ?thesis unfolding wrap32_def Let_def by (auto simp del: pos_mod_bound pos_mod_sign)
qed

lemma trunc_rat_of_int [simp]: "trunc_rat (of_int i) = i"
  by (simp add: trunc_rat_def flip: of_int_minus)

section \<open>Number to string\<close>

text \<open>
  \<open>num_digits a\<close> for a positive double \<open>a\<close> is the pair \<open>(s, n)\<close> of the specification's
  algorithm: \<open>s\<close> has the least number \<open>k\<close> of decimal digits such that
  \<open>s * 10 ^ (n - k)\<close> rounds to \<open>a\<close>.
\<close>

definition pow10 :: "int \<Rightarrow> rat" where
  "pow10 e = (if 0 \<le> e then 10 ^ nat e else 1 / 10 ^ nat (- e))"

fun dec_exp_small :: "nat \<Rightarrow> rat \<Rightarrow> int" where
  "dec_exp_small 0 a = 0"
| "dec_exp_small (Suc fuel) a = (if 1 / 10 \<le> a then 0 else dec_exp_small fuel (10 * a) - 1)"

definition dec_exp :: "rat \<Rightarrow> int" where
  "dec_exp a = (if 1 \<le> a then int (length (dec_digits \<lfloor>a\<rfloor>)) else dec_exp_small 400 a)"

fun num_digits :: "nat \<Rightarrow> nat \<Rightarrow> rat \<Rightarrow> int \<Rightarrow> int \<times> int" where
  "num_digits 0 k a n = (round_even (a * pow10 (int k - n)), n)"
| "num_digits (Suc fuel) k a n =
     (let s = round_even (a * pow10 (int k - n))
      in if dbl (of_int s * pow10 (n - int k)) = Fin a
         then (if s = 10 ^ k then (10 ^ (k - 1), n + 1) else (s, n))
         else num_digits fuel (Suc k) a n)"

definition pos_str :: "rat \<Rightarrow> string" where
  "pos_str a =
     (if of_int \<lfloor>a\<rfloor> = a \<and> a < 10 ^ 21 \<and> a \<le> 2 ^ 53 then dec_digits \<lfloor>a\<rfloor>
      else let (s, n) = num_digits 16 1 a (dec_exp a); ds = dec_digits s; k = int (length ds)
      in if k \<le> n \<and> n \<le> 21 then ds @ replicate (nat (n - k)) (CHR ''0'')
         else if 0 < n \<and> n \<le> 21 then take (nat n) ds @ ''.'' @ drop (nat n) ds
         else if - 6 < n \<and> n \<le> 0 then ''0.'' @ replicate (nat (- n)) (CHR ''0'') @ ds
         else (if k = 1 then ds else take 1 ds @ ''.'' @ drop 1 ds) @ ''e'' @
              (if 0 < n - 1 then ''+'' else ''-'') @ dec_digits \<bar>n - 1\<bar>)"

fun num_str :: "jnum \<Rightarrow> string" where
  "num_str (Fin q) = (if q = 0 then ''0'' else if 0 < q then pos_str q else ''-'' @ pos_str (- q))"
| "num_str NaN = ''NaN''"
| "num_str PosInf = ''Infinity''"
| "num_str NegInf = ''-Infinity''"

end
