(* ===== verification/JsValue.thy ===== *)
theory JsValue
  imports JsNumber
begin

text \<open>
  JavaScript values as the scripts handle them.  An object is the list of its own properties in
  insertion order; \<open>JBN\<close> is a \<open>bn.js\<close> integer, which is what web3 and truffle return for a
  Solidity integer.  Property access, truthiness, object spread, conversion to string and to
  number are written out for all constructors.
\<close>

datatype jsval =
    JUndef | JNull | JBool bool | JNum jnum | JStr string
  | JArr "jsval list" | JObj "(string \<times> jsval) list" | JBN int

type_synonym props = "(string \<times> jsval) list"

abbreviation JInt :: "int \<Rightarrow> jsval" where
  "JInt i \<equiv> JNum (Fin (of_int i))"

section \<open>Conversions\<close>

fun truthy :: "jsval \<Rightarrow> bool" where
  "truthy JUndef = False"
| "truthy JNull = False"
| "truthy (JBool b) = b"
| "truthy (JNum x) = (case x of Fin q \<Rightarrow> q \<noteq> 0 | NaN \<Rightarrow> False | _ \<Rightarrow> True)"
| "truthy (JStr s) = (s \<noteq> [])"
| "truthy _ = True"

text \<open>\<open>v != null\<close>: neither \<open>null\<close> nor \<open>undefined\<close>.\<close>

definition not_nullish :: "jsval \<Rightarrow> bool" where
  "not_nullish v = (case v of JUndef \<Rightarrow> False | JNull \<Rightarrow> False | _ \<Rightarrow> True)"

fun to_str :: "jsval \<Rightarrow> string" and elem_str :: "jsval \<Rightarrow> string" where
  "to_str JUndef = ''undefined''"
| "to_str JNull = ''null''"
| "to_str (JBool b) = (if b then ''true'' else ''false'')"
| "to_str (JNum x) = num_str x"
| "to_str (JStr s) = s"
| "to_str (JArr xs) = join_with '','' (map elem_str xs)"
| "to_str (JObj ps) = ''[object Object]''"
| "to_str (JBN i) = dec_int i"
| "elem_str JUndef = []"
| "elem_str JNull = []"
| "elem_str (JBool b) = (if b then ''true'' else ''false'')"
| "elem_str (JNum x) = num_str x"
| "elem_str (JStr s) = s"
| "elem_str (JArr xs) = join_with '','' (map elem_str xs)"
| "elem_str (JObj ps) = ''[object Object]''"
| "elem_str (JBN i) = dec_int i"

definition digit_val :: "char \<Rightarrow> int option" where
  "digit_val c =
     (let n = (of_char c :: int) in if 48 \<le> n \<and> n \<le> 57 then Some (n - 48) else None)"

definition hex_val :: "char \<Rightarrow> int option" where
  "hex_val c =
     (let n = (of_char c :: int)
      in if 48 \<le> n \<and> n \<le> 57 then Some (n - 48)
         else if 97 \<le> n \<and> n \<le> 102 then Some (n - 87)
         else if 65 \<le> n \<and> n \<le> 70 then Some (n - 55) else None)"

fun parse_digits :: "(char \<Rightarrow> int option) \<Rightarrow> int \<Rightarrow> int \<Rightarrow> string \<Rightarrow> int option" where
  "parse_digits val base acc [] = Some acc"
| "parse_digits val base acc (c # s) =
     (case val c of None \<Rightarrow> None | Some d \<Rightarrow> parse_digits val base (base * acc + d) s)"

definition parse_nat :: "string \<Rightarrow> int option" where
  "parse_nat s = (if s = [] then None else parse_digits digit_val 10 0 s)"

definition parse_hex :: "string \<Rightarrow> int option" where
  "parse_hex s = (if s = [] then None else parse_digits hex_val 16 0 s)"

text \<open>
  \<open>Number(s)\<close> for the literals the sources convert: the empty string, decimal literals with an
  optional sign and fraction, and \<open>0x\<close> literals; any other text is \<open>NaN\<close>.
\<close>

definition parse_decimal :: "string \<Rightarrow> rat option" where
  "parse_decimal s =
     (case split_on (CHR ''.'') s of
        [i] \<Rightarrow> map_option of_int (parse_nat i)
      | [i, f] \<Rightarrow>
          (if i = [] \<and> f = [] then None
           else (case (parse_digits digit_val 10 0 i, parse_digits digit_val 10 0 f) of
                   (Some a, Some b) \<Rightarrow> Some (of_int a + of_int b / 10 ^ length f)
                 | _ \<Rightarrow> None))
      | _ \<Rightarrow> None)"

definition str_num :: "string \<Rightarrow> jnum" where
  "str_num s =
     (if s = [] then Fin 0
      else if starts_with ''0x'' s \<or> starts_with ''0X'' s
        then (case parse_hex (drop 2 s) of None \<Rightarrow> NaN | Some i \<Rightarrow> dbl (of_int i))
      else if starts_with ''-'' s
        then (case parse_decimal (drop 1 s) of None \<Rightarrow> NaN | Some q \<Rightarrow> dbl (- q))
      else (case parse_decimal (if starts_with ''+'' s then drop 1 s else s) of
              None \<Rightarrow> NaN | Some q \<Rightarrow> dbl q))"

definition to_num :: "jsval \<Rightarrow> jnum" where
  "to_num v = (case v of JUndef \<Rightarrow> NaN | JNull \<Rightarrow> Fin 0 | JBool b \<Rightarrow> Fin (of_bool b)
     | JNum x \<Rightarrow> x | JStr s \<Rightarrow> str_num s | JArr xs \<Rightarrow> str_num (to_str v) | JObj _ \<Rightarrow> NaN
     | JBN i \<Rightarrow> dbl (of_int i))"

text \<open>\<open>===\<close> on primitive values; \<open>NaN\<close> is not equal to itself.\<close>

definition strict_eq :: "jsval \<Rightarrow> jsval \<Rightarrow> bool" where
  "strict_eq a b = (a = b \<and> a \<noteq> JNum NaN)"

text \<open>Reading back the decimal text of a number.\<close>

lemma digit_val_digit: "0 \<le> n \<Longrightarrow> n < 10 \<Longrightarrow> digit_val (char_of (48 + n)) = Some n"
  by (simp add: digit_val_def of_char_of take_bit_eq_mod)

lemma parse_digits_append:
  "parse_digits val base acc (s @ t) =
     (case parse_digits val base acc s of None \<Rightarrow> None | Some a \<Rightarrow> parse_digits val base a t)"
  by (induction s arbitrary: acc) (auto split: option.splits)

lemma parse_dec_digits: "0 \<le> n \<Longrightarrow> parse_digits digit_val 10 0 (dec_digits n) = Some n"
proof (induction n rule: dec_digits.induct)
  case (1 n)
  show ?case
  proof (cases "n < 10")
    case True
    with 1(2) show ?thesis by (subst dec_digits.simps) (simp add: digit_val_digit)
  next
    case False
    with 1(1) have "parse_digits digit_val 10 0 (dec_digits (n div 10)) = Some (n div 10)" by simp
    with False show ?thesis
      by (subst dec_digits.simps) (simp add: parse_digits_append digit_val_digit)
  qed
qed

lemma parse_nat_dec_int: "0 \<le> n \<Longrightarrow> parse_nat (dec_int n) = Some n"
  by (simp add: parse_nat_def dec_int_def parse_dec_digits)

section \<open>Objects\<close>

fun obj_set :: "'k \<Rightarrow> 'v \<Rightarrow> ('k \<times> 'v) list \<Rightarrow> ('k \<times> 'v) list" where
  "obj_set k v [] = [(k, v)]"
| "obj_set k v ((k', v') # ps) = (if k = k' then (k, v) # ps else (k', v') # obj_set k v ps)"

definition obj_get :: "props \<Rightarrow> string \<Rightarrow> jsval" where
  "obj_get ps k = (case map_of ps k of None \<Rightarrow> JUndef | Some v \<Rightarrow> v)"

text \<open>\<open>v.k\<close>: throws on \<open>undefined\<close> and \<open>null\<close>.\<close>

fun getp :: "jsval \<Rightarrow> string \<Rightarrow> jsval res" where
  "getp JUndef k = Inl TypeError"
| "getp JNull k = Inl TypeError"
| "getp (JObj ps) k = Inr (obj_get ps k)"
| "getp (JArr xs) k = Inr (if k = ''length'' then JInt (int (length xs)) else JUndef)"
| "getp (JStr s) k = Inr (if k = ''length'' then JInt (int (length s)) else JUndef)"
| "getp _ k = Inr JUndef"

text \<open>The properties that \<open>...v\<close> copies inside an object literal.\<close>

definition indexed :: "jsval list \<Rightarrow> props" where
  "indexed xs = zip (map (\<lambda>i. dec_int (int i)) [0..<length xs]) xs"

fun own_props :: "jsval \<Rightarrow> props" where
  "own_props (JObj ps) = ps"
| "own_props (JArr xs) = indexed xs"
| "own_props (JStr s) = indexed (map (\<lambda>c. JStr [c]) s)"
| "own_props _ = []"

definition obj_assign :: "props \<Rightarrow> props \<Rightarrow> props" where
  "obj_assign ps qs = fold (\<lambda>(k, v) acc. obj_set k v acc) qs ps"

lemma map_of_obj_set [simp]: "map_of (obj_set k v ps) = (map_of ps)(k \<mapsto> v)"
  by (induction ps) (auto simp: fun_eq_iff)

lemma obj_get_set [simp]: "obj_get (obj_set k v ps) k' = (if k' = k then v else obj_get ps k')"
  by (simp add: obj_get_def)

lemma obj_get_Nil [simp]: "obj_get [] k = JUndef"
  by (simp add: obj_get_def)

lemma obj_get_Cons [simp]: "obj_get ((k', v) # ps) k = (if k = k' then v else obj_get ps k)"
  by (simp add: obj_get_def)

lemma keys_obj_set: "fst ` set (obj_set k v ps) = insert k (fst ` set ps)"
proof -
  have "dom (map_of (obj_set k v ps)) = insert k (dom (map_of ps))" by simp
  then show ?thesis by (simp only: dom_map_of_conv_image_fst)
qed

lemma distinct_obj_set: "distinct (map fst ps) \<Longrightarrow> distinct (map fst (obj_set k v ps))"
proof (induction ps)
  case (Cons p ps)
  obtain k' v' where p: "p = (k', v')" by (cases p)
  have "fst ` set (obj_set k v ps) = insert k (fst ` set ps)" by (rule keys_obj_set)
  with Cons p show ?case by auto
qed simp

lemma map_of_obj_assign: "map_of (obj_assign ps qs) = map_of ps ++ map_of (rev qs)"
proof (induction qs arbitrary: ps)
  case (Cons q qs)
  obtain k v where q: "q = (k, v)" by (cases q)
  have "map_of (obj_assign ps (q # qs)) = map_of (obj_set k v ps) ++ map_of (rev qs)"
    using Cons.IH [of "obj_set k v ps"] by (simp add: obj_assign_def q del: map_of_obj_set)
  also have "\<dots> = map_of ps ++ map_of (rev (q # qs))"
    by (rule ext) (simp add: q map_add_def split: option.splits)
  finally show ?case .
qed (simp add: obj_assign_def)

lemma obj_get_assign:
  "distinct (map fst qs) \<Longrightarrow>
   obj_get (obj_assign ps qs) k = (if k \<in> fst ` set qs then obj_get qs k else obj_get ps k)"
proof -
  assume d: "distinct (map fst qs)"
  then have r: "map_of (rev qs) = map_of qs"
    by (subst map_of_inject_set) (simp_all flip: rev_map)
  show ?thesis
  proof (cases "map_of qs k")
    case None
    then have "k \<notin> fst ` set qs" by (simp add: map_of_eq_None_iff)
    with None show ?thesis by (simp add: obj_get_def map_of_obj_assign r map_add_def)
  next
    case (Some v)
    then have "k \<in> fst ` set qs" by (metis map_of_eq_None_iff option.distinct(1))
    with Some show ?thesis by (simp add: obj_get_def map_of_obj_assign r map_add_def)
  qed
qed

lemma getp_Inr: "getp v k = Inr x \<Longrightarrow> v \<noteq> JUndef \<and> v \<noteq> JNull"
  by (cases v) auto

end
