(* ===== verification/GasSource.thy ===== *)
theory GasSource
  imports JsValue
begin

text \<open>
  gasprofile/gasprofile.js, the pure half: solc's compressed source maps, the instruction index of
  a program counter, line offsets, address normalisation and the look-up of a contract by its
  deployed bytecode.
\<close>

section \<open>Source maps (parseSourceMap)\<close>

record sm_entry =
  sm_s :: jnum
  sm_l :: jnum
  sm_f :: jnum
  sm_j :: "string option"

text \<open>The last explicit value of each of the four fields; \<open>None\<close> is \<open>undefined\<close>.\<close>

type_synonym sm_prev = "string option list"

definition part_of :: "string list \<Rightarrow> nat \<Rightarrow> string option" where
  "part_of parts i = (if i < length parts then Some (parts ! i) else None)"

definition inherit_field :: "string option \<Rightarrow> string option \<Rightarrow> string option" where
  "inherit_field cur prev = (case cur of None \<Rightarrow> prev | Some v \<Rightarrow> if v = [] then prev else cur)"

definition num_of :: "string option \<Rightarrow> jnum" where
  "num_of v = (case v of None \<Rightarrow> NaN | Some s \<Rightarrow> str_num s)"

definition sm_section :: "sm_prev \<Rightarrow> string \<Rightarrow> sm_prev" where
  "sm_section prev sect =
     (let parts = split_on (CHR '':'') sect
      in map (\<lambda>i. inherit_field (part_of parts i) (prev ! i)) [0..<4])"

definition sm_of :: "sm_prev \<Rightarrow> sm_entry" where
  "sm_of f = \<lparr>sm_s = num_of (f ! 0), sm_l = num_of (f ! 1), sm_f = num_of (f ! 2), sm_j = f ! 3\<rparr>"

fun sm_sections :: "sm_prev \<Rightarrow> string list \<Rightarrow> sm_entry list" where
  "sm_sections prev [] = []"
| "sm_sections prev (sect # sects) =
     (let cur = sm_section prev sect in sm_of cur # sm_sections cur sects)"

definition is_space :: "char \<Rightarrow> bool" where
  "is_space c \<longleftrightarrow> c \<in> set [CHR '' '', CHR 0x09, CHR 0x0A, CHR 0x0B, CHR 0x0C, CHR 0x0D]"

definition trim :: "string \<Rightarrow> string" where
  "trim s = rev (dropWhile is_space (rev (dropWhile is_space s)))"

text \<open>\<open>parseInt(s, 16)\<close>: the longest prefix of hexadecimal digits; \<open>None\<close> is \<open>NaN\<close>.\<close>

definition parseInt16 :: "string \<Rightarrow> int option" where
  "parseInt16 s =
     (let t = dropWhile is_space s;
          neg = starts_with ''-'' t;
          u = (if neg \<or> starts_with ''+'' t then drop 1 t else t);
          d = (if starts_with ''0x'' u \<or> starts_with ''0X'' u then drop 2 u else u)
      in map_option (\<lambda>n. if neg then - n else n) (parse_hex (takeWhile (\<lambda>c. hex_val c \<noteq> None) d)))"

definition parseSourceMap :: "string \<Rightarrow> sm_entry list" where
  "parseSourceMap raw = sm_sections [None, None, None, None] (split_on (CHR '';'') (trim raw))"

section \<open>Program counters (buildPcToInstructionMapping)\<close>

definition byte_at :: "string \<Rightarrow> nat \<Rightarrow> int option" where
  "byte_at code pc =
     (case (if 2 * pc < length code then hex_val (code ! (2 * pc)) else None) of
        None \<Rightarrow> None
      | Some a \<Rightarrow>
          (case (if 2 * pc + 1 < length code then hex_val (code ! (2 * pc + 1)) else None) of
             None \<Rightarrow> Some a | Some b \<Rightarrow> Some (16 * a + b)))"

text \<open>How far the program counter moves: a \<open>PUSHn\<close> opcode carries \<open>n\<close> immediate bytes.\<close>

definition instr_size :: "int option \<Rightarrow> nat" where
  "instr_size byte =
     (case byte of None \<Rightarrow> 1
      | Some b \<Rightarrow> if 0x60 \<le> b \<and> b \<le> 0x7f then nat (b - 0x60 + 1) + 1 else 1)"

lemma instr_size_pos [simp]: "0 < instr_size b"
  by (simp add: instr_size_def split: option.splits)

function pcLoop :: "string \<Rightarrow> nat \<Rightarrow> nat \<Rightarrow> (nat \<times> nat) list" where
  "pcLoop code pc instructionIndex =
     (if 2 * pc < length code
      then (pc, instructionIndex) # pcLoop code (pc + instr_size (byte_at code pc)) (instructionIndex + 1)
      else [])"
  by pat_completeness auto
termination
  by (relation "measure (\<lambda>(code, pc, i). length code - pc)") (auto intro: diff_less_mono2)

declare pcLoop.simps [simp del]

definition buildPcToInstructionMapping :: "string \<Rightarrow> (nat \<times> nat) list" where
  "buildPcToInstructionMapping codeHexStr = pcLoop codeHexStr 0 0"

section \<open>Lines (buildLineOffsets)\<close>

fun offsets_from :: "nat \<Rightarrow> string list \<Rightarrow> nat list" where
  "offsets_from accu [] = []"
| "offsets_from accu (line # lines) = accu # offsets_from (accu + (length line + 1)) lines"

definition buildLineOffsets :: "string \<Rightarrow> nat list" where
  "buildLineOffsets src = offsets_from 0 (split_on (CHR 0x0A) src)"

section \<open>Addresses\<close>

definition strip0x :: "string \<Rightarrow> string" where
  "strip0x hexStr =
     (if hexStr \<noteq> [] \<and> take 1 hexStr = ''0'' \<and> take 1 (drop 1 hexStr) = ''x'' then drop 2 hexStr else hexStr)"

definition hex_char :: "int \<Rightarrow> char" where
  "hex_char d = (if d < 10 then char_of (48 + d) else char_of (87 + d))"

function hex_digits :: "int \<Rightarrow> string" where
  "hex_digits n = (if n < 16 then [hex_char n] else hex_digits (n div 16) @ [hex_char (n mod 16)])"
  by pat_completeness auto
termination
  by (relation "measure nat") auto

declare hex_digits.simps [simp del]

text \<open>\<open>BN.toString(16, padding)\<close>: zeros in front until the length is a multiple of \<open>padding\<close>.\<close>

definition pad_hex :: "nat \<Rightarrow> string \<Rightarrow> string" where
  "pad_hex padding s = replicate ((padding - length s mod padding) mod padding) (CHR ''0'') @ s"

definition bn_of_hex :: "string \<Rightarrow> int" where
  "bn_of_hex s = (case parse_hex s of None \<Rightarrow> 0 | Some n \<Rightarrow> n)"

definition normalizeAddress :: "string option \<Rightarrow> string option" where
  "normalizeAddress addressHexStr =
     (case addressHexStr of None \<Rightarrow> None
      | Some s \<Rightarrow> if s = [] then Some [] else Some (pad_hex 40 (hex_digits (bn_of_hex (strip0x s)))))"

definition isValidTransactionId :: "string \<Rightarrow> bool" where
  "isValidTransactionId str \<longleftrightarrow>
     take 2 str = ''0x'' \<and> length str = 66 \<and> list_all (\<lambda>c. hex_val c \<noteq> None) (drop 2 str)"

definition padCenter :: "string \<Rightarrow> nat \<Rightarrow> char \<Rightarrow> string" where
  "padCenter str targetLength padSymbol =
     (let totalPad = int targetLength - int (length str)
      in if totalPad \<le> 0 then str
         else let leftPad = nat (totalPad div 2);
                  left = replicate leftPad padSymbol @ str
              in left @ replicate (targetLength - length left) padSymbol)"

section \<open>solc output\<close>

record solc_contract =
  sc_deployedObject :: string
  sc_deployedSourceMap :: string
  sc_object :: string
  sc_sourceMap :: string

type_synonym solc_contracts = "(string \<times> (string \<times> solc_contract) list) list"

record found_contract =
  fc_fileName :: string
  fc_name :: string
  fc_sourceMap :: string
  fc_constructorSourceMap :: string
  fc_constructionCodeHexStr :: string

fun findInFile :: "string \<Rightarrow> string \<Rightarrow> (string \<times> solc_contract) list \<Rightarrow> found_contract option" where
  "findInFile codeHexStr fileName [] = None"
| "findInFile codeHexStr fileName ((name, contractData) # rest) =
     (if sc_deployedObject contractData = codeHexStr
      then Some \<lparr>fc_fileName = fileName, fc_name = name,
                 fc_sourceMap = sc_deployedSourceMap contractData,
                 fc_constructorSourceMap = sc_sourceMap contractData,
                 fc_constructionCodeHexStr = sc_object contractData\<rparr>
      else findInFile codeHexStr fileName rest)"

fun findContractByDeployedBytecode :: "string \<Rightarrow> solc_contracts \<Rightarrow> found_contract option" where
  "findContractByDeployedBytecode codeHexStr [] = None"
| "findContractByDeployedBytecode codeHexStr ((fileName, fileContracts) # rest) =
     (case findInFile codeHexStr fileName fileContracts of
        Some r \<Rightarrow> Some r
      | None \<Rightarrow> findContractByDeployedBytecode codeHexStr rest)"

definition getSourceFilename :: "(string \<times> jnum) list \<Rightarrow> jnum \<Rightarrow> string option" where
  "getSourceFilename sources sourceId =
     (case List.find (\<lambda>(fileName, i). num_str i = num_str sourceId \<and> i \<noteq> NaN) sources of
        None \<Rightarrow> None | Some (fileName, i) \<Rightarrow> if fileName = [] then None else Some fileName)"

section \<open>Reference definitions\<close>

text \<open>
  The bytes of the code as an instruction stream: the start of every instruction of a byte list
  that begins at \<open>pc\<close>, written by structural recursion on the bytes with a count of immediates
  still to be skipped.
\<close>

fun code_bytes :: "string \<Rightarrow> int option list" where
  "code_bytes [] = []"
| "code_bytes [a] = [hex_val a]"
| "code_bytes (a # b # s) =
     (case hex_val a of None \<Rightarrow> None
      | Some x \<Rightarrow> (case hex_val b of None \<Rightarrow> Some x | Some y \<Rightarrow> Some (16 * x + y))) # code_bytes s"

text \<open>
  The instruction set, independently of the code: the opcodes \<open>PUSH1\<close> (96) to \<open>PUSH32\<close> (127) are
  followed by 1 to 32 immediate bytes, every other byte stands alone.
\<close>

definition immediates :: "int option \<Rightarrow> nat" where
  "immediates byte =
     (case byte of None \<Rightarrow> 0
      | Some b \<Rightarrow> if 95 < b \<and> b < 128 then nat (b - 95) else 0)"

fun instr_starts :: "nat \<Rightarrow> nat \<Rightarrow> int option list \<Rightarrow> nat list" where
  "instr_starts pc skip [] = []"
| "instr_starts pc 0 (b # bs) = pc # instr_starts (pc + 1) (immediates b) bs"
| "instr_starts pc (Suc skip) (b # bs) = instr_starts (pc + 1) skip bs"

text \<open>The last explicit (non-empty) value of field \<open>k\<close> in a list of source map sections.\<close>

definition explicit_values :: "nat \<Rightarrow> string list \<Rightarrow> string list" where
  "explicit_values k sects =
     concat (map (\<lambda>s. case part_of (split_on (CHR '':'') s) k of None \<Rightarrow> [] | Some v \<Rightarrow> if v = [] then [] else [v]) sects)"

definition last_explicit :: "nat \<Rightarrow> string list \<Rightarrow> string option" where
  "last_explicit k sects = (if explicit_values k sects = [] then None else Some (last (explicit_values k sects)))"

section \<open>Lemmas\<close>

lemma length_sm_section [simp]: "length (sm_section prev s) = 4"
  by (simp add: sm_section_def Let_def)

lemma sm_section_nth:
  "k < 4 \<Longrightarrow> sm_section prev s ! k = inherit_field (part_of (split_on (CHR '':'') s) k) (prev ! k)"
  by (simp add: sm_section_def Let_def)

lemma sm_sections_fold:
  "i < length sects \<Longrightarrow> sm_sections prev sects ! i = sm_of (foldl sm_section prev (take (Suc i) sects))"
proof (induction sects arbitrary: prev i)
  case (Cons s sects)
  then show ?case by (cases i) (simp_all add: Let_def)
qed simp

lemma length_sm_sections [simp]: "length (sm_sections prev sects) = length sects"
  by (induction sects arbitrary: prev) (simp_all add: Let_def)

lemma foldl_sm_section:
  assumes "k < 4"
  shows "foldl sm_section prev sects ! k =
    (if explicit_values k sects = [] then prev ! k else Some (last (explicit_values k sects)))"
proof (induction sects rule: rev_induct)
  case (snoc s sects)
  then show ?case using assms
    by (auto simp: sm_section_nth inherit_field_def explicit_values_def split: option.splits)
qed (simp add: explicit_values_def)

lemma pcLoop_step: "2 * pc < length code \<Longrightarrow>
    pcLoop code pc i = (pc, i) # pcLoop code (pc + instr_size (byte_at code pc)) (i + 1)"
  by (subst pcLoop.simps) simp

lemma pcLoop_end: "\<not> 2 * pc < length code \<Longrightarrow> pcLoop code pc i = []"
  by (subst pcLoop.simps) simp

lemma instr_size_immediates: "instr_size b = Suc (immediates b)"
  by (auto simp: instr_size_def immediates_def split: option.splits)

lemma length_code_bytes: "length (code_bytes s) = (length s + 1) div 2"
  by (induction s rule: code_bytes.induct) auto

lemma code_bytes_nth: "2 * n < length s \<Longrightarrow> code_bytes s ! n = byte_at s n"
proof (induction s arbitrary: n rule: code_bytes.induct)
  case (3 a b s)
  then show ?case by (cases n) (auto simp: byte_at_def split: option.splits)
qed (auto simp: byte_at_def split: option.splits)

lemma instr_starts_skip:
  "instr_starts pc skip bs = instr_starts (pc + skip) 0 (drop skip bs)"
proof (induction skip arbitrary: pc bs)
  case (Suc skip)
  then show ?case by (cases bs) auto
qed simp

lemma instr_starts_step:
  assumes "pc < length bs"
  shows "instr_starts pc 0 (drop pc bs) =
    pc # instr_starts (pc + instr_size (bs ! pc)) 0 (drop (pc + instr_size (bs ! pc)) bs)"
proof -
  have "drop pc bs = bs ! pc # drop (Suc pc) bs"
    using assms by (simp add: Cons_nth_drop_Suc)
  then show ?thesis
    using instr_starts_skip [of "Suc pc" "immediates (bs ! pc)" "drop (Suc pc) bs"]
    by (simp add: instr_size_immediates add.commute)
qed

lemma pcLoop_starts:
  "pcLoop code pc i = zip (instr_starts pc 0 (drop pc (code_bytes code)))
     [i..<i + length (instr_starts pc 0 (drop pc (code_bytes code)))]"
proof (induction code pc i rule: pcLoop.induct)
  case (1 code pc i)
  show ?case
  proof (cases "2 * pc < length code")
    case True
    then have "pc < length (code_bytes code)" by (simp add: length_code_bytes)
    note starts = instr_starts_step [OF this]
    have b: "code_bytes code ! pc = byte_at code pc" by (rule code_bytes_nth [OF True])
    show ?thesis
      unfolding pcLoop_step [OF True] "1.IH" [OF True] starts b
      by (simp add: upt_rec)
  next
    case False
    then have "drop pc (code_bytes code) = []" by (simp add: length_code_bytes)
    with False show ?thesis by (simp add: pcLoop_end)
  qed
qed

lemma offsets_from_length [simp]: "length (offsets_from a ls) = length ls"
  by (induction ls arbitrary: a) auto

lemma offsets_from_join:
  assumes "i < length ls"
  shows "take (length (ls ! i)) (drop (offsets_from a ls ! i - a) (join_with [c] ls)) = ls ! i \<and>
    a \<le> offsets_from a ls ! i"
  using assms
proof (induction ls arbitrary: a i)
  case (Cons l ls)
  show ?case
  proof (cases i)
    case 0
    then show ?thesis by (cases ls) auto
  next
    case (Suc j)
    with Cons.prems have j: "j < length ls" by simp
    then obtain m ms where ls: "ls = m # ms" by (cases ls) auto
    define o' where "o' = offsets_from (a + (length l + 1)) ls ! j"
    from Cons.IH [OF j, of "a + (length l + 1)"]
    have IH: "take (length (ls ! j)) (drop (o' - (a + (length l + 1))) (join_with [c] ls)) = ls ! j"
      "a + (length l + 1) \<le> o'" by (simp_all add: o'_def)
    then have e: "o' - a = length (l @ [c]) + (o' - (a + (length l + 1)))" by simp
    have j: "join_with [c] (l # ls) = (l @ [c]) @ join_with [c] ls" by (simp add: ls)
    have d: "drop (length (l @ [c]) + k) ((l @ [c]) @ xs) = drop k xs" for k xs
      by (simp only: drop_append) simp
    have "drop (o' - a) (join_with [c] (l # ls)) =
        drop (o' - (a + (length l + 1))) (join_with [c] ls)"
      by (simp only: e j d)
    with IH Suc show ?thesis by (simp add: o'_def)
  qed
qed simp

lemma offsets_from_gt: "o' \<in> set (offsets_from a ls) \<Longrightarrow> a \<le> o'"
  by (induction ls arbitrary: a) (auto, fastforce)

lemma sorted_offsets_from: "sorted_wrt (<) (offsets_from a ls)"
  by (induction ls arbitrary: a) (auto dest: offsets_from_gt)

lemma hex_val_hex_char: "0 \<le> d \<Longrightarrow> d < 16 \<Longrightarrow> hex_val (hex_char d) = Some d"
proof -
  assume "0 \<le> d" "d < 16"
  then have "d = 0 \<or> d = 1 \<or> d = 2 \<or> d = 3 \<or> d = 4 \<or> d = 5 \<or> d = 6 \<or> d = 7 \<or> d = 8 \<or> d = 9 \<or>
    d = 10 \<or> d = 11 \<or> d = 12 \<or> d = 13 \<or> d = 14 \<or> d = 15" by arith
  then show ?thesis by (elim disjE) (simp_all add: hex_val_def hex_char_def)
qed

lemma hex_char_not_x: "0 \<le> d \<Longrightarrow> d < 16 \<Longrightarrow> hex_char d \<noteq> CHR ''x''"
  using hex_val_hex_char by (force simp: hex_val_def)

lemma parse_digits_zeros:
  "parse_digits hex_val 16 0 (replicate n (CHR ''0'') @ s) = parse_digits hex_val 16 0 s"
  by (induction n) (simp_all add: hex_val_def)

lemma hex_digits_nonempty [simp]: "hex_digits n \<noteq> []"
  by (subst hex_digits.simps) simp

lemma parse_hex_digits: "0 \<le> n \<Longrightarrow> parse_digits hex_val 16 0 (hex_digits n) = Some n"
proof (induction n rule: hex_digits.induct)
  case (1 n)
  show ?case
  proof (cases "n < 16")
    case True
    with 1 show ?thesis by (subst hex_digits.simps) (simp add: hex_val_hex_char)
  next
    case False
    with 1 have "parse_digits hex_val 16 0 (hex_digits (n div 16)) = Some (n div 16)" by simp
    with False show ?thesis
      by (subst hex_digits.simps) (simp add: parse_digits_append hex_val_hex_char)
  qed
qed

lemma hex_digits_not_x: "0 \<le> n \<Longrightarrow> CHR ''x'' \<notin> set (hex_digits n)"
proof (induction n rule: hex_digits.induct)
  case (1 n)
  then show ?case
    by (subst hex_digits.simps) (auto simp: hex_char_not_x [symmetric] dest!: hex_char_not_x [THEN notE, rotated 2])
qed

lemma pad_hex_nonempty [simp]: "s \<noteq> [] \<Longrightarrow> pad_hex p s \<noteq> []"
  by (simp add: pad_hex_def)

lemma bn_of_hex_pad: "0 \<le> n \<Longrightarrow> bn_of_hex (pad_hex p (hex_digits n)) = n"
  by (simp add: bn_of_hex_def parse_hex_def pad_hex_def parse_digits_zeros parse_hex_digits)

lemma strip0x_no_x: "CHR ''x'' \<notin> set s \<Longrightarrow> strip0x s = s"
  by (cases s; cases "tl s") (auto simp: strip0x_def)

lemma hex_val_nonneg: "hex_val c = Some d \<Longrightarrow> 0 \<le> d"
  by (auto simp: hex_val_def Let_def split: if_splits)

lemma parse_digits_nonneg: "parse_digits hex_val 16 acc s = Some n \<Longrightarrow> 0 \<le> acc \<Longrightarrow> 0 \<le> n"
  by (induction s arbitrary: acc) (auto dest: hex_val_nonneg split: option.splits)

lemma bn_of_hex_nonneg [simp]: "0 \<le> bn_of_hex s"
  by (auto simp: bn_of_hex_def parse_hex_def dest: parse_digits_nonneg split: option.splits if_splits)

lemma findInFile_None:
  "findInFile code f cs = None \<longleftrightarrow> \<not> list_ex (\<lambda>(n, d). sc_deployedObject d = code) cs"
  by (induction code f cs rule: findInFile.induct) simp_all

lemma findInFile_Some: "findInFile code f cs = Some r \<Longrightarrow>
    fc_fileName r = f \<and> (\<exists>d. (fc_name r, d) \<in> set cs \<and> sc_deployedObject d = code \<and>
      fc_sourceMap r = sc_deployedSourceMap d \<and> fc_constructorSourceMap r = sc_sourceMap d \<and>
      fc_constructionCodeHexStr r = sc_object d)"
proof (induction code f cs rule: findInFile.induct)
  case (2 code f n d rest)
  show ?case
  proof (cases "sc_deployedObject d = code")
    case True
    with "2.prems" have "r = \<lparr>fc_fileName = f, fc_name = n, fc_sourceMap = sc_deployedSourceMap d,
        fc_constructorSourceMap = sc_sourceMap d, fc_constructionCodeHexStr = sc_object d\<rparr>" by simp
    with True show ?thesis by (intro conjI exI [of _ d]) simp_all
  next
    case False
    with 2 show ?thesis by auto
  qed
qed simp

section \<open>Properties\<close>

text \<open>
  C27: the program-counter table is correct against a disassembly of the bytes: it pairs the
  start of every instruction, and nothing else, with that instruction's index, immediate bytes of
  \<open>PUSH1\<close> to \<open>PUSH32\<close> being skipped.
\<close>

theorem pc_mapping_disassembles:
  "buildPcToInstructionMapping code =
     zip (instr_starts 0 0 (code_bytes code)) [0..<length (instr_starts 0 0 (code_bytes code))]"
  using pcLoop_starts [of code 0 0] by (simp add: buildPcToInstructionMapping_def)

text \<open>
  \<open>parseSourceMap\<close> decompresses: entry \<open>i\<close> carries, in each of its four fields, the last
  value written explicitly in sections \<open>0\<close> to \<open>i\<close>, and there is one entry for every section.
\<close>

theorem parseSourceMap_inherits:
  "parseSourceMap raw =
     (let sects = split_on (CHR '';'') (trim raw);
          field = (\<lambda>k i. last_explicit k (take (Suc i) sects))
      in map (\<lambda>i. \<lparr>sm_s = num_of (field 0 i), sm_l = num_of (field 1 i), sm_f = num_of (field 2 i),
                   sm_j = field 3 i\<rparr>) [0..<length sects])"
proof -
  have field: "foldl sm_section [None, None, None, None] sects ! k = last_explicit k sects"
    if "k < 4" for k sects
  proof -
    have "k \<in> {0, 1, 2, 3}" using that by auto
    then have "[None, None, None, None] ! k = (None :: string option)" by auto
    with that show ?thesis by (simp add: foldl_sm_section last_explicit_def)
  qed
  show ?thesis
    by (rule nth_equalityI) (simp_all add: parseSourceMap_def Let_def sm_sections_fold sm_of_def field)
qed

text \<open>
  line offsets point at the lines: reading each line's length from its offset gives the
  lines of the text in order, and the offsets are strictly increasing.
\<close>

theorem line_offsets_correct:
  "map (\<lambda>i. take (length (split_on (CHR 0x0A) src ! i)) (drop (buildLineOffsets src ! i) src))
      [0..<length (buildLineOffsets src)] = split_on (CHR 0x0A) src \<and>
   sorted_wrt (<) (buildLineOffsets src)"
proof
  show "sorted_wrt (<) (buildLineOffsets src)" by (simp add: buildLineOffsets_def sorted_offsets_from)
  show "map (\<lambda>i. take (length (split_on (CHR 0x0A) src ! i)) (drop (buildLineOffsets src ! i) src))
      [0..<length (buildLineOffsets src)] = split_on (CHR 0x0A) src"
    using offsets_from_join [of _ "split_on (CHR 0x0A) src" 0 "CHR 0x0A"]
    by (intro nth_equalityI) (auto simp: buildLineOffsets_def split_on_join)
qed

text \<open>
  address normalisation is canonical: it is idempotent, and two addresses get the same
  form exactly when they denote the same number, whatever their letter case, prefix or leading
  zeros.
\<close>

theorem normalizeAddress_canonical:
  assumes "a \<noteq> []" and "b \<noteq> []"
  shows "normalizeAddress (normalizeAddress (Some a)) = normalizeAddress (Some a) \<and>
    (normalizeAddress (Some a) = normalizeAddress (Some b) \<longleftrightarrow> bn_of_hex (strip0x a) = bn_of_hex (strip0x b))"
proof
  let ?n = "bn_of_hex (strip0x a)"
  let ?r = "pad_hex 40 (hex_digits ?n)"
  have "CHR ''x'' \<notin> set ?r" by (simp add: pad_hex_def hex_digits_not_x)
  then have "bn_of_hex (strip0x ?r) = ?n" by (simp add: strip0x_no_x bn_of_hex_pad)
  then show "normalizeAddress (normalizeAddress (Some a)) = normalizeAddress (Some a)"
    using assms by (simp add: normalizeAddress_def)
  show "normalizeAddress (Some a) = normalizeAddress (Some b) \<longleftrightarrow> bn_of_hex (strip0x a) = bn_of_hex (strip0x b)"
    using assms by (simp add: normalizeAddress_def) (metis bn_of_hex_pad bn_of_hex_nonneg)
qed

theorem normalizeAddress_canonical_witness:
  "normalizeAddress (Some ''0x00aB'') = normalizeAddress (Some ''ab'')"
proof -
  have "bn_of_hex (strip0x ''0x00aB'') = bn_of_hex (strip0x ''ab'')" by code_simp
  then show ?thesis using normalizeAddress_canonical [of "''0x00aB''" "''ab''"] by simp
qed

text \<open>
  \<open>findContractByDeployedBytecode\<close> fails exactly when no contract of the compiler output
  has the given deployed code, and otherwise returns the data of one that has it.
\<close>

theorem findContract_correct:
  "(case findContractByDeployedBytecode code cs of
      None \<Rightarrow> \<not> list_ex (\<lambda>(f, fcs). list_ex (\<lambda>(n, d). sc_deployedObject d = code) fcs) cs
    | Some r \<Rightarrow> (\<exists>fcs d. (fc_fileName r, fcs) \<in> set cs \<and> (fc_name r, d) \<in> set fcs \<and>
        sc_deployedObject d = code \<and> fc_sourceMap r = sc_deployedSourceMap d \<and>
        fc_constructorSourceMap r = sc_sourceMap d \<and> fc_constructionCodeHexStr r = sc_object d))"
proof (induction cs)
  case (Cons p cs)
  obtain f fcs where p: "p = (f, fcs)" by (cases p)
  show ?case
  proof (cases "findInFile code f fcs")
    case None
    then have none: "\<not> list_ex (\<lambda>(n, d). sc_deployedObject d = code) fcs"
      by (simp add: findInFile_None)
    show ?thesis
    proof (cases "findContractByDeployedBytecode code cs")
      case None
      with Cons none p \<open>findInFile code f fcs = None\<close> show ?thesis by simp
    next
      case (Some r)
      with Cons p \<open>findInFile code f fcs = None\<close> show ?thesis by auto
    qed
  next
    case (Some r)
    from findInFile_Some [OF Some] obtain d where "fc_fileName r = f" "(fc_name r, d) \<in> set fcs"
      "sc_deployedObject d = code" "fc_sourceMap r = sc_deployedSourceMap d"
      "fc_constructorSourceMap r = sc_sourceMap d" "fc_constructionCodeHexStr r = sc_object d" by blast
    with Some p show ?thesis by (auto intro!: exI [of _ fcs] exI [of _ d])
  qed
qed simp

end
