(* ===== verification/World.thy ===== *)
theory World
  imports JsValue
begin

text \<open>
  The world a script runs in.  \<open>env\<close> collects everything outside the repository as parameters
  (the Ethereum node behind web3, truffle's contract lookup, hashing and checksum libraries, file
  reads): it is an argument of every definition and nothing is assumed about it.  \<open>world\<close> is what
  scripts change: the network-state files, the transaction files they write and the transactions they
  send, in order.  A
  \<open>prog\<close> takes the world and returns a result or an error together with the new world, so the
  writes done before an exception survive it, as they do on disk.  Lines a script prints are not part of the world; Console has the helpers that print.
\<close>

text \<open>A file's text, as \<open>JSON.parse\<close> sees it: the value it denotes, or text it rejects.\<close>

datatype fcontent = JsonText jsval | BadText string

record env =
  network_name :: string
  network_id :: int
  file_base :: string
  file_dir :: string
  path_resolve :: "string \<Rightarrow> string \<Rightarrow> string"
  bn_json :: "int \<Rightarrow> string"
  bn_new :: "jsval \<Rightarrow> int res"
  call_view :: "string \<Rightarrow> string \<Rightarrow> jsval list \<Rightarrow> jsval res"
  past_events :: "string \<Rightarrow> string \<Rightarrow> jsval \<Rightarrow> jsval list res"
  get_receipt :: "jsval \<Rightarrow> jsval res"
  receipt_events :: "jsval \<Rightarrow> string \<Rightarrow> jsval list res"
  get_code :: "jsval \<Rightarrow> string res"
  get_accounts :: "jsval list res"
  contract_at :: "string \<Rightarrow> jsval \<Rightarrow> string res"
  read_artifact :: "string \<Rightarrow> jsval res"
  read_json :: "string \<Rightarrow> jsval res"
  path_exists :: "string \<Rightarrow> bool"
  name_hash :: "string \<Rightarrow> string"
  keccak :: "string \<Rightarrow> string"
  checksum :: "jsval \<Rightarrow> string res"
  encode_call :: "string \<Rightarrow> string \<Rightarrow> jsval list \<Rightarrow> string res"
  encode_deploy :: "jsval \<Rightarrow> jsval list \<Rightarrow> string res"
  estimate_gas :: "string \<Rightarrow> props \<Rightarrow> int res"
  to_hex :: "int \<Rightarrow> string"
  random_salt :: string
  send_tx :: "string \<Rightarrow> string \<Rightarrow> jsval list \<Rightarrow> props \<Rightarrow> jsval res"

record sent_tx =
  tx_to :: string
  tx_method :: string
  tx_args :: "jsval list"
  tx_opts :: props

record world =
  net_files :: "string \<rightharpoonup> fcontent"
  tx_files :: "(string \<times> jsval) list"
  sent :: "sent_tx list"

type_synonym 'a prog = "world \<Rightarrow> 'a res \<times> world"

text \<open>An environment in which every outside call fails: the base of concrete examples.\<close>

definition offline_env :: env where
  "offline_env = \<lparr>network_name = ''dev'', network_id = 1337, file_base = ''deployed'', file_dir = ''.'',
     path_resolve = (\<lambda>d f. d @ ''/'' @ f), bn_json = (\<lambda>_. []),
     bn_new = (\<lambda>v. case v of JBN i \<Rightarrow> Inr i
        | JStr s \<Rightarrow> (case parse_nat s of None \<Rightarrow> Inl (External ''invalid character'') | Some i \<Rightarrow> Inr i)
        | JNum (Fin q) \<Rightarrow> Inr \<lfloor>q\<rfloor> | _ \<Rightarrow> Inl (External ''invalid number'')),
     call_view = (\<lambda>_ _ _. Inl (External ''offline'')), past_events = (\<lambda>_ _ _. Inl (External ''offline'')),
     get_receipt = (\<lambda>_. Inl (External ''offline'')), receipt_events = (\<lambda>_ _. Inl (External ''offline'')),
     get_code = (\<lambda>_. Inl (External ''offline'')), get_accounts = Inl (External ''offline''),
     contract_at = (\<lambda>_ _. Inl (External ''offline'')), read_artifact = (\<lambda>_. Inl (External ''offline'')),
     read_json = (\<lambda>_. Inl (External ''offline'')), path_exists = (\<lambda>_. False), name_hash = id, keccak = id,
     checksum = (\<lambda>v. case v of JStr s \<Rightarrow> Inr (to_lower s) | _ \<Rightarrow> Inl (External ''invalid address'')),
     encode_call = (\<lambda>_ _ _. Inl (External ''offline'')), encode_deploy = (\<lambda>_ _. Inl (External ''offline'')),
     estimate_gas = (\<lambda>_ _. Inl (External ''offline'')), to_hex = (\<lambda>_. []), random_salt = [],
     send_tx = (\<lambda>_ _ _ _. Inl (External ''offline''))\<rparr>"

definition empty_world :: world where
  "empty_world = \<lparr>net_files = Map.empty, tx_files = [], sent = []\<rparr>"

section \<open>Programs over the world\<close>

definition returnP :: "'a \<Rightarrow> 'a prog" where
  "returnP x w = (Inr x, w)"

definition throwP :: "jserr \<Rightarrow> 'a prog" where
  "throwP e w = (Inl e, w)"

definition liftP :: "'a res \<Rightarrow> 'a prog" where
  "liftP r w = (r, w)"

definition bindP :: "'a prog \<Rightarrow> ('a \<Rightarrow> 'b prog) \<Rightarrow> 'b prog" where
  "bindP m f w = (case m w of (Inl e, w') \<Rightarrow> (Inl e, w') | (Inr x, w') \<Rightarrow> f x w')"

fun forP :: "('a \<Rightarrow> unit prog) \<Rightarrow> 'a list \<Rightarrow> unit prog" where
  "forP f [] w = (Inr (), w)"
| "forP f (x # xs) w = (case f x w of (Inl e, w') \<Rightarrow> (Inl e, w') | (Inr _, w') \<Rightarrow> forP f xs w')"

text \<open>A transaction the node accepts is recorded; one it rejects leaves no trace.\<close>

definition sendTx :: "env \<Rightarrow> string \<Rightarrow> string \<Rightarrow> jsval list \<Rightarrow> props \<Rightarrow> jsval prog" where
  "sendTx E addr meth args opts w =
     (case send_tx E addr meth args opts of
        Inl e \<Rightarrow> (Inl e, w)
      | Inr r \<Rightarrow> (Inr r, w\<lparr>sent := sent w @ [\<lparr>tx_to = addr, tx_method = meth, tx_args = args, tx_opts = opts\<rparr>]\<rparr>))"

lemma returnP_apply [prog_simps]: "returnP x w = (Inr x, w)"
  by (simp add: returnP_def)

lemma throwP_apply [prog_simps]: "throwP e w = (Inl e, w)"
  by (simp add: throwP_def)

lemma liftP_apply [prog_simps]: "liftP r w = (r, w)"
  by (simp add: liftP_def)

lemma bindP_liftP [prog_simps]:
  "bindP (liftP r) f w = (case r of Inl e \<Rightarrow> (Inl e, w) | Inr x \<Rightarrow> f x w)"
  by (simp add: bindP_def liftP_def split: sum.splits)

lemma bindP_Inr: "m w = (Inr x, w') \<Longrightarrow> bindP m f w = f x w'"
  by (simp add: bindP_def)

lemma bindP_Inl: "m w = (Inl e, w') \<Longrightarrow> bindP m f w = (Inl e, w')"
  by (simp add: bindP_def)

lemma liftP_ok [prog_ok]: "liftP r w = (Inr x, w') \<longleftrightarrow> r = Inr x \<and> w' = w"
  by (auto simp: liftP_def)

lemma returnP_ok [prog_ok]: "returnP y w = (Inr x, w') \<longleftrightarrow> x = y \<and> w' = w"
  by (auto simp: returnP_def)

lemma throwP_ok [prog_ok]: "throwP e w = (Inr x, w') \<longleftrightarrow> False"
  by (simp add: throwP_def)

lemma bindP_eq_Inr [prog_ok]:
  "bindP m f w = (Inr y, w'') \<longleftrightarrow> (\<exists>x w'. m w = (Inr x, w') \<and> f x w' = (Inr y, w''))"
  by (simp add: bindP_def split: prod.splits sum.splits)

section \<open>The contract of read-only code\<close>

text \<open>
  Most of a script only looks: a program is \<open>read_only\<close> when it leaves the world alone whatever
  its result.  The scripts' write operations are \<open>appends\<close>: they add transaction files and never
  drop or reorder the ones already written.
\<close>

definition read_only :: "'a prog \<Rightarrow> bool" where
  "read_only m \<longleftrightarrow> (\<forall>w. snd (m w) = w)"

definition appends :: "'a prog \<Rightarrow> bool" where
  "appends m \<longleftrightarrow> (\<forall>w. \<exists>fs. tx_files (snd (m w)) = tx_files w @ fs)"

lemma read_only_liftP [intro, simp]: "read_only (liftP r)"
  by (simp add: read_only_def liftP_def)

lemma read_only_returnP [intro, simp]: "read_only (returnP x)"
  by (simp add: read_only_def returnP_def)

lemma read_only_bindP [intro]: "read_only m \<Longrightarrow> (\<And>x. read_only (f x)) \<Longrightarrow> read_only (bindP m f)"
  unfolding read_only_def bindP_def by (auto split: prod.splits sum.splits) (metis snd_conv)+

lemma read_only_appends [intro]: "read_only m \<Longrightarrow> appends m"
  by (simp add: read_only_def appends_def)

lemma appends_throwP [intro, simp]: "appends (throwP e)"
  by (simp add: appends_def throwP_def)

lemma appends_liftP [intro, simp]: "appends (liftP r)"
  by (simp add: appends_def liftP_def)

lemma appends_returnP [intro, simp]: "appends (returnP x)"
  by (simp add: appends_def returnP_def)

lemma appends_bindP [intro]:
  assumes m: "appends m" and f: "\<And>x. appends (f x)"
  shows "appends (bindP m f)"
  unfolding appends_def
proof
  fix w
  obtain r w' where mw: "m w = (r, w')" by (cases "m w")
  from m obtain fs where fs: "tx_files w' = tx_files w @ fs"
    unfolding appends_def by (metis mw snd_conv)
  show "\<exists>gs. tx_files (snd (bindP m f w)) = tx_files w @ gs"
  proof (cases r)
    case (Inl e)
    then show ?thesis using fs by (simp add: bindP_def mw)
  next
    case (Inr x)
    from f [of x] obtain gs where "tx_files (snd (f x w')) = tx_files w' @ gs"
      unfolding appends_def by blast
    then show ?thesis using Inr fs by (simp add: bindP_def mw)
  qed
qed

lemma appends_forP [intro]: "(\<And>x. appends (f x)) \<Longrightarrow> appends (forP f xs)"
proof (induction xs)
  case Nil
  then show ?case by (simp add: appends_def)
next
  case (Cons x xs)
  have "forP f (x # xs) = bindP (f x) (\<lambda>_. forP f xs)"
    by (simp add: fun_eq_iff bindP_def)
  with Cons show ?case by auto
qed

end
