(* ===== verification/NetworkState.thy ===== *)
theory NetworkState
  imports World
begin

text \<open>
  scripts/helpers/persisted-network-state.js and scripts/helpers/collections.js: the JSON file
  \<open>deployed-<network>.json\<close> through which the deployment scripts hand results to each other.  A
  JavaScript state object is its property list; the functions that mutate it in place return the
  new list.
\<close>

section \<open>Keyed stores\<close>

text \<open>
  The contract between a keyed container and its users: reading after a write.  The in-memory
  network state and the gas profiler's line counters are both used through it.
\<close>

locale keyed_store =
  fixes put :: "'k \<Rightarrow> 'v \<Rightarrow> 's \<Rightarrow> 's"
    and look :: "'s \<Rightarrow> 'k \<Rightarrow> 'v"
  assumes look_put: "look (put k v s) k' = (if k' = k then v else look s k')"
begin

lemma look_fold_other:
  "k \<notin> fst ` set kvs \<Longrightarrow> look (fold (\<lambda>(k, v) s. put k v s) kvs s) k = look s k"
  by (induction kvs arbitrary: s) (auto simp: look_put)

lemma look_fold_put:
  "distinct (map fst kvs) \<Longrightarrow> (k, v) \<in> set kvs \<Longrightarrow>
   look (fold (\<lambda>(k, v) s. put k v s) kvs s) k = v"
proof (induction kvs arbitrary: s)
  case (Cons p kvs)
  obtain k' v' where p: "p = (k', v')" by (cases p)
  show ?case
  proof (cases "k = k'")
    case True
    with Cons.prems p have "k \<notin> fst ` set kvs" "v = v'" by (auto simp: rev_image_eqI)
    then show ?thesis using p True by (simp add: look_fold_other look_put)
  next
    case False
    with Cons p show ?thesis by auto
  qed
qed simp

lemma look_put_same: "look (put k v s) k = v"
  by (simp add: look_put)

end

interpretation props_store: keyed_store "obj_set :: string \<Rightarrow> jsval \<Rightarrow> props \<Rightarrow> props" obj_get
  by unfold_locales simp

section \<open>JSON text of a value\<close>

text \<open>
  \<open>JSON.parse (JSON.stringify v)\<close>: properties whose value is \<open>undefined\<close> disappear, non-finite
  numbers and \<open>undefined\<close> array elements become \<open>null\<close>, big integers are printed by their own
  \<open>toJSON\<close> (a parameter: bn.js).
\<close>

fun json_val :: "(int \<Rightarrow> string) \<Rightarrow> jsval \<Rightarrow> jsval"
  and json_props :: "(int \<Rightarrow> string) \<Rightarrow> props \<Rightarrow> props" where
  "json_val b JUndef = JNull"
| "json_val b JNull = JNull"
| "json_val b (JBool x) = JBool x"
| "json_val b (JNum x) = (case x of Fin q \<Rightarrow> JNum x | _ \<Rightarrow> JNull)"
| "json_val b (JStr s) = JStr s"
| "json_val b (JArr xs) = JArr (map (json_val b) xs)"
| "json_val b (JObj ps) = JObj (json_props b ps)"
| "json_val b (JBN i) = JStr (b i)"
| "json_props b [] = []"
| "json_props b ((k, v) # ps) =
     (if v = JUndef then json_props b ps else (k, json_val b v) # json_props b ps)"

text \<open>Values that survive the trip unchanged.\<close>

fun json_ok :: "jsval \<Rightarrow> bool" and json_ok_props :: "props \<Rightarrow> bool" where
  "json_ok JUndef = False"
| "json_ok JNull = True"
| "json_ok (JBool x) = True"
| "json_ok (JNum x) = (case x of Fin q \<Rightarrow> True | _ \<Rightarrow> False)"
| "json_ok (JStr s) = True"
| "json_ok (JArr xs) = list_all json_ok xs"
| "json_ok (JObj ps) = json_ok_props ps"
| "json_ok (JBN i) = False"
| "json_ok_props [] = True"
| "json_ok_props ((k, v) # ps) = (json_ok v \<and> json_ok_props ps)"

lemma json_val_ok: "json_ok (json_val b v)"
  and json_props_ok: "json_ok_props (json_props b ps)"
  by (induction b v and b ps rule: json_val_json_props.induct)
     (auto simp: list_all_iff split: jnum.splits)

lemma json_val_id: "json_ok v \<Longrightarrow> json_val b v = v"
  and json_props_id: "json_ok_props ps \<Longrightarrow> json_props b ps = ps"
  by (induction b v and b ps rule: json_val_json_props.induct)
     (auto simp: list_all_iff map_idI split: jnum.splits)

lemma json_val_not_undef [simp]: "json_val b v \<noteq> JUndef"
  by (cases v) (auto split: jnum.splits)

lemma json_props_get:
  "obj_get ps k \<noteq> JUndef \<Longrightarrow> obj_get (json_props b ps) k = json_val b (obj_get ps k)"
  by (induction ps) (auto split: if_splits)

section \<open>The operations\<close>

definition getFileName :: "env \<Rightarrow> string \<Rightarrow> string \<Rightarrow> string \<Rightarrow> string" where
  "getFileName E netName baseName dir = path_resolve E dir (baseName @ ''-'' @ netName @ ''.json'')"

definition writeNetworkStateFile :: "env \<Rightarrow> string \<Rightarrow> props \<Rightarrow> unit prog" where
  "writeNetworkStateFile E fileName state w =
     (Inr (), w\<lparr>net_files := (net_files w)(fileName \<mapsto> JsonText (JObj (json_props (bn_json E) state)))\<rparr>)"

definition readNetworkStateFile :: "env \<Rightarrow> string \<Rightarrow> int \<Rightarrow> jsval prog" where
  "readNetworkStateFile E fileName netId w =
     (case net_files w fileName of
        None \<Rightarrow>
          bindP (writeNetworkStateFile E fileName [(''networkId'', JInt netId)])
            (\<lambda>_. returnP (JObj [(''networkId'', JInt netId)])) w
      | Some (JsonText v) \<Rightarrow> (Inr v, w)
      | Some (BadText msg) \<Rightarrow>
          (Inl (Error (''malformed network state file '' @ fileName @ '': '' @ msg)), w))"

definition readNetworkState :: "env \<Rightarrow> string \<Rightarrow> int \<Rightarrow> props prog" where
  "readNetworkState E netName netId =
     bindP (readNetworkStateFile E (getFileName E netName (file_base E) (file_dir E)) netId) (\<lambda>state.
     bindP (liftP (getp state ''networkId'')) (\<lambda>stateId.
     if \<not> strict_eq stateId (JInt netId)
     then throwP (Error (''network id ('' @ dec_int netId @ '') doesn't match the one in the state file ('' @
            to_str stateId @ '')''))
     else returnP (own_props state)))"

text \<open>The loop body of \<open>updateNetworkState\<close>, for one key of the updates.\<close>

definition updateKey :: "string \<times> jsval \<Rightarrow> props \<Rightarrow> props" where
  "updateKey kv state =
     (case kv of (key, value) \<Rightarrow>
        if not_nullish value
        then (let address = obj_get (own_props value) ''address'';
                  constructorArgs = obj_get (own_props value) ''constructorArgs''
              in if truthy address
                 then (let state1 = obj_set (key @ ''Address'') address state
                       in if truthy constructorArgs
                          then obj_set (key @ ''ConstructorArgs'') constructorArgs state1 else state1)
                 else obj_set key value state)
        else state)"

definition updateNetworkState :: "props \<Rightarrow> props \<Rightarrow> props" where
  "updateNetworkState state newState = fold updateKey newState state"

definition persistNetworkState :: "env \<Rightarrow> string \<Rightarrow> int \<Rightarrow> props \<Rightarrow> props \<Rightarrow> props prog" where
  "persistNetworkState E netName netId state updates =
     (let state1 = updateNetworkState (obj_set ''networkId'' (JInt netId) state) updates
      in bindP (writeNetworkStateFile E (getFileName E netName (file_base E) (file_dir E)) state1)
           (\<lambda>_. returnP state1))"

definition missingState :: "props \<Rightarrow> string list \<Rightarrow> string list" where
  "missingState state requiredStateNames = filter (\<lambda>key. \<not> truthy (obj_get state key)) requiredStateNames"

definition assertRequiredNetworkState :: "props \<Rightarrow> string list \<Rightarrow> unit res" where
  "assertRequiredNetworkState state requiredStateNames =
     (let missing = missingState state requiredStateNames
      in if missing \<noteq> []
         then Inl (Error (''missing following fields from the network state file, make sure you've run '' @
                ''previous deployment steps: '' @ join_with '', '' missing))
         else Inr ())"

definition filterObject :: "props \<Rightarrow> (string \<Rightarrow> bool) \<Rightarrow> props" where
  "filterObject obj flt =
     fold (\<lambda>(key, v) result. if flt key then obj_set key v result else result) obj []"

section \<open>Lemmas\<close>

lemma updateNetworkState_Nil [simp]: "updateNetworkState st [] = st"
  by (simp add: updateNetworkState_def)

lemma updateNetworkState_Cons [simp]:
  "updateNetworkState st (kv # kvs) = updateNetworkState (updateKey kv st) kvs"
  by (simp add: updateNetworkState_def)

text \<open>A plain value is stored under its own key, and \<open>null\<close>/\<open>undefined\<close> are skipped.\<close>

lemma updateKey_plain:
  "not_nullish v \<Longrightarrow> \<not> truthy (obj_get (own_props v) ''address'') \<Longrightarrow> updateKey (k, v) st = obj_set k v st"
  by (simp add: updateKey_def)

lemma updateKey_nullish: "\<not> not_nullish v \<Longrightarrow> updateKey (k, v) st = st"
  by (simp add: updateKey_def)

lemma indexed_get: "(\<And>i. k \<noteq> dec_int (int i)) \<Longrightarrow> obj_get (indexed xs) k = JUndef"
  by (auto simp: obj_get_def indexed_def map_of_eq_None_iff dest!: set_zip_leftD split: option.splits)
     (metis (no_types, lifting) atLeastLessThan_iff imageE map_of_SomeD set_map set_zip_leftD set_upt)

lemma indexed_address [simp]: "obj_get (indexed xs) ''address'' = JUndef"
proof (rule indexed_get)
  fix i :: nat
  show "''address'' \<noteq> dec_int (int i)"
  proof
    assume "''address'' = dec_int (int i)"
    then have "last ''address'' = last (dec_int (int i))" by simp
    then have "CHR ''s'' = (char_of (48 + int i mod 10) :: char)"
      by (simp add: dec_int_def last_dec_digits)
    then have "(of_char (CHR ''s'') :: int) = of_char (char_of (48 + int i mod 10) :: char)"
      by simp
    then show False by simp
  qed
qed

lemma updateKey_str [simp]: "updateKey (k, JStr s) st = obj_set k (JStr s) st"
  by (simp add: updateKey_def not_nullish_def)

lemma updateKey_arr [simp]: "updateKey (k, JArr xs) st = obj_set k (JArr xs) st"
  by (simp add: updateKey_def not_nullish_def)

lemma updateKey_num [simp]: "updateKey (k, JNum x) st = obj_set k (JNum x) st"
  by (simp add: updateKey_def not_nullish_def)

text \<open>A contract instance is stored as its address, under \<open><key>Address\<close>.\<close>

lemma updateKey_instance:
  "obj_get ps ''constructorArgs'' = JUndef \<Longrightarrow> truthy (obj_get ps ''address'') \<Longrightarrow>
   updateKey (k, JObj ps) st = obj_set (k @ ''Address'') (obj_get ps ''address'') st"
  by (simp add: updateKey_def not_nullish_def)

definition plain_value :: "jsval \<Rightarrow> bool" where
  "plain_value v \<longleftrightarrow> not_nullish v \<and> \<not> truthy (obj_get (own_props v) ''address'')"

lemma updateNetworkState_plain:
  "(\<forall>kv\<in>set kvs. plain_value (snd kv)) \<Longrightarrow>
   updateNetworkState st kvs = fold (\<lambda>(k, v) s. obj_set k v s) kvs st"
  by (induction kvs arbitrary: st) (auto simp: plain_value_def updateKey_plain)

lemma append_address_ne: "last k \<noteq> CHR ''s'' \<Longrightarrow> k \<noteq> [] \<Longrightarrow> key @ ''Address'' \<noteq> k \<and> key @ ''ConstructorArgs'' \<noteq> k"
  by auto

lemma updateNetworkState_other:
  assumes "last k \<noteq> CHR ''s''" "k \<noteq> []" "k \<notin> fst ` set kvs"
  shows "obj_get (updateNetworkState st kvs) k = obj_get st k"
  using assms(3)
proof (induction kvs arbitrary: st)
  case (Cons p kvs)
  obtain k' v' where p: "p = (k', v')" by (cases p)
  have "obj_get (updateKey p st) k = obj_get st k"
    using append_address_ne [OF assms(1,2), of k'] Cons.prems p
    by (auto simp: updateKey_def Let_def)
  with Cons show ?case by simp
qed simp

section \<open>Properties\<close>

text \<open>
  C25: after \<open>updateNetworkState\<close> with distinct plain values, each updated key holds its
  new value and every other key keeps the value it had.
\<close>

theorem updateNetworkState_lookup:
  assumes "distinct (map fst kvs)" and "\<forall>kv\<in>set kvs. plain_value (snd kv)"
  shows "obj_get (updateNetworkState st kvs) k =
    (case map_of kvs k of Some v \<Rightarrow> v | None \<Rightarrow> obj_get st k)"
proof (cases "map_of kvs k")
  case None
  then have "k \<notin> fst ` set kvs" by (simp add: map_of_eq_None_iff)
  with None show ?thesis
    by (simp add: updateNetworkState_plain [OF assms(2)] props_store.look_fold_other)
next
  case (Some v)
  then have "(k, v) \<in> set kvs" by (rule map_of_SomeD)
  with Some show ?thesis
    by (simp add: updateNetworkState_plain [OF assms(2)] props_store.look_fold_put [OF assms(1)])
qed

theorem updateNetworkState_lookup_witness:
  "obj_get (updateNetworkState [(''a'', JStr ''x''), (''b'', JStr ''y'')]
     [(''b'', JStr ''z''), (''c'', JArr [])]) ''b'' = JStr ''z''"
proof -
  have "distinct (map fst [(''b'', JStr ''z''), (''c'', JArr [])])" by simp
  moreover have "\<forall>kv\<in>set [(''b'', JStr ''z''), (''c'', JArr [])]. plain_value (snd kv)"
    by (simp add: plain_value_def not_nullish_def)
  ultimately show ?thesis
    using updateNetworkState_lookup [of "[(''b'', JStr ''z''), (''c'', JArr [])]"] by simp
qed

text \<open>
  C26: what one script persists, the next one reads back: for every state and updates
  that do not touch \<open>networkId\<close>, reading succeeds, checks the network id and returns the state
  as JSON transports it, and reading changes nothing.
\<close>

theorem persist_then_read:
  assumes "''networkId'' \<notin> fst ` set ups"
  shows "readNetworkState E net netId (snd (persistNetworkState E net netId st ups w)) =
    (Inr (json_props (bn_json E) (updateNetworkState (obj_set ''networkId'' (JInt netId) st) ups)),
     snd (persistNetworkState E net netId st ups w))"
proof -
  let ?st = "updateNetworkState (obj_set ''networkId'' (JInt netId) st) ups"
  have id: "obj_get ?st ''networkId'' = JInt netId"
    by (subst updateNetworkState_other) (use assms in auto)
  then have "obj_get (json_props (bn_json E) ?st) ''networkId'' = JInt netId"
    by (subst json_props_get) auto
  then show ?thesis
    by (simp add: persistNetworkState_def writeNetworkStateFile_def readNetworkState_def Let_def
        readNetworkStateFile_def bindP_def prog_simps strict_eq_def)
qed

theorem persist_then_read_witness:
  "\<exists>w'. readNetworkState offline_env ''goerli'' 5 (snd (persistNetworkState offline_env ''goerli'' 5 []
      [(''daoAddress'', JStr ''0xab'')] empty_world)) =
    (Inr [(''networkId'', JInt 5), (''daoAddress'', JStr ''0xab'')], w')"
  using persist_then_read [of "[(''daoAddress'', JStr ''0xab'')]" offline_env "''goerli''" 5 "[]" empty_world] by simp

text \<open>
  \<open>assertRequiredNetworkState\<close> passes exactly when every required field is truthy;
  otherwise it throws, and the fields it names are exactly the required ones that are missing,
  in order.
\<close>

theorem assertRequired_iff:
  "assertRequiredNetworkState st ks =
     (if list_all (\<lambda>k. truthy (obj_get st k)) ks then Inr ()
      else Inl (Error (''missing following fields from the network state file, make sure you've run previous deployment steps: '' @
             join_with '', '' (filter (\<lambda>k. \<not> truthy (obj_get st k)) ks))))"
  by (auto simp: assertRequiredNetworkState_def missingState_def Let_def filter_empty_conv list_all_iff)

lemma okR_assertRequired [res_simps]:
  "okR (assertRequiredNetworkState st ks) \<longleftrightarrow> list_all (\<lambda>k. truthy (obj_get st k)) ks"
  by (auto simp: assertRequiredNetworkState_def missingState_def Let_def filter_empty_conv list_all_iff)

end
