(* ===== verification/GasTrace.thy ===== *)
theory GasTrace
  imports GasSource NetworkState
begin

text \<open>
  gasprofile/gasprofile.js, the stateful half: contracts and sources cached by address and id, the
  call stack rebuilt from the depths of a transaction's trace, and the gas charged to source lines.
  JavaScript object references are keys here: a call stack item names its contract by address, a
  file name maps to a source id, so that updates through either reach the same record.  The node,
  the file system and the \<open>binarysearch\<close> package are fields of \<open>prof_env\<close>.
\<close>

section \<open>State\<close>

record source =
  src_fileName :: "string option"
  src_skip :: bool
  src_text :: "string option"
  src_lineOffsets :: "nat list option"
  src_lineGas :: "(nat \<times> int) list"
  src_linesWithCalls :: "(nat \<times> bool) list"

definition makeSource :: "string option \<Rightarrow> source" where
  "makeSource fileName = \<lparr>src_fileName = fileName, src_skip = False, src_text = None, src_lineOffsets = None,
     src_lineGas = [], src_linesWithCalls = []\<rparr>"

record contract =
  c_codeHexStr :: "string option"
  c_constructionCodeHexStr :: "string option"
  c_fileName :: "string option"
  c_name :: "string option"
  c_sourcesById :: "jnum list"
  c_sourceMap :: "sm_entry list option"
  c_constructorSourceMap :: "sm_entry list option"
  c_pcToIdx :: "(nat \<times> nat) list option"
  c_constructionPcToIdx :: "(nat \<times> nat) list option"
  c_totalGasCost :: int
  c_synthGasCost :: int

definition makeContract :: contract where
  "makeContract = \<lparr>c_codeHexStr = None, c_constructionCodeHexStr = None, c_fileName = None, c_name = None,
     c_sourcesById = [], c_sourceMap = None, c_constructorSourceMap = None, c_pcToIdx = None,
     c_constructionPcToIdx = None, c_totalGasCost = 0, c_synthGasCost = 0\<rparr>"

record call_item =
  ci_contract :: string
  ci_target :: string
  ci_isConstructionCall :: bool
  ci_gasBefore :: int
  ci_gasBeforeOutgoingCall :: int
  ci_outgoingCallSource :: "jnum option"
  ci_outgoingCallLine :: "nat option"

definition makeCallStackItem :: "string \<Rightarrow> string \<Rightarrow> call_item" where
  "makeCallStackItem contract targetAddressHexStr = \<lparr>ci_contract = contract,
     ci_target = strip0x (to_lower targetAddressHexStr), ci_isConstructionCall = False, ci_gasBefore = 0,
     ci_gasBeforeOutgoingCall = 0, ci_outgoingCallSource = None, ci_outgoingCallLine = None\<rparr>"

record tlog =
  tl_op :: string
  tl_gas :: int
  tl_gasCost :: int
  tl_pc :: nat
  tl_depth :: int
  tl_stack :: "string list"

record prof =
  contractByAddr :: "(string \<times> contract) list"
  sourceById :: "(jnum \<times> source) list"
  sourceByFilename :: "(string \<times> jnum) list"
  codeByAddr :: "(string \<times> string) list"

record prof_env =
  pe_codeAt :: "string \<Rightarrow> string option"
  pe_isDump :: bool
  pe_dumping :: bool
  pe_contracts :: solc_contracts
  pe_sources :: "(string \<times> jnum) list"
  pe_readSource :: "string \<Rightarrow> string option"
  pe_skipFiles :: "string list"
  pe_closest :: "nat list \<Rightarrow> jnum \<Rightarrow> nat"
  pe_onlyAddress :: "string option"

section \<open>Caches\<close>

definition fillContract :: "prof_env \<Rightarrow> string \<Rightarrow> contract" where
  "fillContract E codeHexStr =
     (let c = makeContract\<lparr>c_codeHexStr := Some codeHexStr,
                c_pcToIdx := Some (buildPcToInstructionMapping codeHexStr)\<rparr>
      in case findContractByDeployedBytecode codeHexStr (pe_contracts E) of
           None \<Rightarrow> c
         | Some d \<Rightarrow> c\<lparr>c_constructionCodeHexStr := Some (fc_constructionCodeHexStr d),
                c_constructionPcToIdx := Some (buildPcToInstructionMapping (fc_constructionCodeHexStr d)),
                c_name := Some (fc_name d), c_fileName := Some (fc_fileName d),
                c_sourceMap := Some (parseSourceMap (fc_sourceMap d)),
                c_constructorSourceMap := Some (parseSourceMap (fc_constructorSourceMap d))\<rparr>)"

definition contractKey :: "string \<Rightarrow> string" where
  "contractKey addr = (case normalizeAddress (Some addr) of None \<Rightarrow> [] | Some k \<Rightarrow> k)"

definition getContractWithAddr :: "prof_env \<Rightarrow> string \<Rightarrow> prof \<Rightarrow> prof" where
  "getContractWithAddr E addr p =
     (let k = contractKey addr
      in case map_of (contractByAddr p) k of
           Some cached \<Rightarrow> p
         | None \<Rightarrow>
             (case pe_codeAt E k of
                None \<Rightarrow> p\<lparr>contractByAddr := obj_set k makeContract (contractByAddr p)\<rparr>
              | Some code \<Rightarrow>
                  (if strip0x code = [] then p\<lparr>contractByAddr := obj_set k makeContract (contractByAddr p)\<rparr>
                   else p\<lparr>contractByAddr := obj_set k (fillContract E (strip0x code)) (contractByAddr p),
                          codeByAddr := (if \<not> pe_isDump E \<and> pe_dumping E then obj_set k code (codeByAddr p)
                                         else codeByAddr p)\<rparr>)))"

definition loadSource :: "prof_env \<Rightarrow> string \<Rightarrow> source" where
  "loadSource E fileName =
     (let skip = list_ex (\<lambda>str. contains str fileName) (pe_skipFiles E);
          txt = (if skip then None else pe_readSource E fileName)
      in (makeSource (Some fileName))\<lparr>src_skip := skip, src_text := txt,
           src_lineOffsets := (case txt of None \<Rightarrow> None
              | Some t \<Rightarrow> if t = [] then None else Some (buildLineOffsets t))\<rparr>)"

definition getSourceWithId :: "prof_env \<Rightarrow> jnum \<Rightarrow> prof \<Rightarrow> prof" where
  "getSourceWithId E sourceId p =
     (case map_of (sourceById p) sourceId of
        Some cached \<Rightarrow> p
      | None \<Rightarrow>
          (case getSourceFilename (pe_sources E) sourceId of
             None \<Rightarrow> p\<lparr>sourceById := obj_set sourceId (makeSource None) (sourceById p)\<rparr>
           | Some fileName \<Rightarrow>
               p\<lparr>sourceById := obj_set sourceId (loadSource E fileName) (sourceById p),
                 sourceByFilename := obj_set fileName sourceId (sourceByFilename p)\<rparr>))"

section \<open>Charging gas\<close>

definition line_gas :: "(nat \<times> int) list \<Rightarrow> nat \<Rightarrow> int" where
  "line_gas ps l = (case map_of ps l of None \<Rightarrow> 0 | Some g \<Rightarrow> g)"

interpretation gas_lines: keyed_store "obj_set :: nat \<Rightarrow> int \<Rightarrow> _" line_gas
  by unfold_locales (simp add: line_gas_def)

text \<open>\<open>(source.lineGas[line] | 0) + gasCost\<close>: the old count goes through a 32-bit integer.\<close>

definition chargeLine :: "nat \<Rightarrow> int \<Rightarrow> bool \<Rightarrow> source \<Rightarrow> source" where
  "chargeLine line gasCost isCall s =
     (if src_skip s then s
      else s\<lparr>src_lineGas := obj_set line (wrap32 (line_gas (src_lineGas s) line) + gasCost) (src_lineGas s),
             src_linesWithCalls := (if isCall then obj_set line True (src_linesWithCalls s)
                                    else src_linesWithCalls s)\<rparr>)"

definition increaseLineGasCost :: "jnum option \<Rightarrow> nat option \<Rightarrow> int \<Rightarrow> bool \<Rightarrow> prof \<Rightarrow> prof" where
  "increaseLineGasCost source line gasCost isCall p =
     (case (source, line) of
        (Some i, Some l) \<Rightarrow>
          (case map_of (sourceById p) i of
             None \<Rightarrow> p
           | Some s \<Rightarrow> p\<lparr>sourceById := obj_set i (chargeLine l gasCost isCall s) (sourceById p)\<rparr>)
      | _ \<Rightarrow> p)"

definition getGasCost :: "tlog \<Rightarrow> tlog option \<Rightarrow> int" where
  "getGasCost lg nextLog =
     (if tl_gasCost lg < 0 \<and> tl_op lg \<in> set [''RETURN'', ''REVERT'', ''STOP''] then 0
      else (case nextLog of
              Some n \<Rightarrow>
                (if tl_depth n = tl_depth lg \<and>
                    tl_op lg \<in> set [''CALL'', ''CALLCODE'', ''DELEGATECALL'', ''STATICCALL'']
                 then tl_gas lg - tl_gas n else tl_gasCost lg)
            | None \<Rightarrow> tl_gasCost lg))"

definition from_end :: "'a list \<Rightarrow> nat \<Rightarrow> 'a option" where
  "from_end xs n = (if n \<le> length xs \<and> 0 < n then Some (xs ! (length xs - n)) else None)"

text \<open>The called or created address and whether it is being constructed; \<open>later\<close> are the logs after this one.\<close>

definition getCallTarget :: "tlog \<Rightarrow> tlog list \<Rightarrow> string option \<times> bool" where
  "getCallTarget lg later =
     (if tl_op lg \<in> set [''CALL'', ''CALLCODE'', ''DELEGATECALL'', ''STATICCALL'']
      then (normalizeAddress (from_end (tl_stack lg) 2), False)
      else if tl_op lg \<in> set [''CREATE'', ''CREATE2'']
      then ((case List.find (\<lambda>n. tl_depth n = tl_depth lg) later of
               None \<Rightarrow> None | Some n \<Rightarrow> normalizeAddress (from_end (tl_stack n) 1)), True)
      else (None, False))"

record source_info =
  si_sourceId :: "jnum option"
  si_isSynthOp :: bool
  si_offset :: jnum

definition contractOf :: "prof \<Rightarrow> call_item \<Rightarrow> contract" where
  "contractOf p call = (case map_of (contractByAddr p) (ci_contract call) of None \<Rightarrow> makeContract | Some c \<Rightarrow> c)"

definition getSourceInfo :: "prof \<Rightarrow> call_item \<Rightarrow> tlog \<Rightarrow> source_info res" where
  "getSourceInfo p call lg =
     (let c = contractOf p call;
          pcToIdx = (if ci_isConstructionCall call then c_constructionPcToIdx c else c_pcToIdx c);
          srcMap = (if ci_isConstructionCall call then c_constructorSourceMap c else c_sourceMap c)
      in case (pcToIdx, srcMap) of
           (Some m, Some entries) \<Rightarrow>
             (case map_of m (tl_pc lg) of
                None \<Rightarrow> Inl TypeError
              | Some i \<Rightarrow>
                  (if i < length entries
                   then (let e = entries ! i
                         in Inr (if sm_f e = Fin (- 1)
                                 then \<lparr>si_sourceId = None, si_isSynthOp = True, si_offset = sm_s e\<rparr>
                                 else \<lparr>si_sourceId = Some (sm_f e), si_isSynthOp = False, si_offset = sm_s e\<rparr>))
                   else Inl TypeError))
         | _ \<Rightarrow> Inr \<lparr>si_sourceId = None, si_isSynthOp = False, si_offset = NaN\<rparr>)"

section \<open>The trace loop\<close>

definition updContract :: "string \<Rightarrow> (contract \<Rightarrow> contract) \<Rightarrow> prof \<Rightarrow> prof" where
  "updContract k f p =
     (case map_of (contractByAddr p) k of None \<Rightarrow> p
      | Some c \<Rightarrow> p\<lparr>contractByAddr := obj_set k (f c) (contractByAddr p)\<rparr>)"

definition reports :: "prof_env \<Rightarrow> call_item \<Rightarrow> bool" where
  "reports E call = (case pe_onlyAddress E of None \<Rightarrow> True | Some a \<Rightarrow> ci_target call = a)"

text \<open>One pop of the call stack when the trace has returned to a shallower depth.\<close>

definition popCall :: "prof_env \<Rightarrow> tlog option \<Rightarrow> tlog \<Rightarrow> prof \<Rightarrow> call_item list \<Rightarrow> (prof \<times> call_item list) res" where
  "popCall E prevLog lg p st =
     (case (prevLog, rev st) of
        (Some prev, prevTop # topCall # below) \<Rightarrow>
          (let p1 = updContract (ci_contract prevTop) (\<lambda>c. c\<lparr>c_totalGasCost :=
                      c_totalGasCost c + (ci_gasBefore prevTop - tl_gas prev + getGasCost prev (Some lg))\<rparr>) p;
               cumulativeCallCost = ci_gasBeforeOutgoingCall topCall - tl_gas lg;
               p2 = (if reports E topCall
                     then increaseLineGasCost (ci_outgoingCallSource topCall) (ci_outgoingCallLine topCall)
                            cumulativeCallCost True p1
                     else p1)
           in Inr (p2, butlast st))
      | _ \<Rightarrow> Inl TypeError)"

function unwind :: "prof_env \<Rightarrow> int \<Rightarrow> tlog option \<Rightarrow> tlog \<Rightarrow> prof \<Rightarrow> call_item list \<Rightarrow> (prof \<times> call_item list) res" where
  "unwind E bottomDepth prevLog lg p st =
     (if tl_depth lg - bottomDepth < int (length st) - 1
      then (case popCall E prevLog lg p st of
              Inl e \<Rightarrow> Inl e
            | Inr (p', st') \<Rightarrow> if length st' < length st then unwind E bottomDepth prevLog lg p' st' else Inl TypeError)
      else Inr (p, st))"
  by pat_completeness auto
termination
  by (relation "measure (\<lambda>(E, b, pl, l, p, st). length st)") auto

declare unwind.simps [simp del]

definition noteSource :: "string \<Rightarrow> jnum option \<Rightarrow> prof \<Rightarrow> prof" where
  "noteSource k sourceId p =
     (case sourceId of None \<Rightarrow> p
      | Some i \<Rightarrow> updContract k (\<lambda>c. if i \<in> set (c_sourcesById c) then c
                                    else c\<lparr>c_sourcesById := c_sourcesById c @ [i]\<rparr>) p)"

definition lineOf :: "prof_env \<Rightarrow> prof \<Rightarrow> jnum option \<Rightarrow> jnum \<Rightarrow> nat option" where
  "lineOf E p sourceId offset =
     (case sourceId of None \<Rightarrow> None
      | Some i \<Rightarrow> (case map_of (sourceById p) i of None \<Rightarrow> None
          | Some s \<Rightarrow> map_option (\<lambda>offs. pe_closest E offs offset) (src_lineOffsets s)))"

definition enterCall ::
  "prof_env \<Rightarrow> string \<Rightarrow> bool \<Rightarrow> tlog \<Rightarrow> tlog \<Rightarrow> jnum option \<Rightarrow> nat option \<Rightarrow> nat \<Rightarrow> prof \<Rightarrow> call_item list
    \<Rightarrow> prof \<times> call_item list" where
  "enterCall E target isConstructionCall lg nextLog source line idx p st =
     (let call = (st ! idx)\<lparr>ci_outgoingCallSource := source, ci_outgoingCallLine := line,
                             ci_gasBeforeOutgoingCall := tl_gas lg\<rparr>;
          p' = getContractWithAddr E target p;
          outgoingCall = (makeCallStackItem (contractKey target) target)
                           \<lparr>ci_isConstructionCall := isConstructionCall, ci_gasBefore := tl_gas nextLog\<rparr>
      in (p', st[idx := call] @ [outgoingCall]))"

definition chargeOp ::
  "prof_env \<Rightarrow> call_item \<Rightarrow> source_info \<Rightarrow> nat option \<Rightarrow> int \<Rightarrow> prof \<Rightarrow> prof" where
  "chargeOp E call info line gasCost p =
     (if reports E call
      then (if si_isSynthOp info
            then updContract (ci_contract call) (\<lambda>c. c\<lparr>c_synthGasCost := c_synthGasCost c + gasCost\<rparr>) p
            else increaseLineGasCost (si_sourceId info) line gasCost False p)
      else p)"

definition head_opt :: "'a list \<Rightarrow> 'a option" where
  "head_opt xs = (case xs of [] \<Rightarrow> None | x # _ \<Rightarrow> Some x)"

definition entersCall :: "tlog \<Rightarrow> tlog list \<Rightarrow> bool" where
  "entersCall lg later =
     ((case fst (getCallTarget lg later) of None \<Rightarrow> False | Some a \<Rightarrow> a \<noteq> []) \<and>
      (case head_opt later of None \<Rightarrow> False | Some n \<Rightarrow> tl_depth lg < tl_depth n))"

definition profStep ::
  "prof_env \<Rightarrow> int \<Rightarrow> tlog option \<Rightarrow> tlog \<Rightarrow> tlog list \<Rightarrow> prof \<times> call_item list \<Rightarrow> (prof \<times> call_item list) res" where
  "profStep E bottomDepth prevLog lg later ps =
     (let nextLog = head_opt later; gasCost = getGasCost lg nextLog
      in bindR (unwind E bottomDepth prevLog lg (fst ps) (snd ps)) (\<lambda>(p1, st).
         bindR (assertR (0 < length st)) (\<lambda>_.
         let idx = tl_depth lg - bottomDepth
         in if idx < 0 \<or> int (length st) \<le> idx then Inl TypeError
            else let call = st ! nat idx
                 in bindR (getSourceInfo p1 call lg) (\<lambda>info.
                    let p2 = (case si_sourceId info of None \<Rightarrow> p1 | Some i \<Rightarrow> getSourceWithId E i p1);
                        line = lineOf E p2 (si_sourceId info) (si_offset info);
                        p3 = noteSource (ci_contract call) (si_sourceId info) p2
                    in if entersCall lg later
                       then bindR (assertR (tl_depth (hd later) = tl_depth lg + 1)) (\<lambda>_.
                            Inr (enterCall E (the (fst (getCallTarget lg later))) (snd (getCallTarget lg later))
                                   lg (hd later) (si_sourceId info) line (nat idx) p3 st))
                       else Inr (chargeOp E call info line gasCost p3, st)))))"

fun profLogs ::
  "prof_env \<Rightarrow> int \<Rightarrow> tlog option \<Rightarrow> tlog list \<Rightarrow> prof \<times> call_item list \<Rightarrow> (prof \<times> call_item list) res" where
  "profLogs E bottomDepth prevLog [] ps = Inr ps"
| "profLogs E bottomDepth prevLog (lg # later) ps =
     bindR (profStep E bottomDepth prevLog lg later ps) (profLogs E bottomDepth (Some lg) later)"

definition emptyProf :: prof where
  "emptyProf = \<lparr>contractByAddr = [], sourceById = [], sourceByFilename = [], codeByAddr = []\<rparr>"

text \<open>The profiling of a whole trace from its entry call, as \<open>main\<close> does it before printing.\<close>

definition profileTrace :: "prof_env \<Rightarrow> string \<Rightarrow> bool \<Rightarrow> tlog list \<Rightarrow> prof res" where
  "profileTrace E entryAddr isEntryCallConstruction structLogs =
     (let p0 = getContractWithAddr E entryAddr emptyProf;
          entryCall = (makeCallStackItem (contractKey entryAddr) entryAddr)
                        \<lparr>ci_isConstructionCall := isEntryCallConstruction\<rparr>
      in if structLogs = [] then Inl TypeError
         else bindR (profLogs E (tl_depth (hd structLogs)) None structLogs (p0, [entryCall])) (\<lambda>(p, st).
              let lastLog = last structLogs
              in Inr (updContract (contractKey entryAddr) (\<lambda>c. c\<lparr>c_totalGasCost :=
                        tl_gas (hd structLogs) - tl_gas lastLog + getGasCost lastLog None\<rparr>) p)))"

section \<open>The report\<close>

record gas_summary =
  gs_maxGasPerLine :: int
  gs_hasCalls :: bool
  gs_hasGasByFilename :: "string list"

definition sourceOfFile :: "prof \<Rightarrow> string \<times> jnum \<Rightarrow> source" where
  "sourceOfFile p f = (case map_of (sourceById p) (snd f) of None \<Rightarrow> makeSource None | Some s \<Rightarrow> s)"

definition hasLineCall :: "source \<Rightarrow> nat \<Rightarrow> bool" where
  "hasLineCall s l = (map_of (src_linesWithCalls s) l = Some True)"

definition summarize :: "prof \<Rightarrow> gas_summary" where
  "summarize p =
     (let srcs = map (\<lambda>f. (fst f, sourceOfFile p f)) (sourceByFilename p)
      in \<lparr>gs_maxGasPerLine = fold (\<lambda>(f, s) m. fold (\<lambda>(l, g) m. if m < g then g else m) (src_lineGas s) m) srcs 0,
          gs_hasCalls = list_ex (\<lambda>(f, s). list_ex (\<lambda>(l, g). hasLineCall s l) (src_lineGas s)) srcs,
          gs_hasGasByFilename =
            map fst (filter (\<lambda>(f, s). list_ex (\<lambda>(l, g). 0 < g) (src_lineGas s)) srcs)\<rparr>)"

text \<open>The rows printed for a file: call mark, gas and text of every line; none for a skipped file.\<close>

definition reportRows :: "prof \<Rightarrow> string \<times> jnum \<Rightarrow> (bool \<times> int \<times> string) list" where
  "reportRows p f =
     (let s = sourceOfFile p f
      in case src_text s of
           None \<Rightarrow> []
         | Some t \<Rightarrow>
             (if t = [] \<or> \<not> list_ex (\<lambda>(l, g). 0 < g) (src_lineGas s) then []
              else map (\<lambda>(i, lineText). (hasLineCall s i, line_gas (src_lineGas s) i, lineText))
                     (zip [0..<length (split_on (CHR 0x0A) t)] (split_on (CHR 0x0A) t))))"

end
