(* ===== verification/GasLedger.thy ===== *)
theory GasLedger
  imports GasTrace
begin

text \<open>
  What the gas profiler's bookkeeping guarantees: the shape of the call stack, the memoisation of
  contracts and sources, the exact effect of a charge, and a bound on the gas attributed along a
  trace that stays in one call.
\<close>

section \<open>The ledger\<close>

definition sourceGas :: "source \<Rightarrow> int" where
  "sourceGas s = sum_list (map snd (src_lineGas s))"

definition lineTotal :: "prof \<Rightarrow> int" where
  "lineTotal p = sum_list (map (sourceGas \<circ> snd) (sourceById p))"

definition synthTotal :: "prof \<Rightarrow> int" where
  "synthTotal p = sum_list (map (c_synthGasCost \<circ> snd) (contractByAddr p))"

definition attributed :: "prof \<Rightarrow> int" where
  "attributed p = lineTotal p + synthTotal p"

definition lines_nonneg :: "prof \<Rightarrow> bool" where
  "lines_nonneg p = list_all (\<lambda>(i, s). list_all (\<lambda>(l, g). 0 \<le> g) (src_lineGas s)) (sourceById p)"

lemma sum_obj_set:
  "sum_list (map (f \<circ> snd) (obj_set k v ps)) =
     sum_list (map (f \<circ> snd) ps) + f v - (case map_of ps k of None \<Rightarrow> 0 | Some old \<Rightarrow> (f old :: int))"
  by (induction ps) auto

lemma list_all_obj_set:
  "list_all P ps \<Longrightarrow> P (k, v) \<Longrightarrow> list_all P (obj_set k v ps)"
  by (induction ps) auto

lemma list_all_map_of: "list_all (\<lambda>(k, v). P k v) ps \<Longrightarrow> map_of ps k = Some v \<Longrightarrow> P k v"
  by (auto simp: list_all_iff dest: map_of_SomeD)

lemma lineTotal_updContract [simp]: "lineTotal (updContract k f p) = lineTotal p"
  by (simp add: lineTotal_def updContract_def split: option.splits)

lemma lines_nonneg_updContract [simp]: "lines_nonneg (updContract k f p) = lines_nonneg p"
  by (simp add: lines_nonneg_def updContract_def split: option.splits)

lemma synthTotal_updContract:
  "synthTotal (updContract k f p) = synthTotal p +
     (case map_of (contractByAddr p) k of None \<Rightarrow> 0 | Some c \<Rightarrow> c_synthGasCost (f c) - c_synthGasCost c)"
  by (simp add: synthTotal_def updContract_def sum_obj_set split: option.splits)

lemma noteSource_ledger [simp]:
  "lineTotal (noteSource k si p) = lineTotal p" "synthTotal (noteSource k si p) = synthTotal p"
  "lines_nonneg (noteSource k si p) = lines_nonneg p"
  by (simp_all add: noteSource_def synthTotal_updContract split: option.splits)

lemma noteSource_sources [simp]: "sourceById (noteSource k si p) = sourceById p"
  by (simp add: noteSource_def updContract_def split: option.splits)

lemma getSourceWithId_ledger [simp]:
  "lineTotal (getSourceWithId E i p) = lineTotal p" "synthTotal (getSourceWithId E i p) = synthTotal p"
  "lines_nonneg p \<Longrightarrow> lines_nonneg (getSourceWithId E i p)"
  by (auto simp: getSourceWithId_def lineTotal_def synthTotal_def lines_nonneg_def sum_obj_set sourceGas_def
      makeSource_def loadSource_def Let_def intro!: list_all_obj_set split: option.splits)

lemma sourceGas_chargeLine:
  "sourceGas (chargeLine l g b s) = sourceGas s +
     (if src_skip s then 0 else g + (wrap32 (line_gas (src_lineGas s) l) - line_gas (src_lineGas s) l))"
proof -
  have "sum_list (map snd (obj_set l v ps)) = sum_list (map snd ps) + v - line_gas ps l" for v ps
    using sum_obj_set [of id l v ps] by (simp add: line_gas_def split: option.splits)
  then show ?thesis by (simp add: sourceGas_def chargeLine_def)
qed

text \<open>A charge lands on a line when the line is known and its source is not skipped.\<close>

definition chargeable :: "prof \<Rightarrow> jnum option \<Rightarrow> nat option \<Rightarrow> bool" where
  "chargeable p source line =
     (case (source, line) of
        (Some i, Some l) \<Rightarrow> (case map_of (sourceById p) i of None \<Rightarrow> False | Some s \<Rightarrow> \<not> src_skip s)
      | _ \<Rightarrow> False)"

definition counter :: "prof \<Rightarrow> jnum option \<Rightarrow> nat option \<Rightarrow> int" where
  "counter p source line =
     (case (source, line) of
        (Some i, Some l) \<Rightarrow> (case map_of (sourceById p) i of None \<Rightarrow> 0 | Some s \<Rightarrow> line_gas (src_lineGas s) l)
      | _ \<Rightarrow> 0)"

lemma lineTotal_increase:
  "lineTotal (increaseLineGasCost source line g b p) = lineTotal p +
     (if chargeable p source line then g + (wrap32 (counter p source line) - counter p source line) else 0)"
  by (auto simp: increaseLineGasCost_def chargeable_def counter_def lineTotal_def sum_obj_set
      sourceGas_chargeLine split: option.splits)

lemma synthTotal_increase [simp]: "synthTotal (increaseLineGasCost source line g b p) = synthTotal p"
  by (simp add: increaseLineGasCost_def synthTotal_def split: option.splits)

lemma sum_nonneg_bound:
  "list_all (\<lambda>x. 0 \<le> f x) xs \<Longrightarrow> x \<in> set xs \<Longrightarrow> f x \<le> sum_list (map f xs)" for f :: "'a \<Rightarrow> int"
  by (rule member_le_sum_list) (auto simp: list_all_iff)

lemma counter_bounds:
  assumes "lines_nonneg p"
  shows "0 \<le> counter p source line \<and> counter p source line \<le> lineTotal p"
proof -
  have nn: "list_all (\<lambda>q. 0 \<le> (sourceGas \<circ> snd) q) (sourceById p)"
    using assms unfolding lines_nonneg_def list_all_iff
    by (fastforce simp: sourceGas_def intro!: sum_list_nonneg)
  then have L: "0 \<le> lineTotal p"
    unfolding lineTotal_def list_all_iff by (intro sum_list_nonneg) auto
  show ?thesis
  proof (cases "counter p source line = 0")
    case True
    with L show ?thesis by simp
  next
    case False
    then obtain i l s where s: "map_of (sourceById p) i = Some s"
      and c: "counter p source line = line_gas (src_lineGas s) l" and "source = Some i" "line = Some l"
      by (auto simp: counter_def split: option.splits)
    with False obtain g where g: "map_of (src_lineGas s) l = Some g" and cg: "counter p source line = g"
      by (auto simp: line_gas_def split: option.splits)
    have ls: "list_all (\<lambda>(l, g). 0 \<le> g) (src_lineGas s)"
      using assms s unfolding lines_nonneg_def by (rule list_all_map_of)
    then have g0: "0 \<le> g" using g by (rule list_all_map_of)
    have "snd (l, g) \<le> sum_list (map snd (src_lineGas s))"
      by (rule sum_nonneg_bound) (use ls g in \<open>auto simp: list_all_iff dest: map_of_SomeD\<close>)
    then have "g \<le> sourceGas s" by (simp add: sourceGas_def)
    moreover have "(sourceGas \<circ> snd) (i, s) \<le> lineTotal p"
      unfolding lineTotal_def using nn map_of_SomeD [OF s] by (rule sum_nonneg_bound)
    ultimately show ?thesis using g0 cg by simp
  qed
qed

lemma lines_nonneg_increase:
  assumes "lines_nonneg p" "lineTotal p < 2 ^ 31" "0 \<le> g"
  shows "lines_nonneg (increaseLineGasCost source line g b p)"
proof (cases "chargeable p source line")
  case True
  then obtain i l s where il: "source = Some i" "line = Some l" and s: "map_of (sourceById p) i = Some s"
    by (auto simp: chargeable_def split: option.splits)
  have c: "counter p source line = line_gas (src_lineGas s) l" using il s by (simp add: counter_def)
  have "wrap32 (line_gas (src_lineGas s) l) = line_gas (src_lineGas s) l"
    using counter_bounds [OF assms(1), of source line] assms(2) c by (intro wrap32_id) auto
  moreover have "0 \<le> line_gas (src_lineGas s) l" using counter_bounds [OF assms(1), of source line] c by simp
  moreover have "list_all (\<lambda>(l, g). 0 \<le> g) (src_lineGas s)"
    using assms(1) s unfolding lines_nonneg_def by (rule list_all_map_of)
  ultimately have "list_all (\<lambda>(l, g). 0 \<le> g) (src_lineGas (chargeLine l g b s))"
    using assms(3) by (auto simp: chargeLine_def intro!: list_all_obj_set)
  with assms(1) s il show ?thesis
    by (auto simp: increaseLineGasCost_def lines_nonneg_def intro!: list_all_obj_set)
next
  case False
  show ?thesis
  proof (cases "\<exists>i l s. source = Some i \<and> line = Some l \<and> map_of (sourceById p) i = Some s")
    case True
    then obtain i l s where il: "source = Some i" "line = Some l" and s: "map_of (sourceById p) i = Some s"
      by blast
    with False have "src_skip s" by (simp add: chargeable_def)
    moreover have "list_all (\<lambda>(l, g). 0 \<le> g) (src_lineGas s)"
      using assms(1) s unfolding lines_nonneg_def by (rule list_all_map_of)
    ultimately show ?thesis using assms(1) il s
      by (auto simp: increaseLineGasCost_def lines_nonneg_def chargeLine_def intro!: list_all_obj_set)
  next
    case False
    then have "increaseLineGasCost source line g b p = p"
      by (auto simp: increaseLineGasCost_def split: option.splits)
    with assms(1) show ?thesis by simp
  qed
qed

text \<open>One opcode's charge: nothing, or exactly its cost.\<close>

lemma chargeOp_ledger:
  assumes "lines_nonneg p" "lineTotal p < 2 ^ 31" "0 \<le> g"
  shows "lines_nonneg (chargeOp E call info line g p)"
    and "lineTotal p \<le> lineTotal (chargeOp E call info line g p)"
    and "lineTotal (chargeOp E call info line g p) \<le> lineTotal p + g"
    and "attributed (chargeOp E call info line g p) = attributed p \<or>
         attributed (chargeOp E call info line g p) = attributed p + g"
proof -
  have w: "wrap32 (counter p s l) = counter p s l" for s l
    using counter_bounds [OF assms(1), of s l] assms(2) by (intro wrap32_id) auto
  show "lines_nonneg (chargeOp E call info line g p)"
    using assms by (simp add: chargeOp_def lines_nonneg_increase)
  show "lineTotal p \<le> lineTotal (chargeOp E call info line g p)"
    "lineTotal (chargeOp E call info line g p) \<le> lineTotal p + g"
    using assms(3) by (simp_all add: chargeOp_def lineTotal_increase w)
  show "attributed (chargeOp E call info line g p) = attributed p \<or>
         attributed (chargeOp E call info line g p) = attributed p + g"
    by (auto simp: chargeOp_def attributed_def lineTotal_increase synthTotal_updContract w split: option.splits)
qed

section \<open>The call stack\<close>

lemma popCall_Inr:
  assumes "popCall E pl lg p st = Inr (p', st')"
  shows "st' = butlast st \<and> 2 \<le> length st"
proof -
  from assms obtain prev t c bs where "rev st = t # c # bs" and "st' = butlast st"
    by (auto simp: popCall_def Let_def split: option.splits list.splits)
  then show ?thesis by (metis length_Cons length_rev le_add2 add_2_eq_Suc')
qed

lemma unwind_Inr:
  "unwind E b pl lg p st = Inr (p', st') \<Longrightarrow>
     int (length st') - 1 \<le> tl_depth lg - b \<and>
     (int (length st) - 1 \<le> tl_depth lg - b \<longrightarrow> p' = p \<and> st' = st)"
proof (induction E b pl lg p st rule: unwind.induct)
  case (1 E b pl lg p st)
  show ?case
  proof (cases "tl_depth lg - b < int (length st) - 1")
    case True
    with "1.prems" obtain q sq where q: "popCall E pl lg p st = Inr (q, sq)" "length sq < length st"
      "unwind E b pl lg q sq = Inr (p', st')"
      by (subst (asm) unwind.simps) (auto split: sum.splits prod.splits if_splits)
    from "1.IH" [OF True q(1) refl q(2,3)] True show ?thesis by simp
  next
    case False
    with "1.prems" show ?thesis by (subst (asm) unwind.simps) auto
  qed
qed

text \<open>The part of a step after the stack has been unwound.\<close>

definition stepBody ::
  "prof_env \<Rightarrow> int \<Rightarrow> tlog \<Rightarrow> tlog list \<Rightarrow> prof \<times> call_item list \<Rightarrow> source_info \<Rightarrow> (prof \<times> call_item list) res" where
  "stepBody E b lg later q info =
     (let call = snd q ! nat (tl_depth lg - b);
          p2 = (case si_sourceId info of None \<Rightarrow> fst q | Some i \<Rightarrow> getSourceWithId E i (fst q));
          line = lineOf E p2 (si_sourceId info) (si_offset info);
          p3 = noteSource (ci_contract call) (si_sourceId info) p2
      in if entersCall lg later
         then bindR (assertR (tl_depth (hd later) = tl_depth lg + 1)) (\<lambda>_.
              Inr (enterCall E (the (fst (getCallTarget lg later))) (snd (getCallTarget lg later))
                     lg (hd later) (si_sourceId info) line (nat (tl_depth lg - b)) p3 (snd q)))
         else Inr (chargeOp E call info line (getGasCost lg (head_opt later)) p3, snd q))"

lemma profStep_body:
  "profStep E b pl lg later (p, st) =
     bindR (unwind E b pl lg p st) (\<lambda>q. bindR (assertR (0 < length (snd q))) (\<lambda>_.
       if tl_depth lg - b < 0 \<or> int (length (snd q)) \<le> tl_depth lg - b then Inl TypeError
       else bindR (getSourceInfo (fst q) (snd q ! nat (tl_depth lg - b)) lg) (stepBody E b lg later q)))"
  unfolding profStep_def Let_def fst_conv snd_conv case_prod_beta'
  by (intro arg_cong2 [where f = bindR] refl ext if_cong) (simp_all add: stepBody_def Let_def)

lemma profStep_Inr:
  assumes "profStep E b pl lg later (p, st) = Inr q'"
  obtains q info where "unwind E b pl lg p st = Inr q" "int (length (snd q)) = tl_depth lg - b + 1"
    "getSourceInfo (fst q) (snd q ! nat (tl_depth lg - b)) lg = Inr info" "stepBody E b lg later q info = Inr q'"
proof -
  from assms obtain q where q: "unwind E b pl lg p st = Inr q"
    and r: "bindR (assertR (0 < length (snd q))) (\<lambda>_.
       if tl_depth lg - b < 0 \<or> int (length (snd q)) \<le> tl_depth lg - b then Inl TypeError
       else bindR (getSourceInfo (fst q) (snd q ! nat (tl_depth lg - b)) lg) (stepBody E b lg later q)) = Inr q'"
    unfolding profStep_body by (cases "unwind E b pl lg p st") auto
  have d: "\<not> (tl_depth lg - b < 0 \<or> int (length (snd q)) \<le> tl_depth lg - b)"
    using r by (cases "snd q = []") (auto simp: assertR_def split: if_splits)
  with r obtain info where "getSourceInfo (fst q) (snd q ! nat (tl_depth lg - b)) lg = Inr info"
    "stepBody E b lg later q info = Inr q'"
    by (cases "getSourceInfo (fst q) (snd q ! nat (tl_depth lg - b)) lg")
       (auto simp: assertR_def split: if_splits)
  moreover from unwind_Inr [of E b pl lg p st "fst q" "snd q"] q d have "int (length (snd q)) = tl_depth lg - b + 1"
    by simp
  ultimately show ?thesis using q that by blast
qed

section \<open>A trace inside one call\<close>

lemma source_step_ledger [simp]:
  "lineTotal (case si of None \<Rightarrow> p | Some i \<Rightarrow> getSourceWithId E i p) = lineTotal p"
  "synthTotal (case si of None \<Rightarrow> p | Some i \<Rightarrow> getSourceWithId E i p) = synthTotal p"
  "lines_nonneg p \<Longrightarrow> lines_nonneg (case si of None \<Rightarrow> p | Some i \<Rightarrow> getSourceWithId E i p)"
  by (auto split: option.splits)

lemma entersCall_flat: "list_all (\<lambda>n. tl_depth n = tl_depth lg) later \<Longrightarrow> \<not> entersCall lg later"
  by (cases later) (auto simp: entersCall_def head_opt_def split: option.splits)

text \<open>The costs a trace charges: each log's cost given the log after it.\<close>

fun opCosts :: "tlog list \<Rightarrow> int list" where
  "opCosts [] = []"
| "opCosts (lg # later) = getGasCost lg (head_opt later) # opCosts later"

lemma flat_step:
  assumes step: "profStep E b pl lg later (p, st) = Inr (p', st')"
    and flat: "list_all (\<lambda>n. tl_depth n = tl_depth lg) later" and st: "int (length st) = tl_depth lg - b + 1"
    and nn: "lines_nonneg p" "lineTotal p < 2 ^ 31" and g: "0 \<le> getGasCost lg (head_opt later)"
  shows "st' = st" and "lines_nonneg p'" and "lineTotal p \<le> lineTotal p'"
    and "lineTotal p' \<le> lineTotal p + getGasCost lg (head_opt later)"
    and "attributed p \<le> attributed p'" and "attributed p' \<le> attributed p + getGasCost lg (head_opt later)"
proof -
  from step obtain q info where u: "unwind E b pl lg p st = Inr q"
    and body: "stepBody E b lg later q info = Inr (p', st')"
    by (rule profStep_Inr)
  have q: "q = (p, st)"
    using unwind_Inr [of E b pl lg p st "fst q" "snd q"] u st by (cases q) simp
  define call where "call = st ! nat (tl_depth lg - b)"
  define p2 where "p2 = (case si_sourceId info of None \<Rightarrow> p | Some i \<Rightarrow> getSourceWithId E i p)"
  define line where "line = lineOf E p2 (si_sourceId info) (si_offset info)"
  define p3 where "p3 = noteSource (ci_contract call) (si_sourceId info) p2"
  have "stepBody E b lg later q info = Inr (chargeOp E call info line (getGasCost lg (head_opt later)) p3, st)"
    unfolding stepBody_def Let_def q fst_conv snd_conv call_def line_def p3_def p2_def
    using entersCall_flat [OF flat] by simp
  with body have p': "p' = chargeOp E call info line (getGasCost lg (head_opt later)) p3" and "st' = st" by simp_all
  have "lines_nonneg p3" "lineTotal p3 = lineTotal p" "synthTotal p3 = synthTotal p"
    using nn(1) by (simp_all add: p3_def p2_def)
  with chargeOp_ledger [of p3 "getGasCost lg (head_opt later)" E call info line] nn(2) g p' \<open>st' = st\<close>
  show "st' = st" "lines_nonneg p'" "lineTotal p \<le> lineTotal p'"
    "lineTotal p' \<le> lineTotal p + getGasCost lg (head_opt later)"
    "attributed p \<le> attributed p'" "attributed p' \<le> attributed p + getGasCost lg (head_opt later)"
    by (auto simp: attributed_def)
qed

lemma flat_trace:
  assumes "profLogs E b pl logs (p, st) = Inr (p', st')"
    and "list_all (\<lambda>n. tl_depth n = d) logs" and "int (length st) = d - b + 1" and "lines_nonneg p"
    and "list_all (\<lambda>g. 0 \<le> g) (opCosts logs)" and "lineTotal p + sum_list (opCosts logs) < 2 ^ 31"
  shows "st' = st \<and> attributed p \<le> attributed p' \<and> attributed p' \<le> attributed p + sum_list (opCosts logs)"
  using assms
proof (induction logs arbitrary: pl p)
  case Nil
  then show ?case by simp
next
  case (Cons lg later)
  from Cons.prems(1) obtain q where q: "profStep E b pl lg later (p, st) = Inr q"
    and r: "profLogs E b (Some lg) later q = Inr (p', st')"
    by (auto simp: bindR_eq_Inr)
  obtain p1 st1 where q1: "q = (p1, st1)" by (cases q)
  have rest: "0 \<le> sum_list (opCosts later)" using Cons.prems(5) by (auto simp: list_all_iff intro!: sum_list_nonneg)
  have depth: "tl_depth lg = d" "list_all (\<lambda>n. tl_depth n = tl_depth lg) later" using Cons.prems(2) by auto
  have g: "0 \<le> getGasCost lg (head_opt later)" using Cons.prems(5) by simp
  have small: "lineTotal p < 2 ^ 31" using Cons.prems(6) g rest by simp
  note s = flat_step [OF q [unfolded q1] depth(2) _ Cons.prems(4) small g, unfolded depth(1), OF Cons.prems(3)]
  have "st' = st \<and> attributed p1 \<le> attributed p' \<and> attributed p' \<le> attributed p1 + sum_list (opCosts later)"
  proof (rule Cons.IH)
    show "profLogs E b (Some lg) later (p1, st) = Inr (p', st')" using r q1 s(1) by simp
    show "lineTotal p1 + sum_list (opCosts later) < 2 ^ 31" using s(4) Cons.prems(6) by simp
  qed (use Cons.prems s in auto)
  with s(5,6) show ?case by simp
qed

section \<open>Properties\<close>

text \<open>
  C35: the reconstructed call stack follows the trace: after a step that does not fail, the stack
  is as deep as the next log if the step entered a call, and as deep as the current log otherwise.
\<close>

theorem profStep_stack_depth:
  assumes "profStep E b pl lg later (p, st) = Inr (p', st')"
  shows "int (length st') = (if entersCall lg later then tl_depth (hd later) else tl_depth lg) - b + 1"
proof -
  from assms obtain q info where "int (length (snd q)) = tl_depth lg - b + 1"
    and "stepBody E b lg later q info = Inr (p', st')"
    by (rule profStep_Inr)
  then show ?thesis
    by (auto simp: stepBody_def Let_def bindR_eq_Inr enterCall_def split: if_splits)
qed

definition quiet_env :: prof_env where
  "quiet_env = \<lparr>pe_codeAt = (\<lambda>_. None), pe_isDump = False, pe_dumping = False, pe_contracts = [], pe_sources = [],
     pe_readSource = (\<lambda>_. None), pe_skipFiles = [], pe_closest = (\<lambda>_ _. 0), pe_onlyAddress = None\<rparr>"

definition opAt :: "string \<Rightarrow> int \<Rightarrow> int \<Rightarrow> int \<Rightarrow> tlog" where
  "opAt name gas cost depth = \<lparr>tl_op = name, tl_gas = gas, tl_gasCost = cost, tl_pc = 0, tl_depth = depth, tl_stack = []\<rparr>"

theorem profStep_stack_depth_witness:
  "\<exists>p' st'. profStep quiet_env 1 None (opAt ''ADD'' 100 3 1) [] (emptyProf, [makeCallStackItem ''ab'' ''ab'']) = Inr (p', st')
     \<and> int (length st') = 1"
proof -
  have ne: "\<not> entersCall (opAt ''ADD'' 100 3 1) []" by (simp add: entersCall_def head_opt_def)
  have "profStep quiet_env 1 None (opAt ''ADD'' 100 3 1) [] (emptyProf, [makeCallStackItem ''ab'' ''ab'']) =
      Inr (emptyProf, [makeCallStackItem ''ab'' ''ab''])"
    by (simp add: profStep_def Let_def unwind.simps opAt_def assertR_def getSourceInfo_def contractOf_def emptyProf_def
        makeContract_def entersCall_def head_opt_def noteSource_def lineOf_def chargeOp_def increaseLineGasCost_def)
  from profStep_stack_depth [OF this] this ne show ?thesis by (auto simp: opAt_def)
qed

text \<open>
  no gas is invented: along a trace that stays in one call, with costs that are not negative
  and a total below the 32-bit bound, the gas attributed to source lines and to synthetic code never
  falls and grows by at most the sum of the costs.
\<close>

theorem flat_trace_bounded:
  assumes "profLogs E b pl logs (p, st) = Inr (p', st')"
    and "list_all (\<lambda>n. tl_depth n = d) logs" and "int (length st) = d - b + 1" and "lines_nonneg p"
    and "list_all (\<lambda>g. 0 \<le> g) (opCosts logs)" and "lineTotal p + sum_list (opCosts logs) < 2 ^ 31"
  shows "attributed p \<le> attributed p' \<and> attributed p' \<le> attributed p + sum_list (opCosts logs)"
  using flat_trace [OF assms] by blast

theorem flat_trace_bounded_witness:
  "\<exists>p' st'. profLogs quiet_env 1 None [opAt ''ADD'' 100 3 1, opAt ''STOP'' 97 0 1] (emptyProf, [makeCallStackItem ''ab'' ''ab''])
     = Inr (p', st') \<and> attributed p' \<le> 3"
proof -
  let ?logs = "[opAt ''ADD'' 100 3 1, opAt ''STOP'' 97 0 1]"
  have r: "profLogs quiet_env 1 None ?logs (emptyProf, [makeCallStackItem ''ab'' ''ab'']) =
      Inr (emptyProf, [makeCallStackItem ''ab'' ''ab''])"
    by (simp add: profStep_def Let_def unwind.simps opAt_def assertR_def getSourceInfo_def contractOf_def emptyProf_def
        makeContract_def entersCall_def head_opt_def noteSource_def lineOf_def chargeOp_def increaseLineGasCost_def)
  have c: "opCosts ?logs = [3, 0]" by (simp add: opAt_def getGasCost_def head_opt_def)
  have z: "attributed emptyProf = 0" "lineTotal emptyProf = 0" "lines_nonneg emptyProf"
    by (simp_all add: attributed_def lineTotal_def synthTotal_def emptyProf_def lines_nonneg_def)
  have "list_all (\<lambda>n. tl_depth n = 1) ?logs" by (simp add: opAt_def)
  from flat_trace_bounded [OF r this] r c z show ?thesis by simp
qed

text \<open>
  \<open>increaseLineGasCost\<close> is exact on the line it names and touches no other: the counter
  becomes its old value read through a 32-bit integer plus the cost, unless the source is skipped,
  and every other line of every source keeps its count.
\<close>

theorem increaseLineGasCost_exact:
  assumes "chargeable p (Some i) (Some l)"
  shows "counter (increaseLineGasCost (Some i) (Some l) g b p) (Some j) (Some k) =
    (if j = i \<and> k = l then wrap32 (counter p (Some i) (Some l)) + g else counter p (Some j) (Some k))"
proof -
  from assms obtain s where s: "map_of (sourceById p) i = Some s" "\<not> src_skip s"
    by (auto simp: chargeable_def split: option.splits)
  have m: "map_of (obj_set i v ps) j = (if j = i then Some v else map_of ps j)" for v and ps :: "(jnum \<times> source) list"
    by (induction ps) auto
  show ?thesis
    using s by (simp add: increaseLineGasCost_def counter_def m chargeLine_def gas_lines.look_put)
qed

definition one_source :: "int \<Rightarrow> prof" where
  "one_source g = emptyProf\<lparr>sourceById := [(Fin 0, (makeSource (Some ''a.sol''))\<lparr>src_lineGas := [(7, g)]\<rparr>)]\<rparr>"

theorem increaseLineGasCost_exact_witness:
  "counter (increaseLineGasCost (Some (Fin 0)) (Some 7) 5 False (one_source 37)) (Some (Fin 0)) (Some 7) = 42"
proof -
  have "chargeable (one_source 37) (Some (Fin 0)) (Some 7)"
    by (simp add: chargeable_def one_source_def makeSource_def)
  from increaseLineGasCost_exact [OF this, of 5 False "Fin 0" 7] show ?thesis
    by (simp add: counter_def one_source_def makeSource_def line_gas_def wrap32_id)
qed

text \<open>
  the counters are 32-bit: a line that has already cost \<open>2 ^ 31\<close> gas falls to a negative
  count at its next charge, so it drops out of the report of lines with positive gas.
\<close>

theorem line_counter_overflows:
  "counter (increaseLineGasCost (Some (Fin 0)) (Some 7) 21000 False (one_source (2 ^ 31))) (Some (Fin 0)) (Some 7) < 0"
proof -
  have "wrap32 (2 ^ 31) = - (2 ^ 31)" by (simp add: wrap32_def)
  then show ?thesis
    by (simp add: increaseLineGasCost_def counter_def one_source_def makeSource_def chargeLine_def line_gas_def)
qed

text \<open>
  contracts are loaded once: asking for the same address again, in any spelling that
  normalizes to it, changes nothing, and the record of every other address is the one it was.
\<close>

theorem getContractWithAddr_cached:
  "(contractKey a = contractKey a' \<longrightarrow>
      getContractWithAddr E a' (getContractWithAddr E a p) = getContractWithAddr E a p) \<and>
   (k \<noteq> contractKey a \<longrightarrow>
      map_of (contractByAddr (getContractWithAddr E a p)) k = map_of (contractByAddr p) k)"
proof -
  have m: "map_of (obj_set i v ps) j = (if j = i then Some v else map_of ps j)" for i j v and ps :: "(string \<times> contract) list"
    by (induction ps) auto
  show ?thesis
    by (auto simp: getContractWithAddr_def Let_def m split: option.splits)
qed

theorem getContractWithAddr_cached_witness:
  "getContractWithAddr quiet_env ''AB'' (getContractWithAddr quiet_env ''0xab'' emptyProf) =
     getContractWithAddr quiet_env ''0xab'' emptyProf"
proof -
  have "contractKey ''0xab'' = contractKey ''AB''" by code_simp
  with getContractWithAddr_cached [of "''0xab''" "''AB''" quiet_env emptyProf] show ?thesis by blast
qed

end
