(* ===== verification/GasMain.thy ===== *)
theory GasMain
  imports GasLedger
begin

text \<open>
  gasprofile/gasprofile.js, its \<open>main\<close>: choosing between a transaction of the node and a dump of an
  earlier run, the checks before profiling, the trace loop (theory GasTrace), writing a dump, and the
  printed report.  The command line as yargs parsed it is a record; the file system and the node are
  parameters.  What goes to the console's error stream is not modelled.
\<close>

section \<open>The outside\<close>

record gas_argv =
  ga_target :: string
  ga_solcOutput :: string
  ga_solcInput :: "string option"
  ga_skip :: "string list"
  ga_onlyAddress :: "string option"
  ga_srcRoot :: string
  ga_rpcEndpoint :: string
  ga_dumpTo :: "string option"

record chain_tx =
  ct_hash :: string
  ct_to :: "string option"
  ct_gas :: int

record chain_receipt =
  cr_contractAddress :: "string option"
  cr_gasUsed :: int

text \<open>What is written to a dump file, and what \<open>JSON.parse\<close> makes of it.\<close>

record trace_dump =
  td_tx :: chain_tx
  td_receipt :: chain_receipt
  td_codeByAddr :: "(string \<times> string) list"
  td_trace :: "tlog list"

datatype dump_file = NoFile | NotJson | JsonNull | Dump trace_dump

record gas_node =
  gn_version :: "string res"
  gn_receipt :: "string \<Rightarrow> chain_receipt option res"
  gn_tx :: "string \<Rightarrow> chain_tx option res"
  gn_code :: "string \<Rightarrow> string"
  gn_trace :: "string \<Rightarrow> tlog list res"

record gas_outside =
  go_dumpFile :: "string \<Rightarrow> dump_file"
  go_solcOutput :: "string \<Rightarrow> (solc_contracts \<times> (string \<times> jnum) list) res"
  go_solcInput :: "string \<Rightarrow> (string \<times> string) list res"
  go_sourceFile :: "string \<Rightarrow> string \<Rightarrow> string option"
  go_moduleFile :: "string \<Rightarrow> string option"
  go_closest :: "nat list \<Rightarrow> jnum \<Rightarrow> nat"
  go_node :: "string \<Rightarrow> gas_node"

text \<open>An option or an address that JavaScript takes for true.\<close>

definition given :: "string option \<Rightarrow> bool" where
  "given v = (case v of None \<Rightarrow> False | Some s \<Rightarrow> s \<noteq> [])"

section \<open>Sources\<close>

definition readSourceFromDisk :: "gas_outside \<Rightarrow> string \<Rightarrow> string \<Rightarrow> string option" where
  "readSourceFromDisk W sourceRoot fileName =
     (case go_sourceFile W sourceRoot fileName of
        Some t \<Rightarrow> Some t
      | None \<Rightarrow> go_moduleFile W fileName)"

definition readSourceFromSolcInputJSON :: "(string \<times> string) list \<Rightarrow> string \<Rightarrow> string option" where
  "readSourceFromSolcInputJSON sources fileName =
     (case map_of sources fileName of
        None \<Rightarrow> None
      | Some content \<Rightarrow> if content = [] then None else Some content)"

definition sourceReader :: "gas_outside \<Rightarrow> gas_argv \<Rightarrow> (string \<Rightarrow> string option) res" where
  "sourceReader W argv =
     (if given (ga_solcInput argv)
      then bindR (go_solcInput W (the (ga_solcInput argv))) (\<lambda>sources. Inr (readSourceFromSolcInputJSON sources))
      else Inr (readSourceFromDisk W (ga_srcRoot argv)))"

definition onlyAddressOf :: "gas_argv \<Rightarrow> string option" where
  "onlyAddressOf argv =
     (if given (ga_onlyAddress argv) then Some (strip0x (to_lower (the (ga_onlyAddress argv)))) else None)"

definition profEnv ::
  "gas_outside \<Rightarrow> gas_argv \<Rightarrow> trace_dump option \<Rightarrow> solc_contracts \<Rightarrow> (string \<times> jnum) list
    \<Rightarrow> (string \<Rightarrow> string option) \<Rightarrow> prof_env" where
  "profEnv W argv dump contracts sources reader =
     \<lparr>pe_codeAt = (case dump of
          Some d \<Rightarrow> map_of (td_codeByAddr d)
        | None \<Rightarrow> (\<lambda>k. Some (gn_code (go_node W (ga_rpcEndpoint argv)) k))),
      pe_isDump = (dump \<noteq> None), pe_dumping = given (ga_dumpTo argv),
      pe_contracts = contracts, pe_sources = sources, pe_readSource = reader,
      pe_skipFiles = ga_skip argv, pe_closest = go_closest W, pe_onlyAddress = onlyAddressOf argv\<rparr>"

section \<open>The report\<close>

text \<open>
  A printed line; the frame of a table is given by its inner width, and a row by its call mark, the
  text of its gas column and the text of the source line.
\<close>

datatype out_line =
    Text string
  | TopRule nat | TitleRow string | MidRule nat | BottomRule nat
  | GasRow bool string string

definition padStart :: "string \<Rightarrow> nat \<Rightarrow> char \<Rightarrow> string" where
  "padStart s n c = replicate (n - length s) c @ s"

definition labelled :: "string \<Rightarrow> int \<Rightarrow> out_line" where
  "labelled label n = Text (label @ '' '' @ dec_int n)"

text \<open>\<open>Object.keys\<close> puts array indices first, in ascending order, and the other keys as they were added.\<close>

definition index_key :: "jnum \<Rightarrow> int option" where
  "index_key x =
     (case x of Fin q \<Rightarrow> if of_int \<lfloor>q\<rfloor> = q \<and> 0 \<le> q \<and> q < 2 ^ 32 - 1 then Some \<lfloor>q\<rfloor> else None | _ \<Rightarrow> None)"

definition keys_order :: "jnum list \<Rightarrow> jnum list" where
  "keys_order ids =
     sort_key (\<lambda>i. the (index_key i)) (filter (\<lambda>i. index_key i \<noteq> None) ids) @
     filter (\<lambda>i. index_key i = None) ids"

definition contractFileNames :: "prof \<Rightarrow> contract \<Rightarrow> string" where
  "contractFileNames p c =
     join_with '', ''
       (filter (\<lambda>f. f \<noteq> [])
         (map (\<lambda>i. case map_of (sourceById p) i of None \<Rightarrow> []
                  | Some s \<Rightarrow> (case src_fileName s of None \<Rightarrow> [] | Some f \<Rightarrow> f))
           (keys_order (c_sourcesById c))))"

definition contractLines :: "prof \<Rightarrow> string \<times> contract \<Rightarrow> out_line list" where
  "contractLines p kc =
     (let (addressHexStr, c) = kc
      in (case c_name c of
            None \<Rightarrow> [Text [], Text (''Unknown contract at 0x'' @ addressHexStr)]
          | Some nm \<Rightarrow>
              (let fileNames = contractFileNames p c
               in [Text [], Text (''Contract '' @ nm @ '' at 0x'' @ addressHexStr),
                   Text (''  defined in: '' @
                     (if fileNames \<noteq> [] then fileNames
                      else if given (c_fileName c) then the (c_fileName c) else ''<no sources found>'')),
                   labelled ''  synthetic instruction gas:'' (c_synthGasCost c)])) @
         [labelled ''  total gas spent in the contract:'' (c_totalGasCost c)])"

definition gasColLength :: "prof \<Rightarrow> nat" where
  "gasColLength p = max (length (dec_int (gs_maxGasPerLine (summarize p)))) (length ''GAS'')"

definition fileTable :: "prof \<Rightarrow> string \<times> jnum \<Rightarrow> out_line list" where
  "fileTable p f =
     (let rows = reportRows p f; col = gasColLength p
      in if rows = [] then []
         else [Text [], Text (''File '' @ fst f), TopRule (col + 2), TitleRow (padCenter ''GAS'' (col + 2) (CHR '' '')),
               MidRule (col + 2)] @
              map (\<lambda>(isCall, gas, lineText). GasRow isCall (padStart (dec_int gas) col (CHR '' '')) lineText) rows @
              [BottomRule (col + 2)])"

definition gasTables :: "prof \<Rightarrow> out_line list" where
  "gasTables p = concat (map (fileTable p) (sourceByFilename p))"

definition callsNote :: "prof \<Rightarrow> out_line list" where
  "callsNote p =
     (if gs_hasCalls (summarize p)
      then [Text [], Text ''Lines marked with a + contain calls to other contracts, and gas'',
            Text ''usage of such lines includes the gas spent by the called code.'']
      else [])"

definition gasReport :: "chain_tx \<Rightarrow> chain_receipt \<Rightarrow> string \<Rightarrow> tlog list \<Rightarrow> prof \<Rightarrow> out_line list" where
  "gasReport tx receipt entryAddr structLogs p =
     (let initialGasCost = ct_gas tx - tl_gas (hd structLogs);
          opcodes = c_totalGasCost (contractOf p (makeCallStackItem (contractKey entryAddr) entryAddr))
      in [labelled ''Total gas used by transaction:'' (cr_gasUsed receipt),
          labelled ''Initial gas cost (sending tx, data):'' initialGasCost,
          labelled ''Gas used by opcodes:'' opcodes,
          labelled ''Other gas:'' (cr_gasUsed receipt - initialGasCost - opcodes)] @
         concat (map (contractLines p) (contractByAddr p)) @ gasTables p @ callsNote p)"

section \<open>main\<close>

record gas_run =
  gr_out :: "out_line list"
  gr_result :: "bool res"
  gr_written :: "(string \<times> trace_dump) option"

definition ended :: "out_line list \<Rightarrow> bool res \<Rightarrow> gas_run" where
  "ended out r = \<lparr>gr_out = out, gr_result = r, gr_written = None\<rparr>"

text \<open>The line announced for the first log, when its instruction maps to a known line.\<close>

definition entryLine :: "prof_env \<Rightarrow> prof \<Rightarrow> call_item \<Rightarrow> tlog \<Rightarrow> out_line list" where
  "entryLine E p call lg =
     (case getSourceInfo p call lg of
        Inl e \<Rightarrow> []
      | Inr info \<Rightarrow>
          (case si_sourceId info of
             None \<Rightarrow> []
           | Some i \<Rightarrow>
               (let p' = getSourceWithId E i p
                in case lineOf E p' (Some i) (si_offset info) of
                     None \<Rightarrow> []
                   | Some line \<Rightarrow>
                       [Text (''Entry line: '' @
                          (case map_of (sourceById p') i of None \<Rightarrow> []
                           | Some s \<Rightarrow> (case src_fileName s of None \<Rightarrow> ''null'' | Some f \<Rightarrow> f)) @
                          '':'' @ dec_int (int line + 1))])))"

definition orNull :: "'a option res \<Rightarrow> 'a option" where
  "orNull r = (case r of Inl e \<Rightarrow> None | Inr v \<Rightarrow> v)"

definition readTransaction :: "gas_outside \<Rightarrow> gas_argv \<Rightarrow> trace_dump option \<Rightarrow> (chain_tx \<times> chain_receipt) option" where
  "readTransaction W argv dump =
     (case dump of
        Some d \<Rightarrow> Some (td_tx d, td_receipt d)
      | None \<Rightarrow>
          (let node = go_node W (ga_rpcEndpoint argv); txHash = ga_target argv
           in case (orNull (gn_receipt node txHash), orNull (gn_tx node txHash)) of
                (Some receipt, Some tx) \<Rightarrow> Some (tx, receipt)
              | _ \<Rightarrow> None))"

definition readTrace :: "gas_outside \<Rightarrow> gas_argv \<Rightarrow> trace_dump option \<Rightarrow> tlog list res" where
  "readTrace W argv dump =
     (case dump of
        Some d \<Rightarrow> Inr (td_trace d)
      | None \<Rightarrow> gn_trace (go_node W (ga_rpcEndpoint argv)) (ga_target argv))"

definition isEntryConstruction :: "chain_tx \<Rightarrow> chain_receipt \<Rightarrow> bool" where
  "isEntryConstruction tx receipt \<longleftrightarrow> \<not> given (ct_to tx) \<and> given (cr_contractAddress receipt)"

definition entryAddrOf :: "chain_tx \<Rightarrow> chain_receipt \<Rightarrow> string option" where
  "entryAddrOf tx receipt = (if isEntryConstruction tx receipt then cr_contractAddress receipt else ct_to tx)"

text \<open>Everything after the transaction has been found.\<close>

definition profileTx ::
  "prof_env \<Rightarrow> gas_argv \<Rightarrow> tlog list res \<Rightarrow> chain_tx \<Rightarrow> chain_receipt \<Rightarrow> gas_run" where
  "profileTx E argv traceR tx receipt =
     (if \<not> given (entryAddrOf tx receipt) then ended [] (Inl AssertionError)
      else
        let entryAddr = the (entryAddrOf tx receipt); isConstruction = isEntryConstruction tx receipt;
            out1 = (case pe_onlyAddress E of None \<Rightarrow> []
                    | Some a \<Rightarrow> [Text (''Reporting line-by-line gas consumed only inside 0x'' @ a)]);
            p0 = getContractWithAddr E entryAddr emptyProf;
            entryCall = (makeCallStackItem (contractKey entryAddr) entryAddr)\<lparr>ci_isConstructionCall := isConstruction\<rparr>
        in if c_codeHexStr (contractOf p0 entryCall) = None
           then ended (out1 @ [labelled ''Total gas used by transaction:'' (cr_gasUsed receipt),
                   Text ''The transaction target address is not a contract'']) (Inr False)
           else
             let out2 = out1 @ [Text (''Entry contract address: '' @ entryAddr)]
             in case traceR of
                  Inl e \<Rightarrow> ended out2 (Inl e)
                | Inr structLogs \<Rightarrow>
                    if structLogs = [] then ended out2 (Inl TypeError)
                    else
                      let out3 = out2 @ entryLine E p0 entryCall (hd structLogs)
                      in case profileTrace E entryAddr isConstruction structLogs of
                           Inl e \<Rightarrow> ended out3 (Inl e)
                         | Inr p \<Rightarrow>
                             if given (ga_dumpTo argv)
                             then \<lparr>gr_out = out3, gr_result = Inr True,
                                   gr_written = Some (the (ga_dumpTo argv),
                                     \<lparr>td_tx = tx, td_receipt = receipt, td_codeByAddr = codeByAddr p,
                                      td_trace = structLogs\<rparr>)\<rparr>
                             else ended (out3 @ gasReport tx receipt entryAddr structLogs p) (Inr True))"

definition gasMain :: "gas_outside \<Rightarrow> gas_argv \<Rightarrow> gas_run" where
  "gasMain W argv =
     (let file = go_dumpFile W (ga_target argv);
          dump = (case file of Dump d \<Rightarrow> Some d | _ \<Rightarrow> None)
      in if file = NotJson then ended [] (Inl (External ''SyntaxError''))
         else if dump \<noteq> None \<and> given (ga_dumpTo argv)
         then ended [Text ''Dumping the trace is only supported when not running from a dump''] (Inr False)
         else if dump = None \<and> \<not> isValidTransactionId (ga_target argv)
         then ended [Text (''Dump file '' @ ga_target argv @ '' not found'')] (Inr False)
         else
           (case bindR (go_solcOutput W (ga_solcOutput argv)) (\<lambda>(contracts, sources).
                 bindR (sourceReader W argv) (\<lambda>reader.
                 bindR (if dump = None then gn_version (go_node W (ga_rpcEndpoint argv)) else Inr []) (\<lambda>_.
                 Inr (profEnv W argv dump contracts sources reader)))) of
              Inl e \<Rightarrow> ended [] (Inl e)
            | Inr E \<Rightarrow>
                (case readTransaction W argv dump of
                   None \<Rightarrow> ended [Text ''Transaction not found''] (Inr False)
                 | Some (tx, receipt) \<Rightarrow> profileTx E argv (readTrace W argv dump) tx receipt)))"

section \<open>The columns of the report\<close>

lemma length_dec_digits_mono: "0 \<le> a \<Longrightarrow> a \<le> b \<Longrightarrow> length (dec_digits a) \<le> length (dec_digits b)"
proof (induction b arbitrary: a rule: dec_digits.induct)
  case (1 b)
  show ?case
  proof (cases "b < 10")
    case True
    with 1 show ?thesis by (simp add: dec_digits.simps [of a] dec_digits.simps [of b])
  next
    case False
    note b = this
    show ?thesis
    proof (cases "a < 10")
      case True
      then show ?thesis by (simp add: dec_digits.simps [of a] Suc_le_eq)
    next
      case False
      have "length (dec_digits (a div 10)) \<le> length (dec_digits (b div 10))"
        using 1(1) [OF b, of "a div 10"] 1(2,3) by (simp add: zdiv_mono1)
      with False b show ?thesis by (simp add: dec_digits.simps [of a] dec_digits.simps [of b])
    qed
  qed
qed

lemma length_padStart: "length s \<le> n \<Longrightarrow> length (padStart s n c) = n"
  by (simp add: padStart_def)

lemma length_padCenter: "length s \<le> n \<Longrightarrow> length (padCenter s n c) = n"
  by (auto simp: padCenter_def Let_def)

lemma fold_max_ge:
  "m \<le> fold (\<lambda>(l, g) m. if m < g then g else m) ps m" for m :: int
proof (induction ps arbitrary: m)
  case (Cons a ps)
  obtain l g where a: "a = (l, g)" by (cases a)
  show ?case
  proof (cases "m < g")
    case True
    with Cons.IH [of g] show ?thesis by (simp add: a)
  qed (simp add: a Cons.IH)
qed simp

lemma fold_max_mem:
  "(l, g) \<in> set ps \<Longrightarrow> g \<le> fold (\<lambda>(l, g) m. if m < g then g else m) ps m" for m :: int
proof (induction ps arbitrary: m)
  case (Cons a ps)
  then show ?case
    using fold_max_ge [of g ps] fold_max_ge [of m ps] by auto
qed simp

lemma fold_files_ge:
  "m \<le> fold (\<lambda>(f, s) m. fold (\<lambda>(l, g) m. if m < g then g else m) (src_lineGas s) m) srcs m" for m :: int
proof (induction srcs arbitrary: m)
  case (Cons a srcs)
  obtain f s where a: "a = (f, s)" by (cases a)
  have "m \<le> fold (\<lambda>(l, g) m. if m < g then g else m) (src_lineGas s) m" by (rule fold_max_ge)
  also have "\<dots> \<le> fold (\<lambda>(f, s) m. fold (\<lambda>(l, g) m. if m < g then g else m) (src_lineGas s) m) srcs \<dots>"
    by (rule Cons.IH)
  finally show ?case by (simp add: a)
qed simp

lemma fold_files_mem:
  "(f, s) \<in> set srcs \<Longrightarrow> (l, g) \<in> set (src_lineGas s) \<Longrightarrow>
     g \<le> fold (\<lambda>(f, s) m. fold (\<lambda>(l, g) m. if m < g then g else m) (src_lineGas s) m) srcs m" for m :: int
proof (induction srcs arbitrary: m)
  case (Cons a srcs)
  show ?case
  proof (cases "a = (f, s)")
    case True
    have "g \<le> fold (\<lambda>(l, g) m. if m < g then g else m) (src_lineGas s) m"
      using Cons.prems(2) by (rule fold_max_mem)
    also have "\<dots> \<le> fold (\<lambda>(f, s) m. fold (\<lambda>(l, g) m. if m < g then g else m) (src_lineGas s) m) srcs \<dots>"
      by (rule fold_files_ge)
    finally show ?thesis by (simp add: True)
  next
    case False
    with Cons show ?thesis by (cases a) auto
  qed
qed simp

lemma gs_max_bounds:
  "0 \<le> gs_maxGasPerLine (summarize p)"
  "f \<in> set (sourceByFilename p) \<Longrightarrow> line_gas (src_lineGas (sourceOfFile p f)) l \<le> gs_maxGasPerLine (summarize p)"
proof -
  show nn: "0 \<le> gs_maxGasPerLine (summarize p)"
    unfolding summarize_def Let_def by (simp add: fold_files_ge)
  assume f: "f \<in> set (sourceByFilename p)"
  show "line_gas (src_lineGas (sourceOfFile p f)) l \<le> gs_maxGasPerLine (summarize p)"
  proof (cases "map_of (src_lineGas (sourceOfFile p f)) l")
    case None
    with nn show ?thesis by (simp add: line_gas_def)
  next
    case (Some g)
    have "(fst f, sourceOfFile p f) \<in> set (map (\<lambda>f. (fst f, sourceOfFile p f)) (sourceByFilename p))"
      using f by force
    from fold_files_mem [OF this map_of_SomeD [OF Some]] Some show ?thesis
      by (simp add: summarize_def Let_def line_gas_def)
  qed
qed

definition aligned :: "nat \<Rightarrow> out_line \<Rightarrow> bool" where
  "aligned col l =
     (case l of GasRow isCall gasText lineText \<Rightarrow> length gasText = col
      | TitleRow t \<Rightarrow> length t = col + 2 | TopRule n \<Rightarrow> n = col + 2 | MidRule n \<Rightarrow> n = col + 2
      | BottomRule n \<Rightarrow> n = col + 2 | Text t \<Rightarrow> True)"

lemma line_gas_nonneg:
  assumes "lines_nonneg p"
  shows "0 \<le> line_gas (src_lineGas (sourceOfFile p f)) l"
proof (cases "map_of (sourceById p) (snd f)")
  case None
  then show ?thesis by (simp add: sourceOfFile_def makeSource_def line_gas_def)
next
  case (Some s)
  then have "list_all (\<lambda>(l, g). 0 \<le> g) (src_lineGas s)"
    using assms unfolding lines_nonneg_def by (rule list_all_map_of [rotated])
  with Some show ?thesis
    by (auto simp: sourceOfFile_def line_gas_def split: option.splits dest: list_all_map_of)
qed

lemma fileTable_aligned:
  assumes "lines_nonneg p" "f \<in> set (sourceByFilename p)"
  shows "list_all (aligned (gasColLength p)) (fileTable p f)"
proof -
  have "length (dec_int (line_gas (src_lineGas (sourceOfFile p f)) i)) \<le> gasColLength p" for i
    using line_gas_nonneg [OF assms(1), of f i] gs_max_bounds(2) [OF assms(2), of i] gs_max_bounds(1) [of p]
    by (simp add: gasColLength_def dec_int_def length_dec_digits_mono le_max_iff_disj)
  then have "length (padStart (dec_int g) (gasColLength p) c) = gasColLength p"
    if "(b, g, t) \<in> set (reportRows p f)" for b g t c
    using that by (auto simp: reportRows_def Let_def length_padStart split: option.splits if_splits)
  moreover have "length (padCenter ''GAS'' (gasColLength p + 2) (CHR '' '')) = gasColLength p + 2"
    by (rule length_padCenter) (simp add: gasColLength_def)
  ultimately show ?thesis
    by (auto simp: fileTable_def Let_def aligned_def list_all_iff)
qed

section \<open>What the bookkeeping keeps\<close>

text \<open>
  The contract of the operations the trace loop is made of: a predicate that each of them keeps
  holds all along a trace.
\<close>

locale prof_invariant =
  fixes E :: prof_env and Q :: "prof \<Rightarrow> bool"
  assumes keep_contract: "Q p \<Longrightarrow> Q (updContract k f p)"
    and keep_line: "Q p \<Longrightarrow> Q (increaseLineGasCost s l g b p)"
    and keep_source: "Q p \<Longrightarrow> Q (getSourceWithId E i p)"
    and keep_load: "Q p \<Longrightarrow> Q (getContractWithAddr E a p)"
begin

lemma keep_pop: "popCall E' pl lg p st = Inr (p', st') \<Longrightarrow> Q p \<Longrightarrow> Q p'"
  by (auto simp: popCall_def Let_def keep_contract keep_line split: option.splits list.splits if_splits)

lemma keep_unwind: "unwind E' b pl lg p st = Inr (p', st') \<Longrightarrow> Q p \<Longrightarrow> Q p'"
proof (induction E' b pl lg p st rule: unwind.induct)
  case (1 E' b pl lg p st)
  show ?case
  proof (cases "tl_depth lg - b < int (length st) - 1")
    case True
    with "1.prems" obtain q sq where q: "popCall E' pl lg p st = Inr (q, sq)" "length sq < length st"
      "unwind E' b pl lg q sq = Inr (p', st')"
      by (subst (asm) unwind.simps) (auto split: sum.splits prod.splits if_splits)
    from keep_pop [OF q(1) "1.prems"(2)] show ?thesis by (rule "1.IH" [OF True q(1) refl q(2,3)])
  next
    case False
    with "1.prems" show ?thesis by (subst (asm) unwind.simps) auto
  qed
qed

lemma keep_note: "Q p \<Longrightarrow> Q (noteSource k i p)"
  by (auto simp: noteSource_def keep_contract split: option.splits)

lemma keep_charge: "Q p \<Longrightarrow> Q (chargeOp E' call info line g p)"
  by (auto simp: chargeOp_def keep_contract keep_line)

lemma keep_body: "stepBody E b lg later q info = Inr q' \<Longrightarrow> Q (fst q) \<Longrightarrow> Q (fst q')"
  by (auto simp: stepBody_def Let_def bindR_eq_Inr enterCall_def keep_note keep_charge keep_source keep_load
      split: if_splits option.splits)

lemma keep_step:
  assumes "profStep E b pl lg later (p, st) = Inr ps'" "Q p"
  shows "Q (fst ps')"
proof -
  from assms(1) obtain q info where q: "unwind E b pl lg p st = Inr q" "stepBody E b lg later q info = Inr ps'"
    by (rule profStep_Inr)
  with assms(2) keep_unwind [of E b pl lg p st "fst q" "snd q"] show ?thesis
    by (simp add: keep_body [OF q(2)])
qed

lemma keep_logs: "profLogs E b pl logs ps = Inr ps' \<Longrightarrow> Q (fst ps) \<Longrightarrow> Q (fst ps')"
proof (induction logs arbitrary: pl ps)
  case (Cons lg later)
  obtain p st where ps: "ps = (p, st)" by (cases ps)
  with Cons.prems obtain ps1 where "profStep E b pl lg later (p, st) = Inr ps1" "profLogs E b (Some lg) later ps1 = Inr ps'"
    by (auto simp: bindR_eq_Inr)
  with Cons.prems(2) ps show ?case by (auto dest: keep_step intro: Cons.IH)
qed simp

lemma keep_trace: "profileTrace E a c logs = Inr p \<Longrightarrow> Q emptyProf \<Longrightarrow> Q p"
  by (auto simp: profileTrace_def Let_def bindR_eq_Inr split: if_splits
      dest!: keep_logs intro!: keep_contract keep_load)

end

definition known :: "prof \<Rightarrow> string set" where
  "known p = fst ` set (contractByAddr p)"

lemma known_updContract [simp]: "known (updContract k f p) = known p"
proof (cases "map_of (contractByAddr p) k")
  case (Some c)
  then have "k \<in> fst ` set (contractByAddr p)" by (force dest: map_of_SomeD)
  with Some show ?thesis by (auto simp: known_def updContract_def keys_obj_set)
qed (simp add: updContract_def)

lemma known_frame [simp]:
  "known (increaseLineGasCost s l g b p) = known p" "known (getSourceWithId E i p) = known p"
  by (simp_all add: known_def increaseLineGasCost_def getSourceWithId_def split: option.splits)

lemma known_load [simp]: "known (getContractWithAddr E a p) = insert (contractKey a) (known p)"
proof (cases "map_of (contractByAddr p) (contractKey a)")
  case None
  then show ?thesis
    by (auto simp: getContractWithAddr_def Let_def known_def keys_obj_set split: option.splits)
next
  case (Some c)
  then have "contractKey a \<in> fst ` set (contractByAddr p)" by (force dest: map_of_SomeD)
  with Some show ?thesis by (auto simp: getContractWithAddr_def Let_def known_def)
qed

text \<open>Contracts are never forgotten.\<close>

interpretation grows: prof_invariant E "\<lambda>p. K \<subseteq> known p" for E K
  by unfold_locales auto

text \<open>The code of an address as the profiler uses it: absent when it is empty.\<close>

definition codeOf :: "(string \<Rightarrow> string option) \<Rightarrow> string \<Rightarrow> string option" where
  "codeOf f k = (case f k of None \<Rightarrow> None | Some c \<Rightarrow> if strip0x c = [] then None else Some (strip0x c))"

text \<open>While a dump is being collected, it records the code of every contract that has any.\<close>

definition recorded :: "prof_env \<Rightarrow> prof \<Rightarrow> bool" where
  "recorded E p \<longleftrightarrow>
     fst ` set (codeByAddr p) \<subseteq> known p \<and>
     (pe_dumping E \<and> \<not> pe_isDump E \<longrightarrow>
       (\<forall>k\<in>known p. codeOf (map_of (codeByAddr p)) k = codeOf (pe_codeAt E) k))"

lemma codeByAddr_frame [simp]:
  "codeByAddr (updContract k f p) = codeByAddr p"
  "codeByAddr (increaseLineGasCost s l g b p) = codeByAddr p"
  "codeByAddr (getSourceWithId E i p) = codeByAddr p"
  by (simp_all add: updContract_def increaseLineGasCost_def getSourceWithId_def split: option.splits)

lemma recorded_load:
  assumes "recorded E p"
  shows "recorded E (getContractWithAddr E a p)"
proof (cases "map_of (contractByAddr p) (contractKey a)")
  case (Some c)
  with assms show ?thesis by (simp add: getContractWithAddr_def Let_def)
next
  case None
  then have new: "contractKey a \<notin> known p" by (simp add: known_def map_of_eq_None_iff)
  then have "map_of (codeByAddr p) (contractKey a) = None"
    using assms by (auto simp: recorded_def map_of_eq_None_iff)
  moreover have "codeByAddr (getContractWithAddr E a p) =
      (if pe_dumping E \<and> \<not> pe_isDump E \<and> codeOf (pe_codeAt E) (contractKey a) \<noteq> None
       then obj_set (contractKey a) (the (pe_codeAt E (contractKey a))) (codeByAddr p) else codeByAddr p)"
    using None by (auto simp: getContractWithAddr_def Let_def codeOf_def split: option.splits)
  ultimately show ?thesis
    using assms new by (auto simp: recorded_def codeOf_def keys_obj_set split: option.splits if_splits)
qed

lemma recorded_frame:
  "recorded E (updContract k f p) = recorded E p" "recorded E (increaseLineGasCost s l g b p) = recorded E p"
  "recorded E (getSourceWithId E' i p) = recorded E p"
  by (simp_all add: recorded_def)

interpretation dumped: prof_invariant E "recorded E" for E
  by unfold_locales (simp_all add: recorded_frame recorded_load)

section \<open>Replaying\<close>

text \<open>
  A run that does not collect code (\<open>mute\<close>) does the same as one that does, up to the collected
  code (\<open>forget\<close>).
\<close>

definition mute :: "prof_env \<Rightarrow> prof_env" where
  "mute E = E\<lparr>pe_isDump := True, pe_dumping := False\<rparr>"

definition forget :: "prof \<Rightarrow> prof" where
  "forget p = p\<lparr>codeByAddr := []\<rparr>"

abbreviation forgetR :: "(prof \<times> 'a) res \<Rightarrow> (prof \<times> 'a) res" where
  "forgetR \<equiv> map_sum id (apfst forget)"

lemma forget_fields [simp]:
  "contractByAddr (forget p) = contractByAddr p" "sourceById (forget p) = sourceById p"
  "sourceByFilename (forget p) = sourceByFilename p"
  by (simp_all add: forget_def)

lemma mute_fields [simp]:
  "pe_codeAt (mute E) = pe_codeAt E" "pe_contracts (mute E) = pe_contracts E" "pe_sources (mute E) = pe_sources E"
  "pe_readSource (mute E) = pe_readSource E" "pe_skipFiles (mute E) = pe_skipFiles E"
  "pe_closest (mute E) = pe_closest E" "pe_onlyAddress (mute E) = pe_onlyAddress E"
  "pe_isDump (mute E)" "\<not> pe_dumping (mute E)"
  by (simp_all add: mute_def)

lemma forget_ops [simp]:
  "updContract k f (forget p) = forget (updContract k f p)"
  "increaseLineGasCost s l g b (forget p) = forget (increaseLineGasCost s l g b p)"
  "getSourceWithId (mute E) i (forget p) = forget (getSourceWithId E i p)"
  "getContractWithAddr (mute E) a (forget p) = forget (getContractWithAddr E a p)"
  by (simp_all add: updContract_def increaseLineGasCost_def getSourceWithId_def getContractWithAddr_def
      forget_def Let_def loadSource_def fillContract_def split: option.splits)

lemma forget_more [simp]:
  "noteSource k i (forget p) = forget (noteSource k i p)"
  "chargeOp (mute E) call info line g (forget p) = forget (chargeOp E call info line g p)"
  "lineOf (mute E) (forget p) si offset = lineOf E p si offset"
  "contractOf (forget p) call = contractOf p call"
  "getSourceInfo (forget p) call lg = getSourceInfo p call lg"
  "enterCall (mute E) t c lg n s l idx (forget p) st = apfst forget (enterCall E t c lg n s l idx p st)"
  by (simp_all add: noteSource_def chargeOp_def lineOf_def contractOf_def getSourceInfo_def enterCall_def reports_def
      Let_def split: option.splits)

lemma forget_pop: "popCall (mute E) pl lg (forget p) st = forgetR (popCall E pl lg p st)"
  by (simp add: popCall_def Let_def reports_def split: option.splits list.splits) (auto simp: butlast_append)

lemma forget_unwind: "unwind (mute E) b pl lg (forget p) st = forgetR (unwind E b pl lg p st)"
proof (induction E b pl lg p st rule: unwind.induct)
  case (1 E b pl lg p st)
  show ?case
  proof (cases "tl_depth lg - b < int (length st) - 1")
    case deep: True
    show ?thesis
    proof (cases "popCall E pl lg p st")
      case (Inl e)
      with deep show ?thesis
        by (simp add: unwind.simps [of "mute E"] unwind.simps [of E] forget_pop)
    next
      case (Inr q)
      obtain p' st' where q: "q = (p', st')" by (cases q)
      show ?thesis
        using "1.IH" [OF deep Inr [unfolded q] refl] deep Inr q
        by (simp add: unwind.simps [of "mute E" b pl lg "forget p"] unwind.simps [of E b pl lg p] forget_pop)
    qed
  qed (simp add: unwind.simps [of "mute E"] unwind.simps [of E])
qed

lemma forget_body:
  "stepBody (mute E) b lg later (apfst forget q) info = forgetR (stepBody E b lg later q info)"
proof -
  obtain p st where q: "q = (p, st)" by (cases q)
  show ?thesis
    by (cases "si_sourceId info"; cases "tl_depth (hd later) = tl_depth lg + 1")
       (simp_all add: stepBody_def Let_def q assertR_def)
qed

lemma forget_step:
  "profStep (mute E) b pl lg later (forget p, st) = forgetR (profStep E b pl lg later (p, st))"
proof (cases "unwind E b pl lg p st")
  case (Inl e)
  then show ?thesis by (simp add: profStep_body forget_unwind)
next
  case (Inr q)
  then show ?thesis
    by (cases "getSourceInfo (fst q) (snd q ! nat (tl_depth lg - b)) lg")
       (simp_all add: profStep_body forget_unwind forget_body assertR_def)
qed

lemma forget_logs:
  "profLogs (mute E) b pl logs (forget p, st) = forgetR (profLogs E b pl logs (p, st))"
proof (induction logs arbitrary: pl p st)
  case (Cons lg later)
  then show ?case by (cases "profStep E b pl lg later (p, st)") (auto simp: forget_step)
qed simp

lemma forget_empty [simp]: "forget emptyProf = emptyProf"
  by (simp add: forget_def emptyProf_def)

lemma load_mute_empty: "getContractWithAddr (mute E) a emptyProf = forget (getContractWithAddr E a emptyProf)"
  by (subst forget_empty [symmetric]) (rule forget_ops)

lemma forget_trace:
  "profileTrace (mute E) a c logs = map_sum id forget (profileTrace E a c logs)"
proof -
  let ?ci = "(makeCallStackItem (contractKey a) a)\<lparr>ci_isConstructionCall := c\<rparr>"
  show ?thesis
    by (cases "profLogs E (tl_depth (hd logs)) None logs (getContractWithAddr E a emptyProf, [?ci])")
       (auto simp: profileTrace_def Let_def load_mute_empty forget_logs)
qed

text \<open>Only the code of contracts that are loaded matters.\<close>

definition recode :: "(string \<Rightarrow> string option) \<Rightarrow> prof_env \<Rightarrow> prof_env" where
  "recode f E = E\<lparr>pe_codeAt := f\<rparr>"

definition same_code :: "(string \<Rightarrow> string option) \<Rightarrow> prof_env \<Rightarrow> string set \<Rightarrow> bool" where
  "same_code f E K \<longleftrightarrow> (\<forall>k\<in>K. codeOf f k = codeOf (pe_codeAt E) k)"

lemma recode_ops [simp]:
  "getSourceWithId (recode f E) i p = getSourceWithId E i p"
  "lineOf (recode f E) p si offset = lineOf E p si offset"
  "chargeOp (recode f E) call info line g p = chargeOp E call info line g p"
  "popCall (recode f E) pl lg p st = popCall E pl lg p st"
  by (simp_all add: recode_def getSourceWithId_def loadSource_def lineOf_def chargeOp_def popCall_def reports_def
      Let_def butlast_append split: option.splits list.splits)

lemma mute_load:
  "getContractWithAddr (mute E) a p =
     (case map_of (contractByAddr p) (contractKey a) of
        Some c \<Rightarrow> p
      | None \<Rightarrow> p\<lparr>contractByAddr := obj_set (contractKey a)
          (case codeOf (pe_codeAt E) (contractKey a) of None \<Rightarrow> makeContract | Some c \<Rightarrow> fillContract E c)
          (contractByAddr p)\<rparr>)"
  by (simp add: getContractWithAddr_def codeOf_def Let_def fillContract_def split: option.splits)

lemma recode_load:
  assumes "same_code f E K" "contractKey a \<in> K"
  shows "getContractWithAddr (recode f (mute E)) a p = getContractWithAddr (mute E) a p"
proof -
  have "recode f (mute E) = mute (recode f E)" by (simp add: recode_def mute_def)
  moreover have "codeOf (pe_codeAt (recode f E)) (contractKey a) = codeOf (pe_codeAt E) (contractKey a)"
    using assms by (simp add: same_code_def recode_def)
  moreover have "fillContract (recode f E) = fillContract E"
    by (simp add: fun_eq_iff fillContract_def recode_def)
  ultimately show ?thesis by (simp add: mute_load cong: option.case_cong)
qed

lemma recode_unwind: "unwind (recode f E) b pl lg p st = unwind E b pl lg p st"
proof (induction E b pl lg p st rule: unwind.induct)
  case (1 E b pl lg p st)
  then show ?case
    by (subst (1 2) unwind.simps) (auto split: sum.splits prod.splits)
qed

lemma recode_body:
  assumes "stepBody (mute E) b lg later q info = Inr q'" "same_code f E (known (fst q'))"
  shows "stepBody (recode f (mute E)) b lg later q info = Inr q'"
proof (cases "entersCall lg later")
  case True
  let ?a = "the (fst (getCallTarget lg later))"
  have "contractKey ?a \<in> known (fst q')"
    using assms(1) True by (auto simp: stepBody_def Let_def bindR_eq_Inr enterCall_def)
  from recode_load [OF assms(2) this] assms(1) True show ?thesis
    by (simp add: stepBody_def Let_def enterCall_def cong: option.case_cong)
next
  case False
  with assms(1) show ?thesis by (simp add: stepBody_def Let_def cong: option.case_cong)
qed

lemma recode_step:
  assumes "profStep (mute E) b pl lg later (p, st) = Inr q'" "same_code f E (known (fst q'))"
  shows "profStep (recode f (mute E)) b pl lg later (p, st) = Inr q'"
proof -
  from assms(1) obtain q info where q: "unwind (mute E) b pl lg p st = Inr q"
    "int (length (snd q)) = tl_depth lg - b + 1"
    "getSourceInfo (fst q) (snd q ! nat (tl_depth lg - b)) lg = Inr info"
    "stepBody (mute E) b lg later q info = Inr q'"
    by (rule profStep_Inr)
  from assms(1) have c: "snd q \<noteq> []" "\<not> (tl_depth lg - b < 0 \<or> int (length (snd q)) \<le> tl_depth lg - b)"
    by (auto simp: profStep_body q(1) assertR_def split: if_splits)
  show ?thesis
    using c by (simp add: profStep_body recode_unwind q(1,3) recode_body [OF q(4) assms(2)] assertR_def)
qed

lemma recode_logs:
  "profLogs (mute E) b pl logs (p, st) = Inr q' \<Longrightarrow> same_code f E (known (fst q')) \<Longrightarrow>
     profLogs (recode f (mute E)) b pl logs (p, st) = Inr q'"
proof (induction logs arbitrary: pl p st)
  case (Cons lg later)
  from Cons.prems(1) obtain p1 st1 where s: "profStep (mute E) b pl lg later (p, st) = Inr (p1, st1)"
    and r: "profLogs (mute E) b (Some lg) later (p1, st1) = Inr q'"
    by (auto simp: bindR_eq_Inr)
  have "known p1 \<subseteq> known (fst q')" using grows.keep_logs [OF r, of "known p1"] by simp
  with Cons.prems(2) have "same_code f E (known p1)" by (auto simp: same_code_def)
  with s have "profStep (recode f (mute E)) b pl lg later (p, st) = Inr (p1, st1)"
    by (simp add: recode_step)
  with r Cons.prems(2) show ?case by (simp add: Cons.IH)
qed simp

lemma recode_trace:
  assumes "profileTrace (mute E) a c logs = Inr p" "same_code f E (known p)"
  shows "profileTrace (recode f (mute E)) a c logs = Inr p"
proof -
  let ?ci = "(makeCallStackItem (contractKey a) a)\<lparr>ci_isConstructionCall := c\<rparr>"
  from assms(1) have ne: "logs \<noteq> []" by (auto simp: profileTrace_def split: if_splits)
  with assms(1) obtain q st where
    r: "profLogs (mute E) (tl_depth (hd logs)) None logs (getContractWithAddr (mute E) a emptyProf, [?ci]) = Inr (q, st)"
    and p: "p = updContract (contractKey a) (\<lambda>c. c\<lparr>c_totalGasCost :=
       tl_gas (hd logs) - tl_gas (last logs) + getGasCost (last logs) None\<rparr>) q"
    by (auto simp: profileTrace_def Let_def bindR_eq_Inr)
  have k: "known p = known q" by (simp add: p)
  have "contractKey a \<in> known q" using grows.keep_logs [OF r, of "{contractKey a}"] by simp
  then have l: "getContractWithAddr (recode f (mute E)) a emptyProf = getContractWithAddr (mute E) a emptyProf"
    using recode_load [OF assms(2)] k by simp
  have "profLogs (recode f (mute E)) (tl_depth (hd logs)) None logs
      (getContractWithAddr (mute E) a emptyProf, [?ci]) = Inr (q, st)"
    using recode_logs [OF r] assms(2) k by simp
  with ne show ?thesis by (simp add: profileTrace_def Let_def l p)
qed

lemma trace_knows: "profileTrace E a c logs = Inr p \<Longrightarrow> contractKey a \<in> known p"
  by (auto simp: profileTrace_def Let_def bindR_eq_Inr split: if_splits dest!: grows.keep_logs [of _ _ _ _ _ _ "{contractKey a}"])

text \<open>
  A run that collected a dump, and the run without collecting: the same profile up to the collected
  code, from which the replay recovers it.
\<close>

lemma replay_trace:
  assumes "profileTrace E a c logs = Inr p" "pe_dumping E" "\<not> pe_isDump E"
  shows "profileTrace (recode (map_of (codeByAddr p)) (mute E)) a c logs = Inr (forget p)"
    and "profileTrace (mute E) a c logs = Inr (forget p)"
    and "getContractWithAddr (recode (map_of (codeByAddr p)) (mute E)) a emptyProf = getContractWithAddr (mute E) a emptyProf"
proof -
  show m: "profileTrace (mute E) a c logs = Inr (forget p)" using assms(1) by (simp add: forget_trace)
  have "recorded E p"
    by (rule dumped.keep_trace [OF assms(1)]) (simp add: recorded_def emptyProf_def known_def)
  then have sc: "same_code (map_of (codeByAddr p)) E (known (forget p))"
    using assms(2,3) by (simp add: recorded_def same_code_def known_def)
  have "contractKey a \<in> known (forget p)" using trace_knows [OF assms(1)] by (simp add: known_def)
  with sc show "getContractWithAddr (recode (map_of (codeByAddr p)) (mute E)) a emptyProf =
      getContractWithAddr (mute E) a emptyProf"
    by (rule recode_load)
  from m sc show "profileTrace (recode (map_of (codeByAddr p)) (mute E)) a c logs = Inr (forget p)"
    by (rule recode_trace)
qed

lemma report_forget [simp]: "gasReport tx receipt a logs (forget p) = gasReport tx receipt a logs p"
proof -
  have s: "sourceOfFile (forget p) = sourceOfFile p" by (simp add: fun_eq_iff sourceOfFile_def)
  then have "summarize (forget p) = summarize p" "reportRows (forget p) = reportRows p"
    by (simp_all only: summarize_def reportRows_def fun_eq_iff s forget_fields simp_thms)
  then have "fileTable (forget p) = fileTable p"
    unfolding fun_eq_iff fileTable_def gasColLength_def by simp
  then have "gasTables (forget p) = gasTables p" by (simp add: gasTables_def)
  moreover have "callsNote (forget p) = callsNote p"
    using \<open>summarize (forget p) = summarize p\<close> by (simp add: callsNote_def)
  moreover have "contractFileNames (forget p) = contractFileNames p"
    by (simp add: fun_eq_iff contractFileNames_def)
  then have "contractLines (forget p) = contractLines p"
    by (simp add: fun_eq_iff contractLines_def Let_def split: option.splits)
  ultimately show ?thesis by (simp add: gasReport_def)
qed

lemma entryLine_forget: "entryLine (mute E) (forget p) call lg = entryLine E p call lg"
  by (simp add: entryLine_def Let_def split: sum.splits option.splits)

lemma entryLine_recode: "entryLine (recode f E) p call lg = entryLine E p call lg"
  by (simp add: entryLine_def Let_def split: sum.splits option.splits)

text \<open>Without a file to dump to, a run does not depend on whether code is collected.\<close>

lemma profileTx_mute:
  assumes "\<not> given (ga_dumpTo argv)"
  shows "profileTx (mute E) argv traceR tx receipt = profileTx E argv traceR tx receipt"
proof (cases traceR)
  case (Inr logs)
  then show ?thesis using assms
    by (cases "profileTrace E (the (entryAddrOf tx receipt)) (isEntryConstruction tx receipt) logs")
       (simp_all add: profileTx_def Let_def load_mute_empty entryLine_forget forget_trace)
qed (simp add: profileTx_def Let_def load_mute_empty)

text \<open>The run from a dump and the run from the node, given their environments.\<close>

lemma profileTx_replay:
  assumes run: "profileTx E argv traceR tx receipt = r" "gr_written r = Some (f, d)"
    and E: "pe_dumping E" "\<not> pe_isDump E"
    and quiet: "\<not> given (ga_dumpTo argv')"
  shows "td_tx d = tx" "td_receipt d = receipt" "f = the (ga_dumpTo argv)" "given (ga_dumpTo argv)"
    and "profileTx (recode (map_of (td_codeByAddr d)) (mute E)) argv' (Inr (td_trace d)) tx receipt =
         profileTx (E\<lparr>pe_dumping := False\<rparr>) argv' traceR tx receipt"
proof -
  let ?a = "the (entryAddrOf tx receipt)" and ?c = "isEntryConstruction tx receipt"
  let ?ci = "(makeCallStackItem (contractKey ?a) ?a)\<lparr>ci_isConstructionCall := ?c\<rparr>"
  from run obtain logs p where t: "traceR = Inr logs" "logs \<noteq> []" and e: "given (entryAddrOf tx receipt)"
    and c: "c_codeHexStr (contractOf (getContractWithAddr E ?a emptyProf) ?ci) \<noteq> None"
    and p: "profileTrace E ?a ?c logs = Inr p" and g: "given (ga_dumpTo argv)"
    and r: "gr_written r = Some (the (ga_dumpTo argv), \<lparr>td_tx = tx, td_receipt = receipt,
       td_codeByAddr = codeByAddr p, td_trace = logs\<rparr>)"
    by (auto simp: profileTx_def Let_def ended_def split: if_splits sum.splits)
  from r run(2) have d: "d = \<lparr>td_tx = tx, td_receipt = receipt, td_codeByAddr = codeByAddr p, td_trace = logs\<rparr>"
    and "f = the (ga_dumpTo argv)" by auto
  with g show "td_tx d = tx" "td_receipt d = receipt" "f = the (ga_dumpTo argv)" "given (ga_dumpTo argv)" by simp_all
  show "profileTx (recode (map_of (td_codeByAddr d)) (mute E)) argv' (Inr (td_trace d)) tx receipt =
         profileTx (E\<lparr>pe_dumping := False\<rparr>) argv' traceR tx receipt"
  proof -
    let ?R = "recode (map_of (codeByAddr p)) (mute E)"
    have "profileTx (E\<lparr>pe_dumping := False\<rparr>) argv' traceR tx receipt = profileTx (mute E) argv' traceR tx receipt"
      using profileTx_mute [OF quiet, of E traceR tx receipt]
        profileTx_mute [OF quiet, of "E\<lparr>pe_dumping := False\<rparr>" traceR tx receipt] by (simp add: mute_def)
    moreover have "getContractWithAddr ?R ?a emptyProf = getContractWithAddr (mute E) ?a emptyProf"
      using replay_trace(3) [OF p E] .
    moreover have "pe_onlyAddress ?R = pe_onlyAddress (mute E)" by (simp add: recode_def)
    ultimately show ?thesis
      using replay_trace [OF p E] quiet t
      by (simp add: profileTx_def Let_def d entryLine_recode)
  qed
qed

section \<open>Properties\<close>

text \<open>
  C28: a dump replays: when a run against the node has written a dump, a run from that dump, with
  the same compiler output and sources but any node, prints and returns what a run against the node
  without dumping does.
\<close>

theorem dump_replays:
  assumes dumping: "gr_written (gasMain W argv) = Some (f, d)"
    and source: "go_dumpFile W (ga_target argv) = NoFile"
    and quiet: "argv0 = argv\<lparr>ga_dumpTo := None\<rparr>"
    and replay: "argv' = argv0\<lparr>ga_target := f\<rparr>"
    and outside: "W' = W\<lparr>go_dumpFile := (go_dumpFile W)(f := Dump d), go_node := any_node\<rparr>"
  shows "gasMain W' argv' = gasMain W argv0 \<and> ga_dumpTo argv = Some f"
proof -
  from dumping source obtain contracts sources reader E tx receipt ver where
    v: "isValidTransactionId (ga_target argv)"
    and solc: "go_solcOutput W (ga_solcOutput argv) = Inr (contracts, sources)" "sourceReader W argv = Inr reader"
    and ver: "gn_version (go_node W (ga_rpcEndpoint argv)) = Inr ver"
    and E: "E = profEnv W argv None contracts sources reader"
    and rt: "readTransaction W argv None = Some (tx, receipt)"
    and w: "gr_written (profileTx E argv (readTrace W argv None) tx receipt) = Some (f, d)"
    by (auto simp: gasMain_def Let_def ended_def bindR_eq_Inr split: if_splits sum.splits option.splits)
  have nd: "\<not> given (ga_dumpTo argv')" by (simp add: replay quiet given_def)
  have nd0: "\<not> given (ga_dumpTo argv0)" by (simp add: quiet given_def)
  have "given (ga_dumpTo argv)"
    using w by (auto simp: profileTx_def Let_def ended_def split: if_splits sum.splits)
  then have pe: "pe_dumping E" "\<not> pe_isDump E" by (simp_all add: E profEnv_def)
  note R = profileTx_replay [OF refl w pe]
  have "readSourceFromDisk W' = readSourceFromDisk W"
    by (intro ext) (simp add: readSourceFromDisk_def outside split: option.splits)
  then have reader: "sourceReader W argv0 = Inr reader" "sourceReader W' argv' = Inr reader"
    using solc(2) by (simp_all add: sourceReader_def quiet replay outside split: if_splits)
  have E0: "profEnv W argv0 None contracts sources reader = E\<lparr>pe_dumping := False\<rparr>"
    by (simp add: E profEnv_def quiet onlyAddressOf_def given_def)
  have E': "profEnv W' argv' (Some d) contracts sources reader = recode (map_of (td_codeByAddr d)) (mute E)"
    by (simp add: E profEnv_def quiet replay outside onlyAddressOf_def given_def recode_def mute_def)
  have live: "gasMain W argv0 = profileTx (E\<lparr>pe_dumping := False\<rparr>) argv0 (readTrace W argv None) tx receipt"
    using rt by (simp add: gasMain_def Let_def quiet source v solc ver E0 [unfolded quiet] reader [unfolded quiet]
        given_def readTransaction_def readTrace_def)
  have solc': "go_solcOutput W' (ga_solcOutput argv') = Inr (contracts, sources)"
    by (simp add: solc outside replay quiet)
  have dump': "go_dumpFile W' (ga_target argv') = Dump d" by (simp add: outside replay)
  have rep: "gasMain W' argv' = profileTx (recode (map_of (td_codeByAddr d)) (mute E)) argv' (Inr (td_trace d)) tx receipt"
    using R(1,2) [OF nd] by (simp add: gasMain_def dump' nd solc' reader E' readTransaction_def readTrace_def)
  have same: "ga_dumpTo argv' = ga_dumpTo argv0" by (simp add: replay)
  have "profileTx E' argv' t tx receipt = profileTx E' argv0 t tx receipt" for E' t
    by (simp only: profileTx_def same)
  with R(3,4,5) [OF nd] live rep show ?thesis
    by (cases "ga_dumpTo argv") (auto simp: given_def)
qed

text \<open>A node with one transaction to a contract whose code is a single \<open>STOP\<close>.\<close>

definition stop_node :: gas_node where
  "stop_node = \<lparr>gn_version = Inr ''geth'', gn_receipt = (\<lambda>_. Inr (Some \<lparr>cr_contractAddress = None, cr_gasUsed = 21000\<rparr>)),
     gn_tx = (\<lambda>h. Inr (Some \<lparr>ct_hash = h, ct_to = Some ''0xab'', ct_gas = 22000\<rparr>)), gn_code = (\<lambda>_. ''0x00''),
     gn_trace = (\<lambda>_. Inr [opAt ''STOP'' 1000 0 1])\<rparr>"

definition stop_outside :: gas_outside where
  "stop_outside = \<lparr>go_dumpFile = (\<lambda>_. NoFile), go_solcOutput = (\<lambda>_. Inr ([], [])), go_solcInput = (\<lambda>_. Inr []),
     go_sourceFile = (\<lambda>_ _. None), go_moduleFile = (\<lambda>_. None), go_closest = (\<lambda>_ _. 0), go_node = (\<lambda>_. stop_node)\<rparr>"

definition stop_argv :: "string option \<Rightarrow> gas_argv" where
  "stop_argv dumpTo = \<lparr>ga_target = ''0x'' @ replicate 64 (CHR ''1''), ga_solcOutput = ''out.json'', ga_solcInput = None,
     ga_skip = [], ga_onlyAddress = None, ga_srcRoot = ''.'', ga_rpcEndpoint = ''http://localhost:8545'', ga_dumpTo = dumpTo\<rparr>"

definition stop_dump :: trace_dump where
  "stop_dump = \<lparr>td_tx = \<lparr>ct_hash = ''0x'' @ replicate 64 (CHR ''1''), ct_to = Some ''0xab'', ct_gas = 22000\<rparr>,
     td_receipt = \<lparr>cr_contractAddress = None, cr_gasUsed = 21000\<rparr>,
     td_codeByAddr = [(''00000000000000000000000000000000000000ab'', ''0x00'')], td_trace = [opAt ''STOP'' 1000 0 1]\<rparr>"

theorem dump_replays_witness:
  "take 3 (gr_out (gasMain (stop_outside\<lparr>go_dumpFile := (\<lambda>_. NoFile)(''d.json'' := Dump stop_dump), go_node := (\<lambda>_. stop_node\<lparr>gn_tx := (\<lambda>_. Inr None)\<rparr>)\<rparr>)
       ((stop_argv None)\<lparr>ga_target := ''d.json''\<rparr>))) =
     [Text ''Entry contract address: 0xab'', Text ''Total gas used by transaction: 21000'',
      Text ''Initial gas cost (sending tx, data): 21000'']"
proof -
  have w: "gr_written (gasMain stop_outside (stop_argv (Some ''d.json''))) = Some (''d.json'', stop_dump)"
    by code_simp
  have live: "take 3 (gr_out (gasMain stop_outside (stop_argv None))) =
     [Text ''Entry contract address: 0xab'', Text ''Total gas used by transaction: 21000'',
      Text ''Initial gas cost (sending tx, data): 21000'']"
    by code_simp
  have q: "stop_argv None = (stop_argv (Some ''d.json''))\<lparr>ga_dumpTo := None\<rparr>" by (simp add: stop_argv_def)
  have f: "go_dumpFile stop_outside = (\<lambda>_. NoFile)" by (simp add: stop_outside_def)
  from dump_replays [OF w _ q refl refl, of "\<lambda>_. stop_node\<lparr>gn_tx := (\<lambda>_. Inr None)\<rparr>"] live show ?thesis by (simp add: f)
qed

text \<open>
  the printed tables are aligned: when no line has a negative count, every gas cell of every
  file has the width of the gas column, and the frame and the centred title fit around it.
\<close>

theorem report_columns_aligned:
  assumes "lines_nonneg p"
  shows "list_all (aligned (gasColLength p)) (gasTables p)"
  using fileTable_aligned [OF assms] by (auto simp: gasTables_def list_all_iff)

definition two_lines :: prof where
  "two_lines = emptyProf\<lparr>sourceById := [(Fin 0, (makeSource (Some ''a.sol''))\<lparr>src_text := Some [CHR ''x'', CHR 0x0A, CHR ''y''],
       src_lineGas := [(0, 5), (1, 12345)], src_linesWithCalls := [(1, True)]\<rparr>)],
     sourceByFilename := [(''a.sol'', Fin 0)]\<rparr>"

theorem report_columns_aligned_witness:
  "list_all (aligned 5) (gasTables two_lines) \<and>
   drop 5 (gasTables two_lines) = [GasRow False ''    5'' ''x'', GasRow True ''12345'' ''y'', BottomRule 7]"
proof -
  have "lines_nonneg two_lines" by code_simp
  moreover have "gasColLength two_lines = 5" by code_simp
  moreover have "drop 5 (gasTables two_lines) = [GasRow False ''    5'' ''x'', GasRow True ''12345'' ''y'', BottomRule 7]"
    by code_simp
  ultimately show ?thesis using report_columns_aligned [of two_lines] by simp
qed

end
