(* ===== verification/BasisPoints.thy ===== *)
theory BasisPoints
  imports JsValue
begin

text \<open>
  apps/lido/app/src/utils.js and \<open>percentToBP\<close> of scripts/helpers/index.js: conversions between
  percents and basis points on IEEE doubles, and the amount formatting of the Lido front end.
  A \<open>bn.js\<close> value is the integer it denotes; its division truncates toward zero.
\<close>

definition ZERO_ADDR :: string where
  "ZERO_ADDR = ''0x0000000000000000000000000000000000000000''"

definition percentToBP :: "jnum \<Rightarrow> jnum" where
  "percentToBP percent = math_floor (js_mul percent (Fin 100))"

definition toBasisPoints :: "jnum \<Rightarrow> jnum" where
  "toBasisPoints number = math_round (js_mul number (Fin 100))"

definition fromBasisPoints :: "jnum \<Rightarrow> jnum" where
  "fromBasisPoints number = js_div number (Fin 100)"

definition bn_div :: "int \<Rightarrow> int \<Rightarrow> int" where
  "bn_div a b = sgn a * sgn b * (\<bar>a\<bar> div \<bar>b\<bar>)"

definition TEN_TO_15 :: int where
  "TEN_TO_15 = 10 ^ 15"

definition formatEth :: "int \<Rightarrow> string" where
  "formatEth wei = num_str (js_div (dbl (of_int (bn_div wei TEN_TO_15))) (Fin 1000))"

definition sum3 :: "int \<Rightarrow> int \<Rightarrow> int \<Rightarrow> string" where
  "sum3 n1 n2 n3 = dec_int (n1 + n2 + n3)"

definition upper_char :: "char \<Rightarrow> char" where
  "upper_char c =
     (let n = (of_char c :: nat) in if 97 \<le> n \<and> n \<le> 122 then char_of (n - 32) else c)"

definition capitalizeFirstLetter :: "string \<Rightarrow> string" where
  "capitalizeFirstLetter s = (case s of [] \<Rightarrow> [] | c # cs \<Rightarrow> upper_char c # cs)"

section \<open>Rounding error of a percent computation\<close>

lemma pow2_small: "pow2 (- 1022) \<le> 1 / 100"
proof -
  have "pow2 (- 1022) \<le> pow2 (- 7)" by (rule pow2_mono) simp
  also have "\<dots> \<le> 1 / 100" by (simp add: pow2_def)
  finally show ?thesis .
qed

text \<open>Dividing by 100 and multiplying by 100 again misses a whole number by less than a half.\<close>

lemma hundred_error:
  assumes "0 < k" "k \<le> 2 ^ 50"
  shows "\<exists>x y. fromBasisPoints (Fin (of_int k)) = Fin x \<and> js_mul (Fin x) (Fin 100) = Fin y \<and>
           \<bar>y - of_int k\<bar> < 1 / 2"
proof -
  define q where "q = (of_int k :: rat)"
  have q: "1 \<le> q" "q \<le> 2 ^ 50"
  proof -
    show "1 \<le> q" using assms(1) by (simp add: q_def)
    have "q \<le> of_int (2 ^ 50)" unfolding q_def using assms(2) by (simp only: of_int_le_iff)
    then show "q \<le> 2 ^ 50" by simp
  qed
  have big: "(2::rat) ^ 50 < 2 ^ 1000" by (rule power_strict_increasing) simp_all
  have big2: "(2::rat) ^ 51 < 2 ^ 1000" by (rule power_strict_increasing) simp_all
  have "pow2 (- 1022) \<le> q / 100" using pow2_small q(1) by (simp add: field_simps)
  moreover have "q / 100 < 2 ^ 1000" using q big by simp
  ultimately obtain x where x: "dbl (q / 100) = Fin x" "\<bar>x - q / 100\<bar> \<le> q / 100 / 2 ^ 53"
    using dbl_error by blast
  have xb: "q / 100 / 2 \<le> x" "x * 100 \<le> 2 * q" "\<bar>x * 100 - q\<bar> \<le> q / 2 ^ 53"
  proof -
    have "\<bar>x * 100 - q\<bar> = 100 * \<bar>x - q / 100\<bar>" by (simp add: abs_if field_simps)
    also have "\<dots> \<le> q / 2 ^ 53" using x(2) by simp
    finally show d: "\<bar>x * 100 - q\<bar> \<le> q / 2 ^ 53" .
    have "q / 2 ^ 53 \<le> q / 2" using q(1) by simp
    with d have "- (q / 2) \<le> x * 100 - q" "x * 100 - q \<le> q / 2" by linarith+
    then show "q / 100 / 2 \<le> x" "x * 100 \<le> 2 * q" using q(1) by simp_all
  qed
  have "pow2 (- 1022) \<le> 1 / 100" by (rule pow2_small)
  also have "\<dots> \<le> x * 100" using xb(1) q(1) by simp
  finally have "pow2 (- 1022) \<le> x * 100" .
  moreover have "x * 100 < 2 ^ 1000" using xb(2) q(2) big2 by simp
  ultimately obtain y where y: "dbl (x * 100) = Fin y" "\<bar>y - x * 100\<bar> \<le> x * 100 / 2 ^ 53"
    using dbl_error by blast
  have "\<bar>y - q\<bar> \<le> x * 100 / 2 ^ 53 + q / 2 ^ 53"
    using y(2) xb(3) by linarith
  also have "\<dots> \<le> 3 * q / 2 ^ 53" using xb(2) by simp
  also have "\<dots> < 1 / 2" using q(2) by simp
  finally have "\<bar>y - q\<bar> < 1 / 2" .
  with x y show ?thesis by (auto simp: fromBasisPoints_def q_def)
qed

section \<open>Properties\<close>

text \<open>
  converting any number of basis points up to \<open>2 ^ 50\<close> to a percent and back gives
  the same number: the rounding in \<open>toBasisPoints\<close> absorbs the double arithmetic's error.
\<close>

theorem toBasisPoints_fromBasisPoints:
  assumes "0 \<le> k" and "k \<le> 2 ^ 50"
  shows "toBasisPoints (fromBasisPoints (Fin (of_int k))) = Fin (of_int k)"
proof (cases "k = 0")
  case True
  then have "toBasisPoints (fromBasisPoints (Fin (of_int k))) = Fin (of_int \<lfloor>1 / 2 :: rat\<rfloor>)"
    by (simp add: toBasisPoints_def fromBasisPoints_def dbl_def)
  moreover have "\<lfloor>1 / 2 :: rat\<rfloor> = 0" by (rule floor_unique) simp_all
  ultimately show ?thesis using True by simp
next
  case False
  with assms obtain x y where xy: "fromBasisPoints (Fin (of_int k)) = Fin x"
    "js_mul (Fin x) (Fin 100) = Fin y" "\<bar>y - of_int k\<bar> < 1 / 2"
    using hundred_error [of k] by auto
  from xy(3) have "of_int k - 1 / 2 < y" "y < of_int k + 1 / 2" by linarith+
  then have "\<lfloor>y + 1 / 2\<rfloor> = k" by (simp add: floor_eq_iff)
  with xy show ?thesis by (simp add: toBasisPoints_def)
qed

theorem toBasisPoints_fromBasisPoints_witness:
  "toBasisPoints (fromBasisPoints (Fin 5700)) = Fin 5700"
  using toBasisPoints_fromBasisPoints [of 5700] by simp

text \<open>
  the deployment scripts' \<open>percentToBP\<close> floors instead of rounding, so it returns the
  exact number of basis points or one less.
\<close>

theorem percentToBP_bounds:
  assumes "0 < k" and "k \<le> 2 ^ 50"
  shows "percentToBP (fromBasisPoints (Fin (of_int k))) \<in> {Fin (of_int (k - 1)), Fin (of_int k)}"
proof -
  from assms obtain x y where xy: "fromBasisPoints (Fin (of_int k)) = Fin x"
    "js_mul (Fin x) (Fin 100) = Fin y" "\<bar>y - of_int k\<bar> < 1 / 2"
    using hundred_error by blast
  then have "\<lfloor>y\<rfloor> = k \<or> \<lfloor>y\<rfloor> = k - 1"
  proof -
    from xy(3) have "of_int k - 1 / 2 < y" "y < of_int k + 1 / 2" by linarith+
    then show ?thesis
      by (cases "of_int k \<le> y") (simp_all add: floor_eq_iff)
  qed
  with xy show ?thesis by (auto simp: percentToBP_def)
qed

theorem percentToBP_bounds_witness:
  "percentToBP (fromBasisPoints (Fin 1000)) \<in> {Fin 999, Fin 1000}"
  using percentToBP_bounds [of 1000] by simp

text \<open>
  the lower value of the bound is reached: a fee of 0.57 percent, given as the number
  the settings file holds, becomes 56 basis points, and 0.29 percent becomes 28, while the front
  end's \<open>toBasisPoints\<close> gives 57 and 29.
\<close>

theorem percentToBP_loses_a_point:
  "percentToBP (dbl (57 / 100)) = Fin 56 \<and> toBasisPoints (dbl (57 / 100)) = Fin 57 \<and>
   percentToBP (dbl (29 / 100)) = Fin 28 \<and> toBasisPoints (dbl (29 / 100)) = Fin 29"
proof (intro conjI)
  show "percentToBP (dbl (57 / 100)) = Fin 56" by code_simp
  show "toBasisPoints (dbl (57 / 100)) = Fin 57" by code_simp
  show "percentToBP (dbl (29 / 100)) = Fin 28" by code_simp
  show "toBasisPoints (dbl (29 / 100)) = Fin 29" by code_simp
qed

text \<open>
  \<open>formatEth\<close> drops everything below a thousandth of an ether: two amounts print the
  same whenever they agree in whole milli-ethers.
\<close>

theorem formatEth_milli:
  assumes "0 \<le> wei" and "0 \<le> r" and "r < TEN_TO_15"
  shows "formatEth (TEN_TO_15 * wei + r) = num_str (js_div (dbl (of_int wei)) (Fin 1000))"
proof -
  have "(TEN_TO_15 * wei + r) div TEN_TO_15 = wei"
    using assms(2,3) by (simp add: TEN_TO_15_def)
  moreover have "bn_div (TEN_TO_15 * wei + r) TEN_TO_15 = (TEN_TO_15 * wei + r) div TEN_TO_15"
  proof -
    have "0 < TEN_TO_15" "0 \<le> TEN_TO_15 * wei + r"
      using assms by (simp_all add: TEN_TO_15_def)
    then show ?thesis by (cases "TEN_TO_15 * wei + r = 0") (simp_all add: bn_div_def)
  qed
  ultimately show ?thesis by (simp add: formatEth_def)
qed

theorem formatEth_milli_witness: "formatEth 1500999999999999999 = ''1.5''"
proof -
  have "(1500999999999999999 :: int) = TEN_TO_15 * 1500 + 999999999999999"
    by (simp add: TEN_TO_15_def)
  moreover have "num_str (js_div (dbl (of_int 1500)) (Fin 1000)) = ''1.5''" by code_simp
  ultimately show ?thesis
    using formatEth_milli [of 1500 999999999999999] by (simp add: TEN_TO_15_def)
qed

end
