(* ===== verification/ScriptHelpers.thy ===== *)
theory ScriptHelpers
  imports NetworkState BasisPoints
begin

text \<open>
  scripts/helpers (address.js, assert.js, events.js, tx-data.js, artifacts.js, deploy.js) and
  scripts/components (ens.js, apm.js).  A contract instance is its address; the artifact it was
  made from only names it in messages.  \<open>await\<close> on a view is a call of the node parameter.
\<close>

section \<open>Assertions\<close>

definition isZeroAddress :: "jsval \<Rightarrow> bool" where
  "isZeroAddress addr \<longleftrightarrow> \<not> truthy addr \<or> addr = JStr ZERO_ADDR \<or> addr = JStr ''0x'' \<or> addr = JStr ''0x0''"

text \<open>\<open>==\<close>, which chai's \<open>assert.equal\<close> uses; two objects are never the same object here.\<close>

definition num_eq :: "jnum \<Rightarrow> jnum \<Rightarrow> bool" where
  "num_eq x y \<longleftrightarrow> x = y \<and> x \<noteq> NaN"

definition is_object :: "jsval \<Rightarrow> bool" where
  "is_object v = (case v of JArr _ \<Rightarrow> True | JObj _ \<Rightarrow> True | JBN _ \<Rightarrow> True | _ \<Rightarrow> False)"

definition prim :: "jsval \<Rightarrow> jsval" where
  "prim v = (if is_object v then JStr (to_str v) else v)"

definition loose_eq :: "jsval \<Rightarrow> jsval \<Rightarrow> bool" where
  "loose_eq a b =
     (if \<not> not_nullish a \<or> \<not> not_nullish b then \<not> not_nullish a \<and> \<not> not_nullish b
      else if is_object a \<and> is_object b then False
      else (case (prim a, prim b) of
              (JStr s, JStr t) \<Rightarrow> s = t
            | (x, y) \<Rightarrow> num_eq (to_num x) (to_num y)))"

definition assert_equal :: "jsval \<Rightarrow> jsval \<Rightarrow> unit res" where
  "assert_equal actual expected = assertR (loose_eq actual expected)"

definition assert_isTrue :: "jsval \<Rightarrow> unit res" where
  "assert_isTrue v = assertR (v = JBool True)"

definition assert_bnEqual :: "jsval \<Rightarrow> jsval \<Rightarrow> unit res" where
  "assert_bnEqual a b = assert_equal (JStr (to_str a)) (JStr (to_str b))"

definition assert_addressEqual :: "env \<Rightarrow> jsval \<Rightarrow> jsval \<Rightarrow> unit res" where
  "assert_addressEqual E actual expected =
     bindR (checksum E actual) (\<lambda>a. bindR (checksum E expected) (\<lambda>b. assertR (a = b)))"

text \<open>chai's \<open>sameMembers\<close>: the same elements with the same multiplicities, in any order.\<close>

fun same_members :: "'a list \<Rightarrow> 'a list \<Rightarrow> bool" where
  "same_members [] ys = (ys = [])"
| "same_members (x # xs) ys = (x \<in> set ys \<and> same_members xs (remove1 x ys))"

section \<open>events.js\<close>

definition defaultFromBlock :: "jsval \<Rightarrow> jsval" where
  "defaultFromBlock fromBlock = (if fromBlock = JUndef then JInt 4532202 else fromBlock)"

definition evt_field :: "jsval \<Rightarrow> string \<Rightarrow> jsval" where
  "evt_field evt k = obj_get (own_props evt) k"

definition evt_arg :: "jsval \<Rightarrow> string \<Rightarrow> jsval" where
  "evt_arg evt k = obj_get (own_props (evt_field evt ''args'')) k"

definition assertLastEvent :: "env \<Rightarrow> string \<Rightarrow> string \<Rightarrow> jsval \<Rightarrow> jsval res" where
  "assertLastEvent E inst eventName fromBlock =
     bindR (past_events E inst ''allEvents'' (defaultFromBlock fromBlock)) (\<lambda>allEvents.
     bindR (assertR (0 < length allEvents)) (\<lambda>_.
     bindR (assert_equal (evt_field (last allEvents) ''event'') (JStr eventName)) (\<lambda>_.
     Inr (last allEvents))))"

definition assertSingleEvent :: "env \<Rightarrow> string \<Rightarrow> string \<Rightarrow> jsval \<Rightarrow> jsval res" where
  "assertSingleEvent E inst eventName fromBlock =
     bindR (past_events E inst eventName (defaultFromBlock fromBlock)) (\<lambda>allEvents.
     bindR (assertR (length allEvents = 1)) (\<lambda>_. Inr (hd allEvents)))"

definition assertNoEvents :: "env \<Rightarrow> string \<Rightarrow> jsval \<Rightarrow> unit res" where
  "assertNoEvents E inst fromBlock =
     bindR (past_events E inst ''allEvents'' (defaultFromBlock fromBlock)) (\<lambda>allEvents.
     assertR (length allEvents = 0))"

section \<open>tx-data.js\<close>

definition getTxData :: "env \<Rightarrow> string \<Rightarrow> props \<Rightarrow> props res" where
  "getTxData E data opts =
     bindR (if truthy (obj_get opts ''from'') then Inr (obj_get opts ''from'')
            else bindR (get_accounts E) (\<lambda>acc. Inr (case acc of [] \<Rightarrow> JUndef | a # _ \<Rightarrow> a))) (\<lambda>from.
     bindR (estimate_gas E data (obj_set ''from'' from opts)) (\<lambda>gas.
     Inr (obj_set ''data'' (JStr data) (obj_set ''gas'' (JInt (gas + 10000)) opts))))"

definition getCallTxData :: "env \<Rightarrow> string \<Rightarrow> string \<Rightarrow> jsval list \<Rightarrow> bool \<Rightarrow> props \<Rightarrow> props res" where
  "getCallTxData E inst methodName args estimateGas txOpts =
     bindR (encode_call E inst methodName args) (\<lambda>data.
     bindR (if estimateGas then getTxData E data txOpts
            else Inr (obj_set ''data'' (JStr data) txOpts)) (\<lambda>txData.
     Inr (obj_set ''to'' (JStr inst) txData)))"

definition writeTxFile :: "env \<Rightarrow> string \<Rightarrow> props \<Rightarrow> unit prog" where
  "writeTxFile E filename txData w =
     (Inr (), w\<lparr>tx_files := tx_files w @ [(filename, JObj (json_props (bn_json E) txData))]\<rparr>)"

definition saveCallTxData ::
  "env \<Rightarrow> string \<Rightarrow> string \<Rightarrow> string \<Rightarrow> jsval list \<Rightarrow> bool \<Rightarrow> props \<Rightarrow> props prog" where
  "saveCallTxData E inst methodName filename args estimateGas txOpts =
     bindP (liftP (getCallTxData E inst methodName args estimateGas txOpts)) (\<lambda>txData.
     bindP (writeTxFile E filename txData) (\<lambda>_. returnP txData))"

section \<open>artifacts.js\<close>

definition loadArtifact :: "env \<Rightarrow> string \<Rightarrow> string \<Rightarrow> jsval res" where
  "loadArtifact E artifactName netName =
     (if starts_with ''external:'' artifactName
      then (let extDir = path_resolve E ''scripts/external-artifacts'' netName;
                dir = (if path_exists E extDir then extDir
                       else path_resolve E ''scripts/external-artifacts'' ''default'')
            in read_json E (path_resolve E dir (drop 9 artifactName @ ''.json'')))
      else read_artifact E artifactName)"

section \<open>deploy.js\<close>

definition getDeployTx :: "env \<Rightarrow> string \<Rightarrow> jsval list \<Rightarrow> props \<Rightarrow> props res" where
  "getDeployTx E artifactName args txOpts =
     bindR (read_artifact E artifactName) (\<lambda>artifactData.
     bindR (getp artifactData ''bytecode'') (\<lambda>bytecode.
     bindR (encode_deploy E bytecode args) (\<lambda>data.
     getTxData E data [])))"

definition saveDeployTx :: "env \<Rightarrow> string \<Rightarrow> string \<Rightarrow> jsval list \<Rightarrow> props \<Rightarrow> props prog" where
  "saveDeployTx E artifactName filename args txOpts =
     bindP (liftP (getDeployTx E artifactName args txOpts)) (\<lambda>txData.
     bindP (writeTxFile E filename txData) (\<lambda>_. returnP txData))"

definition getDeployed :: "env \<Rightarrow> string \<Rightarrow> jsval \<Rightarrow> string res" where
  "getDeployed E artifactName deployTxHash =
     bindR (get_receipt E deployTxHash) (\<lambda>receipt.
     if \<not> truthy receipt
     then Inl (Error (''transaction '' @ to_str deployTxHash @ '' not found''))
     else bindR (getp receipt ''contractAddress'') (\<lambda>contractAddress.
       if \<not> truthy contractAddress
       then Inl (Error (''transaction '' @ to_str deployTxHash @ '' is not a contract creation transaction''))
       else contract_at E artifactName contractAddress))"

definition useOrGetDeployed :: "env \<Rightarrow> string \<Rightarrow> jsval \<Rightarrow> jsval \<Rightarrow> string res" where
  "useOrGetDeployed E artifactName address deployTxHash =
     (if truthy address then contract_at E artifactName address
      else getDeployed E artifactName deployTxHash)"

definition getTxBlock :: "env \<Rightarrow> jsval \<Rightarrow> jsval res" where
  "getTxBlock E txHash =
     bindR (get_receipt E txHash) (\<lambda>receipt.
     if \<not> truthy receipt then Inl (Error (''transaction '' @ to_str txHash @ '' not found''))
     else bindR (getp receipt ''blockNumber'') (\<lambda>blockNumber.
       if \<not> truthy blockNumber
       then Inl (Error (''transaction '' @ to_str txHash @ '' does not contain blockNumber''))
       else Inr blockNumber))"

definition assertDeployedBytecode :: "env \<Rightarrow> jsval \<Rightarrow> jsval \<Rightarrow> unit res" where
  "assertDeployedBytecode E address artifact =
     bindR (case artifact of JStr artifactName \<Rightarrow> read_artifact E artifactName | _ \<Rightarrow> Inr artifact) (\<lambda>a.
     bindR (getp a ''deployedBytecode'') (\<lambda>deployed.
     bindR (assertR (truthy deployed)) (\<lambda>_.
     bindR (get_code E address) (\<lambda>bytecode.
     assertR (to_lower bytecode = to_lower (to_str deployed))))))"

definition assertProxiedContractBytecode :: "env \<Rightarrow> jsval \<Rightarrow> jsval \<Rightarrow> jsval \<Rightarrow> jsval res" where
  "assertProxiedContractBytecode E proxyAddress proxyArtifact proxiedArtifact =
     bindR (assertDeployedBytecode E proxyAddress proxyArtifact) (\<lambda>_.
     bindR (contract_at E ''ERCProxy'' proxyAddress) (\<lambda>proxy.
     bindR (call_view E proxy ''implementation'' []) (\<lambda>implAddress.
     bindR (assertDeployedBytecode E implAddress proxiedArtifact) (\<lambda>_.
     Inr implAddress))))"

section \<open>ens.js and apm.js\<close>

record ens_assignment =
  ens_tx :: jsval
  ens_parentNode :: string
  ens_labelHash :: string
  ens_nodeName :: string
  ens_node :: string

definition assignENSName :: "env \<Rightarrow> string \<Rightarrow> string \<Rightarrow> jsval \<Rightarrow> string \<Rightarrow> jsval \<Rightarrow> ens_assignment prog" where
  "assignENSName E parentName labelName owner ens assigneeAddress =
     (let parentNode = name_hash E parentName;
          labelHash = ''0x'' @ keccak E labelName;
          nodeName = labelName @ ''.'' @ parentName;
          node = name_hash E nodeName;
          result = (\<lambda>txResult. \<lparr>ens_tx = txResult, ens_parentNode = parentNode, ens_labelHash = labelHash,
                      ens_nodeName = nodeName, ens_node = node\<rparr>)
      in bindP (liftP (call_view E ens ''owner'' [JStr node])) (\<lambda>nodeOwner.
         if strict_eq nodeOwner owner
         then bindP (sendTx E ens ''setOwner'' [JStr node, assigneeAddress] [(''from'', owner)])
                (\<lambda>txResult. returnP (result txResult))
         else bindP (liftP (call_view E ens ''owner'' [JStr parentNode])) (\<lambda>parentOwner.
           if \<not> strict_eq parentOwner owner
           then throwP (Error (''the address '' @ to_str owner @ '' has no ownership righs over the target '' @
                  ''domain '' @ [CHR 0x27] @ labelName @ ''.'' @ parentName @ [CHR 0x27] @
                  '' or parent domain '' @ [CHR 0x27] @ parentName @ [CHR 0x27]))
           else bindP (sendTx E ens ''setSubnodeOwner''
                         [JStr parentNode, JStr labelHash, assigneeAddress] [(''from'', owner)])
                  (\<lambda>txResult. returnP (result txResult)))))"

definition getENSNodeOwner :: "env \<Rightarrow> string \<Rightarrow> string \<Rightarrow> jsval res" where
  "getENSNodeOwner E ens node =
     bindR (call_view E ens ''owner'' [JStr node]) (\<lambda>ownerAddr.
     Inr (if isZeroAddress ownerAddr then JNull else ownerAddr))"

text \<open>
  \<open>resolver.addr(node)\<close> is not awaited: the zero-address test sees a promise, which is never a
  zero address, and the async function's result is whatever that promise resolves to.
\<close>

definition resolveEnsAddress :: "env \<Rightarrow> string \<Rightarrow> string \<Rightarrow> jsval res" where
  "resolveEnsAddress E ens node =
     bindR (call_view E ens ''resolver'' [JStr node]) (\<lambda>resolverAddr.
     if isZeroAddress resolverAddr then Inr JNull
     else bindR (contract_at E ''PublicResolver'' resolverAddr) (\<lambda>resolver.
          call_view E resolver ''addr'' [JStr node]))"

definition resolveLatestVersion :: "env \<Rightarrow> string \<Rightarrow> string \<Rightarrow> jsval res" where
  "resolveLatestVersion E ensNode ens =
     bindR (resolveEnsAddress E ens ensNode) (\<lambda>repoAddress.
     if isZeroAddress repoAddress then Inr JNull
     else bindR (contract_at E ''Repo'' repoAddress) (\<lambda>repo. call_view E repo ''getLatest'' []))"

record apm_deployment =
  apm_registry :: string
  apm_ensNodeName :: "string option"
  apm_ensNode :: "string option"

definition deployAPM :: "env \<Rightarrow> jsval \<Rightarrow> string \<Rightarrow> string \<Rightarrow> string \<Rightarrow> jsval \<Rightarrow> apm_deployment prog" where
  "deployAPM E owner labelName ens apmRegistryFactory apmRegistryAddress =
     (if truthy apmRegistryAddress
      then bindP (liftP (contract_at E ''APMRegistry'' apmRegistryAddress)) (\<lambda>apmRegistry.
           returnP \<lparr>apm_registry = apmRegistry, apm_ensNodeName = None, apm_ensNode = None\<rparr>)
      else bindP (assignENSName E ''eth'' labelName owner ens (JStr apmRegistryFactory)) (\<lambda>a.
           bindP (sendTx E apmRegistryFactory ''newAPM''
                    [JStr (ens_parentNode a), JStr (ens_labelHash a), owner] []) (\<lambda>receipt.
           bindP (liftP (case filter (\<lambda>l. evt_field l ''event'' = JStr ''DeployAPM'')
                               (case obj_get (own_props receipt) ''logs'' of JArr ls \<Rightarrow> ls | _ \<Rightarrow> []) of
                           [] \<Rightarrow> Inl TypeError | l # _ \<Rightarrow> Inr (evt_arg l ''apm''))) (\<lambda>apmAddr.
           bindP (liftP (contract_at E ''APMRegistry'' apmAddr)) (\<lambda>apmRegistry.
           returnP \<lparr>apm_registry = apmRegistry, apm_ensNodeName = Some (ens_nodeName a),
                     apm_ensNode = Some (ens_node a)\<rparr>)))))"

section \<open>Lemmas\<close>

lemma loose_eq_JStr [simp]: "loose_eq (JStr s) (JStr t) \<longleftrightarrow> s = t"
  by (simp add: loose_eq_def not_nullish_def is_object_def prim_def)

lemma loose_eq_JBool [simp]: "loose_eq (JBool a) (JBool b) \<longleftrightarrow> a = b"
  by (simp add: loose_eq_def not_nullish_def is_object_def prim_def num_eq_def to_num_def)

lemma okR_assert_bnEqual [simp]: "okR (assert_bnEqual a b) \<longleftrightarrow> to_str a = to_str b"
  by (simp add: assert_bnEqual_def assert_equal_def)

lemma okR_assert_equal [simp]: "okR (assert_equal a b) \<longleftrightarrow> loose_eq a b"
  by (simp add: assert_equal_def)

lemma okR_assert_isTrue [simp]: "okR (assert_isTrue v) \<longleftrightarrow> v = JBool True"
  by (simp add: assert_isTrue_def)

definition same_address :: "env \<Rightarrow> jsval \<Rightarrow> jsval \<Rightarrow> bool" where
  "same_address E a b \<longleftrightarrow> okR (checksum E a) \<and> checksum E a = checksum E b"

lemma okR_assert_addressEqual [simp]: "okR (assert_addressEqual E a b) \<longleftrightarrow> same_address E a b"
  by (cases "checksum E a"; cases "checksum E b")
     (auto simp: assert_addressEqual_def same_address_def)

lemma same_members_mset: "same_members xs ys \<longleftrightarrow> mset xs = mset ys"
proof (induction xs ys rule: same_members.induct)
  case (2 x xs ys)
  have "x \<in> set ys \<and> mset xs = mset (remove1 x ys) \<longleftrightarrow> mset (x # xs) = mset ys"
  proof
    assume "x \<in> set ys \<and> mset xs = mset (remove1 x ys)"
    then show "mset (x # xs) = mset ys" by simp
  next
    assume R: "mset (x # xs) = mset ys"
    then have "x \<in> set ys" by (metis list.set_intros(1) mset_eq_setD)
    moreover have "mset xs = mset (remove1 x ys)"
      using R by (metis add_mset_remove_trivial mset.simps(2) mset_remove1)
    ultimately show "x \<in> set ys \<and> mset xs = mset (remove1 x ys)" by blast
  qed
  with 2 show ?case by auto
qed auto

lemma same_members_set: "same_members xs ys \<Longrightarrow> set xs = set ys"
  unfolding same_members_mset by (rule mset_eq_setD)

lemma assertLastEvent_Inr:
  "assertLastEvent E inst name fb = Inr ev \<longleftrightarrow>
   (\<exists>evs. past_events E inst ''allEvents'' (defaultFromBlock fb) = Inr evs \<and> evs \<noteq> [] \<and>
      ev = last evs \<and> loose_eq (evt_field ev ''event'') (JStr name))"
  by (auto simp: assertLastEvent_def bindR_eq_Inr assert_equal_def)

lemma tx_files_saveCallTxData:
  "saveCallTxData E inst m f args est opts w =
     (case getCallTxData E inst m args est opts of
        Inl e \<Rightarrow> (Inl e, w)
      | Inr txd \<Rightarrow> (Inr txd, w\<lparr>tx_files := tx_files w @ [(f, JObj (json_props (bn_json E) txd))]\<rparr>))"
  by (simp add: saveCallTxData_def writeTxFile_def bindP_def prog_simps split: sum.splits)

lemma tx_files_saveDeployTx:
  "saveDeployTx E a f args opts w =
     (case getDeployTx E a args opts of
        Inl e \<Rightarrow> (Inl e, w)
      | Inr txd \<Rightarrow> (Inr txd, w\<lparr>tx_files := tx_files w @ [(f, JObj (json_props (bn_json E) txd))]\<rparr>))"
  by (simp add: saveDeployTx_def writeTxFile_def bindP_def prog_simps split: sum.splits)

lemma appends_saveCallTxData [intro, simp]: "appends (saveCallTxData E inst m f args est opts)"
  by (auto simp: appends_def tx_files_saveCallTxData split: sum.splits)

lemma appends_saveDeployTx [intro, simp]: "appends (saveDeployTx E a f args opts)"
  by (auto simp: appends_def tx_files_saveDeployTx split: sum.splits)

lemma persistNetworkState_eq:
  "persistNetworkState E net netId st ups w =
     (let st1 = updateNetworkState (obj_set ''networkId'' (JInt netId) st) ups
      in (Inr st1, w\<lparr>net_files := (net_files w)(getFileName E net (file_base E) (file_dir E) \<mapsto>
                        JsonText (JObj (json_props (bn_json E) st1)))\<rparr>))"
  by (simp add: persistNetworkState_def writeNetworkStateFile_def bindP_def prog_simps Let_def)

lemma appends_persist [intro, simp]: "appends (persistNetworkState E net netId st ups)"
  by (simp add: appends_def persistNetworkState_eq Let_def)

lemma appends_readNetworkState [intro, simp]: "appends (readNetworkState E net netId)"
  by (auto simp: readNetworkState_def readNetworkStateFile_def appends_def bindP_def prog_simps
      writeNetworkStateFile_def split: option.splits fcontent.splits sum.splits)

section \<open>Properties\<close>

text \<open>
  the deployment transaction built by \<open>getDeployTx\<close> never carries a sender: its only
  fields are \<open>gas\<close> and \<open>data\<close>, whatever options (such as \<open>from\<close>, the multisig address) the
  caller gave, and the gas is estimated for the node's first account.
\<close>

theorem getDeployTx_drops_sender:
  "getDeployTx E name args opts =
     bindR (read_artifact E name) (\<lambda>a. bindR (getp a ''bytecode'') (\<lambda>bytecode.
     bindR (encode_deploy E bytecode args) (\<lambda>data.
     bindR (get_accounts E) (\<lambda>accs.
     bindR (estimate_gas E data [(''from'', case accs of [] \<Rightarrow> JUndef | x # _ \<Rightarrow> x)]) (\<lambda>gas.
     Inr [(''gas'', JInt (gas + 10000)), (''data'', JStr data)])))))"
  by (simp add: getDeployTx_def getTxData_def bindR_def split: sum.splits)

text \<open>
  \<open>resolveEnsAddress\<close> hands out the zero address: when the name has a resolver that
  maps it to the zero address, the result is that address and not the \<open>null\<close> the function
  returns for an unresolved name, because the promise is tested instead of its value.
\<close>

theorem resolveEnsAddress_zero:
  assumes "call_view E ens ''resolver'' [JStr node] = Inr (JStr r)" and "\<not> isZeroAddress (JStr r)"
    and "contract_at E ''PublicResolver'' (JStr r) = Inr r"
    and "call_view E r ''addr'' [JStr node] = Inr (JStr ZERO_ADDR)"
  shows "resolveEnsAddress E ens node = Inr (JStr ZERO_ADDR)"
  using assms by (simp add: resolveEnsAddress_def)

theorem resolveEnsAddress_zero_witness:
  "resolveEnsAddress (offline_env\<lparr>contract_at := \<lambda>_ _. Inr ''0x1'',
      call_view := \<lambda>a m _. Inr (JStr (if m = ''resolver'' then ''0x1'' else ZERO_ADDR))\<rparr>)
     ''0x2'' ''n'' = Inr (JStr ZERO_ADDR)"
  by (rule resolveEnsAddress_zero [where r = "''0x1''"]) (simp_all add: isZeroAddress_def ZERO_ADDR_def)

end
