(* ===== verification/LibTools.thy ===== *)
theory LibTools
  imports ScriptHelpers
begin

text \<open>
  The JavaScript library of lib/src: helpers that send transactions to the registry and the Lido
  contract and start votes that change protocol settings.  A truffle instance is its address.  What
  the Aragon helpers compute (\<open>encodeCallScript\<close>, \<open>getEventArgument\<close>) is a parameter.
\<close>

record lib_env =
  le_encodeCallScript :: "(jsval \<times> string) list \<Rightarrow> string res"
  le_eventArgument :: "jsval \<Rightarrow> string \<Rightarrow> string \<Rightarrow> jsval res"

section \<open>abi.js and utils.js\<close>

record abi_cache =
  abiByName :: props
  contractByName :: props

text \<open>\<open>req\<close> reads \<open>../abi/<name>.json\<close>, \<open>mk\<close> is truffle's contract constructor.\<close>

definition getABI :: "(string \<Rightarrow> jsval res) \<Rightarrow> string \<Rightarrow> abi_cache \<Rightarrow> (jsval \<times> abi_cache) res" where
  "getABI req name c =
     (if truthy (obj_get (abiByName c) name) then Inr (obj_get (abiByName c) name, c)
      else bindR (req name) (\<lambda>abi. Inr (abi, c\<lparr>abiByName := obj_set name abi (abiByName c)\<rparr>)))"

definition getContract ::
  "(string \<Rightarrow> jsval res) \<Rightarrow> (jsval \<Rightarrow> jsval) \<Rightarrow> string \<Rightarrow> abi_cache \<Rightarrow> (jsval \<times> abi_cache) res" where
  "getContract req mk name c =
     (if truthy (obj_get (contractByName c) name) then Inr (obj_get (contractByName c) name, c)
      else bindR (getABI req name c) (\<lambda>(abi, c1).
           Inr (mk abi, c1\<lparr>contractByName := obj_set name (mk abi) (contractByName c1)\<rparr>)))"

definition getSenderAddr :: "env \<Rightarrow> props \<Rightarrow> jsval res" where
  "getSenderAddr E opts =
     (if truthy (obj_get opts ''from'') then Inr (obj_get opts ''from'')
      else bindR (get_accounts E) (\<lambda>accounts. Inr (case accounts of [] \<Rightarrow> JUndef | a # _ \<Rightarrow> a)))"

definition addressEqual :: "jsval \<Rightarrow> jsval \<Rightarrow> bool res" where
  "addressEqual addr1 addr2 =
     (case (addr1, addr2) of (JStr a, JStr b) \<Rightarrow> Inr (to_lower a = to_lower b) | _ \<Rightarrow> Inl TypeError)"

definition trim0x :: "string \<Rightarrow> string" where
  "trim0x str = (if 2 \<le> length str \<and> str ! 0 = CHR ''0'' \<and> str ! 1 = CHR ''x'' then drop 2 str else str)"

section \<open>dao.js\<close>

definition num_lt :: "jnum \<Rightarrow> jnum \<Rightarrow> bool" where
  "num_lt x y =
     (case (x, y) of
        (Fin p, Fin q) \<Rightarrow> p < q | (NegInf, Fin _) \<Rightarrow> True | (Fin _, PosInf) \<Rightarrow> True
      | (NegInf, PosInf) \<Rightarrow> True | _ \<Rightarrow> False)"

definition TEN_TO_16 :: int where
  "TEN_TO_16 = 10 ^ 16"

definition percentToBp18 :: "jsval \<Rightarrow> string res" where
  "percentToBp18 percent =
     (if num_lt (to_num percent) (Fin 0) \<or> num_lt (Fin 100) (to_num percent)
      then Inl (Error (''invalid percentage value '' @ to_str percent @ ''%''))
      else Inr (dec_int (TEN_TO_16 * to_int32 (to_num percent))))"

definition createVote ::
  "env \<Rightarrow> lib_env \<Rightarrow> string \<Rightarrow> string \<Rightarrow> string \<Rightarrow> string \<Rightarrow> props \<Rightarrow> (jsval \<times> jsval) prog" where
  "createVote E L voting tokenManager voteDesc evmScript txOpts =
     bindP (liftP (encode_call E voting ''newVote'' [JStr evmScript, JStr voteDesc, JBool False, JBool False])) (\<lambda>calldata.
     bindP (liftP (le_encodeCallScript L [(JStr voting, calldata)])) (\<lambda>newVoteEvmScript.
     bindP (sendTx E tokenManager ''forward'' [JStr newVoteEvmScript] txOpts) (\<lambda>result.
     bindP (liftP (le_eventArgument L result ''StartVote'' ''voteId'')) (\<lambda>voteId.
     returnP (result, voteId)))))"

text \<open>The common shape of the proposals: one call of \<open>target\<close>, encoded as a script and put to a vote.\<close>

definition proposeCall ::
  "env \<Rightarrow> lib_env \<Rightarrow> string \<Rightarrow> string \<Rightarrow> string \<Rightarrow> string \<Rightarrow> jsval list \<Rightarrow> string \<Rightarrow> props \<Rightarrow> (jsval \<times> jsval) prog" where
  "proposeCall E L voting tokenManager target methodName args voteDesc txOpts =
     bindP (liftP (encode_call E target methodName args)) (\<lambda>calldata.
     bindP (liftP (le_encodeCallScript L [(JStr target, calldata)])) (\<lambda>evmScript.
     createVote E L voting tokenManager voteDesc evmScript txOpts))"

definition proposeChangingVotingQuorum ::
  "env \<Rightarrow> lib_env \<Rightarrow> string \<Rightarrow> string \<Rightarrow> jsval \<Rightarrow> props \<Rightarrow> (jsval \<times> jsval) prog" where
  "proposeChangingVotingQuorum E L voting tokenManager newQuorumPct txOpts =
     bindP (liftP (percentToBp18 newQuorumPct)) (\<lambda>newQuorumBp.
     proposeCall E L voting tokenManager voting ''changeMinAcceptQuorumPct'' [JStr newQuorumBp]
       (''Change min acceptance quorum to '' @ to_str newQuorumPct @ ''%'') txOpts)"

definition proposeChangingVotingSupport ::
  "env \<Rightarrow> lib_env \<Rightarrow> string \<Rightarrow> string \<Rightarrow> jsval \<Rightarrow> props \<Rightarrow> (jsval \<times> jsval) prog" where
  "proposeChangingVotingSupport E L voting tokenManager newSupportPct txOpts =
     bindP (liftP (percentToBp18 newSupportPct)) (\<lambda>newSupportBp.
     proposeCall E L voting tokenManager voting ''changeSupportRequiredPct'' [JStr newSupportBp]
       (''Change min support required to '' @ to_str newSupportPct @ ''%'') txOpts)"

section \<open>lido.js\<close>

definition submitEther :: "env \<Rightarrow> string \<Rightarrow> jsval \<Rightarrow> props \<Rightarrow> jsval \<Rightarrow> bool \<Rightarrow> (jsval \<times> jsval option) prog" where
  "submitEther E lido amount txOpts referral doDeposit =
     bindP (sendTx E lido ''submit'' [if truthy referral then referral else JStr ZERO_ADDR]
              (obj_set ''value'' amount txOpts)) (\<lambda>submitResult.
     if \<not> doDeposit then returnP (submitResult, None)
     else bindP (sendTx E lido ''depositBufferedEther'' []
              [(''gasPrice'', obj_get txOpts ''gasPrice''), (''from'', obj_get txOpts ''from'')]) (\<lambda>depositResult.
          returnP (submitResult, Some depositResult)))"

definition setWithdrawalCredentials ::
  "env \<Rightarrow> lib_env \<Rightarrow> string \<Rightarrow> string \<Rightarrow> string \<Rightarrow> jsval \<Rightarrow> props \<Rightarrow> (jsval \<times> jsval) prog" where
  "setWithdrawalCredentials E L lido voting tokenManager credentials txOpts =
     proposeCall E L voting tokenManager lido ''setWithdrawalCredentials'' [credentials]
       (''Set withdrawal credentials to '' @ to_str credentials) txOpts"

text \<open>\<open>a + b\<close>: concatenation as soon as one side is a text, addition of doubles otherwise.\<close>

fun js_add :: "jnum \<Rightarrow> jnum \<Rightarrow> jnum" where
  "js_add (Fin p) (Fin q) = dbl (p + q)"
| "js_add NaN y = NaN"
| "js_add x NaN = NaN"
| "js_add (Fin p) y = y"
| "js_add x (Fin q) = x"
| "js_add x y = (if x = y then x else NaN)"

definition is_text :: "jsval \<Rightarrow> bool" where
  "is_text v = (case v of JStr _ \<Rightarrow> True | _ \<Rightarrow> False)"

definition js_plus :: "jsval \<Rightarrow> jsval \<Rightarrow> jsval" where
  "js_plus a b =
     (if is_text (prim a) \<or> is_text (prim b) then JStr (to_str (prim a) @ to_str (prim b))
      else JNum (js_add (to_num (prim a)) (to_num (prim b))))"

definition setFeeDistribution ::
  "env \<Rightarrow> lib_env \<Rightarrow> string \<Rightarrow> string \<Rightarrow> string \<Rightarrow> jsval \<Rightarrow> jsval \<Rightarrow> jsval \<Rightarrow> props \<Rightarrow> (jsval \<times> jsval) prog" where
  "setFeeDistribution E L lido voting tokenManager treasury insurance operators txOpts =
     (if \<not> strict_eq (js_plus (js_plus treasury insurance) operators) (JInt 10000)
      then throwP (Error ''the sum of all fees must equal 10000'')
      else proposeCall E L voting tokenManager lido ''setFeeDistribution'' [treasury, insurance, operators]
        (''Set fee distribution to: (treasury '' @ to_str treasury @ '', insurance '' @ to_str insurance @
         '', operators '' @ to_str operators @ '')'') txOpts)"

section \<open>node-operators-registry.js\<close>

definition normalizeNodeOperator :: "jsval \<Rightarrow> props res" where
  "normalizeNodeOperator op =
     (if not_nullish op
      then let get = obj_get (own_props op); number = (\<lambda>k. JNum (to_num (get k)))
           in Inr [(''name'', get ''name''), (''active'', get ''active''), (''rewardAddress'', get ''rewardAddress''),
                   (''stakingLimit'', number ''stakingLimit''), (''stoppedValidators'', number ''stoppedValidators''),
                   (''totalSigningKeys'', number ''totalSigningKeys''), (''usedSigningKeys'', number ''usedSigningKeys'')]
      else Inl TypeError)"

text \<open>\<open>Array.from ({ length: count })\<close>: the length is truncated to an integer, \<open>NaN\<close> gives none.\<close>

definition array_length :: "jnum \<Rightarrow> nat res" where
  "array_length x =
     (case x of Fin q \<Rightarrow> Inr (nat \<lfloor>q\<rfloor>) | PosInf \<Rightarrow> Inl (External ''invalid array length'') | _ \<Rightarrow> Inr 0)"

definition listOperators :: "env \<Rightarrow> string \<Rightarrow> props list res" where
  "listOperators E registry =
     bindR (call_view E registry ''getNodeOperatorsCount'' []) (\<lambda>count.
     bindR (array_length (to_num count)) (\<lambda>n.
     bindR (mapR (\<lambda>i. call_view E registry ''getNodeOperator'' [JInt (int i), JBool True]) [0..<n]) (\<lambda>ops.
     mapR normalizeNodeOperator ops)))"

text \<open>\<open>ops.findIndex (op => addressEqual (fromAddr, op.rewardAddress))\<close>, \<open>None\<close> for -1.\<close>

fun findOperator :: "jsval \<Rightarrow> nat \<Rightarrow> props list \<Rightarrow> nat option res" where
  "findOperator fromAddr i [] = Inr None"
| "findOperator fromAddr i (op # ops) =
     bindR (addressEqual fromAddr (obj_get op ''rewardAddress'')) (\<lambda>eq.
     if eq then Inr (Some i) else findOperator fromAddr (Suc i) ops)"

definition senderOperator :: "env \<Rightarrow> string \<Rightarrow> props \<Rightarrow> nat res" where
  "senderOperator E registry opts =
     bindR (getSenderAddr E opts) (\<lambda>fromAddr.
     bindR (listOperators E registry) (\<lambda>ops.
     bindR (findOperator fromAddr 0 ops) (\<lambda>opIndex.
     case opIndex of
       None \<Rightarrow> Inl (Error ''only node operators are allowed to add signing keys'')
     | Some i \<Rightarrow> Inr i)))"

definition addSigningKeys :: "env \<Rightarrow> string \<Rightarrow> string list \<Rightarrow> string list \<Rightarrow> props \<Rightarrow> jsval prog" where
  "addSigningKeys E registry pubkeys signatures opts =
     (let totalKeys = length pubkeys;
          pubkeysData = concat (map trim0x pubkeys);
          signaturesData = concat (map trim0x signatures)
      in if totalKeys = 0 then throwP (Error ''you should provide at least one public key'')
         else if length signatures \<noteq> totalKeys
         then throwP (Error ''the number of provided signatures must match the number of provided pubkeys'')
         else if length pubkeysData \<noteq> 48 * 2 * totalKeys then throwP (Error ''each pubkey must be 48 bytes long'')
         else if length signaturesData \<noteq> 96 * 2 * totalKeys then throwP (Error ''each signature must be 96 bytes long'')
         else bindP (liftP (senderOperator E registry opts)) (\<lambda>opIndex.
              sendTx E registry ''addSigningKeysOperatorBH''
                [JInt (int opIndex), JInt (int totalKeys), JStr (''0x'' @ pubkeysData), JStr (''0x'' @ signaturesData)] opts))"

text \<open>
  \<open>for (let keyIndex = endKeyIndex; keyIndex >= startKeyIndex; --keyIndex)\<close> visits these indices.
\<close>

definition removalOrder :: "int \<Rightarrow> int \<Rightarrow> int list" where
  "removalOrder startKeyIndex endKeyIndex = rev [startKeyIndex..endKeyIndex]"

fun removeLoop :: "env \<Rightarrow> string \<Rightarrow> nat \<Rightarrow> props \<Rightarrow> int list \<Rightarrow> jsval list prog" where
  "removeLoop E registry opIndex opts [] w = (Inr [], w)"
| "removeLoop E registry opIndex opts (keyIndex # ks) w =
     bindP (sendTx E registry ''removeSigningKeyOperatorBH'' [JInt (int opIndex), JInt keyIndex] opts) (\<lambda>result.
     bindP (removeLoop E registry opIndex opts ks) (\<lambda>results. returnP (result # results))) w"

definition removeSigningKeys :: "env \<Rightarrow> string \<Rightarrow> int \<Rightarrow> int \<Rightarrow> props \<Rightarrow> jsval list prog" where
  "removeSigningKeys E registry startKeyIndex endKeyIndex opts =
     bindP (liftP (senderOperator E registry opts)) (\<lambda>opIndex.
     removeLoop E registry opIndex opts (removalOrder startKeyIndex endKeyIndex))"

definition setStakingLimit ::
  "env \<Rightarrow> lib_env \<Rightarrow> string \<Rightarrow> string \<Rightarrow> string \<Rightarrow> jsval \<Rightarrow> jsval \<Rightarrow> props \<Rightarrow> (jsval \<times> jsval) prog" where
  "setStakingLimit E L registry voting tokenManager operatorId newLimit txOpts =
     bindP (liftP (encode_call E registry ''setNodeOperatorStakingLimit'' [operatorId, newLimit])) (\<lambda>calldata.
     bindP (liftP (le_encodeCallScript L [(JStr registry, calldata)])) (\<lambda>evmScript.
     bindP (liftP (bindR (call_view E registry ''getNodeOperator'' [operatorId, JBool True]) normalizeNodeOperator)) (\<lambda>op.
     createVote E L voting tokenManager
       (''Change staking limit of operator '' @ [CHR 0x27] @ to_str (obj_get op ''name'') @ [CHR 0x27] @ '' (id '' @
        to_str operatorId @ '', reward address '' @ to_str (obj_get op ''rewardAddress'') @ '') from '' @
        to_str (obj_get op ''stakingLimit'') @ '' to '' @ to_str newLimit)
       evmScript txOpts)))"

section \<open>oracle.js\<close>

definition beaconSpecFields :: "string list" where
  "beaconSpecFields = [''epochsPerFrame'', ''slotsPerEpoch'', ''secondsPerSlot'', ''genesisTime'']"

definition normalizeBeaconSpec :: "jsval \<Rightarrow> props res" where
  "normalizeBeaconSpec spec =
     (if not_nullish spec
      then Inr (map (\<lambda>k. (k, JNum (to_num (obj_get (own_props spec) k)))) beaconSpecFields) else Inl TypeError)"

definition getBeaconSpec :: "env \<Rightarrow> string \<Rightarrow> props res" where
  "getBeaconSpec E oracle = bindR (call_view E oracle ''beaconSpec'' []) normalizeBeaconSpec"

definition updatesDesc :: "props \<Rightarrow> props \<Rightarrow> string" where
  "updatesDesc currentSpec newSpec =
     join_with '', '' (map (\<lambda>(key, newValue). key @ '' from '' @ to_str (obj_get currentSpec key) @ '' to '' @ to_str newValue)
       newSpec)"

definition proposeBeaconSpecChange ::
  "env \<Rightarrow> lib_env \<Rightarrow> string \<Rightarrow> string \<Rightarrow> string \<Rightarrow> props \<Rightarrow> props \<Rightarrow> (jsval \<times> jsval) prog" where
  "proposeBeaconSpecChange E L oracle voting tokenManager newSpec txOpts =
     bindP (liftP (getBeaconSpec E oracle)) (\<lambda>currentSpec.
     let updatedSpec = obj_assign currentSpec newSpec
     in proposeCall E L voting tokenManager oracle ''setBeaconSpec'' (map (obj_get updatedSpec) beaconSpecFields)
          (''Update Beacon chain spec: change '' @ updatesDesc currentSpec newSpec) txOpts)"

section \<open>The registry's side of a removal\<close>

text \<open>
  \<open>_removeSigningKey\<close> of contracts/0.4.24/nos/NodeOperatorsRegistry.sol: the last key of the operator
  takes the place of the removed one.  \<open>None\<close> is a reverted transaction.
\<close>

record 'a registry_op =
  ro_keys :: "'a list"
  ro_used :: nat
  ro_limit :: nat

definition contractRemove :: "nat \<Rightarrow> 'a registry_op \<Rightarrow> 'a registry_op option" where
  "contractRemove index op =
     (if \<not> index < length (ro_keys op) \<or> index < ro_used op then None
      else let lastIndex = length (ro_keys op) - 1;
               keys = (if index < lastIndex then (ro_keys op)[index := ro_keys op ! lastIndex] else ro_keys op)
           in Some (op\<lparr>ro_keys := take lastIndex keys,
                      ro_limit := (if index < ro_limit op then index else ro_limit op)\<rparr>))"

fun contractRemoveAll :: "nat list \<Rightarrow> 'a registry_op \<Rightarrow> 'a registry_op option" where
  "contractRemoveAll [] op = Some op"
| "contractRemoveAll (k # ks) op =
     (case contractRemove k op of None \<Rightarrow> None | Some op' \<Rightarrow> contractRemoveAll ks op')"

lemma contractRemove_ok:
  assumes "k < length (ro_keys op)" and "ro_used op \<le> k"
  obtains op' where "contractRemove k op = Some op'" "mset (ro_keys op') + {#ro_keys op ! k#} = mset (ro_keys op)"
    "take k (ro_keys op') = take k (ro_keys op)" "ro_used op' = ro_used op" "ro_limit op' = min k (ro_limit op)"
proof -
  define ks n where "ks = ro_keys op" and "n = length ks - 1"
  define ks' where "ks' = take n (if k < n then ks[k := ks ! n] else ks)"
  have k: "k \<le> n" "n < length ks" using assms(1) by (auto simp: ks_def n_def)
  have split: "ks = take n ks @ [ks ! n]" using k by (simp add: n_def take_Suc_conv_app_nth flip: take_Suc_conv_app_nth)
  have m: "mset ks' + {#ks ! k#} = mset ks"
  proof (cases "k < n")
    case True
    have "ks' = (take n ks)[k := ks ! n]" using True by (simp add: ks'_def take_update_swap)
    moreover have "k < length (take n ks)" using True k by simp
    ultimately have "mset ks' = add_mset (ks ! n) (mset (take n ks) - {#take n ks ! k#})"
      by (simp add: mset_update)
    moreover have "take n ks ! k \<in># mset (take n ks)" using True k by (metis length_take min.absorb4 nth_mem set_mset_mset)
    moreover have "mset ks = add_mset (ks ! n) (mset (take n ks))" by (subst split) simp
    ultimately show ?thesis using True by simp
  next
    case False
    with k have "k = n" by simp
    moreover have "mset ks = add_mset (ks ! n) (mset (take n ks))" by (subst split) simp
    ultimately show ?thesis by (simp add: ks'_def)
  qed
  have t: "take k ks' = take k ks" using k by (auto simp: ks'_def min_def)
  have "contractRemove k op = Some (op\<lparr>ro_keys := ks', ro_limit := min k (ro_limit op)\<rparr>)"
    using assms by (auto simp: contractRemove_def Let_def ks'_def ks_def n_def)
  then show thesis by (rule that) (use m t in \<open>auto simp: ks_def\<close>)
qed

lemma contractRemoveAll_down:
  assumes "a \<le> b" and "b \<le> length (ro_keys op)" and "ro_used op \<le> a"
  shows "\<exists>op'. contractRemoveAll (rev [a..<b]) op = Some op' \<and>
    mset (ro_keys op') = mset (take a (ro_keys op) @ drop b (ro_keys op)) \<and>
    take a (ro_keys op') = take a (ro_keys op)"
  using assms
proof (induction "b - a" arbitrary: b op)
  case 0
  then show ?case by simp
next
  case (Suc n)
  then obtain b' where b: "b = Suc b'" "a \<le> b'" by (cases b) auto
  have "b' < length (ro_keys op)" "ro_used op \<le> b'" using Suc.prems b by auto
  then obtain op1 where op1: "contractRemove b' op = Some op1"
    "mset (ro_keys op1) + {#ro_keys op ! b'#} = mset (ro_keys op)"
    "take b' (ro_keys op1) = take b' (ro_keys op)" "ro_used op1 = ro_used op"
    by (rule contractRemove_ok)
  from op1(2) have len: "length (ro_keys op1) + 1 = length (ro_keys op)"
    by (metis size_mset size_union size_single)
  have "n = b' - a" "b' \<le> length (ro_keys op1)" "ro_used op1 \<le> a" using Suc b len op1(4) by auto
  from Suc.hyps(1) [OF this(1) b(2) this(2,3)] obtain op' where
    op': "contractRemoveAll (rev [a..<b']) op1 = Some op'"
      "mset (ro_keys op') = mset (take a (ro_keys op1) @ drop b' (ro_keys op1))"
      "take a (ro_keys op') = take a (ro_keys op1)" by blast
  have pre: "take a (ro_keys op1) = take a (ro_keys op)"
    using op1(3) b(2) by (metis min.absorb1 take_take)
  have "mset (take b' (ro_keys op1)) + mset (drop b' (ro_keys op1)) + {#ro_keys op ! b'#} =
      mset (take b' (ro_keys op)) + mset (drop b' (ro_keys op))"
    using op1(2) by (simp flip: mset_append)
  moreover have "drop b' (ro_keys op) = ro_keys op ! b' # drop b (ro_keys op)"
    using Suc.prems(2) b(1) by (simp add: Cons_nth_drop_Suc)
  ultimately have "mset (drop b' (ro_keys op1)) = mset (drop b (ro_keys op))"
    using op1(3) by simp
  with op' pre have "mset (ro_keys op') = mset (take a (ro_keys op) @ drop b (ro_keys op))" by simp
  with op' pre op1(1) b show ?case by (simp)
qed

section \<open>Sending the removals\<close>

definition removalTx :: "string \<Rightarrow> nat \<Rightarrow> props \<Rightarrow> int \<Rightarrow> sent_tx" where
  "removalTx registry opIndex opts k =
     \<lparr>tx_to = registry, tx_method = ''removeSigningKeyOperatorBH'', tx_args = [JInt (int opIndex), JInt k], tx_opts = opts\<rparr>"

lemma sendTx_ok: "sendTx E addr m args opts w = (Inr r, w') \<Longrightarrow>
    w' = w\<lparr>sent := sent w @ [\<lparr>tx_to = addr, tx_method = m, tx_args = args, tx_opts = opts\<rparr>]\<rparr>"
  by (auto simp: sendTx_def split: sum.splits)

lemma removeLoop_sent:
  "removeLoop E registry i opts ks w = (Inr rs, w') \<Longrightarrow>
     sent w' = sent w @ map (removalTx registry i opts) ks \<and> length rs = length ks \<and>
     net_files w' = net_files w \<and> tx_files w' = tx_files w"
proof (induction ks arbitrary: w rs)
  case (Cons k ks)
  from Cons.prems obtain r w1 rs' where s: "sendTx E registry ''removeSigningKeyOperatorBH'' [JInt (int i), JInt k] opts w = (Inr r, w1)"
    and l: "removeLoop E registry i opts ks w1 = (Inr rs', w')" "rs = r # rs'"
    by (auto simp: prog_ok)
  from Cons.IH [OF l(1)] sendTx_ok [OF s] l(2) show ?case by (simp add: removalTx_def)
qed simp

lemma removalOrder_nat: "a \<le> b \<Longrightarrow> removalOrder (int a) (int b) = map int (rev [a..<Suc b])"
proof -
  assume "a \<le> b"
  have "[int a..int b] = map int [a..<Suc b]"
    by (rule nth_equalityI) (use \<open>a \<le> b\<close> in \<open>auto simp: nth_upto simp del: upt_Suc\<close>)
  then show ?thesis by (simp add: removalOrder_def rev_map)
qed

section \<open>Properties\<close>

text \<open>
  C24: removing a range of keys removes exactly that range: the transactions go to the registry for
  the sender's operator with indices from the end down to the start, and since the registry fills the
  gap with its last key, playing them in this order leaves the keys before the range in place and,
  after it, exactly the keys that followed the range.
\<close>

theorem removeSigningKeys_exact:
  assumes "removeSigningKeys E registry (int a) (int b) opts w = (Inr rs, w')" and "a \<le> b"
    and "b < length (ro_keys op)" and "ro_used op \<le> a"
  shows "\<exists>i op'. senderOperator E registry opts = Inr i \<and>
    sent w' = sent w @ map (\<lambda>k. removalTx registry i opts (int k)) (rev [a..<Suc b]) \<and>
    contractRemoveAll (rev [a..<Suc b]) op = Some op' \<and>
    take a (ro_keys op') = take a (ro_keys op) \<and>
    mset (drop a (ro_keys op')) = mset (drop (Suc b) (ro_keys op))"
proof -
  from assms(1) obtain i where i: "senderOperator E registry opts = Inr i"
    and l: "removeLoop E registry i opts (removalOrder (int a) (int b)) w = (Inr rs, w')"
    by (auto simp: removeSigningKeys_def prog_ok)
  from removeLoop_sent [OF l] have "sent w' = sent w @ map (\<lambda>k. removalTx registry i opts (int k)) (rev [a..<Suc b])"
    by (simp add: removalOrder_nat [OF assms(2)] comp_def del: upt_Suc)
  moreover from contractRemoveAll_down [of a "Suc b" op] assms(2-4) obtain op' where
    op': "contractRemoveAll (rev [a..<Suc b]) op = Some op'"
      "mset (ro_keys op') = mset (take a (ro_keys op) @ drop (Suc b) (ro_keys op))"
      "take a (ro_keys op') = take a (ro_keys op)" by (auto simp del: upt_Suc)
  moreover have "mset (drop a (ro_keys op')) = mset (drop (Suc b) (ro_keys op))"
  proof -
    have "mset (take a (ro_keys op')) + mset (drop a (ro_keys op')) =
        mset (take a (ro_keys op)) + mset (drop (Suc b) (ro_keys op))"
      using op'(2) by (simp flip: mset_append)
    with op'(3) show ?thesis by simp
  qed
  ultimately show ?thesis using i by blast
qed

definition operator_env :: env where
  "operator_env = offline_env\<lparr>
     call_view := (\<lambda>_ m _. Inr (if m = ''getNodeOperatorsCount'' then JBN 1
       else JObj [(''rewardAddress'', JStr ''0xAB''), (''name'', JStr ''n'')])),
     encode_call := (\<lambda>_ m args. Inr (m @ concat (map to_str args))),
     send_tx := (\<lambda>_ _ _ _. Inr JNull)\<rparr>"

definition sample_op :: "string registry_op" where
  "sample_op = \<lparr>ro_keys = [''k0'', ''k1'', ''k2'', ''k3''], ro_used = 1, ro_limit = 3\<rparr>"

theorem removeSigningKeys_exact_witness:
  "\<exists>op'. contractRemoveAll [2, 1] sample_op = Some op' \<and> mset (drop 1 (ro_keys op')) = {#''k3''#}"
proof -
  have ok: "okR (fst (removeSigningKeys operator_env ''0x1'' 1 2 [(''from'', JStr ''0xab'')] empty_world))" by code_simp
  then obtain rs w' where r: "removeSigningKeys operator_env ''0x1'' (int 1) (int 2) [(''from'', JStr ''0xab'')] empty_world = (Inr rs, w')"
    by (cases "removeSigningKeys operator_env ''0x1'' 1 2 [(''from'', JStr ''0xab'')] empty_world") (auto simp: okR_iff)
  have u: "rev [1..<Suc 2] = [2, 1 :: nat]" by (simp add: upt_rec)
  from removeSigningKeys_exact [OF r, of sample_op, unfolded u] show ?thesis by (auto simp: sample_op_def)
qed

text \<open>
  proposals round a fractional percentage down: the vote script gets the whole number of
  percent below the one asked for, while the vote's description states the fraction.
\<close>

theorem percentToBp18_truncates:
  assumes "0 \<le> q" and "q \<le> 100"
  shows "percentToBp18 (JNum (Fin q)) = Inr (dec_int (10 ^ 16 * \<lfloor>q\<rfloor>))"
proof -
  have "0 \<le> \<lfloor>q\<rfloor>" "\<lfloor>q\<rfloor> \<le> 100" using assms by (simp_all add: floor_le_iff)
  then have "to_int32 (Fin q) = \<lfloor>q\<rfloor>" using assms(1) by (simp add: trunc_rat_def wrap32_id)
  with assms show ?thesis by (simp add: percentToBp18_def to_num_def num_lt_def TEN_TO_16_def)
qed

theorem percentToBp18_truncates_witness:
  "percentToBp18 (JNum (Fin (11 / 2))) = Inr ''50000000000000000''"
proof -
  have "dec_int (10 ^ 16 * 5) = ''50000000000000000''" by code_simp
  moreover have "\<lfloor>11 / 2 :: rat\<rfloor> = 5" by (simp add: floor_eq_iff)
  ultimately show ?thesis using percentToBp18_truncates [of "11 / 2"] by simp
qed

text \<open>
  \<open>addSigningKeys\<close> checks only the total length: the same text cut into keys in any other way
  is accepted or rejected alike and sends the same transaction, so keys of wrong lengths that add up
  pass the check that each key is 48 bytes long.
\<close>

theorem addSigningKeys_total_length:
  assumes "length pks' = length pks" and "concat (map trim0x pks') = concat (map trim0x pks)"
    and "length sgs' = length sgs" and "concat (map trim0x sgs') = concat (map trim0x sgs)"
  shows "addSigningKeys E registry pks' sgs' opts = addSigningKeys E registry pks sgs opts"
  by (simp add: addSigningKeys_def assms Let_def)

theorem addSigningKeys_total_length_witness:
  "okR (fst (addSigningKeys operator_env ''0x1'' [replicate 94 (CHR ''a''), replicate 98 (CHR ''a'')]
     [replicate 192 (CHR ''b''), replicate 192 (CHR ''b'')] [(''from'', JStr ''0xab'')] empty_world))"
proof -
  let ?even = "addSigningKeys operator_env ''0x1'' [replicate 96 (CHR ''a''), replicate 96 (CHR ''a'')]
     [replicate 192 (CHR ''b''), replicate 192 (CHR ''b'')] [(''from'', JStr ''0xab'')]"
  have "addSigningKeys operator_env ''0x1'' [replicate 94 (CHR ''a''), replicate 98 (CHR ''a'')]
     [replicate 192 (CHR ''b''), replicate 192 (CHR ''b'')] [(''from'', JStr ''0xab'')] = ?even"
    by (rule addSigningKeys_total_length) code_simp+
  moreover have "okR (fst (?even empty_world))" by code_simp
  ultimately show ?thesis by simp
qed

text \<open>
  a beacon specification change leaves what it does not name as it is: the vote's script
  calls \<open>setBeaconSpec\<close> with the new value of every field named and the current value of the others.
\<close>

theorem beacon_spec_merge:
  assumes "proposeBeaconSpecChange E L oracle voting tokenManager newSpec txOpts w = (Inr r, w')"
    and "distinct (map fst newSpec)"
  shows "\<exists>currentSpec calldata. getBeaconSpec E oracle = Inr currentSpec \<and>
    encode_call E oracle ''setBeaconSpec''
      (map (\<lambda>k. if k \<in> fst ` set newSpec then obj_get newSpec k else obj_get currentSpec k) beaconSpecFields) = Inr calldata \<and>
    okR (le_encodeCallScript L [(JStr oracle, calldata)]) \<and> length (sent w') = length (sent w) + 1"
proof -
  from assms(1) obtain cur cd script w2 where c: "getBeaconSpec E oracle = Inr cur"
    "encode_call E oracle ''setBeaconSpec'' (map (obj_get (obj_assign cur newSpec)) beaconSpecFields) = Inr cd"
    "le_encodeCallScript L [(JStr oracle, cd)] = Inr script"
    "createVote E L voting tokenManager (''Update Beacon chain spec: change '' @ updatesDesc cur newSpec) script txOpts w = (Inr r, w')"
    by (auto simp: proposeBeaconSpecChange_def proposeCall_def Let_def prog_ok)
  from c(4) have "length (sent w') = length (sent w) + 1"
    by (auto simp: createVote_def prog_ok dest: sendTx_ok)
  moreover have "map (obj_get (obj_assign cur newSpec)) beaconSpecFields =
      map (\<lambda>k. if k \<in> fst ` set newSpec then obj_get newSpec k else obj_get cur k) beaconSpecFields"
    by (rule map_cong) (simp_all add: obj_get_assign [OF assms(2)])
  note c(2) [unfolded this]
  ultimately show ?thesis
    by (intro exI [of _ cur] exI [of _ cd] conjI) (use c in simp_all)
qed

definition sample_lib :: lib_env where
  "sample_lib = \<lparr>le_encodeCallScript = (\<lambda>cs. Inr (concat (map snd cs))), le_eventArgument = (\<lambda>_ _ _. Inr (JInt 7))\<rparr>"

theorem beacon_spec_merge_witness:
  "\<exists>currentSpec. getBeaconSpec operator_env ''0x2'' = Inr currentSpec"
proof -
  let ?p = "proposeBeaconSpecChange operator_env sample_lib ''0x2'' ''0x3'' ''0x4'' [(''slotsPerEpoch'', JInt 32)] [] empty_world"
  have "okR (fst ?p)" by code_simp
  then obtain r w' where p: "?p = (Inr r, w')" by (cases ?p) (auto simp: okR_iff)
  from beacon_spec_merge [OF p] show ?thesis by auto
qed

end
