(* ===== verification/DoubleExact.thy ===== *)
theory DoubleExact
  imports JsNumber
begin

text \<open>
  Where double arithmetic loses nothing: integers up to \<open>2 ^ 53\<close> are doubles, and the floor of a
  rounded quotient of such integers is the integer quotient.  Shared by the theories that compute
  with gas, amounts and times.
\<close>

lemma round_even_int [simp]: "round_even (of_int i) = i"
  by (simp add: round_even_def)

lemma ilog2_less:
  assumes "0 < a" "a < pow2 e"
  shows "ilog2 a < e"
proof (rule ccontr)
  assume "\<not> ilog2 a < e"
  then have "pow2 e \<le> pow2 (ilog2 a)" by (intro pow2_mono) simp
  with ilog2_lower [OF assms(1)] assms(2) show False by linarith
qed

lemma pow2_53: "pow2 53 = 9007199254740992"
  by (simp add: pow2_def)

lemma quotient_of_int: "quotient_of (of_int n) = (n, 1)"
  using quotient_of_int [of n] by simp

lemma ilog2_ge_0:
  assumes "0 < n"
  shows "0 \<le> ilog2 (of_int n)"
proof -
  have b: "0 < blen n" and lo: "2 ^ (blen n - 1) \<le> n" using blen_bounds [OF assms] by auto
  have o: "blen 1 = 1" by (simp add: blen.simps [of 1])
  have "pow2 (int (blen n) - 1) = 2 ^ (blen n - 1)" using b by (simp add: pow2_def nat_diff_distrib)
  also have "\<dots> \<le> (of_int n :: rat)" using lo by (metis of_int_le_iff of_int_numeral of_int_power)
  finally show ?thesis
    using b by (simp add: ilog2_def quotient_of_int o Let_def)
qed

text \<open>An integer that fits in 53 bits is a double.\<close>

lemma dbl_of_int:
  assumes "\<bar>i\<bar> < 2 ^ 53"
  shows "dbl (of_int i) = Fin (of_int i)"
proof (cases "i = 0")
  case True
  then show ?thesis by (simp add: dbl_def)
next
  case False
  define n where "n = \<bar>i\<bar>"
  have n: "0 < n" "n < 2 ^ 53" using False assms by (simp_all add: n_def)
  have "(of_int n :: rat) < of_int (2 ^ 53)" using n(2) by (simp only: of_int_less_iff)
  then have "ilog2 (of_int n) < 53" using n(1) by (intro ilog2_less) (simp_all add: pow2_53)
  moreover have "0 \<le> ilog2 (of_int n)" using n(1) by (rule ilog2_ge_0)
  ultimately have e: "max (ilog2 (of_int n) - 52) (- 1074) = ilog2 (of_int n) - 52" "ilog2 (of_int n) - 52 \<le> 0"
    by simp_all
  define k where "k = nat (52 - ilog2 (of_int n))"
  have u: "pow2 (ilog2 (of_int n) - 52) = 1 / 2 ^ k"
    using e(2) by (auto simp: pow2_def k_def)
  have "of_int n / pow2 (ilog2 (of_int n) - 52) = (of_int (n * 2 ^ k) :: rat)" by (simp add: u)
  then have r: "of_int (round_even (of_int n / pow2 (ilog2 (of_int n) - 52))) * pow2 (ilog2 (of_int n) - 52) = of_int n"
    by (simp only: round_even_int) (simp add: u)
  have a: "\<bar>of_int i\<bar> = (of_int n :: rat)" by (simp add: n_def)
  have "dbl (of_int i) = Fin (if (0::rat) < of_int i then of_int n else - of_int n)"
    using False \<open>ilog2 (of_int n) < 53\<close> by (simp add: dbl_def a e(1) r Let_def)
  then show ?thesis by (auto simp: n_def)
qed

lemma small_quotient: "(1::rat) \<le> a \<Longrightarrow> d \<le> 2 ^ 60 \<Longrightarrow> 0 < d \<Longrightarrow> pow2 (- 1022) \<le> a / d"
proof -
  assume a: "1 \<le> a" and d: "d \<le> 2 ^ 60" "0 < d"
  have "pow2 (- 1022) \<le> pow2 (- 60)" by (rule pow2_mono) simp
  also have "\<dots> = 1 / 2 ^ 60" by (simp add: pow2_def)
  also have "\<dots> \<le> a / d" using a d by (intro frac_le) auto
  finally show ?thesis .
qed

lemma large_quotient: "0 \<le> a \<Longrightarrow> a \<le> 2 ^ 60 \<Longrightarrow> 1 \<le> d \<Longrightarrow> a / d < (2::rat) ^ 1000"
proof -
  assume a: "0 \<le> a" "a \<le> 2 ^ 60" and d: "1 \<le> d"
  have "a / d \<le> a / 1" using a(1) d by (intro divide_left_mono) auto
  also have "\<dots> \<le> 2 ^ 60" using a by simp
  also have "\<dots> < (2::rat) ^ 1000" by (rule power_strict_increasing) simp_all
  finally show ?thesis .
qed

text \<open>The rounded quotient of two positive amounts of at most \<open>2 ^ 60\<close>.\<close>

lemma dbl_quotient:
  assumes "1 \<le> a" "a \<le> 2 ^ 60" "1 \<le> d" "d \<le> 2 ^ 60"
  shows "\<exists>r. dbl (a / d) = Fin r \<and> \<bar>r - a / d\<bar> \<le> a / d / 2 ^ 53"
proof (rule dbl_error)
  show "pow2 (- 1022) \<le> a / d" by (rule small_quotient) (use assms in simp_all)
  show "a / d < 2 ^ 1000" by (rule large_quotient) (use assms in simp_all)
qed

text \<open>\<open>Math.floor (a / d)\<close> on integers is integer division.\<close>

lemma floor_dbl_div:
  assumes "0 \<le> a" "a < 2 ^ 53" "0 < d" "d \<le> 2 ^ 53"
  shows "math_floor (dbl (of_int a / of_int d)) = Fin (of_int (a div d))"
proof (cases "a mod d = 0")
  case True
  then have "(of_int a :: rat) / of_int d = of_int (a div d)"
    using assms(3) by (auto simp: real_of_int_div)
  moreover have "\<bar>a div d\<bar> < 2 ^ 53"
  proof -
    have "0 \<le> a div d" "a div d \<le> a"
      using assms zdiv_mono2 [of a 1 d] by (simp_all add: pos_imp_zdiv_nonneg_iff)
    with assms(2) show ?thesis by linarith
  qed
  ultimately show ?thesis by (simp add: dbl_of_int)
next
  case False
  define f where "f = a div d"
  have m: "a = d * f + a mod d" "0 < a mod d" "a mod d < d"
    using pos_mod_sign [OF assms(3), of a] pos_mod_bound [OF assms(3), of a] False
    by (simp_all add: f_def)
  define x where "x = (of_int a :: rat) / of_int d"
  have dq: "(0::rat) < of_int d" using assms(3) by simp
  have "of_int a = (of_int d :: rat) * of_int f + of_int (a mod d)" using m(1) by (metis of_int_add of_int_mult)
  then have x: "x = of_int f + of_int (a mod d) / of_int d" using dq by (simp add: x_def field_simps)
  have lo: "1 / of_int d \<le> x - of_int f" using m(2) dq by (simp add: x divide_right_mono)
  have hi: "x \<le> of_int f + 1 - 1 / of_int d"
  proof -
    have "(of_int (a mod d) :: rat) \<le> of_int d - 1" using m(3) by (metis of_int_1 of_int_diff of_int_le_iff zle_diff1_eq)
    then have "of_int (a mod d) / of_int d \<le> (of_int d - 1) / (of_int d :: rat)" using dq by (simp add: divide_right_mono)
    also have "\<dots> = 1 - 1 / of_int d" using dq by (simp add: field_simps)
    finally show ?thesis by (simp add: x)
  qed
  have a1: "1 \<le> a" using m assms(1) False by (cases "a = 0") auto
  have big: "(2::int) ^ 53 \<le> 2 ^ 60" by simp
  have aq: "(of_int a :: rat) < 2 ^ 53"
    using assms(2) by (metis of_int_less_iff of_int_numeral of_int_power)
  have dq2: "(of_int d :: rat) \<le> 2 ^ 53"
    using assms(4) by (metis of_int_le_iff of_int_numeral of_int_power)
  have "(1::rat) \<le> of_int a" "(1::rat) \<le> of_int d" using a1 assms(3) by simp_all
  then obtain r where r: "dbl x = Fin r" "\<bar>r - x\<bar> \<le> x / 2 ^ 53"
    unfolding x_def using dbl_quotient [of "of_int a" "of_int d"] aq dq2 by force
  have "x / 2 ^ 53 = of_int a / 2 ^ 53 / of_int d" by (simp add: x_def)
  also have "\<dots> < 1 / of_int d" using aq dq by (intro divide_strict_right_mono) simp_all
  finally have "\<bar>r - x\<bar> < 1 / of_int d" using r(2) by linarith
  with lo hi have "of_int f \<le> r" "r < of_int f + 1" by linarith+
  then have "\<lfloor>r\<rfloor> = f" by (simp add: floor_eq_iff)
  with r(1) show ?thesis by (simp add: x_def f_def)
qed

end
