(* ===== verification/GasEstimate.thy ===== *)
theory GasEstimate
  imports GasSource LibTools DoubleExact
begin

text \<open>
  estimate_deposit_loop_gas.js and gasprofile/tx-deposit.js: the scenario that registers node
  operators with generated keys and submits ether, and the linear fit that turns the measured gas
  into the number of deposits that fits into a block.  Every \<open>it\<close> block is a program of its own with
  the environment it runs in, since the chain moves between blocks.  Deploying the DAO and the Aragon
  test helpers are parameters; a truffle instance is its address.
\<close>

section \<open>Generated keys (test/helpers/utils.js)\<close>

definition arbitraryN :: int where
  "arbitraryN = 0x0159e2036050fb43f6ecaca13a7b53b23ea54a623e47fb2bd89a5b4a18da3295"

text \<open>\<open>fill.repeat(absentZeroes)\<close> after the prefix; a text that is long enough stays.\<close>

definition pad :: "string \<Rightarrow> nat \<Rightarrow> char \<Rightarrow> string" where
  "pad hex bytesLength fill =
     (let absentZeroes = int (bytesLength * 2 + 2) - int (length hex)
      in if 0 < absentZeroes then ''0x'' @ replicate (nat absentZeroes) fill @ drop 2 hex else hex)"

definition hexConcat :: "string \<Rightarrow> string list \<Rightarrow> string" where
  "hexConcat fst' rest =
     (if starts_with ''0x'' fst' then fst' else ''0x'' @ fst') @
     concat (map (\<lambda>item. if starts_with ''0x'' item then drop 2 item else item) rest)"

definition numKeys :: nat where
  "numKeys = 3"

record key_data =
  kd_key :: string
  kd_sig :: string

definition keyData :: "nat \<Rightarrow> nat \<Rightarrow> key_data" where
  "keyData iOperator iKey =
     (let n = arbitraryN + (10 * int iKey + 1000 * int iOperator)
      in \<lparr>kd_key = pad (''0x'' @ hex_digits n) 48 (CHR ''d''),
          kd_sig = pad (''0x'' @ hex_digits n) 96 (CHR ''e'')\<rparr>)"

definition withdrawalCredentials :: string where
  "withdrawalCredentials = pad ''0x0202'' 32 (CHR ''0'')"

section \<open>The scenario\<close>

record gas_pool =
  gp_pool :: string
  gp_registry :: string
  gp_deposit :: string

text \<open>\<open>assertBn\<close> and \<open>getEventArgument\<close> of the Aragon helpers, and web3's conversion of ether.\<close>

record gas_tools =
  gt_assertBn :: "jsval \<Rightarrow> jsval \<Rightarrow> unit res"
  gt_eventArgument :: "jsval \<Rightarrow> string \<Rightarrow> string \<Rightarrow> jsval res"
  gt_toWei :: "string \<Rightarrow> jsval"

definition ETH :: "gas_tools \<Rightarrow> int \<Rightarrow> jsval" where
  "ETH T n = gt_toWei T (dec_int n)"

definition setupPool :: "env \<Rightarrow> gas_pool res \<Rightarrow> jsval \<Rightarrow> gas_pool prog" where
  "setupPool E deployed voting =
     bindP (liftP deployed) (\<lambda>d.
     let whole = (\<lambda>x. JNum (js_mul (dbl x) (Fin 10000)))
     in bindP (sendTx E (gp_pool d) ''setFee'' [whole (1 / 100)] [(''from'', voting)]) (\<lambda>_.
        bindP (sendTx E (gp_pool d) ''setFeeDistribution'' [whole (3 / 10), whole (2 / 10), whole (5 / 10)]
                 [(''from'', voting)]) (\<lambda>_.
        bindP (sendTx E (gp_pool d) ''setWithdrawalCredentials'' [JStr withdrawalCredentials] [(''from'', voting)]) (\<lambda>_.
        returnP d))))"

text \<open>One operator with its keys; the two scenarios differ in the prefix of the name.\<close>

definition addOperator ::
  "env \<Rightarrow> gas_tools \<Rightarrow> gas_pool \<Rightarrow> string \<Rightarrow> jsval \<Rightarrow> jsval \<Rightarrow> nat \<Rightarrow> key_data list prog" where
  "addOperator E T d prefix voting nodeOperator i =
     bindP (sendTx E (gp_registry d) ''addNodeOperator''
              [JStr (prefix @ dec_int (int i)), nodeOperator, JInt 1000] [(''from'', voting)]) (\<lambda>txn.
     bindP (liftP (gt_eventArgument T txn ''NodeOperatorAdded'' ''id'')) (\<lambda>nodeOperatorId.
     let data = map (keyData i) [0..<numKeys];
         keys = hexConcat (kd_key (hd data)) (map kd_key (tl data));
         sigs = hexConcat (kd_sig (hd data)) (map kd_sig (tl data))
     in bindP (sendTx E (gp_registry d) ''addSigningKeys''
                 [nodeOperatorId, JInt (int numKeys), JStr keys, JStr sigs] [(''from'', voting)]) (\<lambda>_.
        bindP (liftP (call_view E (gp_registry d) ''getTotalSigningKeyCount'' [nodeOperatorId])) (\<lambda>totalKeys.
        bindP (liftP (gt_assertBn T totalKeys (JInt (int numKeys)))) (\<lambda>_.
        returnP data)))))"

fun addOperators ::
  "env \<Rightarrow> gas_tools \<Rightarrow> gas_pool \<Rightarrow> string \<Rightarrow> jsval \<Rightarrow> jsval \<Rightarrow> nat list \<Rightarrow> key_data list \<Rightarrow> key_data list prog" where
  "addOperators E T d prefix voting nodeOperator [] validatorData w = (Inr validatorData, w)"
| "addOperators E T d prefix voting nodeOperator (i # is) validatorData w =
     bindP (addOperator E T d prefix voting nodeOperator i) (\<lambda>data.
       addOperators E T d prefix voting nodeOperator is (validatorData @ data)) w"

definition registerOperators :: "env \<Rightarrow> gas_tools \<Rightarrow> gas_pool \<Rightarrow> jsval \<Rightarrow> jsval \<Rightarrow> key_data list prog" where
  "registerOperators E T d voting nodeOperator =
     bindP (addOperators E T d ''operator-'' voting nodeOperator [0..<20] []) (\<lambda>validatorData.
     bindP (liftP (call_view E (gp_registry d) ''getNodeOperatorsCount'' [])) (\<lambda>count.
     bindP (liftP (gt_assertBn T count (JInt 20))) (\<lambda>_.
     returnP validatorData)))"

definition gasUsedOf :: "jsval \<Rightarrow> jsval res" where
  "gasUsedOf result = bindR (getp result ''receipt'') (\<lambda>receipt. getp receipt ''gasUsed'')"

text \<open>\<open>Promise.all\<close> has started every transaction before it fails with the first error.\<close>

fun sendAll :: "(jsval prog) list \<Rightarrow> jsval list prog" where
  "sendAll [] w = (Inr [], w)"
| "sendAll (m # ms) w =
     (let (r, w1) = m w; (rs, w2) = sendAll ms w1
      in (bindR r (\<lambda>x. bindR rs (\<lambda>xs. Inr (x # xs))), w2))"

definition sum_nums :: "jnum list \<Rightarrow> jnum" where
  "sum_nums xs = fold (\<lambda>b a. js_add a b) xs (Fin 0)"

text \<open>The average leaves the first deposit out.\<close>

definition avgGasUsed :: "jnum list \<Rightarrow> jnum" where
  "avgGasUsed gasUsed = js_div (sum_nums (drop 1 gasUsed)) (Fin (of_int (int (length gasUsed) - 1)))"

definition mockDeposits :: "env \<Rightarrow> gas_tools \<Rightarrow> gas_pool \<Rightarrow> jsval \<Rightarrow> key_data list \<Rightarrow> jnum prog" where
  "mockDeposits E T d user1 validatorData =
     bindP (sendAll (map (\<lambda>v. sendTx E (gp_deposit d) ''deposit''
              [JStr (kd_key v), JStr withdrawalCredentials, JStr (kd_sig v), JStr (''0x'' @ hex_digits arbitraryN)]
              [(''from'', user1), (''value'', ETH T 32)]) validatorData)) (\<lambda>results.
     bindP (liftP (call_view E (gp_deposit d) ''totalCalls'' [])) (\<lambda>totalCalls.
     bindP (liftP (gt_assertBn T totalCalls (JInt (int (length validatorData))))) (\<lambda>_.
     bindP (liftP (mapR gasUsedOf results)) (\<lambda>gasUsed.
     returnP (avgGasUsed (map to_num gasUsed))))))"

text \<open>
  \<open>a user sends n ETH\<close>: the five blocks that submit ether differ in the user, the amount, the
  expected pool and the number of validators registered so far.
\<close>

definition submitAndCheck ::
  "env \<Rightarrow> gas_tools \<Rightarrow> gas_pool \<Rightarrow> key_data list \<Rightarrow> jsval \<Rightarrow> int \<Rightarrow> int \<Rightarrow> int \<Rightarrow> jnum prog" where
  "submitAndCheck E T d validatorData user amount pooled validators =
     bindP (sendTx E (gp_pool d) ''submit'' [JStr ZERO_ADDR] [(''from'', user), (''value'', ETH T amount)]) (\<lambda>result.
     bindP (liftP (call_view E (gp_pool d) ''getTotalPooledEther'' [])) (\<lambda>total.
     bindP (liftP (gt_assertBn T total (ETH T pooled))) (\<lambda>_.
     bindP (liftP (call_view E (gp_deposit d) ''totalCalls'' [])) (\<lambda>totalCalls.
     bindP (liftP (gt_assertBn T
        (JNum (js_add (to_num totalCalls) (Fin (- of_int (int (length validatorData)))))) (JInt validators))) (\<lambda>_.
     bindP (liftP (gasUsedOf result)) (\<lambda>gasUsed.
     returnP (to_num gasUsed)))))))"

section \<open>The estimate\<close>

definition js_neg :: "jnum \<Rightarrow> jnum" where
  "js_neg x = (case x of Fin q \<Rightarrow> Fin (- q) | NaN \<Rightarrow> NaN | PosInf \<Rightarrow> NegInf | NegInf \<Rightarrow> PosInf)"

definition js_sub :: "jnum \<Rightarrow> jnum \<Rightarrow> jnum" where
  "js_sub x y = js_add x (js_neg y)"

definition math_abs :: "jnum \<Rightarrow> jnum" where
  "math_abs x = (case x of Fin q \<Rightarrow> Fin \<bar>q\<bar> | NaN \<Rightarrow> NaN | PosInf \<Rightarrow> PosInf | NegInf \<Rightarrow> PosInf)"

record gas_estimate =
  ge_gasPerIter :: jnum
  ge_gasConst :: jnum
  ge_gasPerIterCorrected :: jnum
  ge_predicted5 :: jnum
  ge_predicted30 :: jnum
  ge_diff5 :: jnum
  ge_diff30 :: jnum
  ge_targetMaxGas :: jnum
  ge_iterLimit :: jnum

definition estimateGas :: "jnum \<Rightarrow> jnum \<Rightarrow> jnum \<Rightarrow> jnum \<Rightarrow> jnum \<Rightarrow> gas_estimate" where
  "estimateGas gasPerMockDeposit gas1 gas5 gas10 gas30 =
     (let gasPerIter = math_floor (js_div (js_sub gas10 gas1) (Fin 9));
          gasConst = math_floor (js_sub gas1 gasPerIter);
          gasPerRealDeposit = Fin 70000;
          gasPerIterCorrected = js_add (js_sub gasPerIter gasPerMockDeposit) gasPerRealDeposit;
          predictedGasPer5 = js_add gasConst (js_mul (Fin 5) gasPerIter);
          predictedGasPer30 = js_add gasConst (js_mul (Fin 30) gasPerIter);
          targetMaxGas = math_floor (js_mul (Fin 12000000) (dbl (2 / 10)))
      in \<lparr>ge_gasPerIter = gasPerIter, ge_gasConst = gasConst, ge_gasPerIterCorrected = gasPerIterCorrected,
          ge_predicted5 = predictedGasPer5, ge_predicted30 = predictedGasPer30,
          ge_diff5 = math_floor (js_div (math_abs (js_sub predictedGasPer5 gas5)) (Fin 5)),
          ge_diff30 = math_floor (js_div (math_abs (js_sub predictedGasPer30 gas30)) (Fin 30)),
          ge_targetMaxGas = targetMaxGas,
          ge_iterLimit = math_floor (js_div (js_sub targetMaxGas gasConst) gasPerIterCorrected)\<rparr>)"

section \<open>The whole scenario\<close>

text \<open>\<open>Es\<close> are the environments of the nine blocks that talk to the chain, in order.\<close>

record gas_accounts =
  acc_voting :: jsval
  acc_nodeOperator :: jsval
  acc_user1 :: jsval
  acc_user2 :: jsval

definition depositLoopEstimate ::
  "(nat \<Rightarrow> env) \<Rightarrow> gas_tools \<Rightarrow> gas_pool res \<Rightarrow> gas_accounts \<Rightarrow> gas_estimate prog" where
  "depositLoopEstimate Es T deployed A =
     bindP (setupPool (Es 0) deployed (acc_voting A)) (\<lambda>d.
     bindP (registerOperators (Es 1) T d (acc_voting A) (acc_nodeOperator A)) (\<lambda>validatorData.
     bindP (mockDeposits (Es 2) T d (acc_user1 A) validatorData) (\<lambda>gasPerMockDeposit.
     let submit = (\<lambda>E. submitAndCheck E T d validatorData)
     in bindP (submit (Es 3) (acc_user1 A) 33 33 1) (\<lambda>_.
        bindP (submit (Es 4) (acc_user2 A) 32 (33 + 32) 2) (\<lambda>gas1.
        bindP (submit (Es 5) (acc_user2 A) (5 * 32) (33 + 32 + 5 * 32) (2 + 5)) (\<lambda>gas5.
        bindP (submit (Es 6) (acc_user2 A) (10 * 32) (33 + 32 + 5 * 32 + 10 * 32) (2 + 5 + 10)) (\<lambda>gas10.
        bindP (submit (Es 7) (acc_user2 A) (30 * 32) (33 + 32 + 5 * 32 + 10 * 32 + 30 * 32) (2 + 5 + 10 + 30)) (\<lambda>gas30.
        returnP (estimateGas gasPerMockDeposit gas1 gas5 gas10 gas30)))))))))"

section \<open>gasprofile/tx-deposit.js\<close>

text \<open>\<open>printTx\<close> returns the result of the transaction; the printed hash is not modelled.\<close>

definition txDeposit ::
  "env \<Rightarrow> gas_tools \<Rightarrow> gas_pool res \<Rightarrow> gas_accounts \<Rightarrow> jsval \<Rightarrow> (jsval \<times> jsval) prog" where
  "txDeposit E T deployed A nobody =
     bindP (setupPool E deployed (acc_voting A)) (\<lambda>d.
     bindP (addOperators E T d ''NOS-'' (acc_voting A) (acc_nodeOperator A) [0..<10] []) (\<lambda>validatorData.
     bindP (sendTx E (gp_pool d) ''submit'' [JStr ZERO_ADDR] [(''from'', acc_user1 A), (''value'', ETH T (32 * 10 + 1))]) (\<lambda>_.
     bindP (sendTx E (gp_pool d) ''depositBufferedEther'' [JInt 10] [(''from'', nobody)]) (\<lambda>_.
     bindP (sendTx E (gp_pool d) ''submit'' [JStr ZERO_ADDR] [(''from'', acc_user2 A), (''value'', ETH T 32)]) (\<lambda>r1.
     bindP (sendTx E (gp_pool d) ''depositBufferedEther'' [JInt 10] [(''from'', nobody)]) (\<lambda>r2.
     returnP (r1, r2)))))))"

section \<open>The keys\<close>

lemma length_hex_digits_eq: "0 \<le> n \<Longrightarrow> n < 16 ^ Suc k \<Longrightarrow> 16 ^ k \<le> n \<Longrightarrow> length (hex_digits n) = Suc k"
proof (induction k arbitrary: n)
  case 0
  then show ?case by (simp add: hex_digits.simps [of n])
next
  case (Suc k)
  define X where "X = (16::int) ^ k"
  have X: "0 < X" "n < 256 * X" "16 * X \<le> n" using Suc.prems by (simp_all add: X_def)
  have "n div 16 < 16 * X" "X \<le> n div 16" using X by linarith+
  then have "n div 16 < 16 ^ Suc k" "16 ^ k \<le> n div 16" by (simp_all add: X_def)
  then have "length (hex_digits (n div 16)) = Suc k" using Suc.IH Suc.prems(1) by simp
  moreover have "\<not> n < 16" using X by linarith
  ultimately show ?case by (simp add: hex_digits.simps [of n])
qed

text \<open>Every generated number has 63 digits, so the fill has one length and the keys differ as the numbers do.\<close>

definition keyNumber :: "nat \<Rightarrow> nat \<Rightarrow> int" where
  "keyNumber i k = arbitraryN + (10 * int k + 1000 * int i)"

lemma keyNumber_digits:
  assumes "i < 10 ^ 6" "k < 100"
  shows "length (hex_digits (keyNumber i k)) = 63"
proof -
  have "arbitraryN \<le> keyNumber i k" "keyNumber i k \<le> arbitraryN + 10 ^ 10"
    using assms by (simp_all add: keyNumber_def)
  moreover have "16 ^ 62 \<le> arbitraryN" "arbitraryN + 10 ^ 10 < 16 ^ 63" "0 \<le> arbitraryN"
    by (simp_all add: arbitraryN_def)
  ultimately show ?thesis
    using length_hex_digits_eq [of "keyNumber i k" 62] by (metis Suc_numeral order.strict_trans1 order.trans semiring_norm(5))
qed

lemma kd_keyData:
  assumes "i < 10 ^ 6" "k < 100"
  shows "kd_key (keyData i k) = ''0x'' @ replicate 33 (CHR ''d'') @ hex_digits (keyNumber i k)"
    and "kd_sig (keyData i k) = ''0x'' @ replicate 129 (CHR ''e'') @ hex_digits (keyNumber i k)"
  using keyNumber_digits [OF assms]
  by (simp_all add: keyData_def Let_def pad_def flip: keyNumber_def)

lemma keyData_lengths:
  assumes "i < 10 ^ 6" "k < 100"
  shows "length (kd_key (keyData i k)) = 98" "length (kd_sig (keyData i k)) = 194"
  using keyNumber_digits [OF assms] by (simp_all add: kd_keyData [OF assms])

lemma hex_digits_inj: "0 \<le> n \<Longrightarrow> 0 \<le> m \<Longrightarrow> hex_digits n = hex_digits m \<Longrightarrow> n = m"
  by (metis option.inject parse_hex_digits)

lemma kd_key_inj:
  assumes "i < 10 ^ 6" "k < 100" "j < 10 ^ 6" "l < 100" "kd_key (keyData i k) = kd_key (keyData j l)"
  shows "i = j \<and> k = l"
proof -
  have p: "0 \<le> keyNumber i' k'" for i' k' by (simp add: keyNumber_def arbitraryN_def)
  from assms have "hex_digits (keyNumber i k) = hex_digits (keyNumber j l)"
    by (simp add: kd_keyData)
  then have "keyNumber i k = keyNumber j l" by (rule hex_digits_inj [OF p p])
  then have "k + 100 * i = l + 100 * j" unfolding keyNumber_def by presburger
  with assms(2,4) show ?thesis by presburger
qed

definition operatorKeys :: "nat \<Rightarrow> key_data list" where
  "operatorKeys i = map (keyData i) [0..<3]"

lemma distinct_keys:
  assumes "n \<le> 10 ^ 6"
  shows "distinct (map kd_key (concat (map operatorKeys [0..<n])))"
proof -
  have e: "concat (map operatorKeys is) = map (\<lambda>(i, k). keyData i k) (List.product is [0..<3])" for "is"
    by (simp add: operatorKeys_def [abs_def] product_concat_map map_concat comp_def)
  have "inj_on (\<lambda>(i, k). kd_key (keyData i k)) (set (List.product [0..<n] [0..<3]))"
  proof (rule inj_onI)
    fix x y
    assume xy: "x \<in> set (List.product [0..<n] [0..<3])" "y \<in> set (List.product [0..<n] [0..<3])"
      and eq: "(\<lambda>(i, k). kd_key (keyData i k)) x = (\<lambda>(i, k). kd_key (keyData i k)) y"
    obtain i k j l where p: "x = (i, k)" "y = (j, l)" by (cases x, cases y)
    then have "i < 10 ^ 6" "k < 100" "j < 10 ^ 6" "l < 100" using xy assms by auto
    from kd_key_inj [OF this] eq p show "x = y" by simp
  qed
  then show ?thesis
    by (simp add: e distinct_map distinct_product comp_def case_prod_unfold)
qed

text \<open>What adding one operator sends: its registration and one call with its three keys.\<close>

definition operatorTxs :: "gas_pool \<Rightarrow> string \<Rightarrow> jsval \<Rightarrow> jsval \<Rightarrow> nat \<Rightarrow> jsval \<Rightarrow> sent_tx list" where
  "operatorTxs d prefix voting nodeOperator i nodeOperatorId =
     [\<lparr>tx_to = gp_registry d, tx_method = ''addNodeOperator'',
       tx_args = [JStr (prefix @ dec_int (int i)), nodeOperator, JInt 1000], tx_opts = [(''from'', voting)]\<rparr>,
      \<lparr>tx_to = gp_registry d, tx_method = ''addSigningKeys'',
       tx_args = [nodeOperatorId, JInt 3,
         JStr (''0x'' @ concat (map (drop 2 \<circ> kd_key) (operatorKeys i))),
         JStr (''0x'' @ concat (map (drop 2 \<circ> kd_sig) (operatorKeys i)))], tx_opts = [(''from'', voting)]\<rparr>]"

lemma upt3: "[0..<3] = [0, 1, 2 :: nat]"
  by (simp add: upt_rec)

lemma hexConcat_keys:
  assumes "i < 10 ^ 6"
  shows "hexConcat (kd_key (keyData i 0)) [kd_key (keyData i 1), kd_key (keyData i 2)] =
      ''0x'' @ concat (map (drop 2 \<circ> kd_key) (operatorKeys i))"
    "hexConcat (kd_sig (keyData i 0)) [kd_sig (keyData i 1), kd_sig (keyData i 2)] =
      ''0x'' @ concat (map (drop 2 \<circ> kd_sig) (operatorKeys i))"
  using assms by (simp_all add: hexConcat_def operatorKeys_def upt3 kd_keyData starts_with_def)

lemma sendTx_ok_iff:
  "sendTx E a m args opts w = (Inr r, w') \<longleftrightarrow> send_tx E a m args opts = Inr r \<and>
     w' = w\<lparr>sent := sent w @ [\<lparr>tx_to = a, tx_method = m, tx_args = args, tx_opts = opts\<rparr>]\<rparr>"
  by (auto simp: sendTx_def split: sum.splits)

lemma addOperator_ok:
  assumes "addOperator E T d prefix voting nodeOperator i w = (Inr data, w')" "i < 10 ^ 6"
  shows "data = operatorKeys i \<and>
    (\<exists>nid. w' = w\<lparr>sent := sent w @ operatorTxs d prefix voting nodeOperator i nid\<rparr>)"
  using assms
  by (auto simp: addOperator_def Let_def bindP_eq_Inr sendTx_ok_iff liftP_ok returnP_ok numKeys_def upt3
      hexConcat_keys [simplified] operatorTxs_def operatorKeys_def)

lemma addOperators_ok:
  "addOperators E T d prefix voting nodeOperator is acc w = (Inr data, w') \<Longrightarrow> list_all (\<lambda>i. i < 10 ^ 6) is \<Longrightarrow>
     data = acc @ concat (map operatorKeys is) \<and>
     (\<exists>ids. length ids = length is \<and>
        w' = w\<lparr>sent := sent w @ concat (map2 (operatorTxs d prefix voting nodeOperator) is ids)\<rparr>)"
proof (induction "is" arbitrary: acc w)
  case (Cons i "is")
  from Cons.prems obtain ks w1 where 1: "addOperator E T d prefix voting nodeOperator i w = (Inr ks, w1)"
    and 2: "addOperators E T d prefix voting nodeOperator is (acc @ ks) w1 = (Inr data, w')"
    by (auto simp: bindP_eq_Inr)
  from addOperator_ok [OF 1] Cons.prems(2) obtain nid where ks: "ks = operatorKeys i"
    and w1: "w1 = w\<lparr>sent := sent w @ operatorTxs d prefix voting nodeOperator i nid\<rparr>" by auto
  from Cons.IH [OF 2] Cons.prems(2) obtain ids where ids: "length ids = length is"
    "w' = w1\<lparr>sent := sent w1 @ concat (map2 (operatorTxs d prefix voting nodeOperator) is ids)\<rparr>"
    and d: "data = (acc @ ks) @ concat (map operatorKeys is)" by auto
  show ?case
    using d ids w1 ks by (auto intro!: exI [of _ "nid # ids"])
qed simp

section \<open>The fit\<close>

lemma js_sub_int: "\<bar>a - b\<bar> < 2 ^ 53 \<Longrightarrow> js_sub (Fin (of_int a)) (Fin (of_int b)) = Fin (of_int (a - b))"
  using dbl_of_int [of "a - b"] by (simp add: js_sub_def js_neg_def)

lemma floor_int [simp]: "math_floor (Fin (of_int i)) = Fin (of_int i)"
  by simp

lemma target_gas: "math_floor (js_mul (Fin 12000000) (dbl (2 / 10))) = Fin (of_int 2400000)"
  by code_simp

text \<open>How often \<open>q\<close> goes into \<open>k\<close>, computed in doubles: off by less than one gas.\<close>

lemma iter_limit:
  assumes "0 \<le> k" "k < 2 ^ 50" "1 \<le> q" "q \<le> 2 ^ 50"
  obtains l where "math_floor (js_div (Fin (of_int k)) (Fin q)) = Fin (of_int l)"
    "of_int l * q < of_int k + 1" "of_int k - 1 < (of_int l + 1) * q"
proof (cases "k = 0")
  case True
  then show ?thesis using assms that [of 0] by (simp add: dbl_def)
next
  case False
  have b: "(2::rat) ^ 50 \<le> 2 ^ 60" by (rule power_increasing) simp_all
  have k: "(1::rat) \<le> of_int k" "(of_int k :: rat) < 2 ^ 50"
    using assms(1,2) False by simp_all
  obtain r where r: "dbl (of_int k / q) = Fin r" "\<bar>r - of_int k / q\<bar> \<le> of_int k / q / 2 ^ 53"
    using dbl_quotient [of "of_int k" q] k assms(3,4) b by force
  have q0: "0 < q" using assms(3) by simp
  have "\<bar>r * q - of_int k\<bar> = \<bar>r - of_int k / q\<bar> * q"
    using q0 by (simp add: field_simps flip: abs_mult)
  also have "\<dots> \<le> of_int k / q / 2 ^ 53 * q" using r(2) q0 by (intro mult_right_mono) auto
  also have "\<dots> = of_int k / 2 ^ 53" using q0 by simp
  also have "\<dots> < 1" using k(2) by simp
  finally have e: "\<bar>r * q - of_int k\<bar> < 1" .
  have "of_int \<lfloor>r\<rfloor> \<le> r" "r < of_int \<lfloor>r\<rfloor> + 1" by linarith+
  then have "of_int \<lfloor>r\<rfloor> * q \<le> r * q" "r * q < (of_int \<lfloor>r\<rfloor> + 1) * q" using q0 by simp_all
  with e have "of_int \<lfloor>r\<rfloor> * q < of_int k + 1" "of_int k - 1 < (of_int \<lfloor>r\<rfloor> + 1) * q" by linarith+
  moreover have "math_floor (js_div (Fin (of_int k)) (Fin q)) = Fin (of_int \<lfloor>r\<rfloor>)" using r(1) q0 by simp
  ultimately show ?thesis using that by blast
qed

section \<open>Properties\<close>

text \<open>
  C29: the fitted gas formula is exact for one deposit and at most eight gas below the measurement
  for ten, and the reported limit of iterations is the number of deposits that fits into a fifth of
  a block: that many cost less than the target plus one gas, one more costs more than the target
  less one gas.
\<close>

theorem estimate_bounds:
  assumes measured: "0 \<le> g1" "g1 \<le> 2400000" "g1 \<le> g10" "g10 < 2 ^ 40"
    and e: "e = estimateGas gasPerMockDeposit (Fin (of_int g1)) gas5 (Fin (of_int g10)) gas30"
    and corrected: "ge_gasPerIterCorrected e = Fin q" "1 \<le> q" "q \<le> 2 ^ 50"
  shows "\<exists>c i l. ge_gasConst e = Fin (of_int c) \<and> ge_gasPerIter e = Fin (of_int i) \<and>
    ge_iterLimit e = Fin (of_int l) \<and> ge_targetMaxGas e = Fin 2400000 \<and>
    c + i = g1 \<and> c + 10 * i \<le> g10 \<and> g10 \<le> c + 10 * i + 8 \<and>
    of_int c + of_int l * q < 2400000 + 1 \<and> 2400000 - 1 < of_int c + (of_int l + 1) * q"
proof -
  define i where "i = (g10 - g1) div 9"
  define c where "c = g1 - i"
  have i: "0 \<le> i" "9 * i \<le> g10 - g1" "g10 - g1 \<le> 9 * i + 8" using measured(3) by (simp_all add: i_def)
  have s10: "js_sub (Fin (of_int g10)) (Fin (of_int g1)) = Fin (of_int (g10 - g1))"
    by (rule js_sub_int) (use measured in simp)
  have I: "math_floor (js_div (js_sub (Fin (of_int g10)) (Fin (of_int g1))) (Fin 9)) = Fin (of_int i)"
    using floor_dbl_div [of "g10 - g1" 9] measured by (simp add: s10 i_def del: of_int_diff)
  have C: "math_floor (js_sub (Fin (of_int g1)) (Fin (of_int i))) = Fin (of_int c)"
    using i measured by (subst js_sub_int) (simp_all add: c_def)
  have S: "js_sub (Fin (of_int 2400000)) (Fin (of_int c)) = Fin (of_int (2400000 - c))"
    by (rule js_sub_int) (use i measured in \<open>simp add: c_def\<close>)
  have b: "0 \<le> 2400000 - c" "2400000 - c < 2 ^ 50" using i measured by (simp_all add: c_def)
  obtain l where l: "math_floor (js_div (Fin (of_int (2400000 - c))) (Fin q)) = Fin (of_int l)"
    "of_int l * q < of_int (2400000 - c) + 1" "of_int (2400000 - c) - 1 < (of_int l + 1) * q"
    using iter_limit [OF b corrected(2,3)] by blast
  have E: "ge_gasConst e = Fin (of_int c)" "ge_gasPerIter e = Fin (of_int i)" "ge_targetMaxGas e = Fin 2400000"
    using I C target_gas by (simp_all add: e estimateGas_def Let_def)
  have "ge_iterLimit e = math_floor (js_div (js_sub (ge_targetMaxGas e) (ge_gasConst e)) (ge_gasPerIterCorrected e))"
    by (simp add: e estimateGas_def Let_def)
  then have "ge_iterLimit e = Fin (of_int l)" using S l(1) by (simp only: E corrected(1) of_int_numeral)
  moreover have "of_int c + of_int l * q < 2400000 + 1" "2400000 - 1 < of_int c + (of_int l + 1) * q"
    using l(2,3) by simp_all
  moreover have "c + i = g1" "c + 10 * i \<le> g10" "g10 \<le> c + 10 * i + 8" using i by (simp_all add: c_def)
  ultimately show ?thesis using E by blast
qed

theorem estimate_bounds_witness:
  "\<exists>c i l. ge_gasConst (estimateGas (Fin 90000) (Fin 200000) (Fin 700000) (Fin 1280005) (Fin 3680000)) = Fin (of_int c) \<and>
     c + i = 200000 \<and> 1280005 \<le> c + 10 * i + 8 \<and> of_int c + of_int l * (100000 :: rat) < 2400000 + 1"
proof -
  let ?e = "estimateGas (Fin 90000) (Fin (of_int 200000)) (Fin 700000) (Fin (of_int 1280005)) (Fin 3680000)"
  have "ge_gasPerIterCorrected ?e = Fin 100000" by code_simp
  from estimate_bounds [OF _ _ _ _ refl this] show ?thesis by auto
qed

text \<open>
  a successful registration gives 60 validators whose keys are all different, with 48 bytes
  each and signatures of 96 bytes, and sends for each of the 20 operators, in order, its registration
  and one call with the concatenation of its three keys.
\<close>

theorem registered_keys_distinct:
  assumes "registerOperators E T d voting nodeOperator w = (Inr validatorData, w')"
  shows "length validatorData = 60 \<and> distinct (map kd_key validatorData) \<and>
    list_all (\<lambda>v. length (kd_key v) = 2 + 2 * 48 \<and> length (kd_sig v) = 2 + 2 * 96) validatorData \<and>
    (\<exists>ids. length ids = 20 \<and>
      sent w' = sent w @ concat (map2 (operatorTxs d ''operator-'' voting nodeOperator) [0..<20] ids))"
proof -
  from assms have "addOperators E T d ''operator-'' voting nodeOperator [0..<20] [] w = (Inr validatorData, w')"
    by (auto simp: registerOperators_def bindP_eq_Inr liftP_ok returnP_ok)
  from addOperators_ok [OF this] obtain ids where v: "validatorData = concat (map operatorKeys [0..<20])"
    and ids: "length ids = 20" "sent w' = sent w @ concat (map2 (operatorTxs d ''operator-'' voting nodeOperator) [0..<20] ids)"
    by (auto simp: list_all_iff)
  have "length validatorData = 60" by (simp add: v length_concat comp_def operatorKeys_def [abs_def] upt_rec)
  moreover have "distinct (map kd_key validatorData)" unfolding v by (rule distinct_keys) simp
  moreover have "list_all (\<lambda>v. length (kd_key v) = 2 + 2 * 48 \<and> length (kd_sig v) = 2 + 2 * 96) validatorData"
    by (auto simp: v list_all_iff operatorKeys_def keyData_lengths)
  ultimately show ?thesis using ids by blast
qed

definition registry_env :: env where
  "registry_env = offline_env\<lparr>send_tx := (\<lambda>_ _ _ _. Inr (JObj [])),
     call_view := (\<lambda>_ m _. Inr (JInt (if m = ''getNodeOperatorsCount'' then 20 else 3)))\<rparr>"

definition registry_tools :: gas_tools where
  "registry_tools = \<lparr>gt_assertBn = (\<lambda>a b. assertR (to_str a = to_str b)), gt_eventArgument = (\<lambda>_ _ _. Inr (JInt 7)),
     gt_toWei = (\<lambda>s. JStr (s @ replicate 18 (CHR ''0'')))\<rparr>"

definition registry_pool :: gas_pool where
  "registry_pool = \<lparr>gp_pool = ''p'', gp_registry = ''r'', gp_deposit = ''d''\<rparr>"

lemma registry_runs:
  "\<exists>r w'. addOperators registry_env registry_tools d prefix voting nodeOperator is acc w = (Inr r, w')"
proof (induction "is" arbitrary: acc w)
  case (Cons i "is")
  have "\<exists>r w'. addOperator registry_env registry_tools d prefix voting nodeOperator i w = (Inr r, w')"
    by (simp add: addOperator_def Let_def bindP_def sendTx_def liftP_def returnP_def registry_env_def
        registry_tools_def numKeys_def assertR_def)
  with Cons.IH show ?case by (auto simp: bindP_def)
qed simp

theorem registered_keys_distinct_witness:
  "\<exists>validatorData w'. registerOperators registry_env registry_tools registry_pool (JStr ''v'') (JStr ''o'') empty_world =
       (Inr validatorData, w') \<and> distinct (map kd_key validatorData) \<and> length validatorData = 60"
proof -
  obtain r w' where "addOperators registry_env registry_tools registry_pool ''operator-'' (JStr ''v'') (JStr ''o'')
      [0..<20] [] empty_world = (Inr r, w')"
    using registry_runs by blast
  then have "registerOperators registry_env registry_tools registry_pool (JStr ''v'') (JStr ''o'') empty_world = (Inr r, w')"
    by (simp add: registerOperators_def bindP_def liftP_def returnP_def registry_env_def registry_tools_def assertR_def)
  from registered_keys_distinct [OF this] this show ?thesis by blast
qed

end
