(* ===== verification/AppForms.thy ===== *)
theory AppForms
  imports BasisPoints World
begin

unbundle bit_operations_syntax

text \<open>
  The forms and read-outs of the front ends: validation tests and submit handlers of
  apps/lido/app/src/components/state, apps/lidooracle/app/src/components and
  apps/node-operators-registry/app/src/components, the amount components of
  apps/lido/app/src/components/shared, and the cells of the oracle app's tables.  The form library's
  own checks (yup) and bn.js are parameters; \<open>EtherSymbol\<close> is a constant of ethers.
\<close>

section \<open>Percent fields\<close>

definition all_digits :: "string \<Rightarrow> bool" where
  "all_digits s \<longleftrightarrow> list_all (\<lambda>c. digit_val c \<noteq> None) s"

text \<open>\<open>/^\d{1,3}(\.\d{1,2})?$/\<close>\<close>

definition percentText :: "string \<Rightarrow> bool" where
  "percentText s =
     (case split_on (CHR ''.'') s of
        [i] \<Rightarrow> all_digits i \<and> 1 \<le> length i \<and> length i \<le> 3
      | [i, f] \<Rightarrow> all_digits i \<and> 1 \<le> length i \<and> length i \<le> 3 \<and> all_digits f \<and> 1 \<le> length f \<and> length f \<le> 2
      | _ \<Rightarrow> False)"

definition percentTest :: "jsval \<Rightarrow> bool" where
  "percentTest value = percentText (to_str value)"

text \<open>The checks of the validation library that the schemas chain.\<close>

record yup =
  yp_number :: "jsval \<Rightarrow> bool"
  yp_required :: "jsval \<Rightarrow> bool"
  yp_min :: "int \<Rightarrow> jsval \<Rightarrow> bool"
  yp_max :: "int \<Rightarrow> jsval \<Rightarrow> bool"
  yp_integer :: "jsval \<Rightarrow> bool"
  yp_positive :: "jsval \<Rightarrow> bool"
  yp_string :: "jsval \<Rightarrow> bool"

definition percentSchema :: "yup \<Rightarrow> jsval \<Rightarrow> bool" where
  "percentSchema Y v \<longleftrightarrow>
     yp_number Y v \<and> yp_required Y v \<and> yp_min Y 0 v \<and> yp_max Y 100 v \<and> percentTest v"

definition feeSubmit :: "jsval \<Rightarrow> string \<times> jsval list" where
  "feeSubmit fee = (''setFee'', [JNum (toBasisPoints (to_num fee))])"

definition elLimitSubmit :: "jsval \<Rightarrow> string \<times> jsval list" where
  "elLimitSubmit limit = (''setELRewardsWithdrawalLimit'', [JNum (toBasisPoints (to_num limit))])"

text \<open>The oracle app's two limits: the same test, but the product is sent as it is.\<close>

definition changeSchema :: "yup \<Rightarrow> jsval \<Rightarrow> bool" where
  "changeSchema Y v \<longleftrightarrow>
     yp_number Y v \<and> yp_positive Y v \<and> yp_required Y v \<and> yp_min Y 0 v \<and> yp_max Y 100 v \<and> percentTest v"

definition changeIncreaseSubmit :: "jsval \<Rightarrow> string \<times> jsval list" where
  "changeIncreaseSubmit value =
     (''setAllowedBeaconBalanceAnnualRelativeIncrease'', [JNum (js_mul (to_num value) (Fin 100))])"

definition changeDecreaseSubmit :: "jsval \<Rightarrow> string \<times> jsval list" where
  "changeDecreaseSubmit value =
     (''setAllowedBeaconBalanceRelativeDecrease'', [JNum (js_mul (to_num value) (Fin 100))])"

section \<open>The fee distribution\<close>

text \<open>\<open>sum (n1, n2, n3)\<close> of three numbers, each made a \<open>BN\<close>.\<close>

definition sumNums :: "(jsval \<Rightarrow> int res) \<Rightarrow> jnum \<Rightarrow> jnum \<Rightarrow> jnum \<Rightarrow> string res" where
  "sumNums bn n1 n2 n3 =
     bindR (bn (JNum n1)) (\<lambda>a. bindR (bn (JNum n2)) (\<lambda>b. bindR (bn (JNum n3)) (\<lambda>c. Inr (sum3 a b c))))"

definition feeTotalTest :: "(jsval \<Rightarrow> int res) \<Rightarrow> jsval \<Rightarrow> jsval \<Rightarrow> jsval \<Rightarrow> bool res" where
  "feeTotalTest bn operators insurance treasury =
     (let operatorsBps = toBasisPoints (to_num operators);
          insuranceBps = toBasisPoints (to_num insurance);
          treasuryBps = toBasisPoints (to_num treasury)
      in bindR (sumNums bn operatorsBps insuranceBps treasuryBps) (\<lambda>tot.
         bindR (bn (JStr tot)) (\<lambda>t. bindR (bn (JInt 10000)) (\<lambda>tenk. Inr (t = tenk)))))"

definition feeDistributionValid :: "yup \<Rightarrow> (jsval \<Rightarrow> int res) \<Rightarrow> jsval \<Rightarrow> jsval \<Rightarrow> jsval \<Rightarrow> bool res" where
  "feeDistributionValid Y bn treasury insurance operators =
     (if percentSchema Y treasury \<and> percentSchema Y insurance \<and> percentSchema Y operators
      then feeTotalTest bn operators insurance treasury else Inr False)"

definition feeDistributionSubmit :: "jsval \<Rightarrow> jsval \<Rightarrow> jsval \<Rightarrow> string \<times> jsval list" where
  "feeDistributionSubmit treasury insurance operators =
     (let insuranceBps = toBasisPoints (to_num insurance);
          treasuryBps = toBasisPoints (to_num treasury);
          operatorsBps = toBasisPoints (to_num operators)
      in (''setFeeDistribution'', [JNum treasuryBps, JNum insuranceBps, JNum operatorsBps]))"

section \<open>The other forms\<close>

text \<open>\<open>/^0x[a-fA-F0-9]{64}$/\<close>\<close>

definition credentialsTest :: "jsval \<Rightarrow> bool" where
  "credentialsTest credentials =
     (let s = to_str credentials in take 2 s = ''0x'' \<and> length s = 66 \<and> list_all (\<lambda>c. hex_val c \<noteq> None) (drop 2 s))"

definition credentialsValid :: "yup \<Rightarrow> jsval \<Rightarrow> bool" where
  "credentialsValid Y credentials \<longleftrightarrow> yp_string Y credentials \<and> credentialsTest credentials"

definition credentialsSubmit :: "jsval \<Rightarrow> string \<times> jsval list" where
  "credentialsSubmit credentials = (''setWithdrawalCredentials'', [credentials])"

definition vaultValid :: "yup \<Rightarrow> (jsval \<Rightarrow> bool) \<Rightarrow> jsval \<Rightarrow> bool" where
  "vaultValid Y isAddress vault \<longleftrightarrow> yp_string Y vault \<and> isAddress vault"

definition vaultSubmit :: "jsval \<Rightarrow> string \<times> jsval list" where
  "vaultSubmit vault = (''setELRewardsVault'', [vault])"

definition statusSubmit :: "bool \<Rightarrow> string \<times> jsval list" where
  "statusSubmit isStopped = (if isStopped then (''resume'', []) else (''stop'', []))"

definition quorumValid :: "yup \<Rightarrow> jsval \<Rightarrow> bool" where
  "quorumValid Y quorum \<longleftrightarrow> yp_number Y quorum \<and> yp_integer Y quorum \<and> yp_required Y quorum \<and> yp_min Y 0 quorum"

definition addressValid :: "yup \<Rightarrow> jsval \<Rightarrow> bool" where
  "addressValid Y address \<longleftrightarrow> yp_string Y address \<and> yp_required Y address \<and> yp_min Y 1 address"

definition limitValid :: "yup \<Rightarrow> jsval \<Rightarrow> bool" where
  "limitValid Y limit \<longleftrightarrow>
     yp_number Y limit \<and> yp_positive Y limit \<and> yp_integer Y limit \<and> yp_required Y limit \<and> yp_min Y 0 limit"

definition addOperatorValid :: "yup \<Rightarrow> jsval \<Rightarrow> jsval \<Rightarrow> jsval \<Rightarrow> bool" where
  "addOperatorValid Y name address limit \<longleftrightarrow>
     addressValid Y name \<and> addressValid Y address \<and>
     yp_number Y limit \<and> yp_integer Y limit \<and> yp_min Y 0 limit \<and> yp_required Y limit"

section \<open>Read-outs\<close>

text \<open>What an amount component renders: the loading ring, \<open>N/A\<close>, a text, or an exception.\<close>

datatype display = Loading | NotAvailable | Text string | Crash jserr

definition loadable :: "jsval \<Rightarrow> string \<Rightarrow> display" where
  "loadable value children = (if value = JUndef then Loading else Text children)"

definition showBasisPoints :: "jsval \<Rightarrow> display" where
  "showBasisPoints basisPoints =
     (if basisPoints = JUndef then Loading
      else let n = to_num basisPoints
           in if n = NaN then NotAvailable else Text (num_str (fromBasisPoints n) @ ''%''))"

definition formatEthOf :: "(jsval \<Rightarrow> int res) \<Rightarrow> jsval \<Rightarrow> string res" where
  "formatEthOf bn wei = bindR (bn wei) (\<lambda>i. Inr (formatEth i))"

definition showEther :: "string \<Rightarrow> (jsval \<Rightarrow> int res) \<Rightarrow> jsval \<Rightarrow> display" where
  "showEther EtherSymbol bn ether =
     (if ether = JUndef then Loading
      else case formatEthOf bn ether of Inl _ \<Rightarrow> NotAvailable | Inr s \<Rightarrow> Text (EtherSymbol @ s))"

definition showRestorationRate :: "string \<Rightarrow> (jsval \<Rightarrow> int res) \<Rightarrow> jsval \<Rightarrow> jsval \<Rightarrow> display" where
  "showRestorationRate EtherSymbol bn maxLimit blocks =
     (if maxLimit = JUndef \<or> blocks = JUndef then Loading
      else let m = to_num maxLimit; b = to_num blocks; rate = js_div m b
           in if m = NaN \<or> b = NaN \<or> rate = NaN then NotAvailable
              else case formatEthOf bn (JStr (num_str rate)) of
                     Inl e \<Rightarrow> Crash e
                   | Inr s \<Rightarrow> Text (EtherSymbol @ s @ '' per block''))"

definition shortenBytes :: "string \<Rightarrow> jsval \<Rightarrow> string" where
  "shortenBytes ellipsis bytes =
     (case bytes of JStr s \<Rightarrow> take 6 s @ ellipsis @ drop 60 s | _ \<Rightarrow> [])"

text \<open>The oracle app's table cells.\<close>

definition settingText :: "jsval \<Rightarrow> string" where
  "settingText value =
     (if truthy value then num_str (js_div (to_num value) (Fin 100)) @ ''%'' else ''Unavailable'')"

text \<open>\<open>(2 ** i) & currentOraclesReportStatus\<close>: both sides become 32-bit integers.\<close>

definition memberSubmitted :: "nat \<Rightarrow> jsval \<Rightarrow> bool" where
  "memberSubmitted i currentOraclesReportStatus \<longleftrightarrow>
     to_int32 (dbl (2 ^ i)) AND to_int32 (to_num currentOraclesReportStatus) \<noteq> 0"

section \<open>Lemmas\<close>

lemma parse_digits_total:
  "all_digits s \<Longrightarrow> 0 \<le> acc \<Longrightarrow> \<exists>n. parse_digits digit_val 10 acc s = Some n \<and> 0 \<le> n"
proof (induction s arbitrary: acc)
  case (Cons c s)
  then obtain d where d: "digit_val c = Some d" by (auto simp: all_digits_def)
  then have "0 \<le> 10 * acc + d" using Cons.prems(2) by (auto simp: digit_val_def Let_def split: if_splits)
  with Cons d show ?case by (simp add: all_digits_def)
qed simp

lemma digit_head:
  assumes "all_digits i" and "i \<noteq> []" and "f = [] \<or> hd f = CHR ''.''"
  shows "\<not> starts_with ''0x'' (i @ f)" and "\<not> starts_with ''0X'' (i @ f)" and "\<not> starts_with ''-'' (i @ f)"
    and "\<not> starts_with ''+'' (i @ f)"
proof -
  obtain c cs where i: "i = c # cs" using assms(2) by (cases i) auto
  then have c: "digit_val c \<noteq> None" "cs \<noteq> [] \<Longrightarrow> digit_val (hd cs) \<noteq> None"
    using assms(1) by (auto simp: all_digits_def neq_Nil_conv)
  have no: "digit_val (CHR ''-'') = None" "digit_val (CHR ''+'') = None" "digit_val (CHR ''x'') = None"
    "digit_val (CHR ''X'') = None" by code_simp+
  with c show "\<not> starts_with ''-'' (i @ f)" "\<not> starts_with ''+'' (i @ f)"
    by (auto simp: starts_with_def i)
  show "\<not> starts_with ''0x'' (i @ f)" "\<not> starts_with ''0X'' (i @ f)"
    using c(2) no assms(3) by (cases cs; cases f; auto simp: starts_with_def i)+
qed

text \<open>A text of the percent format denotes a whole number of basis points.\<close>

lemma percentText_value:
  assumes "percentText t"
  obtains k where "0 \<le> k" "parse_decimal t = Some (of_int k / 100)" "str_num t = dbl (of_int k / 100)"
proof -
  from assms consider (whole) i where "split_on (CHR ''.'') t = [i]" "all_digits i" "i \<noteq> []"
    | (dec) i f where "split_on (CHR ''.'') t = [i, f]" "all_digits i" "i \<noteq> []" "all_digits f" "1 \<le> length f" "length f \<le> 2"
    by (auto simp: percentText_def Suc_le_eq split: list.splits)
  then show thesis
  proof cases
    case whole
    have t: "t = i" using split_on_join [of "CHR ''.''" t] whole(1) by simp
    obtain n where n: "parse_digits digit_val 10 0 i = Some n" "0 \<le> n" using parse_digits_total [OF whole(2), of 0] by auto
    with whole have p: "parse_decimal t = Some (of_int (100 * n) / 100)" by (simp add: parse_decimal_def parse_nat_def)
    have "str_num t = dbl (of_int (100 * n) / 100)"
      using digit_head [OF whole(2,3), of "[]"] whole(3) t p by (simp add: str_num_def)
    with n p show thesis by (intro that [of "100 * n"]) auto
  next
    case dec
    have t: "t = i @ CHR ''.'' # f" using split_on_join [of "CHR ''.''" t] dec(1) by simp
    obtain n where n: "parse_digits digit_val 10 0 i = Some n" "0 \<le> n" using parse_digits_total [OF dec(2), of 0] by auto
    obtain m where m: "parse_digits digit_val 10 0 f = Some m" "0 \<le> m" using parse_digits_total [OF dec(4), of 0] by auto
    define k where "k = 100 * n + (if length f = 1 then 10 * m else m)"
    have "length f = 1 \<or> length f = 2" using dec(5,6) by auto
    then have p: "parse_decimal t = Some (of_int k / 100)"
      using dec n m by (auto simp: parse_decimal_def k_def add_divide_distrib)
    have "str_num t = dbl (of_int k / 100)"
      using digit_head [OF dec(2,3), of "CHR ''.'' # f"] t p by (simp add: str_num_def)
    with n m p show thesis by (intro that [of k]) (auto simp: k_def)
  qed
qed

text \<open>The front end's conversion is exact on every such text.\<close>

lemma typed_percent_bps:
  assumes "percentText t" and "parse_decimal t = Some q" and "q \<le> 100"
  shows "\<exists>k. 0 \<le> k \<and> k \<le> 10000 \<and> q = of_int k / 100 \<and> toBasisPoints (str_num t) = Fin (of_int k)"
proof -
  from assms(1) obtain k where k: "0 \<le> k" "parse_decimal t = Some (of_int k / 100)" "str_num t = dbl (of_int k / 100)"
    by (rule percentText_value)
  with assms(2,3) have q: "q = of_int k / 100" and b: "k \<le> 10000" by simp_all
  have "toBasisPoints (str_num t) = Fin (of_int k)"
  proof (cases "k = 0")
    case True
    have "toBasisPoints (Fin 0) = Fin 0" by code_simp
    with k(3) True show ?thesis by (simp add: dbl_def)
  next
    case False
    with k(1) b obtain x y where xy: "fromBasisPoints (Fin (of_int k)) = Fin x"
      "js_mul (Fin x) (Fin 100) = Fin y" "\<bar>y - of_int k\<bar> < 1 / 2"
      using hundred_error [of k] by auto
    have "of_int k - 1 / 2 < y" "y < of_int k + 1 / 2" using xy(3) by linarith+
    then have "\<lfloor>y + 1 / 2\<rfloor> = k" by (simp add: floor_eq_iff)
    moreover have "str_num t = Fin x" using xy(1) k(3) by (simp add: fromBasisPoints_def)
    ultimately show ?thesis using xy(2) by (simp add: toBasisPoints_def)
  qed
  with q b k(1) show ?thesis by blast
qed

lemma wrap32_signed: "wrap32 i = signed_take_bit 31 i"
proof -
  have "take_bit 32 (wrap32 i) = take_bit 32 i"
    by (simp add: take_bit_eq_mod wrap32_def Let_def mod_diff_left_eq [of i, symmetric])
  then have "signed_take_bit 31 (wrap32 i) = signed_take_bit 31 i"
    by (simp add: signed_take_bit_eq_iff_take_bit_eq)
  moreover have "signed_take_bit 31 (wrap32 i) = wrap32 i"
    using wrap32_bounds [of i] by (intro signed_take_bit_int_eq_self) auto
  ultimately show ?thesis by simp
qed

text \<open>Powers of two are doubles.\<close>

lemma blen_pow2: "blen (2 ^ i) = Suc i"
proof (induction i)
  case 0
  show ?case by (subst blen.simps) simp
next
  case (Suc i)
  have "\<not> (2::int) ^ Suc i \<le> 0" by (simp add: not_le)
  moreover have "(2::int) ^ Suc i div 2 = 2 ^ i" by simp
  ultimately show ?case using Suc by (subst blen.simps) (simp del: power_Suc)
qed

lemma ilog2_pow2: "ilog2 (2 ^ i) = int i"
proof -
  have "quotient_of (2 ^ i) = (2 ^ i, 1)"
    using quotient_of_int [of "2 ^ i"] by (simp add: Rat.of_int_def)
  moreover have "blen 1 = 1" using blen_pow2 [of 0] by simp
  ultimately show ?thesis by (simp add: ilog2_def blen_pow2 pow2_def)
qed

lemma dbl_pow2: "dbl (2 ^ i) = (if i < 1024 then Fin (2 ^ i) else PosInf)"
proof -
  have u2: "2 ^ 52 * pow2 (int i - 52) = 2 ^ i"
    using pow2_nat_diff [of i 52] by simp
  have u: "2 ^ i / pow2 (int i - 52) = 2 ^ 52" unfolding u2 [symmetric] by simp
  have r: "round_even (2 ^ 52) = 2 ^ 52"
  proof -
    have "\<lfloor>2 ^ 52 :: rat\<rfloor> = 2 ^ 52" by (simp add: floor_eq_iff)
    then show ?thesis by (simp add: round_even_def)
  qed
  have m: "max (int i - 52) (- 1074) = int i - 52" by simp
  have "\<bar>(2 :: rat) ^ i\<bar> = 2 ^ i" "(2 :: rat) ^ i \<noteq> 0" "(0 :: rat) < 2 ^ i" by simp_all
  then have "dbl (2 ^ i) = (if 1024 \<le> int i then PosInf else Fin (2 ^ i))"
    unfolding dbl_def Let_def \<open>\<bar>(2 :: rat) ^ i\<bar> = 2 ^ i\<close> ilog2_pow2 m u r of_int_power of_int_numeral u2
    by simp
  then show ?thesis by simp
qed

section \<open>Properties\<close>

text \<open>
  an amount typed as a percentage with at most two decimals is submitted exactly: the fee
  form and the rewards limit form send the whole number of basis points it denotes, although the
  value and its product with 100 are rounded doubles.
\<close>

theorem typed_percent_submitted:
  assumes "percentText t" and "parse_decimal t = Some q" and "q \<le> 100"
  shows "\<exists>k. 0 \<le> k \<and> k \<le> 10000 \<and> q = of_int k / 100 \<and>
    feeSubmit (JNum (str_num t)) = (''setFee'', [JInt k]) \<and>
    elLimitSubmit (JNum (str_num t)) = (''setELRewardsWithdrawalLimit'', [JInt k])"
  using typed_percent_bps [OF assms] by (auto simp: feeSubmit_def elLimitSubmit_def to_num_def)

theorem typed_percent_submitted_witness:
  "feeSubmit (JNum (str_num ''0.57'')) = (''setFee'', [JInt 57])"
proof -
  have "percentText ''0.57''" by code_simp
  moreover have "parse_decimal ''0.57'' = Some (57 / 100)" by code_simp
  ultimately obtain k where "(57 / 100 :: rat) = of_int k / 100" "feeSubmit (JNum (str_num ''0.57'')) = (''setFee'', [JInt k])"
    using typed_percent_submitted by fastforce
  moreover from this(1) have "k = 57" by simp
  ultimately show ?thesis by simp
qed

text \<open>
  the oracle's two limit forms send the unrounded product: 0.57 percent passes their test for
  two decimals and is submitted as a number that is not whole.
\<close>

theorem change_limit_not_whole:
  "percentTest (JNum (str_num ''0.57'')) \<and>
   changeIncreaseSubmit (JNum (str_num ''0.57'')) =
     (''setAllowedBeaconBalanceAnnualRelativeIncrease'', [JNum (js_mul (str_num ''0.57'') (Fin 100))]) \<and>
   changeDecreaseSubmit (JNum (str_num ''0.57'')) =
     (''setAllowedBeaconBalanceRelativeDecrease'', [JNum (js_mul (str_num ''0.57'') (Fin 100))]) \<and>
   num_str (js_mul (str_num ''0.57'') (Fin 100)) = ''56.99999999999999''"
proof (intro conjI)
  show "percentTest (JNum (str_num ''0.57''))" by code_simp
  show "num_str (js_mul (str_num ''0.57'') (Fin 100)) = ''56.99999999999999''" by code_simp
qed (simp_all add: changeIncreaseSubmit_def changeDecreaseSubmit_def to_num_def)

text \<open>
  a fee distribution that passes the total test is submitted as three whole numbers of basis
  points, in the order treasury, insurance, operators, that are exactly the typed percentages and sum
  to 10000.
\<close>

theorem fee_distribution_exact:
  assumes "percentText t" "parse_decimal t = Some qt" "qt \<le> 100"
    and "percentText i" "parse_decimal i = Some qi" "qi \<le> 100"
    and "percentText o'" "parse_decimal o' = Some qo" "qo \<le> 100"
    and "\<And>k. 0 \<le> k \<Longrightarrow> k \<le> 30000 \<Longrightarrow> bn (JInt k) = Inr k \<and> bn (JStr (dec_int k)) = Inr k"
    and "feeTotalTest bn (JNum (str_num o')) (JNum (str_num i)) (JNum (str_num t)) = Inr True"
  shows "\<exists>a b c. feeDistributionSubmit (JNum (str_num t)) (JNum (str_num i)) (JNum (str_num o')) =
      (''setFeeDistribution'', [JInt a, JInt b, JInt c]) \<and>
    qt = of_int a / 100 \<and> qi = of_int b / 100 \<and> qo = of_int c / 100 \<and> a + b + c = 10000"
proof -
  obtain a where a: "0 \<le> a" "a \<le> 10000" "qt = of_int a / 100" "toBasisPoints (str_num t) = Fin (of_int a)"
    using typed_percent_bps [OF assms(1-3)] by blast
  obtain b where b: "0 \<le> b" "b \<le> 10000" "qi = of_int b / 100" "toBasisPoints (str_num i) = Fin (of_int b)"
    using typed_percent_bps [OF assms(4-6)] by blast
  obtain c where c: "0 \<le> c" "c \<le> 10000" "qo = of_int c / 100" "toBasisPoints (str_num o') = Fin (of_int c)"
    using typed_percent_bps [OF assms(7-9)] by blast
  have bn: "bn (JInt a) = Inr a" "bn (JInt b) = Inr b" "bn (JInt c) = Inr c" "bn (JInt 10000) = Inr 10000"
    "bn (JStr (dec_int (c + b + a))) = Inr (c + b + a)"
    using assms(10) [of a] assms(10) [of b] assms(10) [of c] assms(10) [of 10000] assms(10) [of "c + b + a"] a b c by auto
  from assms(11) have "c + b + a = 10000"
    unfolding feeTotalTest_def Let_def sumNums_def to_num_def jsval.case a(4) b(4) c(4) bn(1-3) bindR_simps sum3_def bn(5) bn(4)
    by simp
  with a b c show ?thesis
    by (intro exI [of _ a] exI [of _ b] exI [of _ c]) (simp add: feeDistributionSubmit_def Let_def to_num_def)
qed

theorem fee_distribution_exact_witness:
  "\<exists>a b c. feeDistributionSubmit (JNum (str_num ''0.57'')) (JNum (str_num ''50'')) (JNum (str_num ''49.43'')) =
     (''setFeeDistribution'', [JInt a, JInt b, JInt c]) \<and> a + b + c = 10000"
proof -
  have t: "percentText ''0.57''" "percentText ''50''" "percentText ''49.43''" by code_simp+
  have d: "parse_decimal ''0.57'' = Some (57 / 100)" "parse_decimal ''50'' = Some 50"
    "parse_decimal ''49.43'' = Some (4943 / 100)" by code_simp+
  have bn: "bn_new offline_env (JInt k) = Inr k \<and> bn_new offline_env (JStr (dec_int k)) = Inr k" if "0 \<le> k" for k
    using that by (simp add: offline_env_def parse_nat_dec_int)
  have "feeTotalTest (bn_new offline_env) (JNum (str_num ''49.43'')) (JNum (str_num ''50'')) (JNum (str_num ''0.57'')) = Inr True"
    by code_simp
  from fee_distribution_exact [OF t(1) d(1) _ t(2) d(2) _ t(3) d(3) _ bn this] show ?thesis by auto
qed

text \<open>
  the oracle app's report column is right for the first 32 members only: the cell of member
  \<open>i\<close> says "Submitted" exactly when bit \<open>i\<close> of the status is set and \<open>i\<close> is below 32; the bitwise
  operator sees no later member.
\<close>

theorem memberSubmitted_bit:
  assumes "to_num status = Fin (of_int n)"
  shows "memberSubmitted i status \<longleftrightarrow> i < 32 \<and> bit n i"
proof -
  have s: "to_int32 (to_num status) = signed_take_bit 31 n" by (simp add: assms wrap32_signed)
  have p: "to_int32 (dbl (2 ^ i)) = (if i < 1024 then signed_take_bit 31 (2 ^ i) else 0)"
    using trunc_rat_of_int [of "2 ^ i"] by (simp add: dbl_pow2 wrap32_signed)
  show ?thesis
  proof (cases "i < 32")
    case True
    have bits: "bit (to_int32 (dbl (2 ^ i)) AND to_int32 (to_num status)) j \<longleftrightarrow> min 31 j = i \<and> bit n i" for j
      using True by (auto simp: s p bit_and_iff bit_signed_take_bit_iff bit_exp_iff)
    have j: "\<exists>j. min 31 j = i" using True by (intro exI [of _ i]) simp
    have "memberSubmitted i status \<longleftrightarrow> (\<exists>j. min 31 j = i \<and> bit n i)"
      unfolding memberSubmitted_def bit_eq_iff [where 'a = int] by (simp add: bits)
    with j have "memberSubmitted i status \<longleftrightarrow> bit n i" by blast
    with True show ?thesis by simp
  next
    case False
    have "signed_take_bit 31 (2 ^ i) = (0 :: int)"
      using False by (intro bit_eqI) (auto simp: bit_signed_take_bit_iff bit_exp_iff)
    with False show ?thesis by (simp add: memberSubmitted_def p)
  qed
qed

theorem memberSubmitted_bit_witness:
  "memberSubmitted 3 (JStr ''8'') \<and> \<not> memberSubmitted 32 (JStr ''4294967304'')"
proof -
  have "to_num (JStr ''8'') = Fin (of_int 8)" "to_num (JStr ''4294967304'') = Fin (of_int 4294967304)" by code_simp+
  moreover have "bit (8 :: int) 3" by code_simp
  ultimately show ?thesis
    using memberSubmitted_bit [of "JStr ''8''" 8 3] memberSubmitted_bit [of "JStr ''4294967304''" 4294967304 32] by simp
qed

text \<open>
  a staking limit that is never restored breaks its read-out: with zero growth blocks the
  rate is infinite, passes the test for \<open>NaN\<close>, and the text \<open>Infinity\<close> is handed to \<open>BN\<close>, whose
  exception nothing catches.
\<close>

theorem restoration_rate_infinite:
  assumes "to_num maxLimit = Fin q" and "0 < q" and "to_num blocks = Fin 0" and "maxLimit \<noteq> JUndef" and "blocks \<noteq> JUndef"
  shows "showRestorationRate es bn maxLimit blocks =
    (case bn (JStr ''Infinity'') of Inl e \<Rightarrow> Crash e | Inr i \<Rightarrow> Text (es @ formatEth i @ '' per block''))"
  using assms by (simp add: showRestorationRate_def formatEthOf_def bindR_def split: sum.splits)

theorem restoration_rate_infinite_witness:
  "showRestorationRate [] (bn_new offline_env) (JStr ''5'') (JStr ''0'') = Crash (External ''invalid character'')"
proof -
  have n: "to_num (JStr ''5'') = Fin 5" "to_num (JStr ''0'') = Fin 0" by code_simp+
  have b: "bn_new offline_env (JStr ''Infinity'') = Inl (External ''invalid character'')" by code_simp
  show ?thesis using restoration_rate_infinite [OF n(1) _ n(2), of "[]" "bn_new offline_env"] b by simp
qed

end
