(* ===== verification/SigningKeyForm.thy ===== *)
theory SigningKeyForm
  imports World
begin

text \<open>
  Adding signing keys in the node operators registry front end:
  apps/node-operators-registry/app/src/utils/helpers.js and the validation and submission of
  components/AddSigningKeysSidePanel.js.  The text the user pastes is a \<open>fcontent\<close>: the value
  \<open>JSON.parse\<close> reads from it, or the message with which it rejects it.  The two HTTP services are
  parameters from the request body to the parsed answer.
\<close>

section \<open>utils/helpers.js\<close>

definition getEndingBasedOnNumber :: "jsval \<Rightarrow> string \<Rightarrow> string \<Rightarrow> string" where
  "getEndingBasedOnNumber number wordInSingular wordInSpecialPlural =
     (let numStr = to_str number
      in if numStr \<noteq> [] \<and> last numStr = CHR ''1'' then wordInSingular
         else if wordInSpecialPlural \<noteq> [] then wordInSpecialPlural else wordInSingular @ ''s'')"

definition formatKeys :: "jsval list \<Rightarrow> string" where
  "formatKeys keys = ''0x'' @ concat (map elem_str keys)"

text \<open>\<open>data.map (({ k }) => k)\<close>: destructuring \<open>null\<close> throws.\<close>

definition pluck :: "string \<Rightarrow> jsval list \<Rightarrow> jsval list res" where
  "pluck k data = mapR (\<lambda>d. getp d k) data"

definition formatJsonData :: "fcontent \<Rightarrow> (nat \<times> string \<times> string) res" where
  "formatJsonData jsonString =
     (case jsonString of
        BadText msg \<Rightarrow> Inl (Error msg)
      | JsonText (JArr data) \<Rightarrow>
          bindR (pluck ''pubkey'' data) (\<lambda>pubkeysArray.
          bindR (pluck ''signature'' data) (\<lambda>signaturesArray.
          Inr (length data, formatKeys pubkeysArray, formatKeys signaturesArray)))
      | JsonText _ \<Rightarrow> Inl TypeError)"

definition isHexadecimal :: "jsval \<Rightarrow> nat \<Rightarrow> bool" where
  "isHexadecimal hexString len =
     (if len = 0 then False
      else case hexString of
             JStr s \<Rightarrow> length s = len \<and> list_all (\<lambda>c. hex_val c \<noteq> None) s
           | _ \<Rightarrow> False)"

text \<open>
  The size of \<open>new Set(values)\<close>: primitive values are compared by value; two objects or arrays that
  \<open>JSON.parse\<close> created are always different.
\<close>

definition is_reference :: "jsval \<Rightarrow> bool" where
  "is_reference v = (case v of JArr _ \<Rightarrow> True | JObj _ \<Rightarrow> True | _ \<Rightarrow> False)"

definition set_size :: "jsval list \<Rightarrow> nat" where
  "set_size vs = length (remdups (filter (\<lambda>v. \<not> is_reference v) vs)) + length (filter is_reference vs)"

definition hasDuplicatePubkeys :: "jsval list \<Rightarrow> bool res" where
  "hasDuplicatePubkeys signingKeys =
     bindR (pluck ''pubkey'' signingKeys) (\<lambda>pubkeys. Inr (length signingKeys \<noteq> set_size pubkeys))"

definition hasDuplicateSigs :: "jsval list \<Rightarrow> bool res" where
  "hasDuplicateSigs signingKeys =
     bindR (pluck ''signature'' signingKeys) (\<lambda>sigs. Inr (length signingKeys \<noteq> set_size sigs))"

definition withoutPrefix :: "string \<Rightarrow> string" where
  "withoutPrefix hexString = (if take 2 hexString = ''0x'' then drop 2 hexString else hexString)"

text \<open>\<open>s.slice(i)\<close>: a negative start counts from the end.\<close>

definition slice_from :: "int \<Rightarrow> string \<Rightarrow> string" where
  "slice_from i s = drop (nat (if i < 0 then max (int (length s) + i) 0 else i)) s"

definition shortenHex :: "string \<Rightarrow> string" where
  "shortenHex hexString =
     (let hexNoPrefix = withoutPrefix hexString; len = length hexNoPrefix
      in take 4 hexNoPrefix @ ''...'' @ slice_from (int len - 4) hexNoPrefix)"

text \<open>\<open>xs.map(shortenHex)\<close> on an answer: a value that is not a string has no \<open>slice\<close>.\<close>

definition shortenAll :: "jsval \<Rightarrow> string list res" where
  "shortenAll v =
     (case v of JArr xs \<Rightarrow> mapR (\<lambda>x. case x of JStr s \<Rightarrow> Inr (shortenHex s) | _ \<Rightarrow> Inl TypeError) xs
      | _ \<Rightarrow> Inl TypeError)"

definition verifySignaturesAsync :: "(jsval \<Rightarrow> jsval res) \<Rightarrow> jsval list \<Rightarrow> string list res" where
  "verifySignaturesAsync verifier signingKeys =
     bindR (mapR (\<lambda>k. bindR (getp k ''pubkey'') (\<lambda>p. bindR (getp k ''signature'') (\<lambda>s.
              Inr (JObj [(''pubkey'', p), (''signature'', s)])))) signingKeys) (\<lambda>body.
     bindR (verifier (JArr body)) shortenAll)"

definition prefixEach :: "jsval list \<Rightarrow> string list res" where
  "prefixEach arrayOfkeys = bindR (pluck ''pubkey'' arrayOfkeys) (\<lambda>ps. Inr (map (\<lambda>p. ''0x'' @ to_str p) ps))"

text \<open>
  The GraphQL query; \<open>json_strings\<close> is \<open>JSON.stringify\<close> of texts without quotes, backslashes and
  control characters.
\<close>

definition json_strings :: "string list \<Rightarrow> string" where
  "json_strings ss = ''['' @ join_with '','' (map (\<lambda>s. [CHR 0x22] @ s @ [CHR 0x22]) ss) @ '']''"

definition duplicatesQuery :: "string list \<Rightarrow> string" where
  "duplicatesQuery pubkeys =
     join_with [CHR 0x0A]
       ['''', ''        query {'', ''          nodeOperatorSigningKeys('', ''              where: {'',
        ''                  pubkey_in: '' @ json_strings pubkeys, ''              }'', ''          ) {'',
        ''            pubkey'', ''          }'', ''        }'', ''      '']"

definition checkForDuplicatesAsync :: "(jsval \<Rightarrow> jsval res) \<Rightarrow> jsval list \<Rightarrow> string list res" where
  "checkForDuplicatesAsync subgraph signingKeys =
     bindR (prefixEach signingKeys) (\<lambda>pubkeys.
     bindR (subgraph (JObj [(''query'', JStr (duplicatesQuery pubkeys))])) (\<lambda>response.
     bindR (getp response ''data'') (\<lambda>data.
     bindR (getp data ''nodeOperatorSigningKeys'') (\<lambda>keys.
     case keys of
       JArr ks \<Rightarrow> bindR (pluck ''pubkey'' ks) (\<lambda>ps. shortenAll (JArr ps))
     | _ \<Rightarrow> Inl TypeError))))"

section \<open>The validation schema\<close>

text \<open>A test passes, reports an error at the field, or throws.\<close>

datatype verdict = Passes | Reports string | Throws jserr

definition num_gt :: "jnum \<Rightarrow> jnum \<Rightarrow> bool" where
  "num_gt x y =
     (case (x, y) of
        (Fin p, Fin q) \<Rightarrow> q < p | (Fin _, NegInf) \<Rightarrow> True | (PosInf, Fin _) \<Rightarrow> True
      | (PosInf, NegInf) \<Rightarrow> True | _ \<Rightarrow> False)"

definition LIMIT :: "jsval \<Rightarrow> jsval" where
  "LIMIT skLimit = (if truthy skLimit then skLimit else JInt 20)"

fun checkHex :: "nat \<Rightarrow> jsval list \<Rightarrow> verdict" where
  "checkHex i [] = Passes"
| "checkHex i (d # data) =
     (case (getp d ''pubkey'', getp d ''signature'') of
        (Inr pubkey, Inr signature) \<Rightarrow>
          (if \<not> isHexadecimal pubkey 96 then Reports (''Invalid pubkey at index '' @ dec_int (int i) @ ''.'')
           else if \<not> isHexadecimal signature 192 then Reports (''Invalid signature at index '' @ dec_int (int i) @ ''.'')
           else checkHex (Suc i) data)
      | _ \<Rightarrow> Throws TypeError)"

definition basicTest :: "jsval \<Rightarrow> fcontent \<Rightarrow> verdict" where
  "basicTest limit json =
     (case json of
        BadText msg \<Rightarrow> Reports (if msg = [] then ''Invalid JSON'' else msg)
      | JsonText (JArr data) \<Rightarrow>
          (let quantity = length data
           in if quantity < 1
              then Reports (''Expected one or more keys but got '' @ dec_int (int quantity) @ ''.'')
              else if num_gt (Fin (of_nat quantity)) (to_num limit)
              then Reports (''Expected '' @ to_str limit @ '' signing keys max per submission but got '' @
                     dec_int (int quantity) @ ''.'')
              else case hasDuplicatePubkeys data of
                     Inl e \<Rightarrow> Throws e
                   | Inr True \<Rightarrow> Reports ''Includes duplicate public keys''
                   | Inr False \<Rightarrow>
                       (case hasDuplicateSigs data of
                          Inl e \<Rightarrow> Throws e
                        | Inr True \<Rightarrow> Reports ''Includes duplicate signatures''
                        | Inr False \<Rightarrow> checkHex 0 data))
      | JsonText _ \<Rightarrow> Reports ''JSON must be an array'')"

definition advancedTest ::
  "(jsval \<Rightarrow> jsval res) \<Rightarrow> (jsval \<Rightarrow> jsval res) \<Rightarrow> fcontent \<Rightarrow> bool \<Rightarrow> verdict" where
  "advancedTest subgraph verifier json useAdvancedV8n =
     (if \<not> useAdvancedV8n then Passes
      else case json of
        BadText msg \<Rightarrow> Throws (Error msg)
      | JsonText (JArr signingKeys) \<Rightarrow>
          (case checkForDuplicatesAsync subgraph signingKeys of
             Inl e \<Rightarrow> Throws e
           | Inr duplicates \<Rightarrow>
               if duplicates \<noteq> [] then Reports (''Public keys already in use: '' @ join_with '', '' duplicates)
               else (case verifySignaturesAsync verifier signingKeys of
                       Inl e \<Rightarrow> Throws e
                     | Inr invalidSignatures \<Rightarrow>
                         if invalidSignatures \<noteq> []
                         then Reports (''Invalid signatures: '' @ join_with '', '' invalidSignatures) else Passes))
      | JsonText _ \<Rightarrow> Throws TypeError)"

section \<open>Lemmas\<close>

lemma checkHex_passes:
  "checkHex i data = Passes \<longleftrightarrow>
     list_all (\<lambda>d. \<exists>p s. getp d ''pubkey'' = Inr p \<and> getp d ''signature'' = Inr s \<and>
        isHexadecimal p 96 \<and> isHexadecimal s 192) data"
  by (induction i data rule: checkHex.induct) (auto split: sum.splits)

text \<open>Concatenated blocks of one length are recovered by their position.\<close>

lemma block_at:
  "i < length xs \<Longrightarrow> list_all (\<lambda>x. length x = n) xs \<Longrightarrow> take n (drop (n * i) (concat xs)) = xs ! i"
proof (induction xs arbitrary: i)
  case (Cons x xs)
  then show ?case by (cases i) (auto simp: add.commute)
qed simp

lemma length_blocks: "list_all (\<lambda>x. length x = n) xs \<Longrightarrow> length (concat xs) = n * length xs"
  by (induction xs) auto

lemma set_size_strings: "set_size (map JStr ss) = length (remdups ss)"
proof -
  have "filter (\<lambda>v. \<not> is_reference v) (map JStr ss) = map JStr ss" "filter is_reference (map JStr ss) = []"
    by (induction ss) (auto simp: is_reference_def)
  moreover have "length (remdups (map JStr ss)) = length (remdups ss)"
    by (induction ss) auto
  ultimately show ?thesis by (simp add: set_size_def)
qed

lemma length_remdups_full: "length (remdups xs) = length xs \<longleftrightarrow> distinct xs"
  by (metis distinct_remdups_id length_remdups_card_conv card_distinct distinct_card)

lemma isHexadecimal_str: "isHexadecimal p n \<Longrightarrow> \<exists>s. p = JStr s \<and> length s = n"
  by (auto simp: isHexadecimal_def split: jsval.splits if_splits)

lemma hex_strings:
  assumes "list_all (\<lambda>d. \<exists>p. getp d k = Inr p \<and> isHexadecimal p n) data"
  obtains ss where "pluck k data = Inr (map JStr ss)" "length ss = length data" "list_all (\<lambda>s. length s = n) ss"
proof -
  from assms have "\<exists>ss. pluck k data = Inr (map JStr ss) \<and> length ss = length data \<and> list_all (\<lambda>s. length s = n) ss"
  proof (induction data)
    case Nil
    then show ?case by (simp add: pluck_def)
  next
    case (Cons d data)
    then obtain ss p where "pluck k data = Inr (map JStr ss)" "length ss = length data" "list_all (\<lambda>s. length s = n) ss"
      "getp d k = Inr (JStr p)" "length p = n"
      by (auto dest!: isHexadecimal_str)
    then show ?case by (intro exI [of _ "p # ss"]) (simp add: pluck_def)
  qed
  then show thesis using that by blast
qed

lemma concat_elem_str [simp]: "concat (map (elem_str \<circ> JStr) ss) = concat ss"
  by (induction ss) auto

lemma basicTest_passes:
  assumes "basicTest limit json = Passes"
  obtains data where "json = JsonText (JArr data)" "data \<noteq> []"
    "\<not> num_gt (Fin (of_nat (length data))) (to_num limit)" "hasDuplicatePubkeys data = Inr False"
    "hasDuplicateSigs data = Inr False" "checkHex 0 data = Passes"
  using assms
  by (auto simp: basicTest_def Let_def split: fcontent.splits jsval.splits if_splits sum.splits bool.splits)

text \<open>What a text that passes the basic test holds, and what is sent of it.\<close>

lemma passed_keys:
  assumes "basicTest limit json = Passes"
  obtains data pks sgs where "json = JsonText (JArr data)" "data \<noteq> []" "\<not> num_gt (Fin (of_nat (length data))) (to_num limit)"
    and "pluck ''pubkey'' data = Inr (map JStr pks)" "length pks = length data" "list_all (\<lambda>s. length s = 96) pks" "distinct pks"
    and "pluck ''signature'' data = Inr (map JStr sgs)" "length sgs = length data" "list_all (\<lambda>s. length s = 192) sgs" "distinct sgs"
    and "formatJsonData json = Inr (length data, ''0x'' @ concat pks, ''0x'' @ concat sgs)"
proof -
  from assms obtain data where d: "json = JsonText (JArr data)" "data \<noteq> []"
    "\<not> num_gt (Fin (of_nat (length data))) (to_num limit)" "hasDuplicatePubkeys data = Inr False"
    "hasDuplicateSigs data = Inr False" "checkHex 0 data = Passes"
    by (rule basicTest_passes)
  have "list_all (\<lambda>d. \<exists>p. getp d ''pubkey'' = Inr p \<and> isHexadecimal p 96) data"
    "list_all (\<lambda>d. \<exists>p. getp d ''signature'' = Inr p \<and> isHexadecimal p 192) data"
    using d(6) by (auto simp: checkHex_passes list_all_iff)
  then obtain pks sgs where p: "pluck ''pubkey'' data = Inr (map JStr pks)" "length pks = length data"
      "list_all (\<lambda>s. length s = 96) pks"
    and s: "pluck ''signature'' data = Inr (map JStr sgs)" "length sgs = length data"
      "list_all (\<lambda>s. length s = 192) sgs"
    by (elim hex_strings) blast
  have "distinct pks" "distinct sgs"
    using d(4,5) p(1,2) s(1,2)
    by (simp_all add: hasDuplicatePubkeys_def hasDuplicateSigs_def set_size_strings flip: length_remdups_full)
  moreover have "formatJsonData json = Inr (length data, ''0x'' @ concat pks, ''0x'' @ concat sgs)"
    by (simp add: formatJsonData_def d(1) p(1) s(1) formatKeys_def)
  ultimately show thesis by (rule that [OF d(1-3) p _ s])
qed

section \<open>Properties\<close>

text \<open>
  C34: keys that pass the form's validation are submitted intact: the submission's quantity is
  their number, at least one and not above the limit, no two public keys and no two signatures are
  equal, and the two submitted byte strings have the length the registry contract requires and
  contain key and signature number \<open>i\<close> at position \<open>i\<close>.
\<close>

theorem valid_keys_submission:
  assumes "basicTest limit json = Passes"
  shows "\<exists>data pks sgs pubkeys signatures. json = JsonText (JArr data) \<and>
    pluck ''pubkey'' data = Inr (map JStr pks) \<and> pluck ''signature'' data = Inr (map JStr sgs) \<and>
    formatJsonData json = Inr (length data, pubkeys, signatures) \<and>
    data \<noteq> [] \<and> \<not> num_gt (Fin (of_nat (length data))) (to_num limit) \<and> distinct pks \<and> distinct sgs \<and>
    length pubkeys = 2 + 2 * 48 * length data \<and> length signatures = 2 + 2 * 96 * length data \<and>
    list_all (\<lambda>i. take 96 (drop (2 + 96 * i) pubkeys) = pks ! i \<and>
                  take 192 (drop (2 + 192 * i) signatures) = sgs ! i) [0..<length data]"
proof -
  from assms obtain data pks sgs where d: "json = JsonText (JArr data)" "data \<noteq> []" "\<not> num_gt (Fin (of_nat (length data))) (to_num limit)"
    and p: "pluck ''pubkey'' data = Inr (map JStr pks)" "length pks = length data" "list_all (\<lambda>s. length s = 96) pks" "distinct pks"
    and s: "pluck ''signature'' data = Inr (map JStr sgs)" "length sgs = length data" "list_all (\<lambda>s. length s = 192) sgs" "distinct sgs"
    and f: "formatJsonData json = Inr (length data, ''0x'' @ concat pks, ''0x'' @ concat sgs)"
    by (rule passed_keys)
  have "list_all (\<lambda>i. take 96 (drop (2 + 96 * i) (''0x'' @ concat pks)) = pks ! i \<and>
      take 192 (drop (2 + 192 * i) (''0x'' @ concat sgs)) = sgs ! i) [0..<length data]"
    using block_at [of _ pks 96] block_at [of _ sgs 192] p s by (simp add: list_all_length)
  then show ?thesis
    using d p s f length_blocks [OF p(3)] length_blocks [OF s(3)]
    by (intro exI [of _ data] exI [of _ pks] exI [of _ sgs] exI [of _ "''0x'' @ concat pks"]
        exI [of _ "''0x'' @ concat sgs"]) simp
qed

definition sample_key :: "char \<Rightarrow> jsval" where
  "sample_key c = JObj [(''pubkey'', JStr (replicate 96 c)), (''signature'', JStr (replicate 192 c))]"

theorem valid_keys_submission_witness:
  "\<exists>pubkeys signatures.
     formatJsonData (JsonText (JArr [sample_key (CHR ''a''), sample_key (CHR ''b'')])) = Inr (2, pubkeys, signatures) \<and>
     length pubkeys = 194"
proof -
  have "basicTest (LIMIT JUndef) (JsonText (JArr [sample_key (CHR ''a''), sample_key (CHR ''b'')])) = Passes"
    by code_simp
  from valid_keys_submission [OF this] show ?thesis by auto
qed

text \<open>
  the check for duplicates compares spellings, not keys: the same key and signature written in
  lower and in upper case pass the validation together.
\<close>

theorem duplicate_keys_by_case:
  "basicTest (LIMIT JUndef) (JsonText (JArr [sample_key (CHR ''a''), sample_key (CHR ''A'')])) = Passes \<and>
   to_lower (replicate 96 (CHR ''A'')) = replicate 96 (CHR ''a'')"
proof
  show "basicTest (LIMIT JUndef) (JsonText (JArr [sample_key (CHR ''a''), sample_key (CHR ''A'')])) = Passes"
    by code_simp
  show "to_lower (replicate 96 (CHR ''A'')) = replicate 96 (CHR ''a'')"
    by code_simp
qed

text \<open>
  the plural of a count depends on its last digit alone: every number ending in 1, such as 11
  or 111, is printed with the singular.
\<close>

theorem ending_by_last_digit:
  assumes "0 \<le> n"
  shows "getEndingBasedOnNumber (JStr (dec_int n)) w [] = (if n mod 10 = 1 then w else w @ ''s'')"
proof -
  have "last (dec_int n) = CHR ''1'' \<longleftrightarrow> n mod 10 = 1"
  proof -
    have l: "last (dec_int n) = char_of (48 + n mod 10)" using assms by (simp add: dec_int_def last_dec_digits)
    have "of_char (char_of (48 + n mod 10) :: char) = 48 + n mod 10"
      by (simp add: of_char_of take_bit_eq_mod)
    then have "(char_of (48 + n mod 10) :: char) = CHR ''1'' \<longleftrightarrow> 48 + n mod 10 = of_char (CHR ''1'')"
      by (metis of_char_eq_iff)
    then show ?thesis using l by simp
  qed
  moreover have "dec_int n \<noteq> []" by (simp add: dec_int_def)
  ultimately show ?thesis by (simp add: getEndingBasedOnNumber_def)
qed

theorem ending_by_last_digit_witness:
  "getEndingBasedOnNumber (JStr ''11'') ''key'' [] = ''key''"
proof -
  have "dec_int 11 = ''11''" by code_simp
  with ending_by_last_digit [of 11 "''key''"] show ?thesis by simp
qed

end
