(* ===== verification/AppPanels.thy ===== *)
theory AppPanels
  imports AppForms SigningKeyForm
begin

text \<open>
  The interaction logic of apps/node-operators-registry/app/src/App.js and
  apps/lidooracle/app/src/App.js: which side panel is open, what a click does, and which contract
  method is called with which arguments.  Layout and styling are not modelled.  A call is the name of
  the method of \<open>api\<close> and its arguments.
\<close>

type_synonym api_call = "string \<times> jsval list"

section \<open>The node operators registry\<close>

text \<open>
  \<open>addSigningKeysToOperatorId\<close> and \<open>changeLimitOperatorId\<close> are \<open>null\<close> or an operator's id; a panel
  is open while its variable is not \<open>null\<close>.
\<close>

record nor_ui =
  addNodeOperatorOpen :: bool
  addSigningKeysTo :: jsval
  changeLimitOf :: jsval

definition norUiStart :: nor_ui where
  "norUiStart = \<lparr>addNodeOperatorOpen = False, addSigningKeysTo = JNull, changeLimitOf = JNull\<rparr>"

text \<open>
  What the user can do: the header's button, the items of an operator's menu, submitting a panel that
  is open, and closing it, which also happens once a submitted call has settled.
\<close>

datatype nor_action =
    OpenAddOperator | CloseAddOperator | SubmitOperator jsval jsval
  | ToggleOperator jsval bool
  | OpenChangeLimit jsval | CloseChangeLimit | SubmitLimit jsval
  | CloseAddKeys | SubmitKeys nat string string

fun norEnabled :: "nor_ui \<Rightarrow> nor_action \<Rightarrow> bool" where
  "norEnabled u (SubmitOperator _ _) = addNodeOperatorOpen u"
| "norEnabled u (SubmitLimit _) = (changeLimitOf u \<noteq> JNull)"
| "norEnabled u (SubmitKeys _ _ _) = (addSigningKeysTo u \<noteq> JNull)"
| "norEnabled u _ = True"

fun norAct :: "nor_ui \<Rightarrow> nor_action \<Rightarrow> nor_ui \<times> api_call option" where
  "norAct u OpenAddOperator = (u\<lparr>addNodeOperatorOpen := True\<rparr>, None)"
| "norAct u CloseAddOperator = (u\<lparr>addNodeOperatorOpen := False\<rparr>, None)"
| "norAct u (SubmitOperator name address) = (u, Some (''addNodeOperator'', [name, address]))"
| "norAct u (ToggleOperator i active) = (u, Some (''setNodeOperatorActive'', [i, JBool (\<not> active)]))"
| "norAct u (OpenChangeLimit i) = (u\<lparr>changeLimitOf := i\<rparr>, None)"
| "norAct u CloseChangeLimit = (u\<lparr>changeLimitOf := JNull\<rparr>, None)"
| "norAct u (SubmitLimit limit) = (u, Some (''setNodeOperatorStakingLimit'', [changeLimitOf u, limit]))"
| "norAct u CloseAddKeys = (u\<lparr>addSigningKeysTo := JNull\<rparr>, None)"
| "norAct u (SubmitKeys quantity pubkeys signatures) =
     (u, Some (''addSigningKeys'', [addSigningKeysTo u, JInt (int quantity), JStr pubkeys, JStr signatures]))"

text \<open>\<open>nodeOperators.find (({ rewardAddress }) => rewardAddress === connectedAccount)\<close>\<close>

definition currentUserOperatorId :: "props list \<Rightarrow> jsval \<Rightarrow> jsval" where
  "currentUserOperatorId nodeOperators connectedAccount =
     (case find (\<lambda>op. strict_eq (obj_get op ''rewardAddress'') connectedAccount) nodeOperators of
        None \<Rightarrow> JInt (- 1) | Some op \<Rightarrow> obj_get op ''id'')"

text \<open>The two messages about an operator's keys; \<open>keyCount\<close> is what the contract answers.\<close>

definition signingKeysToast :: "jsval \<Rightarrow> jsval \<Rightarrow> string" where
  "signingKeysToast name keyCount =
     to_str name @ '' has '' @ to_str keyCount @ '' signing '' @ getEndingBasedOnNumber keyCount ''key'' [] @ ''.''"

definition unusedKeysToast :: "jsval \<Rightarrow> jsval \<Rightarrow> string" where
  "unusedKeysToast name keyCount =
     to_str name @ '' has '' @ to_str keyCount @ '' unused signing '' @ getEndingBasedOnNumber keyCount ''key'' [] @ ''.''"

text \<open>A session: the state of the page, the actions so far and the calls they made, latest first.\<close>

inductive nor_session :: "nor_ui \<Rightarrow> nor_action list \<Rightarrow> api_call list \<Rightarrow> bool" where
  opened: "nor_session norUiStart [] []"
| acted: "nor_session u acts calls \<Longrightarrow> norEnabled u a \<Longrightarrow> norAct u a = (u', r) \<Longrightarrow>
    nor_session u' (a # acts) ((case r of None \<Rightarrow> [] | Some c \<Rightarrow> [c]) @ calls)"

inductive_cases nor_session_Cons: "nor_session u (a # acts) calls"

section \<open>The oracle\<close>

datatype panel = AddMember | ChangeQuorum | ChangeIncrease | ChangeDecrease | ReportReceiver

datatype oracle_action =
    OpenPanel panel | ClosePanel panel | SubmitPanel panel jsval | Settled panel bool
  | RemoveMember jsval

fun panelCall :: "panel \<Rightarrow> jsval \<Rightarrow> api_call" where
  "panelCall AddMember v = (''addOracleMember'', [v])"
| "panelCall ChangeQuorum v = (''setQuorum'', [v])"
| "panelCall ChangeIncrease v = changeIncreaseSubmit v"
| "panelCall ChangeDecrease v = changeDecreaseSubmit v"
| "panelCall ReportReceiver v = (''setBeaconReportReceiver'', [v])"

text \<open>
  The open panels.  A submitted call that settles closes its panel whatever its result, except in
  the panel for a new member, which closes on success only.
\<close>

fun oracleAct :: "panel list \<Rightarrow> oracle_action \<Rightarrow> panel list \<times> api_call option" where
  "oracleAct open' (OpenPanel p) = (List.insert p open', None)"
| "oracleAct open' (ClosePanel p) = (removeAll p open', None)"
| "oracleAct open' (SubmitPanel p v) = (open', Some (panelCall p v))"
| "oracleAct open' (Settled p ok) = ((if p = AddMember \<and> \<not> ok then open' else removeAll p open'), None)"
| "oracleAct open' (RemoveMember address) = (open', Some (''removeOracleMember'', [address]))"

section \<open>Lemmas\<close>

text \<open>The panel for signing keys is never opened, and a limit is always that of the chosen operator.\<close>

definition chosenLimit :: "nor_action list \<Rightarrow> jsval" where
  "chosenLimit acts =
     (case find (\<lambda>a. case a of OpenChangeLimit _ \<Rightarrow> True | CloseChangeLimit \<Rightarrow> True | _ \<Rightarrow> False) acts of
        Some (OpenChangeLimit i) \<Rightarrow> i | _ \<Rightarrow> JNull)"

lemma nor_session_inv:
  "nor_session u acts calls \<Longrightarrow>
     addSigningKeysTo u = JNull \<and> changeLimitOf u = chosenLimit acts \<and>
     list_all (\<lambda>c. fst c \<noteq> ''addSigningKeys'') calls"
proof (induction rule: nor_session.induct)
  case opened
  then show ?case by (simp add: norUiStart_def chosenLimit_def)
next
  case (acted u acts calls a u' r)
  then show ?case by (cases a) (auto simp: chosenLimit_def)
qed

section \<open>Properties\<close>

text \<open>
  in every session of the registry's page the panel for adding signing keys stays closed and
  no call adds signing keys: nothing the page renders opens it.
\<close>

theorem signing_keys_panel_closed:
  assumes "nor_session u acts calls"
  shows "addSigningKeysTo u = JNull \<and> list_all (\<lambda>c. fst c \<noteq> ''addSigningKeys'') calls"
  using nor_session_inv [OF assms] by blast

theorem signing_keys_panel_closed_witness:
  "\<exists>u. nor_session u [SubmitOperator (JStr ''n'') (JStr ''0x1''), OpenAddOperator]
        [(''addNodeOperator'', [JStr ''n'', JStr ''0x1''])] \<and> addSigningKeysTo u = JNull"
proof -
  let ?u = "norUiStart\<lparr>addNodeOperatorOpen := True\<rparr>"
  have "nor_session ?u [OpenAddOperator] []"
    using nor_session.acted [OF nor_session.opened, of OpenAddOperator ?u None] by simp
  then have "nor_session ?u [SubmitOperator (JStr ''n'') (JStr ''0x1''), OpenAddOperator]
      [(''addNodeOperator'', [JStr ''n'', JStr ''0x1''])]"
    using nor_session.acted [of ?u "[OpenAddOperator]" "[]" "SubmitOperator (JStr ''n'') (JStr ''0x1'')" ?u
        "Some (''addNodeOperator'', [JStr ''n'', JStr ''0x1''])"] by simp
  with signing_keys_panel_closed [OF this] show ?thesis by blast
qed

text \<open>
  a staking limit that is submitted is that of the operator whose menu item was chosen last
  and whose panel has not been closed since.
\<close>

theorem limit_for_chosen_operator:
  assumes "nor_session u acts calls" and "norEnabled u (SubmitLimit limit)"
  shows "norAct u (SubmitLimit limit) = (u, Some (''setNodeOperatorStakingLimit'', [chosenLimit acts, limit])) \<and>
    chosenLimit acts \<noteq> JNull"
  using nor_session_inv [OF assms(1)] assms(2) by simp

theorem limit_for_chosen_operator_witness:
  "\<exists>u. norAct u (SubmitLimit (JInt 7)) = (u, Some (''setNodeOperatorStakingLimit'', [JInt 2, JInt 7]))"
proof -
  let ?u = "norUiStart\<lparr>changeLimitOf := JInt 2\<rparr>"
  have s: "nor_session ?u [OpenChangeLimit (JInt 2)] []"
    using nor_session.acted [OF nor_session.opened, of "OpenChangeLimit (JInt 2)" ?u None] by simp
  have c: "chosenLimit [OpenChangeLimit (JInt 2)] = JInt 2" by (simp add: chosenLimit_def)
  have e: "norEnabled ?u (SubmitLimit (JInt 7))" by simp
  from limit_for_chosen_operator [OF s e, unfolded c] show ?thesis by blast
qed

end
