(* ===== verification/AppStores.thy ===== *)
theory AppStores
  imports JsValue
begin

text \<open>
  The event-sourced stores of the three Aragon front ends: apps/lido/app/src/script.js,
  apps/lidooracle/app/src/script.js and apps/node-operators-registry/app/src/script.js.  A store
  keeps a state object; for every event the app reports, its reducer asks the contract anew and
  returns the next state.  \<open>chain\<close> stands for \<open>app.call(name, ...args).toPromise()\<close> at the moment
  the reducer runs; the two synchronisation events of the Aragon library are the parameters
  \<open>SY\<close> and \<open>SD\<close>.
\<close>

section \<open>What the reducers share\<close>

type_synonym chain = "string \<Rightarrow> jsval list \<Rightarrow> jsval res"

text \<open>\<open>{ ...nextState, k1: await c1, k2: await c2 }\<close>: the first rejected call is thrown.\<close>

definition withCalls :: "props \<Rightarrow> (string \<times> jsval res) list \<Rightarrow> jsval res" where
  "withCalls nextState kvs =
     bindR (mapR (\<lambda>(k, r). bindR r (\<lambda>v. Inr (k, v))) kvs) (\<lambda>ps. Inr (JObj (obj_assign nextState ps)))"

text \<open>\<open>catch (err) { console.log(err) }\<close>: the reducer then returns \<open>undefined\<close>.\<close>

definition caught :: "jsval res \<Rightarrow> jsval" where
  "caught r = (case r of Inl _ \<Rightarrow> JUndef | Inr v \<Rightarrow> v)"

lemma caught_Inr [simp]: "caught (Inr v) = v"
  by (simp add: caught_def)

lemma caught_Inl [simp]: "caught (Inl e) = JUndef"
  by (simp add: caught_def)

text \<open>
  The frame of all three reducers: a \<open>switch\<close> over the event with one case per contract event,
  the two synchronisation cases and \<open>default: return state\<close>.
\<close>

definition reduceWith ::
  "string \<Rightarrow> string \<Rightarrow> (string \<times> (props \<Rightarrow> jsval res)) list \<Rightarrow> jsval \<Rightarrow> string \<Rightarrow> jsval" where
  "reduceWith SY SD cases state event =
     (let nextState = own_props state
      in case map_of cases event of
           Some body \<Rightarrow> caught (body nextState)
         | None \<Rightarrow>
             if event = SY then JObj (obj_set ''isSyncing'' (JBool True) nextState)
             else if event = SD then JObj (obj_set ''isSyncing'' (JBool False) nextState)
             else state)"

text \<open>The cases that read some fields again: \<open>return { ...nextState, f: await getF() }\<close>.\<close>

definition rereadCases ::
  "(string \<Rightarrow> jsval res) \<Rightarrow> (string \<times> string list) list \<Rightarrow> (string \<times> (props \<Rightarrow> jsval res)) list" where
  "rereadCases getter events =
     map (\<lambda>(event, fs). (event, \<lambda>nextState. withCalls nextState (map (\<lambda>f. (f, getter f)) fs))) events"

text \<open>
  How often \<open>for (let i = 0; i < size; i++)\<close> runs its body.  A size is the text of a Solidity
  integer, never an infinite number.
\<close>

fun loop_count :: "jnum \<Rightarrow> nat" where
  "loop_count (Fin q) = nat \<lceil>q\<rceil>"
| "loop_count _ = 0"

section \<open>The Lido app\<close>

text \<open>The contract method behind each field of the state.\<close>

definition lidoGetter :: "chain \<Rightarrow> string \<Rightarrow> jsval res" where
  "lidoGetter C f =
     (case map_of
        [(''isStopped'', ''isStopped''), (''fee'', ''getFee''), (''feeDistribution'', ''getFeeDistribution''),
         (''withdrawalCredentials'', ''getWithdrawalCredentials''),
         (''elRewardsWithdrawalLimit'', ''getELRewardsWithdrawalLimit''), (''elRewardsVault'', ''getELRewardsVault''),
         (''bufferedEther'', ''getBufferedEther''), (''totalPooledEther'', ''getTotalPooledEther''),
         (''nodeOperatorsRegistry'', ''getOperators''), (''depositContract'', ''getDepositContract''),
         (''oracle'', ''getOracle''), (''operators'', ''getOperators''), (''treasury'', ''getTreasury''),
         (''insuranceFund'', ''getInsuranceFund''), (''beaconStat'', ''getBeaconStat''),
         (''stakingLimitInfo'', ''getStakeLimitFullInfo'')] f
      of Some methodName \<Rightarrow> C methodName [] | None \<Rightarrow> Inl TypeError)"

definition lidoFields :: "string list" where
  "lidoFields = [''isStopped'', ''fee'', ''feeDistribution'', ''withdrawalCredentials'', ''elRewardsWithdrawalLimit'',
     ''elRewardsVault'', ''bufferedEther'', ''totalPooledEther'', ''nodeOperatorsRegistry'', ''depositContract'',
     ''oracle'', ''operators'', ''treasury'', ''insuranceFund'', ''beaconStat'', ''stakingLimitInfo'']"

text \<open>The cases of the \<open>switch\<close>: which fields an event reads again.\<close>

definition lidoEvents :: "(string \<times> string list) list" where
  "lidoEvents =
     [(''Stopped'', [''isStopped'']), (''Resumed'', [''isStopped'']), (''FeeSet'', [''fee'']),
      (''FeeDistributionSet'', [''feeDistribution'']), (''WithdrawalCredentialsSet'', [''withdrawalCredentials'']),
      (''ELRewardsWithdrawalLimitSet'', [''elRewardsWithdrawalLimit'']), (''ELRewardsVaultSet'', [''elRewardsVault'']),
      (''Unbuffered'', [''bufferedEther'']), (''StakingPaused'', [''stakingLimitInfo'']),
      (''StakingResumed'', [''stakingLimitInfo'']), (''StakingLimitSet'', [''stakingLimitInfo'']),
      (''StakingLimitRemoved'', [''stakingLimitInfo''])]"

definition lidoReduce :: "string \<Rightarrow> string \<Rightarrow> chain \<Rightarrow> jsval \<Rightarrow> string \<Rightarrow> jsval" where
  "lidoReduce SY SD C = reduceWith SY SD (rereadCases (lidoGetter C) lidoEvents)"

text \<open>\<open>Promise.allSettled\<close>: a rejected call leaves \<open>undefined\<close> in its field and no error.\<close>

definition settledValue :: "jsval res \<Rightarrow> jsval" where
  "settledValue r = (case r of Inl _ \<Rightarrow> JUndef | Inr v \<Rightarrow> v)"

definition lidoInit :: "chain \<Rightarrow> jsval \<Rightarrow> jsval" where
  "lidoInit C cachedState =
     JObj (obj_assign (own_props cachedState) (map (\<lambda>f. (f, settledValue (lidoGetter C f))) lidoFields))"

section \<open>The oracle app\<close>

definition getCurrentFrame :: "chain \<Rightarrow> jsval res" where
  "getCurrentFrame C =
     bindR (C ''getCurrentFrame'' []) (\<lambda>frame.
     bindR (getp frame ''frameEpochId'') (\<lambda>epochId.
     bindR (getp frame ''frameStartTime'') (\<lambda>startTime.
     bindR (getp frame ''frameEndTime'') (\<lambda>endTime.
     Inr (JObj [(''frameEpochId'', JStr (to_str epochId)), (''frameStartTime'', JNum (to_num startTime)),
                (''frameEndTime'', JNum (to_num endTime))])))))"

definition getCurrentReportVariants :: "chain \<Rightarrow> jsval res" where
  "getCurrentReportVariants C =
     bindR (C ''getCurrentReportVariantsSize'' []) (\<lambda>size.
     bindR (mapR (\<lambda>i. C ''getCurrentReportVariant'' [JInt (int i)]) [0..<loop_count (to_num size)]) (\<lambda>variants.
     Inr (JArr variants)))"

definition oracleGetter :: "chain \<Rightarrow> string \<Rightarrow> jsval res" where
  "oracleGetter C f =
     (if f = ''currentFrame'' then getCurrentFrame C
      else if f = ''currentReportVariants'' then getCurrentReportVariants C
      else case map_of
        [(''oracleMembers'', ''getOracleMembers''), (''quorum'', ''getQuorum''),
         (''expectedEpochId'', ''getExpectedEpochId''),
         (''currentOraclesReportStatus'', ''getCurrentOraclesReportStatus''),
         (''allowedBeaconBalanceAnnualRelativeIncrease'', ''getAllowedBeaconBalanceAnnualRelativeIncrease''),
         (''allowedBeaconBalanceRelativeDecrease'', ''getAllowedBeaconBalanceRelativeDecrease''),
         (''beaconReportReceiver'', ''getBeaconReportReceiver''),
         (''lastCompletedReportDelta'', ''getLastCompletedReportDelta''), (''version'', ''getVersion'')] f
      of Some methodName \<Rightarrow> C methodName [] | None \<Rightarrow> Inl TypeError)"

definition oracleFields :: "string list" where
  "oracleFields = [''oracleMembers'', ''quorum'', ''currentFrame'', ''expectedEpochId'', ''currentOraclesReportStatus'',
     ''allowedBeaconBalanceAnnualRelativeIncrease'', ''allowedBeaconBalanceRelativeDecrease'',
     ''beaconReportReceiver'', ''currentReportVariants'', ''lastCompletedReportDelta'', ''version'']"

definition oracleEvents :: "(string \<times> string list) list" where
  "oracleEvents =
     [(''MemberAdded'', [''oracleMembers'']), (''MemberRemoved'', [''oracleMembers'']), (''QuorumChanged'', [''quorum'']),
      (''ExpectedEpochIdUpdated'', [''expectedEpochId'']),
      (''AllowedBeaconBalanceAnnualRelativeIncreaseSet'', [''allowedBeaconBalanceAnnualRelativeIncrease'']),
      (''AllowedBeaconBalanceRelativeDecreaseSet'', [''allowedBeaconBalanceRelativeDecrease'']),
      (''UI:UpdateFrame'', [''currentFrame'']), (''BeaconReportReceiverSet'', [''beaconReportReceiver'']),
      (''BeaconReported'', [''currentReportVariants'', ''currentOraclesReportStatus'']),
      (''ContractVersionSet'', [''version''])]"

definition oracleReduce :: "string \<Rightarrow> string \<Rightarrow> chain \<Rightarrow> jsval \<Rightarrow> string \<Rightarrow> jsval" where
  "oracleReduce SY SD C = reduceWith SY SD (rereadCases (oracleGetter C) oracleEvents)"

text \<open>\<open>Promise.all\<close>: one rejected call rejects the whole initialisation.\<close>

definition oracleInit :: "chain \<Rightarrow> jsval \<Rightarrow> jsval res" where
  "oracleInit C cachedState = withCalls (own_props cachedState) (map (\<lambda>f. (f, oracleGetter C f)) oracleFields)"

section \<open>The node operators registry app\<close>

definition getNodeOperators :: "chain \<Rightarrow> jsval \<Rightarrow> jsval res" where
  "getNodeOperators C numberOfOperators =
     bindR (mapR (\<lambda>i. bindR (C ''getNodeOperator'' [JInt (int i), JBool True]) (\<lambda>info.
                      Inr (JObj (obj_set ''id'' (JInt (int i)) (own_props info)))))
             [0..<loop_count (to_num numberOfOperators)]) (\<lambda>nodeOperators.
     Inr (JArr nodeOperators))"

definition norCases :: "chain \<Rightarrow> (string \<times> (props \<Rightarrow> jsval res)) list" where
  "norCases C =
     [(''NodeOperatorAdded'', \<lambda>nextState.
         bindR (C ''getNodeOperatorsCount'' []) (\<lambda>nodeOperatorsCount.
         withCalls nextState
           [(''nodeOperatorsCount'', Inr nodeOperatorsCount),
            (''activeNodeOperatorsCount'', C ''getActiveNodeOperatorsCount'' []),
            (''nodeOperators'', getNodeOperators C nodeOperatorsCount)])),
      (''NodeOperatorActiveSet'', \<lambda>nextState.
         withCalls nextState
           [(''activeNodeOperatorsCount'', C ''getActiveNodeOperatorsCount'' []),
            (''nodeOperators'', getNodeOperators C (obj_get nextState ''nodeOperatorsCount''))]),
      (''SigningKeyAdded'', \<lambda>nextState.
         withCalls nextState [(''nodeOperators'', getNodeOperators C (obj_get nextState ''nodeOperatorsCount''))]),
      (''NodeOperatorStakingLimitSet'', \<lambda>nextState.
         withCalls nextState [(''nodeOperators'', getNodeOperators C (obj_get nextState ''nodeOperatorsCount''))])]"

definition norReduce :: "string \<Rightarrow> string \<Rightarrow> chain \<Rightarrow> jsval \<Rightarrow> string \<Rightarrow> jsval" where
  "norReduce SY SD C = reduceWith SY SD (norCases C)"

definition norInit :: "chain \<Rightarrow> jsval \<Rightarrow> jsval res" where
  "norInit C cachedState =
     bindR (C ''getNodeOperatorsCount'' []) (\<lambda>nodeOperatorsCount.
     withCalls (own_props cachedState)
       [(''nodeOperatorsCount'', Inr nodeOperatorsCount),
        (''activeNodeOperatorsCount'', C ''getActiveNodeOperatorsCount'' []),
        (''nodeOperators'', getNodeOperators C nodeOperatorsCount)])"

section \<open>The contract of a store\<close>

text \<open>
  What a front end relies on: \<open>truth C f\<close> is what field \<open>f\<close> has to show on chain \<open>C\<close>.  A store
  initialised without a failing call shows the chain, and an event brings it back to the chain
  provided the chain changed only in fields that this event refreshes.
\<close>

definition field :: "jsval \<Rightarrow> string \<Rightarrow> jsval" where
  "field s f = obj_get (own_props s) f"

definition coherent :: "(chain \<Rightarrow> string \<Rightarrow> jsval res) \<Rightarrow> string list \<Rightarrow> chain \<Rightarrow> jsval \<Rightarrow> bool" where
  "coherent truth tracked C s \<longleftrightarrow> list_all (\<lambda>f. truth C f = Inr (field s f)) tracked"

inductive store_run ::
  "(chain \<Rightarrow> string \<Rightarrow> jsval res) \<Rightarrow> (chain \<Rightarrow> jsval \<Rightarrow> jsval res) \<Rightarrow> (chain \<Rightarrow> jsval \<Rightarrow> string \<Rightarrow> jsval) \<Rightarrow>
   string list \<Rightarrow> (string \<Rightarrow> string list) \<Rightarrow> chain \<Rightarrow> jsval \<Rightarrow> bool"
  for truth init reduce tracked refreshed where
  loaded: "init C cached = Inr s \<Longrightarrow> list_all (\<lambda>f. okR (truth C f)) tracked \<Longrightarrow>
    store_run truth init reduce tracked refreshed C s"
| evented: "store_run truth init reduce tracked refreshed C s \<Longrightarrow>
    list_all (\<lambda>f. okR (truth C' f)) tracked \<Longrightarrow>
    list_all (\<lambda>f. f \<in> set (refreshed event) \<or> truth C' f = truth C f) tracked \<Longrightarrow>
    store_run truth init reduce tracked refreshed C' (reduce C' s event)"

text \<open>The state after a sequence of events, each with the chain its reducer saw.\<close>

definition play :: "(chain \<Rightarrow> jsval \<Rightarrow> string \<Rightarrow> jsval) \<Rightarrow> jsval \<Rightarrow> (chain \<times> string) list \<Rightarrow> jsval" where
  "play reduce s es = foldl (\<lambda>s (C, e). reduce C s e) s es"

lemma field_JUndef [simp]: "field JUndef f = JUndef"
  by (simp add: field_def)

locale chain_store =
  fixes truth :: "chain \<Rightarrow> string \<Rightarrow> jsval res"
    and init :: "chain \<Rightarrow> jsval \<Rightarrow> jsval res"
    and reduce :: "chain \<Rightarrow> jsval \<Rightarrow> string \<Rightarrow> jsval"
    and tracked :: "string list"
    and refreshed :: "string \<Rightarrow> string list"
  assumes init_shows:
      "init C cached = Inr s \<Longrightarrow> list_all (\<lambda>f. okR (truth C f)) tracked \<Longrightarrow> coherent truth tracked C s"
    and event_shows:
      "list_all (\<lambda>f. okR (truth C f)) tracked \<Longrightarrow>
       list_all (\<lambda>f. f \<in> set (refreshed e) \<or> truth C f = Inr (field s f)) tracked \<Longrightarrow>
       coherent truth tracked C (reduce C s e)"
    and event_keeps:
      "f \<notin> set (refreshed e) \<Longrightarrow> reduce C s e \<noteq> JUndef \<Longrightarrow> field (reduce C s e) f = field s f"
begin

lemma run_coherent:
  "store_run truth init reduce tracked refreshed C s \<Longrightarrow> coherent truth tracked C s"
proof (induction rule: store_run.induct)
  case (loaded C cached s)
  then show ?case by (rule init_shows)
next
  case (evented C s C' event)
  then show ?case by (intro event_shows) (auto simp: coherent_def list_all_iff)
qed

lemma not_refreshed:
  "list_all (\<lambda>(C, e). f \<notin> set (refreshed e)) es \<Longrightarrow> field (play reduce s es) f \<in> {field s f, JUndef}"
proof (induction es rule: rev_induct)
  case (snoc x es)
  obtain C e where x: "x = (C, e)" by (cases x)
  from snoc have IH: "field (play reduce s es) f \<in> {field s f, JUndef}" and e: "f \<notin> set (refreshed e)"
    by (simp_all add: x)
  show ?case
  proof (cases "reduce C (play reduce s es) e = JUndef")
    case True
    then show ?thesis by (simp add: play_def x)
  next
    case False
    with IH event_keeps [OF e False] show ?thesis by (simp add: play_def x)
  qed
qed (simp add: play_def)

lemma lost_after_failure:
  "reduce C s e = JUndef \<Longrightarrow> f \<notin> set (refreshed e') \<Longrightarrow> field (reduce C' (reduce C s e) e') f = JUndef"
  using event_keeps [of f e' C' JUndef] by (cases "reduce C' JUndef e' = JUndef") simp_all

end

section \<open>The three stores keep it\<close>

lemma withCalls_Inr:
  assumes "list_all (\<lambda>(k, r). okR r) kvs"
  shows "withCalls ps kvs = Inr (JObj (obj_assign ps (map (\<lambda>(k, r). (k, caught r)) kvs)))"
proof -
  have "mapR (\<lambda>(k, r). bindR r (\<lambda>v. Inr (k, v))) kvs = Inr (map (\<lambda>(k, r). (k, caught r)) kvs)"
    by (rule mapR_total) (use assms in \<open>auto simp: list_all_iff okR_iff caught_def split: sum.splits\<close>)
  then show ?thesis by (simp add: withCalls_def)
qed

lemma withCalls_not_undef: "withCalls ps kvs \<noteq> Inr JUndef"
  by (simp add: withCalls_def bindR_eq_Inr)

lemma withCalls_eq_Inr:
  assumes "withCalls ps kvs = Inr v"
  shows "list_all (\<lambda>(k, r). okR r) kvs \<and> v = JObj (obj_assign ps (map (\<lambda>(k, r). (k, caught r)) kvs))"
proof -
  from assms have "okR (mapR (\<lambda>(k, r). bindR r (\<lambda>v. Inr (k, v))) kvs)"
    by (auto simp: withCalls_def bindR_eq_Inr)
  then have "list_all (\<lambda>x. okR (case x of (k, r) \<Rightarrow> bindR r (\<lambda>v. Inr (k, v)))) kvs"
    by (simp only: okR_mapR)
  then have ok: "list_all (\<lambda>(k, r). okR r) kvs"
    by (fastforce simp: list_all_iff okR_iff bindR_eq_Inr)
  with assms withCalls_Inr [OF ok] show ?thesis by simp
qed

lemma obj_get_assign_other: "k \<notin> fst ` set qs \<Longrightarrow> obj_get (obj_assign ps qs) k = obj_get ps k"
  by (induction qs arbitrary: ps) (auto simp: obj_assign_def)

lemma withCalls_keeps:
  assumes "caught (withCalls ps kvs) \<noteq> JUndef" and "f \<notin> fst ` set kvs"
  shows "field (caught (withCalls ps kvs)) f = obj_get ps f"
proof (cases "withCalls ps kvs")
  case (Inl e)
  with assms(1) show ?thesis by (simp add: caught_def)
next
  case (Inr v)
  have "v = JObj (obj_assign ps (map (\<lambda>(k, r). (k, caught r)) kvs))" using withCalls_eq_Inr [OF Inr] by blast
  moreover have "f \<notin> fst ` set (map (\<lambda>(k, r). (k, caught r)) kvs)" using assms(2) by force
  ultimately show ?thesis using Inr by (simp add: field_def obj_get_assign_other caught_Inr)
qed

lemma obj_get_assign_same:
  "obj_get (obj_assign ps (map (\<lambda>f. (f, v f)) fs)) k = (if k \<in> set fs then v k else obj_get ps k)"
  by (induction fs arbitrary: ps) (auto simp: obj_assign_def)

text \<open>Stores whose cases only read fields again, as the Lido app's and the oracle app's.\<close>

definition rereads :: "string \<Rightarrow> string \<Rightarrow> (string \<times> string list) list \<Rightarrow> string \<Rightarrow> string list" where
  "rereads SY SD events e =
     (case map_of events e of Some fs \<Rightarrow> fs | None \<Rightarrow> if e = SY \<or> e = SD then [''isSyncing''] else [])"

lemma map_of_rereadCases:
  "map_of (rereadCases getter events) e =
     map_option (\<lambda>fs nextState. withCalls nextState (map (\<lambda>f. (f, getter f)) fs)) (map_of events e)"
  by (induction events) (auto simp: rereadCases_def)

text \<open>
  The abstract store: a total map from fields to values.  An event overwrites the fields it reads
  again, or forgets everything when one of the calls fails.
\<close>

definition refreshStep ::
  "(chain \<Rightarrow> string \<Rightarrow> jsval res) \<Rightarrow> string \<Rightarrow> string \<Rightarrow> (string \<times> string list) list \<Rightarrow>
   (string \<Rightarrow> jsval) \<Rightarrow> chain \<times> string \<Rightarrow> string \<Rightarrow> jsval" where
  "refreshStep truth SY SD events m = (\<lambda>(C, e).
     case map_of events e of
       Some fs \<Rightarrow>
         if list_all (\<lambda>f. okR (truth C f)) fs
         then (\<lambda>f. if f \<in> set fs then (case truth C f of Inl _ \<Rightarrow> JUndef | Inr v \<Rightarrow> v) else m f)
         else (\<lambda>_. JUndef)
     | None \<Rightarrow> if e = SY then m(''isSyncing'' := JBool True)
              else if e = SD then m(''isSyncing'' := JBool False) else m)"

locale reread_store =
  fixes truth :: "chain \<Rightarrow> string \<Rightarrow> jsval res"
    and init :: "chain \<Rightarrow> jsval \<Rightarrow> jsval res"
    and SY :: string and SD :: string
    and events :: "(string \<times> string list) list"
    and tracked :: "string list"
  assumes loads:
      "init C cached = Inr s \<Longrightarrow> list_all (\<lambda>f. okR (truth C f)) tracked \<Longrightarrow> coherent truth tracked C s"
    and all_tracked: "list_all (\<lambda>(e, fs). list_all (\<lambda>f. f \<in> set tracked) fs) events"
    and sync_untracked: "''isSyncing'' \<notin> set tracked"
begin

lemma event_known:
  assumes "map_of events e = Some fs"
  shows "reduceWith SY SD (rereadCases (truth C) events) s e =
    (if list_all (\<lambda>f. okR (truth C f)) fs
     then JObj (obj_assign (own_props s) (map (\<lambda>f. (f, caught (truth C f))) fs)) else JUndef)"
proof (cases "list_all (\<lambda>f. okR (truth C f)) fs")
  case True
  then have "withCalls (own_props s) (map (\<lambda>f. (f, truth C f)) fs) =
      Inr (JObj (obj_assign (own_props s) (map (\<lambda>f. (f, caught (truth C f))) fs)))"
    by (subst withCalls_Inr) (auto simp: list_all_iff comp_def)
  with True assms show ?thesis by (simp add: reduceWith_def map_of_rereadCases caught_def)
next
  case False
  have "\<exists>x. withCalls (own_props s) (map (\<lambda>f. (f, truth C f)) fs) = Inl x"
  proof (cases "withCalls (own_props s) (map (\<lambda>f. (f, truth C f)) fs)")
    case (Inr v)
    from withCalls_eq_Inr [OF this] False show ?thesis by (auto simp: list_all_iff)
  qed simp
  with False assms show ?thesis by (auto simp: reduceWith_def map_of_rereadCases caught_def)
qed

lemma event_unknown:
  "map_of events e = None \<Longrightarrow> reduceWith SY SD (rereadCases (truth C) events) s e =
    (if e = SY then JObj (obj_set ''isSyncing'' (JBool True) (own_props s))
     else if e = SD then JObj (obj_set ''isSyncing'' (JBool False) (own_props s)) else s)"
  by (simp add: reduceWith_def map_of_rereadCases)

lemma event_refines:
  "field (reduceWith SY SD (rereadCases (truth C) events) s e) = refreshStep truth SY SD events (field s) (C, e)"
proof (cases "map_of events e")
  case None
  then show ?thesis by (auto simp: event_unknown refreshStep_def fun_eq_iff field_def)
next
  case (Some fs)
  then show ?thesis
    by (auto simp: event_known refreshStep_def fun_eq_iff field_def obj_get_assign_same caught_def)
qed

lemma event_rereads:
  assumes "list_all (\<lambda>f. okR (truth C f)) tracked" and "f \<in> set (rereads SY SD events e)" and "f \<in> set tracked"
  shows "truth C f = Inr (field (reduceWith SY SD (rereadCases (truth C) events) s e) f)"
proof -
  from assms(2,3) sync_untracked obtain fs where e: "map_of events e = Some fs" "f \<in> set fs"
    by (auto simp: rereads_def split: option.splits if_splits)
  from all_tracked map_of_SomeD [OF e(1)] have "set fs \<subseteq> set tracked" by (auto simp: list_all_iff)
  with assms(1) have "list_all (\<lambda>f. okR (truth C f)) fs" by (auto simp: list_all_iff)
  moreover have "okR (truth C f)" using assms(1,3) by (simp add: list_all_iff)
  ultimately show ?thesis
    using e by (auto simp: event_refines refreshStep_def okR_iff)
qed

text \<open>A settled chain is shown again once every field has been refreshed, whatever the state was.\<close>

lemma recovers:
  assumes ok: "list_all (\<lambda>f. okR (truth C f)) tracked" and f: "f \<in> set tracked"
    and e: "e \<in> set es" "f \<in> set (rereads SY SD events e)"
  shows "truth C f = Inr (field (play (\<lambda>C. reduceWith SY SD (rereadCases (truth C) events)) s (map (Pair C) es)) f)"
  using e(1)
proof (induction es rule: rev_induct)
  case (snoc x es)
  let ?red = "\<lambda>C. reduceWith SY SD (rereadCases (truth C) events)"
  have p: "play ?red s (map (Pair C) (es @ [x])) = ?red C (play ?red s (map (Pair C) es)) x"
    by (simp add: play_def)
  show ?case
  proof (cases "f \<in> set (rereads SY SD events x)")
    case True
    from event_rereads [OF ok True f] show ?thesis unfolding p .
  next
    case False
    with snoc.prems e(2) have "e \<in> set es" by auto
    with snoc.IH have IH: "truth C f = Inr (field (play ?red s (map (Pair C) es)) f)" by simp
    have fs_ok: "list_all (\<lambda>f. okR (truth C f)) fs" if "map_of events x = Some fs" for fs
      using all_tracked map_of_SomeD [OF that] ok by (fastforce simp: list_all_iff)
    have "field (?red C (play ?red s (map (Pair C) es)) x) f = field (play ?red s (map (Pair C) es)) f"
      using False fs_ok by (auto simp: event_refines refreshStep_def rereads_def split: option.splits if_splits)
    with IH show ?thesis unfolding p by simp
  qed
qed simp

end

sublocale reread_store \<subseteq>
  chain_store truth init "\<lambda>C. reduceWith SY SD (rereadCases (truth C) events)" tracked "rereads SY SD events"
proof
  fix C cached s
  assume "init C cached = Inr s" "list_all (\<lambda>f. okR (truth C f)) tracked"
  then show "coherent truth tracked C s" by (rule loads)
next
  fix C e s
  assume ok: "list_all (\<lambda>f. okR (truth C f)) tracked"
    and rest: "list_all (\<lambda>f. f \<in> set (rereads SY SD events e) \<or> truth C f = Inr (field s f)) tracked"
  have eq: "truth C f = Inr (caught (truth C f))" if "f \<in> set tracked" for f
    using ok that by (auto simp: list_all_iff okR_iff caught_def)
  show "coherent truth tracked C (reduceWith SY SD (rereadCases (truth C) events) s e)"
  proof (cases "map_of events e")
    case None
    with rest sync_untracked show ?thesis
      by (auto simp: event_unknown coherent_def list_all_iff field_def rereads_def split: if_splits)
  next
    case (Some fs)
    have "set fs \<subseteq> set tracked"
      using all_tracked map_of_SomeD [OF Some] by (auto simp: list_all_iff)
    with ok have "list_all (\<lambda>f. okR (truth C f)) fs" by (auto simp: list_all_iff)
    with Some rest eq show ?thesis
      by (auto simp: event_known coherent_def list_all_iff field_def rereads_def obj_get_assign_same)
  qed
next
  fix f e C s
  assume f: "f \<notin> set (rereads SY SD events e)" and r: "reduceWith SY SD (rereadCases (truth C) events) s e \<noteq> JUndef"
  show "field (reduceWith SY SD (rereadCases (truth C) events) s e) f = field s f"
  proof (cases "map_of events e")
    case None
    with f show ?thesis by (auto simp: event_unknown field_def rereads_def split: if_splits)
  next
    case (Some fs)
    with f r show ?thesis by (auto simp: event_known field_def rereads_def obj_get_assign_same split: if_splits)
  qed
qed


definition lidoTracked :: "string list" where
  "lidoTracked = [''isStopped'', ''fee'', ''feeDistribution'', ''withdrawalCredentials'', ''elRewardsWithdrawalLimit'',
     ''elRewardsVault'', ''bufferedEther'', ''stakingLimitInfo'']"

definition oracleTracked :: "string list" where
  "oracleTracked = [''oracleMembers'', ''quorum'', ''currentFrame'', ''expectedEpochId'', ''currentOraclesReportStatus'',
     ''allowedBeaconBalanceAnnualRelativeIncrease'', ''allowedBeaconBalanceRelativeDecrease'',
     ''beaconReportReceiver'', ''currentReportVariants'', ''version'']"

lemma lidoInit_shows:
  assumes "Inr (lidoInit C cached) = (Inr s :: jsval res)" and "list_all (\<lambda>f. okR (lidoGetter C f)) lidoTracked"
  shows "coherent lidoGetter lidoTracked C s"
proof -
  have "lidoGetter C f = Inr (field s f)" if f: "f \<in> set lidoTracked" for f
  proof -
    have "f \<in> set lidoFields" using f by (auto simp: lidoTracked_def lidoFields_def)
    then have "field s f = settledValue (lidoGetter C f)"
      using assms(1) by (auto simp: lidoInit_def field_def obj_get_assign_same)
    moreover have "okR (lidoGetter C f)" using assms(2) f by (simp add: list_all_iff)
    ultimately show ?thesis by (auto simp: okR_iff settledValue_def)
  qed
  then show ?thesis by (simp add: coherent_def list_all_iff)
qed

lemma oracleInit_shows:
  assumes "oracleInit C cached = Inr s" and "list_all (\<lambda>f. okR (oracleGetter C f)) oracleTracked"
  shows "coherent oracleGetter oracleTracked C s"
proof -
  from withCalls_eq_Inr [OF assms(1) [unfolded oracleInit_def]]
  have s: "s = JObj (obj_assign (own_props cached) (map (\<lambda>f. (f, caught (oracleGetter C f))) oracleFields))"
    by (simp add: comp_def)
  have "oracleGetter C f = Inr (field s f)" if f: "f \<in> set oracleTracked" for f
  proof -
    have "f \<in> set oracleFields" using f by (auto simp: oracleTracked_def oracleFields_def)
    then have "field s f = caught (oracleGetter C f)" by (simp add: s field_def obj_get_assign_same)
    moreover have "okR (oracleGetter C f)" using assms(2) f by (simp add: list_all_iff)
    ultimately show ?thesis by (auto simp: okR_iff caught_def)
  qed
  then show ?thesis by (simp add: coherent_def list_all_iff)
qed

interpretation lido_store: reread_store lidoGetter "\<lambda>C cached. Inr (lidoInit C cached)" SY SD lidoEvents lidoTracked
  for SY SD
  by unfold_locales (fact lidoInit_shows, simp_all add: lidoEvents_def lidoTracked_def)

interpretation oracle_store: reread_store oracleGetter oracleInit SY SD oracleEvents oracleTracked
  for SY SD
  by unfold_locales (fact oracleInit_shows, simp_all add: oracleEvents_def oracleTracked_def)

text \<open>The registry's store reads the list of operators with the count it has in its state.\<close>

definition norGetter :: "chain \<Rightarrow> string \<Rightarrow> jsval res" where
  "norGetter C f =
     (if f = ''nodeOperatorsCount'' then C ''getNodeOperatorsCount'' []
      else if f = ''activeNodeOperatorsCount'' then C ''getActiveNodeOperatorsCount'' []
      else if f = ''nodeOperators'' then bindR (C ''getNodeOperatorsCount'' []) (getNodeOperators C)
      else Inl TypeError)"

definition norTracked :: "string list" where
  "norTracked = [''nodeOperatorsCount'', ''activeNodeOperatorsCount'', ''nodeOperators'']"

definition norRefreshed :: "string \<Rightarrow> string \<Rightarrow> string \<Rightarrow> string list" where
  "norRefreshed SY SD e =
     (if e = ''NodeOperatorAdded'' then norTracked
      else if e = ''NodeOperatorActiveSet'' then [''activeNodeOperatorsCount'', ''nodeOperators'']
      else if e = ''SigningKeyAdded'' \<or> e = ''NodeOperatorStakingLimitSet'' then [''nodeOperators'']
      else if e = SY \<or> e = SD then [''isSyncing''] else [])"

lemma norGetter_ok:
  assumes "list_all (\<lambda>f. okR (norGetter C f)) norTracked"
  obtains count active ops where "C ''getNodeOperatorsCount'' [] = Inr count"
    "C ''getActiveNodeOperatorsCount'' [] = Inr active" "getNodeOperators C count = Inr ops"
  using assms by (auto simp: norTracked_def norGetter_def okR_iff bindR_eq_Inr)

lemma norInit_shows:
  assumes "norInit C cached = Inr s" and "list_all (\<lambda>f. okR (norGetter C f)) norTracked"
  shows "coherent norGetter norTracked C s"
proof -
  from assms(2) obtain count active ops where c: "C ''getNodeOperatorsCount'' [] = Inr count"
    "C ''getActiveNodeOperatorsCount'' [] = Inr active" "getNodeOperators C count = Inr ops"
    by (rule norGetter_ok)
  with assms(1) have "s = JObj (obj_assign (own_props cached)
      [(''nodeOperatorsCount'', count), (''activeNodeOperatorsCount'', active), (''nodeOperators'', ops)])"
    by (simp add: norInit_def withCalls_def)
  with c show ?thesis by (simp add: coherent_def norTracked_def norGetter_def field_def obj_assign_def)
qed

lemma norReduce_shows:
  assumes ok: "list_all (\<lambda>f. okR (norGetter C f)) norTracked"
    and rest: "list_all (\<lambda>f. f \<in> set (norRefreshed SY SD e) \<or> norGetter C f = Inr (field s f)) norTracked"
  shows "coherent norGetter norTracked C (norReduce SY SD C s e)"
proof -
  from ok obtain count active ops where c: "C ''getNodeOperatorsCount'' [] = Inr count"
    "C ''getActiveNodeOperatorsCount'' [] = Inr active" "getNodeOperators C count = Inr ops"
    by (rule norGetter_ok)
  show ?thesis
    using c rest
    by (auto simp: coherent_def norTracked_def norGetter_def norRefreshed_def field_def obj_assign_def norReduce_def
        reduceWith_def norCases_def withCalls_def caught_def Let_def split: if_splits)
qed

lemma norReduce_keeps:
  assumes f: "f \<notin> set (norRefreshed SY SD e)" and u: "norReduce SY SD C s e \<noteq> JUndef"
  shows "field (norReduce SY SD C s e) f = field s f"
proof -
  consider (added) "e = ''NodeOperatorAdded''" | (active) "e = ''NodeOperatorActiveSet''"
    | (ops) "e = ''SigningKeyAdded'' \<or> e = ''NodeOperatorStakingLimitSet''"
    | (other) "map_of (norCases C) e = None"
  proof (cases "e \<in> fst ` set (norCases C)")
    case True
    with that show ?thesis by (auto simp: norCases_def)
  next
    case False
    with that show ?thesis by (simp add: map_of_eq_None_iff)
  qed
  then show ?thesis
  proof cases
    case added
    with u obtain n where n: "C ''getNodeOperatorsCount'' [] = Inr n"
      by (cases "C ''getNodeOperatorsCount'' []") (auto simp: norReduce_def reduceWith_def norCases_def caught_def)
    with added f u show ?thesis
      by (simp add: norReduce_def reduceWith_def norCases_def norRefreshed_def norTracked_def withCalls_keeps
          Let_def field_def [of s])
  next
    case other
    with f show ?thesis
      by (auto simp: norReduce_def reduceWith_def norRefreshed_def norCases_def field_def Let_def split: if_splits)
  qed (use f u in \<open>auto simp: norReduce_def reduceWith_def norCases_def norRefreshed_def withCalls_keeps Let_def field_def [of s]\<close>)
qed

interpretation nor_store: chain_store norGetter norInit "norReduce SY SD" norTracked "norRefreshed SY SD"
  for SY SD
  by unfold_locales (fact norInit_shows norReduce_shows norReduce_keeps)+

section \<open>What the Lido contract promises\<close>

text \<open>
  The views of the contract that the page shows live, and for each event of contracts/0.4.24/Lido.sol
  the views whose answer it announces: the functions that emit \<open>Stopped\<close> and \<open>Resumed\<close> change \<open>isStopped\<close>, and so on.
  Both are stated on the contract's own names, apart from the tables of the script.
\<close>

definition lidoViews :: "string list" where
  "lidoViews = [''isStopped'', ''getFee'', ''getFeeDistribution'', ''getWithdrawalCredentials'',
     ''getELRewardsWithdrawalLimit'', ''getELRewardsVault'', ''getBufferedEther'', ''getStakeLimitFullInfo'']"

definition lidoAnnounces :: "string \<Rightarrow> string list" where
  "lidoAnnounces e =
     (if e = ''Stopped'' \<or> e = ''Resumed'' then [''isStopped'']
      else if e = ''FeeSet'' then [''getFee'']
      else if e = ''FeeDistributionSet'' then [''getFeeDistribution'']
      else if e = ''WithdrawalCredentialsSet'' then [''getWithdrawalCredentials'']
      else if e = ''ELRewardsWithdrawalLimitSet'' then [''getELRewardsWithdrawalLimit'']
      else if e = ''ELRewardsVaultSet'' then [''getELRewardsVault'']
      else if e = ''Unbuffered'' then [''getBufferedEther'']
      else if e = ''StakingPaused'' \<or> e = ''StakingResumed'' \<or> e = ''StakingLimitSet'' \<or> e = ''StakingLimitRemoved''
      then [''getStakeLimitFullInfo'']
      else [])"

text \<open>A page that was opened on the contract and follows its events; the views answer throughout.\<close>

inductive lido_history :: "string \<Rightarrow> string \<Rightarrow> chain \<Rightarrow> jsval \<Rightarrow> bool" for SY SD where
  opened: "list_all (\<lambda>m. okR (C m [])) lidoViews \<Longrightarrow> lido_history SY SD C (lidoInit C cached)"
| announced: "lido_history SY SD C s \<Longrightarrow> list_all (\<lambda>m. okR (C' m [])) lidoViews \<Longrightarrow>
    list_all (\<lambda>m. m \<in> set (lidoAnnounces e) \<or> C' m [] = C m []) lidoViews \<Longrightarrow>
    lido_history SY SD C' (lidoReduce SY SD C' s e)"

lemma lido_views_tracked:
  "list_all (\<lambda>m. okR (C m [])) lidoViews \<Longrightarrow> list_all (\<lambda>f. okR (lidoGetter C f)) lidoTracked"
  by (simp add: lidoViews_def lidoTracked_def lidoGetter_def)

lemma lido_views: "list_all (\<lambda>(f, m). lidoGetter C f = C m []) (zip lidoTracked lidoViews)"
  by (simp add: lidoViews_def lidoTracked_def lidoGetter_def)

text \<open>Every view an event announces belongs to a field that the script reads again at this event.\<close>

lemma lido_events_cover:
  assumes "(f, m) \<in> set (zip lidoTracked lidoViews)" and "m \<in> set (lidoAnnounces e)"
  shows "f \<in> set (rereads SY SD lidoEvents e)"
proof -
  have "list_all (\<lambda>e. list_all (\<lambda>(f, m). m \<in> set (lidoAnnounces e) \<longrightarrow>
      (case map_of lidoEvents e of Some fs \<Rightarrow> f \<in> set fs | None \<Rightarrow> False)) (zip lidoTracked lidoViews)) (map fst lidoEvents)"
    by code_simp
  moreover have "e \<in> set (map fst lidoEvents)" using assms(2) by (auto simp: lidoAnnounces_def lidoEvents_def split: if_splits)
  ultimately show ?thesis using assms unfolding list_all_iff rereads_def by (fastforce split: option.splits)
qed

lemma lido_announced_reread:
  assumes "list_all (\<lambda>m. m \<in> set (lidoAnnounces e) \<or> C' m [] = C m []) lidoViews"
  shows "list_all (\<lambda>f. f \<in> set (rereads SY SD lidoEvents e) \<or> lidoGetter C' f = lidoGetter C f) lidoTracked"
proof -
  have "f \<in> set (rereads SY SD lidoEvents e) \<or> lidoGetter C' f = lidoGetter C f" if f: "f \<in> set lidoTracked" for f
  proof -
    have "set lidoTracked = fst ` set (zip lidoTracked lidoViews)" by (simp add: lidoTracked_def lidoViews_def)
    with f obtain m where m: "(f, m) \<in> set (zip lidoTracked lidoViews)" by auto
    then have "lidoGetter C' f = C' m []" "lidoGetter C f = C m []" using lido_views by (auto simp: list_all_iff)
    moreover have "m \<in> set (lidoAnnounces e) \<or> C' m [] = C m []" using assms set_zip_rightD [OF m] by (simp add: list_all_iff)
    ultimately show ?thesis using lido_events_cover [OF m] by auto
  qed
  then show ?thesis by (simp add: list_all_iff)
qed

lemma lido_history_run:
  "lido_history SY SD C s \<Longrightarrow> store_run lidoGetter (\<lambda>C cached. Inr (lidoInit C cached))
     (\<lambda>C. reduceWith SY SD (rereadCases (lidoGetter C) lidoEvents)) lidoTracked (rereads SY SD lidoEvents) C s"
proof (induction rule: lido_history.induct)
  case (opened C cached)
  then show ?case by (intro store_run.loaded lido_views_tracked) simp
next
  case (announced C s C' e)
  then show ?case unfolding lidoReduce_def by (intro store_run.evented lido_views_tracked lido_announced_reread)
qed

section \<open>Properties\<close>


definition sample_registry :: "string list \<Rightarrow> chain" where
  "sample_registry names = (\<lambda>m args.
     if m = ''getNodeOperator''
     then (case args of JNum (Fin q) # _ \<Rightarrow> Inr (JObj [(''name'', JStr (names ! nat \<lfloor>q\<rfloor>))]) | _ \<Rightarrow> Inl TypeError)
     else Inr (JStr (dec_int (int (length names)))))"

lemma sample_registry_run:
  "\<exists>s. store_run norGetter norInit (norReduce ''sy'' ''sd'') norTracked (norRefreshed ''sy'' ''sd'')
         (sample_registry [''a'', ''b'']) s"
proof -
  let ?C = "sample_registry [''a'']" and ?D = "sample_registry [''a'', ''b'']"
  have init: "okR (norInit ?C JNull)" by code_simp
  then obtain s where s: "norInit ?C JNull = Inr s" by (auto simp: okR_iff)
  have "list_all (\<lambda>f. okR (norGetter ?C f)) norTracked" by code_simp
  with s have "store_run norGetter norInit (norReduce ''sy'' ''sd'') norTracked (norRefreshed ''sy'' ''sd'') ?C s"
    by (rule store_run.loaded)
  moreover have "list_all (\<lambda>f. okR (norGetter ?D f)) norTracked" by code_simp
  moreover have "list_all (\<lambda>f. f \<in> set (norRefreshed ''sy'' ''sd'' ''NodeOperatorAdded'') \<or>
      norGetter ?D f = norGetter ?C f) norTracked" by (simp add: norRefreshed_def norTracked_def)
  ultimately have "store_run norGetter norInit (norReduce ''sy'' ''sd'') norTracked (norRefreshed ''sy'' ''sd'') ?D
      (norReduce ''sy'' ''sd'' ?D s ''NodeOperatorAdded'')"
    by (rule store_run.evented)
  then show ?thesis ..
qed


text \<open>
  C9: the Lido front end shows the contract: in every state reached from an initialisation by events,
  provided that between two of them the contract changes only those of the eight views that the event announces,
  each of the eight fields holds the answer of its own view: the stop flag, the fee and its
  distribution, the withdrawal credentials, the limit and the vault of the execution-layer rewards, the buffered
  ether and the staking limit.
\<close>

theorem lido_store_shows_chain:
  assumes "lido_history SY SD C s"
  shows "C ''isStopped'' [] = Inr (field s ''isStopped'') \<and> C ''getFee'' [] = Inr (field s ''fee'') \<and>
    C ''getFeeDistribution'' [] = Inr (field s ''feeDistribution'') \<and>
    C ''getWithdrawalCredentials'' [] = Inr (field s ''withdrawalCredentials'') \<and>
    C ''getELRewardsWithdrawalLimit'' [] = Inr (field s ''elRewardsWithdrawalLimit'') \<and>
    C ''getELRewardsVault'' [] = Inr (field s ''elRewardsVault'') \<and>
    C ''getBufferedEther'' [] = Inr (field s ''bufferedEther'') \<and>
    C ''getStakeLimitFullInfo'' [] = Inr (field s ''stakingLimitInfo'')"
  using lido_store.run_coherent [OF lido_history_run [OF assms]]
  by (simp add: coherent_def lidoTracked_def lidoGetter_def)

definition sample_lido :: "string \<Rightarrow> chain" where
  "sample_lido fee m args = Inr (JStr (if m = ''getFee'' then fee else m))"

theorem lido_store_shows_chain_witness:
  "field (lidoReduce ''sy'' ''sd'' (sample_lido ''500'') (lidoInit (sample_lido ''1000'') JNull) ''FeeSet'') ''fee'' = JStr ''500''"
proof -
  have "list_all (\<lambda>m. okR (sample_lido fee m [])) lidoViews" for fee by (simp add: lidoViews_def sample_lido_def)
  moreover have "list_all (\<lambda>m. m \<in> set (lidoAnnounces ''FeeSet'') \<or> sample_lido ''500'' m [] = sample_lido ''1000'' m []) lidoViews"
    by (simp add: lidoViews_def lidoAnnounces_def sample_lido_def)
  ultimately have "lido_history ''sy'' ''sd'' (sample_lido ''500'')
      (lidoReduce ''sy'' ''sd'' (sample_lido ''500'') (lidoInit (sample_lido ''1000'') JNull) ''FeeSet'')"
    by (intro lido_history.announced [OF lido_history.opened])
  from lido_store_shows_chain [OF this] show ?thesis by (simp add: sample_lido_def)
qed


definition sample_oracle :: chain where
  "sample_oracle m args = Inr (if m = ''getCurrentFrame'' then JObj [(''frameEpochId'', JStr ''9'')] else JStr ''1'')"


text \<open>
  eight fields of the Lido front end never change after loading: whatever events follow and
  whatever the contract answers, the total pooled ether, the beacon statistics, the oracle, the
  treasury and the other contract addresses are the values read at initialisation, or are lost by a
  failing call.
\<close>

theorem lido_frozen_fields:
  "list_all (\<lambda>f. field (play (lidoReduce SY SD) (lidoInit C cached) es) f \<in> {settledValue (lidoGetter C f), JUndef})
     [''totalPooledEther'', ''nodeOperatorsRegistry'', ''depositContract'', ''oracle'', ''operators'', ''treasury'',
      ''insuranceFund'', ''beaconStat'']"
proof -
  have frozen: "field (play (lidoReduce SY SD) (lidoInit C cached) es) f \<in> {settledValue (lidoGetter C f), JUndef}"
    if "f \<in> set lidoFields" and no: "\<And>e. f \<notin> set (rereads SY SD lidoEvents e)" for f
  proof -
    have "field (lidoInit C cached) f = settledValue (lidoGetter C f)"
      using that(1) by (simp add: lidoInit_def field_def obj_get_assign_same)
    moreover have "list_all (\<lambda>(C, e). f \<notin> set (rereads SY SD lidoEvents e)) es"
      using no by (simp add: list_all_iff)
    ultimately show ?thesis
      using lido_store.not_refreshed [of f SY SD es "lidoInit C cached"] by (simp add: lidoReduce_def [abs_def])
  qed
  show ?thesis
    by (simp only: list_all_iff, intro ballI, rule frozen) (auto simp: lidoFields_def rereads_def lidoEvents_def)
qed

text \<open>
  C13: one failing contract call empties the Lido front end: the reducer answers the event with
  \<open>undefined\<close>, and after the next event every field that this event does not read again is gone.
\<close>

theorem failed_call_loses_state:
  assumes "map_of lidoEvents e = Some fs" and "f \<in> set fs" and "lidoGetter C f = Inl err"
    and "g \<notin> set (rereads SY SD lidoEvents e')"
  shows "lidoReduce SY SD C s e = JUndef \<and> field (lidoReduce SY SD C' (lidoReduce SY SD C s e) e') g = JUndef"
proof -
  have "\<not> list_all (\<lambda>f. okR (lidoGetter C f)) fs" using assms(2,3) by (auto simp: list_all_iff intro!: bexI [of _ f])
  with assms(1) have u: "lidoReduce SY SD C s e = JUndef"
    by (simp add: lidoReduce_def lido_store.event_known)
  with lido_store.lost_after_failure [OF _ assms(4), of C s e C'] show ?thesis
    by (simp add: lidoReduce_def)
qed

theorem failed_call_loses_state_witness:
  "field (lidoReduce ''sy'' ''sd'' (\<lambda>m args. Inr (JStr m)) (lidoReduce ''sy'' ''sd'' (\<lambda>m args. Inl TypeError)
      (JObj [(''oracle'', JStr ''0x1'')]) ''FeeSet'') ''Stopped'') ''oracle'' = JUndef"
proof -
  have e: "map_of lidoEvents ''FeeSet'' = Some [''fee'']" by (simp add: lidoEvents_def)
  have g: "lidoGetter (\<lambda>m args. Inl TypeError) ''fee'' = Inl TypeError" by (simp add: lidoGetter_def)
  have o: "''oracle'' \<notin> set (rereads ''sy'' ''sd'' lidoEvents ''Stopped'')" by (simp add: rereads_def lidoEvents_def)
  show ?thesis by (rule failed_call_loses_state [THEN conjunct2, OF e _ g o]) simp
qed

end
