(* ===== verification/Calendar.thy ===== *)
theory Calendar
  imports JsValue DoubleExact
begin

text \<open>
  \<open>Date\<close> of the JavaScript standard library as the sources use it: the calendar algorithms of the
  language specification, \<open>toISOString\<close> and \<open>toUTCString\<close>; \<open>Number.toFixed\<close>; and the times the
  oracle page and the vesting report print.
\<close>

section \<open>Years and months\<close>

definition is_leap :: "int \<Rightarrow> bool" where
  "is_leap y \<longleftrightarrow> y mod 4 = 0 \<and> (y mod 100 \<noteq> 0 \<or> y mod 400 = 0)"

definition dayFromYear :: "int \<Rightarrow> int" where
  "dayFromYear y = 365 * (y - 1970) + (y - 1969) div 4 - (y - 1901) div 100 + (y - 1601) div 400"

definition daysInYear :: "int \<Rightarrow> int" where
  "daysInYear y = (if is_leap y then 366 else 365)"

lemma div_pred:
  fixes y k :: int
  assumes "0 < k"
  shows "y div k = (y - 1) div k + (if y mod k = 0 then 1 else 0)"
proof (cases "y mod k = 0")
  case True
  have "k * (y div k) = y" using True by (metis add.right_neutral mult_div_mod_eq)
  moreover have "k * (y div k - 1) = k * (y div k) - k" by (simp only: right_diff_distrib mult_1_right)
  ultimately have "y - 1 = k * (y div k - 1) + (k - 1)" by linarith
  from int_div_pos_eq [OF this] have "(y - 1) div k = y div k - 1" using assms by simp
  with True show ?thesis by simp
next
  case False
  have m: "0 \<le> y mod k" "y mod k < k" using assms by simp_all
  have "y = k * (y div k) + y mod k" by simp
  then have "y - 1 = k * (y div k) + (y mod k - 1)" by linarith
  moreover have "0 \<le> y mod k - 1" "y mod k - 1 < k" using m False by linarith+
  ultimately have "(y - 1) div k = y div k" by (rule int_div_pos_eq)
  with False show ?thesis by simp
qed

lemma div_step:
  "(y + 1 - 1969) div 4 = (y - 1969) div 4 + (if y mod 4 = 0 then 1 else 0)"
  "(y + 1 - 1901) div 100 = (y - 1901) div 100 + (if y mod 100 = 0 then 1 else 0)"
  "(y + 1 - 1601) div 400 = (y - 1601) div 400 + (if y mod 400 = 0 then 1 else 0)" for y :: int
proof -
  have e: "y + 1 - 1969 = y + (- 492) * 4" "y - 1969 = (y - 1) + (- 492) * 4"
    "y + 1 - 1901 = y + (- 19) * 100" "y - 1901 = (y - 1) + (- 19) * 100"
    "y + 1 - 1601 = y + (- 4) * 400" "y - 1601 = (y - 1) + (- 4) * 400" by simp_all
  show "(y + 1 - 1969) div 4 = (y - 1969) div 4 + (if y mod 4 = 0 then 1 else 0)"
    unfolding e using div_pred [of 4 y] by (subst (1 2) div_mult_self1) linarith+
  show "(y + 1 - 1901) div 100 = (y - 1901) div 100 + (if y mod 100 = 0 then 1 else 0)"
    unfolding e using div_pred [of 100 y] by (subst (1 2) div_mult_self1) linarith+
  show "(y + 1 - 1601) div 400 = (y - 1601) div 400 + (if y mod 400 = 0 then 1 else 0)"
    unfolding e using div_pred [of 400 y] by (subst (1 2) div_mult_self1) linarith+
qed

lemma mod_chain: "y mod 400 = 0 \<Longrightarrow> y mod 100 = 0" "y mod 100 = 0 \<Longrightarrow> y mod 4 = 0" for y :: int
proof -
  have "(100::int) dvd 400" "(4::int) dvd 100" by simp_all
  then show "y mod 400 = 0 \<Longrightarrow> y mod 100 = 0" "y mod 100 = 0 \<Longrightarrow> y mod 4 = 0"
    by (meson dvd_trans mod_0_imp_dvd mod_eq_0_iff_dvd)+
qed

lemma dayFromYear_step: "dayFromYear (y + 1) = dayFromYear y + daysInYear y"
proof -
  define A where "A = (y - 1969) div 4"
  define B where "B = (y - 1901) div 100"
  define C where "C = (y - 1601) div 400"
  have "dayFromYear (y + 1) = 365 * (y + 1 - 1970) + (A + (if y mod 4 = 0 then 1 else 0)) -
      (B + (if y mod 100 = 0 then 1 else 0)) + (C + (if y mod 400 = 0 then 1 else 0))"
    unfolding dayFromYear_def div_step A_def B_def C_def by (rule refl)
  moreover have "dayFromYear y = 365 * (y - 1970) + A - B + C"
    unfolding dayFromYear_def A_def B_def C_def by (rule refl)
  moreover have "daysInYear y = 365 + (if y mod 4 = 0 then 1 else 0) - (if y mod 100 = 0 then 1 else 0) +
      (if y mod 400 = 0 then 1 else 0)"
  proof -
    define P where "P \<longleftrightarrow> y mod 4 = 0"
    define Q where "Q \<longleftrightarrow> y mod 100 = 0"
    define R where "R \<longleftrightarrow> y mod 400 = 0"
    have "R \<Longrightarrow> Q" "Q \<Longrightarrow> P" unfolding P_def Q_def R_def by (rule mod_chain, assumption)+
    then show ?thesis unfolding daysInYear_def is_leap_def P_def [symmetric] Q_def [symmetric] R_def [symmetric]
      by auto
  qed
  moreover have "365 * (y + 1 - 1970) + (A + a) - (B + b) + (C + c) =
      365 * (y - 1970) + A - B + C + (365 + a - b + c)" for a b c :: int by simp
  ultimately show ?thesis by (simp only:)
qed

text \<open>The year that contains a day, searched upwards from a year that does not start after it.\<close>

function yearFrom :: "int \<Rightarrow> int \<Rightarrow> int" where
  "yearFrom y d = (if d < dayFromYear (y + 1) then y else yearFrom (y + 1) d)"
  by pat_completeness auto
termination
proof (relation "measure (\<lambda>(y, d). nat (d - dayFromYear y))")
  fix y d
  assume "\<not> d < dayFromYear (y + 1)"
  then show "((y + 1, d), (y, d)) \<in> measure (\<lambda>(y, d). nat (d - dayFromYear y))"
    using dayFromYear_step [of y] by (auto simp: daysInYear_def split: if_splits)
qed simp

declare yearFrom.simps [simp del]

definition yearOfDay :: "int \<Rightarrow> int" where
  "yearOfDay d = yearFrom (1970 + (if 0 \<le> d then d div 366 else d div 365)) d"

definition monthLengths :: "int \<Rightarrow> int list" where
  "monthLengths y = [31, if is_leap y then 29 else 28, 31, 30, 31, 30, 31, 31, 30, 31, 30, 31]"

fun splitMonth :: "int list \<Rightarrow> int \<Rightarrow> nat \<times> int" where
  "splitMonth [] d = (0, d)"
| "splitMonth (l # ls) d =
     (if d < l then (0, d) else (let (m, r) = splitMonth ls (d - l) in (Suc m, r)))"

section \<open>Date\<close>

record utc =
  u_year :: int
  u_month :: nat
  u_day :: int
  u_hour :: int
  u_min :: int
  u_sec :: int
  u_ms :: int
  u_weekday :: nat

definition utc_of_ms :: "int \<Rightarrow> utc" where
  "utc_of_ms t =
     (let d = t div 86400000; r = t mod 86400000; y = yearOfDay d;
          (m, dm) = splitMonth (monthLengths y) (d - dayFromYear y)
      in \<lparr>u_year = y, u_month = m, u_day = dm + 1, u_hour = r div 3600000, u_min = r div 60000 mod 60,
          u_sec = r div 1000 mod 60, u_ms = r mod 1000, u_weekday = nat ((d + 4) mod 7)\<rparr>)"

text \<open>\<open>new Date(x)\<close>: the time value in milliseconds, \<open>None\<close> for an invalid date.\<close>

definition new_Date :: "jnum \<Rightarrow> int option" where
  "new_Date x =
     (case x of
        Fin q \<Rightarrow> (let i = trunc_rat q in if \<bar>i\<bar> \<le> 8640000000000000 then Some i else None)
      | _ \<Rightarrow> None)"

definition zero_pad :: "nat \<Rightarrow> int \<Rightarrow> string" where
  "zero_pad k n = (let s = dec_digits n in replicate (k - length s) (CHR ''0'') @ s)"

definition iso_year :: "int \<Rightarrow> string" where
  "iso_year y =
     (if 0 \<le> y \<and> y \<le> 9999 then zero_pad 4 y
      else (if y < 0 then ''-'' else ''+'') @ zero_pad 6 \<bar>y\<bar>)"

definition toISOString :: "int option \<Rightarrow> string res" where
  "toISOString date =
     (case date of
        None \<Rightarrow> Inl (External ''RangeError'')
      | Some t \<Rightarrow>
          (let u = utc_of_ms t
           in Inr (iso_year (u_year u) @ ''-'' @ zero_pad 2 (int (u_month u) + 1) @ ''-'' @ zero_pad 2 (u_day u) @ ''T'' @
                   zero_pad 2 (u_hour u) @ '':'' @ zero_pad 2 (u_min u) @ '':'' @ zero_pad 2 (u_sec u) @ ''.'' @
                   zero_pad 3 (u_ms u) @ ''Z'')))"

definition toUTCString :: "int option \<Rightarrow> string" where
  "toUTCString date =
     (case date of
        None \<Rightarrow> ''Invalid Date''
      | Some t \<Rightarrow>
          (let u = utc_of_ms t
           in [''Sun'', ''Mon'', ''Tue'', ''Wed'', ''Thu'', ''Fri'', ''Sat''] ! u_weekday u @ '', '' @
              zero_pad 2 (u_day u) @ '' '' @
              [''Jan'', ''Feb'', ''Mar'', ''Apr'', ''May'', ''Jun'', ''Jul'', ''Aug'', ''Sep'', ''Oct'', ''Nov'', ''Dec''] ! u_month u @
              '' '' @ (if u_year u < 0 then ''-'' else []) @ zero_pad 4 \<bar>u_year u\<bar> @ '' '' @
              zero_pad 2 (u_hour u) @ '':'' @ zero_pad 2 (u_min u) @ '':'' @ zero_pad 2 (u_sec u) @ '' GMT''))"

section \<open>Printed times\<close>

definition is_digit :: "char \<Rightarrow> bool" where
  "is_digit c = (digit_val c \<noteq> None)"

text \<open>\<open>.replace (/[.]\d+Z$/, 'Z')\<close>\<close>

definition millis_tail :: "string \<Rightarrow> bool" where
  "millis_tail s =
     (let ds = takeWhile is_digit s in ds \<noteq> [] \<and> drop (length ds) s = ''Z'')"

fun dropMillis :: "string \<Rightarrow> string" where
  "dropMillis [] = []"
| "dropMillis (c # cs) = (if c = CHR ''.'' \<and> millis_tail cs then ''Z'' else c # dropMillis cs)"

definition formatUnixTime :: "jsval \<Rightarrow> string res" where
  "formatUnixTime unixTime =
     bindR (toISOString (new_Date (js_mul (Fin 1000) (to_num unixTime)))) (\<lambda>s. Inr (dropMillis s))"

definition formatDate :: "jsval \<Rightarrow> string" where
  "formatDate unixTimestamp = toUTCString (new_Date (js_mul (to_num unixTimestamp) (Fin 1000)))"

section \<open>Number.toFixed\<close>

definition fixed_text :: "nat \<Rightarrow> int \<Rightarrow> string" where
  "fixed_text f n =
     (let s = zero_pad (f + 1) n; k = length s - f
      in if f = 0 then s else take k s @ ''.'' @ drop k s)"

fun to_fixed :: "nat \<Rightarrow> jnum \<Rightarrow> string" where
  "to_fixed f (Fin q) =
     (if 10 ^ 21 \<le> \<bar>q\<bar> then num_str (Fin q)
      else (if q < 0 then ''-'' else []) @ fixed_text f \<lfloor>\<bar>q\<bar> * 10 ^ f + 1 / 2\<rfloor>)"
| "to_fixed f x = num_str x"

section \<open>The calendar\<close>

lemma dayFromYear_mono: "y \<le> z \<Longrightarrow> dayFromYear y \<le> dayFromYear z"
proof (induction "nat (z - y)" arbitrary: z)
  case (Suc k)
  then have "dayFromYear y \<le> dayFromYear (z - 1)" by (intro Suc.hyps) simp_all
  with dayFromYear_step [of "z - 1"] show ?case by (simp add: daysInYear_def split: if_splits)
qed simp

lemma yearFrom_spec:
  "dayFromYear y \<le> d \<Longrightarrow> dayFromYear (yearFrom y d) \<le> d \<and> d < dayFromYear (yearFrom y d + 1) \<and> y \<le> yearFrom y d"
proof (induction y d rule: yearFrom.induct)
  case (1 y d)
  show ?case
  proof (cases "d < dayFromYear (y + 1)")
    case True
    with 1(2) show ?thesis by (simp add: yearFrom.simps [of y])
  next
    case False
    with 1(1) show ?thesis by (simp add: yearFrom.simps [of y])
  qed
qed

lemma start_year: "dayFromYear (1970 + (if 0 \<le> d then d div 366 else d div 365)) \<le> d"
proof -
  have bound: "4 * ((1 + k) div 4) \<le> k + 1" "k - 30 \<le> 100 * ((69 + k) div 100)" "400 * ((369 + k) div 400) \<le> k + 369"
    for k :: int by linarith+
  have 1: "dayFromYear (1970 + k) \<le> 366 * k" if "0 \<le> k" for k
  proof -
    have "k = 0 \<or> k = 1 \<or> 2 \<le> k" using that by arith
    then have "(1 + k) div 4 - (69 + k) div 100 + (369 + k) div 400 \<le> k"
      by (elim disjE) (use bound [of k] in simp_all)
    then show ?thesis by (simp add: dayFromYear_def)
  qed
  have 2: "dayFromYear (1970 + k) \<le> 365 * k" if "k < 0" for k
  proof -
    have "k = - 1 \<or> k = - 2 \<or> k = - 3 \<or> k = - 4 \<or> k = - 5 \<or> k = - 6 \<or> k \<le> - 7" using that by arith
    then have "(1 + k) div 4 - (69 + k) div 100 + (369 + k) div 400 \<le> 0"
      by (elim disjE) (use bound [of k] in simp_all)
    then show ?thesis by (simp add: dayFromYear_def)
  qed
  show ?thesis
  proof (cases "0 \<le> d")
    case True
    have "366 * (d div 366) \<le> d" by simp
    with 1 [of "d div 366"] True show ?thesis by (simp add: pos_imp_zdiv_nonneg_iff)
  next
    case False
    have "365 * (d div 365) \<le> d" by simp
    with 2 [of "d div 365"] False show ?thesis by (simp add: neg_imp_zdiv_neg_iff pos_imp_zdiv_neg_iff)
  qed
qed

lemma yearOfDay_spec: "dayFromYear (yearOfDay d) \<le> d" "d < dayFromYear (yearOfDay d) + daysInYear (yearOfDay d)"
  using yearFrom_spec [OF start_year [of d]] by (simp_all add: yearOfDay_def dayFromYear_step)

lemma splitMonth_spec:
  "0 \<le> d \<Longrightarrow> d < sum_list ls \<Longrightarrow> splitMonth ls d = (m, r) \<Longrightarrow>
     m < length ls \<and> 0 \<le> r \<and> r < ls ! m \<and> d = sum_list (take m ls) + r"
proof (induction ls arbitrary: d m r)
  case (Cons l ls)
  show ?case
  proof (cases "d < l")
    case True
    with Cons.prems show ?thesis by auto
  next
    case False
    then obtain m' where m: "m = Suc m'" "splitMonth ls (d - l) = (m', r)"
      using Cons.prems(3) by (auto split: prod.splits)
    from Cons.IH [OF _ _ m(2)] False Cons.prems(2) m(1) show ?thesis by auto
  qed
qed simp

lemma sum_monthLengths: "sum_list (monthLengths y) = daysInYear y"
  by (simp add: monthLengths_def daysInYear_def)

lemma zero_pad_props:
  assumes "0 \<le> n" "n < 10 ^ k" "0 < k"
  shows "length (zero_pad k n) = k" "parse_nat (zero_pad k n) = Some n" "list_all is_digit (zero_pad k n)"
proof -
  have len: "0 \<le> m \<Longrightarrow> m < 10 ^ Suc j \<Longrightarrow> length (dec_digits m) \<le> Suc j" for m j
  proof (induction j arbitrary: m)
    case 0
    then show ?case by (simp add: dec_digits.simps [of m])
  next
    case (Suc j)
    define X where "X = (10::int) ^ Suc j"
    have "m < 10 * X" using Suc.prems by (simp add: X_def)
    then have "m div 10 < X" by linarith
    then have "m div 10 < 10 ^ Suc j" by (simp only: X_def)
    then have "length (dec_digits (m div 10)) \<le> Suc j" using Suc by simp
    then show ?case by (simp add: dec_digits.simps [of m])
  qed
  obtain j where k: "k = Suc j" using assms(3) gr0_implies_Suc by blast
  have l: "length (dec_digits n) \<le> k" using len assms k by blast
  then show "length (zero_pad k n) = k" by (simp add: zero_pad_def Let_def)
  have z: "parse_digits digit_val 10 0 (replicate i (CHR ''0'') @ s) = parse_digits digit_val 10 0 s" for i s
    by (induction i) (simp_all add: digit_val_def)
  show "parse_nat (zero_pad k n) = Some n"
    using assms(1) by (simp add: parse_nat_def zero_pad_def Let_def z parse_dec_digits)
  have dd: "is_digit (char_of (48 + m))" if "0 \<le> m" "m < 10" for m :: int
    using that by (simp add: is_digit_def digit_val_digit)
  have "list_all is_digit (dec_digits m)" if "0 \<le> m" for m
    using that
  proof (induction m rule: dec_digits.induct)
    case (1 m)
    then show ?case
      by (subst dec_digits.simps) (simp add: dd)
  qed
  moreover have "is_digit (CHR ''0'')" by (simp add: is_digit_def digit_val_def)
  ultimately show "list_all is_digit (zero_pad k n)"
    using assms(1) by (auto simp: zero_pad_def Let_def list_all_iff)
qed

lemma dropMillis_at:
  "CHR ''.'' \<notin> set a \<Longrightarrow> millis_tail b \<Longrightarrow> dropMillis (a @ CHR ''.'' # b) = a @ ''Z''"
  by (induction a) auto

lemma millis_tail_digits: "list_all is_digit ds \<Longrightarrow> ds \<noteq> [] \<Longrightarrow> millis_tail (ds @ ''Z'')"
proof -
  assume d: "list_all is_digit ds" "ds \<noteq> []"
  have z: "\<not> is_digit (CHR ''Z'')" by (simp add: is_digit_def digit_val_def)
  have "takeWhile is_digit (ds @ ''Z'') = ds" using d z by (simp add: takeWhile_append2 list_all_iff)
  with d show ?thesis by (simp add: millis_tail_def Let_def)
qed

lemma no_dot: "list_all is_digit ds \<Longrightarrow> CHR ''.'' \<notin> set ds"
  by (auto simp: list_all_iff is_digit_def digit_val_def)

section \<open>Reading a time back\<close>

text \<open>
  The reference: the seconds since 1970 of a calendar date, counted year by year and month by
  month, and of the text \<open>YYYY-MM-DDTHH:MM:SSZ\<close>.
\<close>

definition daysBefore :: "int \<Rightarrow> nat \<Rightarrow> int" where
  "daysBefore y m = sum_list (map daysInYear [1970..y - 1]) + sum_list (take m (monthLengths y))"

definition field_at :: "string \<Rightarrow> nat \<Rightarrow> nat \<Rightarrow> int" where
  "field_at s i n = (case parse_nat (take n (drop i s)) of None \<Rightarrow> 0 | Some v \<Rightarrow> v)"

definition isoSeconds :: "string \<Rightarrow> int" where
  "isoSeconds s =
     (((daysBefore (field_at s 0 4) (nat (field_at s 5 2 - 1)) + (field_at s 8 2 - 1)) * 24 + field_at s 11 2) * 60 +
      field_at s 14 2) * 60 + field_at s 17 2"

definition valid_iso :: "string \<Rightarrow> bool" where
  "valid_iso s \<longleftrightarrow>
     length s = 20 \<and> 1 \<le> field_at s 5 2 \<and> field_at s 5 2 \<le> 12 \<and>
     1 \<le> field_at s 8 2 \<and> field_at s 8 2 \<le> monthLengths (field_at s 0 4) ! nat (field_at s 5 2 - 1) \<and>
     0 \<le> field_at s 11 2 \<and> field_at s 11 2 < 24 \<and> 0 \<le> field_at s 14 2 \<and> field_at s 14 2 < 60 \<and>
     0 \<le> field_at s 17 2 \<and> field_at s 17 2 < 60"

lemma sum_daysInYear: "1970 \<le> y \<Longrightarrow> sum_list (map daysInYear [1970..y - 1]) = dayFromYear y"
proof (induction "nat (y - 1970)" arbitrary: y)
  case 0
  then have "y = 1970" by simp
  then show ?case by (simp add: dayFromYear_def)
next
  case (Suc k)
  then have IH: "sum_list (map daysInYear [1970..y - 1 - 1]) = dayFromYear (y - 1)"
    by (intro Suc.hyps(1)) simp_all
  have "[1970..y - 1] = [1970..y - 1 - 1] @ [y - 1]" using Suc.hyps(2) by (intro upto_rec2) simp
  with IH dayFromYear_step [of "y - 1"] show ?case by simp
qed

text \<open>The fields of a time of whole seconds.\<close>

lemma utc_fields:
  assumes "0 \<le> t" "t < 253402300800"
  obtains y m dm where "utc_of_ms (1000 * t) = \<lparr>u_year = y, u_month = m, u_day = dm + 1,
      u_hour = t mod 86400 div 3600, u_min = t mod 86400 div 60 mod 60, u_sec = t mod 86400 mod 60, u_ms = 0,
      u_weekday = nat ((t div 86400 + 4) mod 7)\<rparr>"
    "1970 \<le> y" "y \<le> 9999" "m < 12" "0 \<le> dm" "dm < 31" "t div 86400 = daysBefore y m + dm" "dm < monthLengths y ! m"
proof -
  define d where "d = t div 86400"
  define r where "r = t mod 86400"
  define y where "y = yearOfDay d"
  obtain m dm where m: "splitMonth (monthLengths y) (d - dayFromYear y) = (m, dm)" by (cases "splitMonth (monthLengths y) (d - dayFromYear y)")
  have "t = 86400 * d + r" unfolding d_def r_def by (rule mult_div_mod_eq [symmetric])
  then have t: "1000 * t = 86400000 * d + 1000 * r" by linarith
  have r: "0 \<le> r" "r < 86400" by (simp_all add: r_def)
  have d: "0 \<le> d" "d < 2932897" using assms unfolding d_def by linarith+
  have "1000 * t div 86400000 = d" "1000 * t mod 86400000 = 1000 * r"
    by (rule int_div_pos_eq [OF t] int_mod_pos_eq [OF t]; use r in linarith)+
  moreover have "1000 * r div 3600000 = r div 3600" "1000 * r div 60000 mod 60 = r div 60 mod 60" "1000 * r div 1000 mod 60 = r mod 60"
    "1000 * r mod 1000 = 0"
    using div_mult_mult1 [of 1000 r 3600] div_mult_mult1 [of 1000 r 60] by simp_all
  ultimately have u: "utc_of_ms (1000 * t) = \<lparr>u_year = y, u_month = m, u_day = dm + 1, u_hour = r div 3600,
      u_min = r div 60 mod 60, u_sec = r mod 60, u_ms = 0, u_weekday = nat ((d + 4) mod 7)\<rparr>"
    using m by (simp only: utc_of_ms_def Let_def y_def [symmetric] prod.case)
  note Y = yearOfDay_spec [of d, folded y_def]
  have v: "dayFromYear 1970 = 0" "dayFromYear 10000 = 2932897" by (simp_all add: dayFromYear_def)
  have y1: "1970 \<le> y"
  proof (rule ccontr)
    assume "\<not> 1970 \<le> y"
    then have "dayFromYear (y + 1) \<le> dayFromYear 1970" by (intro dayFromYear_mono) simp
    with Y(2) d(1) dayFromYear_step [of y] v show False by linarith
  qed
  have y2: "y \<le> 9999"
  proof (rule ccontr)
    assume "\<not> y \<le> 9999"
    then have "dayFromYear 10000 \<le> dayFromYear y" by (intro dayFromYear_mono) simp
    with Y(1) d(2) v show False by linarith
  qed
  have M: "m < 12" "0 \<le> dm" "dm < monthLengths y ! m" "d - dayFromYear y = sum_list (take m (monthLengths y)) + dm"
    using splitMonth_spec [OF _ _ m] Y by (auto simp: sum_monthLengths) (simp add: monthLengths_def)
  have "monthLengths y ! m \<le> 31"
  proof -
    have "list_all (\<lambda>l. l \<le> 31) (monthLengths y)" by (simp add: monthLengths_def)
    moreover have "monthLengths y ! m \<in> set (monthLengths y)" using M(1) by (intro nth_mem) (simp add: monthLengths_def)
    ultimately show ?thesis by (simp add: list_all_iff)
  qed
  with M have "dm < 31" "d = daysBefore y m + dm" by (simp_all add: daysBefore_def sum_daysInYear [OF y1])
  with that [OF u [unfolded d_def r_def] y1 y2 M(1,2) _ _ M(3)] show ?thesis by (simp add: d_def)
qed

text \<open>The printed date and time, and what its fields read as.\<close>

definition iso_fields :: "int \<Rightarrow> int \<Rightarrow> int \<Rightarrow> int \<Rightarrow> int \<Rightarrow> int \<Rightarrow> string" where
  "iso_fields y mo d h n s = zero_pad 4 y @ ''-'' @ zero_pad 2 mo @ ''-'' @ zero_pad 2 d @ ''T'' @
     zero_pad 2 h @ '':'' @ zero_pad 2 n @ '':'' @ zero_pad 2 s"

lemma iso_fields_read:
  assumes "0 \<le> y" "y \<le> 9999" "list_all (\<lambda>x. 0 \<le> x \<and> x < 100) [mo, d, h, n, s]"
  shows "length (iso_fields y mo d h n s @ ''Z'') = 20 \<and>
       field_at (iso_fields y mo d h n s @ ''Z'') 0 4 = y \<and> field_at (iso_fields y mo d h n s @ ''Z'') 5 2 = mo \<and>
       field_at (iso_fields y mo d h n s @ ''Z'') 8 2 = d \<and> field_at (iso_fields y mo d h n s @ ''Z'') 11 2 = h \<and>
       field_at (iso_fields y mo d h n s @ ''Z'') 14 2 = n \<and> field_at (iso_fields y mo d h n s @ ''Z'') 17 2 = s"
    and "dropMillis (iso_fields y mo d h n s @ CHR ''.'' # (zero_pad 3 0 @ ''Z'')) = iso_fields y mo d h n s @ ''Z''"
proof -
  define Y M D H N S Z where defs: "Y = zero_pad 4 y" "M = zero_pad 2 mo" "D = zero_pad 2 d" "H = zero_pad 2 h"
    "N = zero_pad 2 n" "S = zero_pad 2 s" "Z = zero_pad 3 0"
  have P: "length Y = 4" "parse_nat Y = Some y" "list_all is_digit Y"
    "length M = 2" "parse_nat M = Some mo" "list_all is_digit M"
    "length D = 2" "parse_nat D = Some d" "list_all is_digit D"
    "length H = 2" "parse_nat H = Some h" "list_all is_digit H"
    "length N = 2" "parse_nat N = Some n" "list_all is_digit N"
    "length S = 2" "parse_nat S = Some s" "list_all is_digit S"
    "list_all is_digit Z" "length Z = 3"
    unfolding defs by (rule zero_pad_props; use assms in \<open>simp; fail\<close>)+
  show "length (iso_fields y mo d h n s @ ''Z'') = 20 \<and>
       field_at (iso_fields y mo d h n s @ ''Z'') 0 4 = y \<and> field_at (iso_fields y mo d h n s @ ''Z'') 5 2 = mo \<and>
       field_at (iso_fields y mo d h n s @ ''Z'') 8 2 = d \<and> field_at (iso_fields y mo d h n s @ ''Z'') 11 2 = h \<and>
       field_at (iso_fields y mo d h n s @ ''Z'') 14 2 = n \<and> field_at (iso_fields y mo d h n s @ ''Z'') 17 2 = s"
    by (simp add: iso_fields_def defs [symmetric] field_at_def P)
  show "dropMillis (iso_fields y mo d h n s @ CHR ''.'' # (zero_pad 3 0 @ ''Z'')) = iso_fields y mo d h n s @ ''Z''"
    unfolding iso_fields_def defs [symmetric]
    using P by (intro dropMillis_at millis_tail_digits) (auto dest: no_dot)
qed

lemma clock_sum:
  "((t div 86400 * 24 + t mod 86400 div 3600) * 60 + t mod 86400 div 60 mod 60) * 60 + t mod 86400 mod 60 = (t :: int)"
proof -
  define r where "r = t mod 86400"
  have "t = 86400 * (t div 86400) + r" unfolding r_def by (rule mult_div_mod_eq [symmetric])
  moreover have "r = 60 * (r div 60) + r mod 60" "r div 60 = 60 * (r div 60 div 60) + r div 60 mod 60"
    by (rule mult_div_mod_eq [symmetric])+
  moreover have "r div 60 div 60 = r div 3600" using zdiv_zmult2_eq [of 60 r 60] by simp
  moreover have "((a * 24 + h) * 60 + n) * 60 + s = t" if "t = 86400 * a + r" "r = 60 * q + s" "q = 60 * h + n"
    for a h n s q :: int
    using that by simp
  ultimately show ?thesis unfolding r_def [symmetric] by metis
qed

section \<open>Properties\<close>

text \<open>
  the times on the oracle page are right: for every number of whole seconds up to the end of
  the year 9999 the printed text is a valid date and time, and its fields, counted back through the
  calendar, give that number.
\<close>

theorem formatUnixTime_exact:
  assumes "to_num v = Fin (of_int t)" "0 \<le> t" "t < 253402300800"
  shows "\<exists>s. formatUnixTime v = Inr s \<and> valid_iso s \<and> isoSeconds s = t"
proof -
  let ?r = "t mod 86400"
  obtain y m dm where u: "utc_of_ms (1000 * t) = \<lparr>u_year = y, u_month = m, u_day = dm + 1,
      u_hour = ?r div 3600, u_min = ?r div 60 mod 60, u_sec = ?r mod 60, u_ms = 0,
      u_weekday = nat ((t div 86400 + 4) mod 7)\<rparr>"
    and f: "1970 \<le> y" "y \<le> 9999" "m < 12" "0 \<le> dm" "dm < 31" "t div 86400 = daysBefore y m + dm" "dm < monthLengths y ! m"
    using utc_fields [OF assms(2,3)] by blast
  let ?A = "iso_fields y (int m + 1) (dm + 1) (?r div 3600) (?r div 60 mod 60) (?r mod 60)"
  have "0 \<le> ?r" "?r < 86400" by simp_all
  then have h: "0 \<le> ?r div 3600" "?r div 3600 < 24" by linarith+
  then have b: "list_all (\<lambda>x. 0 \<le> x \<and> x < 100) [int m + 1, dm + 1, ?r div 3600, ?r div 60 mod 60, ?r mod 60]"
    using f by (simp add: order.strict_trans [OF pos_mod_bound])
  have y: "0 \<le> y" using f(1) by simp
  note F = iso_fields_read [OF y f(2) b]
  have "js_mul (Fin 1000) (to_num v) = Fin (of_int (1000 * t))"
    using dbl_of_int [of "1000 * t"] assms by simp
  moreover have "new_Date (Fin (of_int (1000 * t))) = Some (1000 * t)"
    using assms by (simp add: new_Date_def Let_def del: of_int_mult)
  moreover have "toISOString (Some (1000 * t)) = Inr (?A @ CHR ''.'' # (zero_pad 3 0 @ ''Z''))"
    using f(1,2) by (simp add: toISOString_def u Let_def iso_fields_def iso_year_def)
  ultimately have "formatUnixTime v = Inr (?A @ ''Z'')" using F(2) by (simp add: formatUnixTime_def)
  moreover have "isoSeconds (?A @ ''Z'') = t"
  proof -
    have n: "nat (int m + 1 - 1) = m" "dm + 1 - 1 = dm" by simp_all
    show ?thesis unfolding isoSeconds_def F(1) [THEN conjunct2, THEN conjunct1] using F(1) n f(6) clock_sum [of t] by metis
  qed
  moreover have "valid_iso (?A @ ''Z'')"
    unfolding valid_iso_def using F(1) f h by simp
  ultimately show ?thesis by blast
qed

theorem formatUnixTime_exact_witness: "\<exists>s. formatUnixTime (JStr ''1608242399'') = Inr s \<and> isoSeconds s = 1608242399"
proof -
  have "to_num (JStr ''1608242399'') = Fin (of_int 1608242399)" by code_simp
  from formatUnixTime_exact [OF this] show ?thesis by auto
qed

end
