(* ===== verification/AppViews.thy ===== *)
theory AppViews
  imports AppPanels AppStores LibTools Calendar
begin

text \<open>
  What the three front ends render from their state, and the forms in their side panels.  A form is
  given by the fields it renders, its initial values, its validation and what it submits; a session
  of it is any sequence of edits of rendered fields and submissions.  Styling and explanatory
  paragraphs are not modelled, nor that a button is disabled while a submission runs, which only
  takes sessions away.
\<close>

section \<open>Forms\<close>

record form_field =
  ff_name :: string
  ff_label :: string
  ff_type :: string
  ff_required :: bool

record form_panel =
  fp_title :: string
  fp_initial :: props
  fp_fields :: "form_field list"
  fp_button :: string
  fp_valid :: "props \<Rightarrow> bool res"
  fp_submit :: "props \<Rightarrow> api_call res"

datatype form_action = Edit string jsval | Submit

definition rendered :: "form_panel \<Rightarrow> string \<Rightarrow> bool" where
  "rendered P name \<longleftrightarrow> name \<in> set (map ff_name (fp_fields P))"

inductive form_session :: "form_panel \<Rightarrow> form_action list \<Rightarrow> props \<Rightarrow> api_call list \<Rightarrow> bool" for P where
  shown: "form_session P [] (fp_initial P) []"
| edited: "form_session P acts values calls \<Longrightarrow> rendered P name \<Longrightarrow>
    form_session P (Edit name v # acts) (obj_set name v values) calls"
| submitted: "form_session P acts values calls \<Longrightarrow> fp_valid P values = Inr True \<Longrightarrow> fp_submit P values = Inr c \<Longrightarrow>
    form_session P (Submit # acts) values (c # calls)"
| refused: "form_session P acts values calls \<Longrightarrow> fp_valid P values \<noteq> Inr True \<Longrightarrow>
    form_session P (Submit # acts) values calls"
| crashed: "form_session P acts values calls \<Longrightarrow> fp_valid P values = Inr True \<Longrightarrow> fp_submit P values = Inl e \<Longrightarrow>
    form_session P (Submit # acts) values calls"

inductive_cases form_session_shown: "form_session P [] values calls"

definition text_field :: "string \<Rightarrow> string \<Rightarrow> bool \<Rightarrow> form_field" where
  "text_field name label req = \<lparr>ff_name = name, ff_label = label, ff_type = ''text'', ff_required = req\<rparr>"

definition number_field :: "string \<Rightarrow> string \<Rightarrow> bool \<Rightarrow> form_field" where
  "number_field name label req = \<lparr>ff_name = name, ff_label = label, ff_type = ''number'', ff_required = req\<rparr>"

subsection \<open>The Lido app\<close>

definition feePanel :: "yup \<Rightarrow> form_panel" where
  "feePanel Y = \<lparr>fp_title = ''Change fee'', fp_initial = [(''fee'', JStr [])],
     fp_fields = [number_field ''fee'' ''Fee (%)'' False], fp_button = ''Set fee'',
     fp_valid = (\<lambda>vs. Inr (percentSchema Y (obj_get vs ''fee''))), fp_submit = (\<lambda>vs. Inr (feeSubmit (obj_get vs ''fee'')))\<rparr>"

definition feeDistributionPanel :: "yup \<Rightarrow> (jsval \<Rightarrow> int res) \<Rightarrow> form_panel" where
  "feeDistributionPanel Y bn = \<lparr>fp_title = ''Change fee'',
     fp_initial = [(''treasury'', JStr []), (''insurance'', JStr []), (''operators'', JStr [])],
     fp_fields = [number_field ''treasury'' ''Treasury fee (%)'' False, number_field ''insurance'' ''Insurance fee (%)'' False,
                  number_field ''operators'' ''Operators fee (%)'' False],
     fp_button = ''Set fee distribution'',
     fp_valid = (\<lambda>vs. feeDistributionValid Y bn (obj_get vs ''treasury'') (obj_get vs ''insurance'') (obj_get vs ''operators'')),
     fp_submit = (\<lambda>vs. Inr (feeDistributionSubmit (obj_get vs ''treasury'') (obj_get vs ''insurance'') (obj_get vs ''operators'')))\<rparr>"

definition vaultPanel :: "yup \<Rightarrow> (jsval \<Rightarrow> bool) \<Rightarrow> form_panel" where
  "vaultPanel Y isAddress = \<lparr>fp_title = ''Change EL Rewards Vault'', fp_initial = [(''vault'', JStr [])],
     fp_fields = [text_field ''vault'' ''Vault'' False], fp_button = ''Set EL rewards vault'',
     fp_valid = (\<lambda>vs. Inr (vaultValid Y isAddress (obj_get vs ''vault''))), fp_submit = (\<lambda>vs. Inr (vaultSubmit (obj_get vs ''vault'')))\<rparr>"

definition elLimitPanel :: "yup \<Rightarrow> form_panel" where
  "elLimitPanel Y = \<lparr>fp_title = ''Change EL Rewards Withdrawal Limit'', fp_initial = [(''limit'', JStr [])],
     fp_fields = [number_field ''limit'' ''Limit (%)'' False], fp_button = ''Set limit'',
     fp_valid = (\<lambda>vs. Inr (percentSchema Y (obj_get vs ''limit''))), fp_submit = (\<lambda>vs. Inr (elLimitSubmit (obj_get vs ''limit'')))\<rparr>"

definition credentialsPanel :: "yup \<Rightarrow> form_panel" where
  "credentialsPanel Y = \<lparr>fp_title = ''Change Withdrawal Credentials'', fp_initial = [(''credentials'', JStr [])],
     fp_fields = [text_field ''credentials'' ''Credentials'' False], fp_button = ''Set withdrawal credentials'',
     fp_valid = (\<lambda>vs. Inr (credentialsValid Y (obj_get vs ''credentials''))),
     fp_submit = (\<lambda>vs. Inr (credentialsSubmit (obj_get vs ''credentials'')))\<rparr>"

subsection \<open>The oracle app\<close>

definition addMemberPanel :: "yup \<Rightarrow> form_panel" where
  "addMemberPanel Y = \<lparr>fp_title = ''ADD ORACLE MEMBER'', fp_initial = [(''address'', JStr [])],
     fp_fields = [text_field ''address'' ''Address'' True], fp_button = ''Add Member'',
     fp_valid = (\<lambda>vs. Inr (addressValid Y (obj_get vs ''address''))), fp_submit = (\<lambda>vs. Inr (panelCall AddMember (obj_get vs ''address'')))\<rparr>"

definition changeQuorumPanel :: "yup \<Rightarrow> form_panel" where
  "changeQuorumPanel Y = \<lparr>fp_title = ''ADD ORACLE MEMBER'', fp_initial = [(''quorum'', JStr [])],
     fp_fields = [number_field ''quorum'' ''Quorum'' True], fp_button = ''Change Quorum'',
     fp_valid = (\<lambda>vs. Inr (quorumValid Y (obj_get vs ''quorum''))), fp_submit = (\<lambda>vs. Inr (panelCall ChangeQuorum (obj_get vs ''quorum'')))\<rparr>"

definition changeIncreasePanel :: "yup \<Rightarrow> form_panel" where
  "changeIncreasePanel Y = \<lparr>fp_title = ''Change Annual Increase'', fp_initial = [(''value'', JStr [])],
     fp_fields = [number_field ''value'' ''Value (%)'' True], fp_button = ''Change Increase'',
     fp_valid = (\<lambda>vs. Inr (changeSchema Y (obj_get vs ''value''))), fp_submit = (\<lambda>vs. Inr (panelCall ChangeIncrease (obj_get vs ''value'')))\<rparr>"

definition changeDecreasePanel :: "yup \<Rightarrow> form_panel" where
  "changeDecreasePanel Y = \<lparr>fp_title = ''Change Relative Decrease'', fp_initial = [(''value'', JStr [])],
     fp_fields = [number_field ''value'' ''Value (%)'' True], fp_button = ''Change Decrease'',
     fp_valid = (\<lambda>vs. Inr (changeSchema Y (obj_get vs ''value''))), fp_submit = (\<lambda>vs. Inr (panelCall ChangeDecrease (obj_get vs ''value'')))\<rparr>"

definition reportReceiverPanel :: "yup \<Rightarrow> form_panel" where
  "reportReceiverPanel Y = \<lparr>fp_title = ''CHANGE BEACON REPORT RECEIVER'', fp_initial = [(''address'', JStr [])],
     fp_fields = [text_field ''address'' ''Address'' True], fp_button = ''Set address'',
     fp_valid = (\<lambda>vs. Inr (addressValid Y (obj_get vs ''address''))), fp_submit = (\<lambda>vs. Inr (panelCall ReportReceiver (obj_get vs ''address'')))\<rparr>"

subsection \<open>The registry app\<close>

definition addOperatorPanel :: "yup \<Rightarrow> form_panel" where
  "addOperatorPanel Y = \<lparr>fp_title = ''ADD NODE OPERATOR'',
     fp_initial = [(''name'', JStr []), (''address'', JStr []), (''limit'', JStr [])],
     fp_fields = [text_field ''name'' ''Name'' True, text_field ''address'' ''Address'' True], fp_button = ''Add Node Operator'',
     fp_valid = (\<lambda>vs. Inr (addOperatorValid Y (obj_get vs ''name'') (obj_get vs ''address'') (obj_get vs ''limit''))),
     fp_submit = (\<lambda>vs. Inr (''addNodeOperator'', [obj_get vs ''name'', obj_get vs ''address'']))\<rparr>"

definition changeLimitPanel :: "yup \<Rightarrow> jsval \<Rightarrow> form_panel" where
  "changeLimitPanel Y changeLimitOperatorId = \<lparr>fp_title = ''Change staking limit'', fp_initial = [(''limit'', JInt 0)],
     fp_fields = [number_field ''limit'' ''Limit'' True], fp_button = ''Set limit'',
     fp_valid = (\<lambda>vs. Inr (limitValid Y (obj_get vs ''limit''))),
     fp_submit = (\<lambda>vs. Inr (''setNodeOperatorStakingLimit'', [changeLimitOperatorId, obj_get vs ''limit'']))\<rparr>"

text \<open>
  The check box is only rendered when both service addresses are configured.  \<open>parse\<close> is what
  \<open>JSON.parse\<close> makes of the pasted text.
\<close>

definition signingKeysValid ::
  "yup \<Rightarrow> jsval \<Rightarrow> (jsval \<Rightarrow> fcontent) \<Rightarrow> (jsval \<Rightarrow> jsval res) \<Rightarrow> (jsval \<Rightarrow> jsval res) \<Rightarrow> props \<Rightarrow> bool res" where
  "signingKeysValid Y skLimit parse subgraph verifier vs =
     (let json = obj_get vs ''json''
      in case (basicTest (LIMIT skLimit) (parse json),
               advancedTest subgraph verifier (parse json) (truthy (obj_get vs ''useAdvancedV8n''))) of
           (Throws e, _) \<Rightarrow> Inl e
         | (_, Throws e) \<Rightarrow> Inl e
         | (Passes, Passes) \<Rightarrow> Inr (yp_string Y json \<and> yp_required Y json)
         | _ \<Rightarrow> Inr False)"

definition signingKeysPanel ::
  "yup \<Rightarrow> jsval \<Rightarrow> (jsval \<Rightarrow> fcontent) \<Rightarrow> (jsval \<Rightarrow> jsval res) \<Rightarrow> (jsval \<Rightarrow> jsval res) \<Rightarrow> bool \<Rightarrow> jsval \<Rightarrow> form_panel" where
  "signingKeysPanel Y skLimit parse subgraph verifier endpoints operatorId =
     \<lparr>fp_title = ''Add signing keys as Manager'', fp_initial = [(''json'', JStr []), (''useAdvancedV8n'', JBool False)],
      fp_fields = text_field ''json'' ''JSON'' True #
        (if endpoints then [\<lparr>ff_name = ''useAdvancedV8n'', ff_label = ''Use advanced validation'', ff_type = ''checkbox'', ff_required = False\<rparr>]
         else []),
      fp_button = ''Add Signing Keys'', fp_valid = signingKeysValid Y skLimit parse subgraph verifier,
      fp_submit = (\<lambda>vs. bindR (formatJsonData (parse (obj_get vs ''json''))) (\<lambda>(quantity, pubkeys, signatures).
        Inr (''addSigningKeys'', [operatorId, JInt (int quantity), JStr pubkeys, JStr signatures])))\<rparr>"

section \<open>Views\<close>

text \<open>What a child expression of an element renders as: nothing for \<open>undefined\<close>, \<open>null\<close> and booleans.\<close>

definition jsx_text :: "jsval \<Rightarrow> string" where
  "jsx_text v = (case v of JUndef \<Rightarrow> [] | JNull \<Rightarrow> [] | JBool b \<Rightarrow> [] | _ \<Rightarrow> to_str v)"

text \<open>A badge names an address; \<open>WithEdit\<close> is a cell with a button, \<open>OwnedBy\<close> one whose label is the badge of an address.\<close>

datatype cell = Str string | Badge jsval | Amount display | WithEdit cell string | OwnedBy cell jsval

text \<open>The entries of a table; the table component gets whatever the state holds while it loads.\<close>

definition entries_of :: "jsval \<Rightarrow> jsval list option" where
  "entries_of v = (case v of JArr xs \<Rightarrow> Some xs | _ \<Rightarrow> None)"

definition table :: "(nat \<Rightarrow> jsval \<Rightarrow> cell list) \<Rightarrow> jsval \<Rightarrow> cell list list option" where
  "table renderEntry entries =
     map_option (\<lambda>xs. map (\<lambda>(i, x). renderEntry i x) (enumerate 0 xs)) (entries_of entries)"

definition appNameOf :: "jsval \<Rightarrow> string" where
  "appNameOf currentApp =
     (if truthy currentApp \<and> truthy (field currentApp ''name'') then to_str (field currentApp ''name'') else ''app'')"

text \<open>The first line of each page: \<open>const { ... } = appState\<close>.\<close>

definition destructured :: "jsval \<Rightarrow> 'a res \<Rightarrow> 'a res" where
  "destructured appState page = (if not_nullish appState then page else Inl TypeError)"

text \<open>
  What the reducers of the three index.js files hand to the page: \<open>null\<close>, before the script has
  reduced anything, becomes a state that is loading.
\<close>

definition lidoFront :: "jsval \<Rightarrow> jsval" where
  "lidoFront state = (if state = JNull then JObj [(''isSyncing'', JBool True)] else state)"

definition oracleFront :: "jsval \<Rightarrow> jsval" where
  "oracleFront state =
     (if state = JNull
      then JObj [(''oracleMembers'', JArr []), (''quorum'', JNull), (''currentFrame'', JNull), (''expectedEpochId'', JNull),
        (''currentOraclesReportStatus'', JNull), (''allowedBeaconBalanceAnnualRelativeIncrease'', JNull),
        (''allowedBeaconBalanceRelativeDecrease'', JNull), (''beaconReportReceiver'', JNull),
        (''currentReportVariants'', JArr []), (''lastCompletedReportDelta'', JNull), (''version'', JNull),
        (''isSyncing'', JBool True)]
      else state)"

definition registryFront :: "jsval \<Rightarrow> jsval" where
  "registryFront state =
     (if state = JNull
      then JObj [(''isSyncing'', JBool True), (''nodeOperatorsCount'', JStr []), (''activeNodeOperatorsCount'', JStr []),
        (''nodeOperators'', JArr [])]
      else state)"

subsection \<open>The oracle app\<close>

definition renderCurrentFrame :: "jsval \<Rightarrow> (string \<times> string) list option res" where
  "renderCurrentFrame frame =
     (if \<not> truthy frame then Inr None
      else bindR (formatUnixTime (field frame ''frameStartTime'')) (\<lambda>start.
           bindR (formatUnixTime (field frame ''frameEndTime'')) (\<lambda>end'.
           Inr (Some [(''Epoch:'', jsx_text (field frame ''frameEpochId'')), (''Start:'', start), (''End:'', end')]))))"

definition etherText :: "string \<Rightarrow> (jsval \<Rightarrow> string res) \<Rightarrow> jsval \<Rightarrow> string res" where
  "etherText EtherSymbol formatEther wei =
     bindR (formatEther wei) (\<lambda>s. Inr (EtherSymbol @ to_fixed 4 (str_num s)))"

definition renderLastCompletedReportDelta ::
  "string \<Rightarrow> (jsval \<Rightarrow> string res) \<Rightarrow> jsval \<Rightarrow> (string \<times> string) list option res" where
  "renderLastCompletedReportDelta EtherSymbol formatEther delta =
     (if \<not> truthy delta then Inr None
      else bindR (etherText EtherSymbol formatEther (field delta ''preTotalPooledEther'')) (\<lambda>pre.
           bindR (etherText EtherSymbol formatEther (field delta ''postTotalPooledEther'')) (\<lambda>post.
           Inr (Some [(''Pre-total:'', pre), (''Post-total:'', post),
                      (''Time elapsed:'', to_str (field delta ''timeElapsed'') @ ''s'')]))))"

definition renderSettings :: "nat \<Rightarrow> jsval \<Rightarrow> cell list" where
  "renderSettings i value =
     (if i = 0 then [Str ''Max Allowed APR'', WithEdit (Str (settingText value)) ''Change increase'']
      else if i = 1 then [Str ''Drop Limit Between Frames'', WithEdit (Str (settingText value)) ''Change decrease'']
      else if i = 2 then [Str ''Beacon Report Receiver'', WithEdit (Badge value) ''Change receiver'']
      else [])"

text \<open>A box beside the tables: heading, content and the label of its button.\<close>

type_synonym info_box = "string \<times> (string \<times> string) list \<times> string option"

record oracle_page =
  og_syncing :: bool
  og_title :: string
  og_memberFields :: "string list"
  og_members :: "cell list list option"
  og_variants :: "cell list list option"
  og_settings :: "cell list list option"
  og_boxes :: "info_box list"
  og_version :: "string option"

definition oraclePage :: "string \<Rightarrow> (jsval \<Rightarrow> string res) \<Rightarrow> jsval \<Rightarrow> jsval \<Rightarrow> oracle_page res" where
  "oraclePage EtherSymbol formatEther currentApp appState =
     (let get = field appState; status = get ''currentOraclesReportStatus''
      in destructured appState (bindR (renderCurrentFrame (get ''currentFrame'')) (\<lambda>frameEl.
         bindR (renderLastCompletedReportDelta EtherSymbol formatEther (get ''lastCompletedReportDelta'')) (\<lambda>deltaEl.
         Inr \<lparr>og_syncing = truthy (get ''isSyncing''), og_title = map upper_char (appNameOf currentApp),
              og_memberFields = [''Oracle Members'', ''Current Report Status ('' @ to_str status @ '')''],
              og_members = table (\<lambda>i memberAddress.
                [Badge memberAddress, Str (if memberSubmitted i status then ''Submitted'' else [])]) (get ''oracleMembers''),
              og_variants = table (\<lambda>i v. [Str (dec_int (int i)), Str (jsx_text (field v ''beaconBalance'') @ '' gwei''),
                Str (jsx_text (field v ''beaconValidators'')), Str (jsx_text (field v ''count''))]) (get ''currentReportVariants''),
              og_settings = table renderSettings
                (JArr [get ''allowedBeaconBalanceAnnualRelativeIncrease'', get ''allowedBeaconBalanceRelativeDecrease'',
                       get ''beaconReportReceiver'']),
              og_boxes = [(''Quorum'', [([], jsx_text (get ''quorum''))], Some ''Change Quorum''),
                          (''Expected Epoch'', [([], jsx_text (get ''expectedEpochId''))], None)] @
                (case frameEl of None \<Rightarrow> [] | Some rows \<Rightarrow> [(''Current Frame'', rows, Some ''Update'')]) @
                (case deltaEl of None \<Rightarrow> [] | Some rows \<Rightarrow> [(''Last completed report delta'', rows, None)]),
              og_version = (if truthy (get ''version'')
                then Some (''Lido Oracle v'' @ num_str (js_add (to_num (get ''version'')) (Fin 1))) else None)\<rparr>))))"

subsection \<open>The registry app\<close>

definition operatorRow :: "jsval \<Rightarrow> jsval \<Rightarrow> cell list" where
  "operatorRow currentUser op =
     (let get = field op
      in [Str (jsx_text (get ''id'') @ '' ''),
          Str (jsx_text (get ''name'') @ '' '' @ (if strict_eq currentUser (get ''id'') then ''(you)'' else [])),
          Badge (get ''rewardAddress''), Str (jsx_text (get ''stakingLimit'')),
          Str (jsx_text (get ''totalSigningKeys'') @ '' / '' @ jsx_text (get ''usedSigningKeys'') @ '' / '' @
               jsx_text (get ''stoppedValidators'')),
          Str (if truthy (get ''active'') then ''ACTIVE'' else ''INACTIVE'')])"

text \<open>The items of an operator's menu with what a click does; the last two show a message.\<close>

definition operatorMenu :: "jsval \<Rightarrow> (string \<times> nor_action option) list" where
  "operatorMenu op =
     (let i = field op ''id''; active = truthy (field op ''active'')
      in [if active then (''disable'', Some (ToggleOperator i True)) else (''enable'', Some (ToggleOperator i False)),
          (''change staking limit'', Some (OpenChangeLimit i)),
          (''number of signing keys'', None), (''number of unused keys'', None)])"

record registry_page =
  rg_syncing :: bool
  rg_fields :: "string list"
  rg_operators :: "cell list list option"
  rg_menus :: "(string \<times> nor_action option) list list option"
  rg_boxes :: "(string \<times> string) list"

text \<open>\<open>nodeOperators.find\<close> throws while the list is not there.\<close>

definition registryPage :: "jsval \<Rightarrow> jsval \<Rightarrow> registry_page res" where
  "registryPage connectedAccount appState =
     (let get = field appState
      in case entries_of (get ''nodeOperators'') of
           None \<Rightarrow> Inl TypeError
         | Some ops \<Rightarrow>
             (let you = currentUserOperatorId (map own_props ops) connectedAccount
              in Inr \<lparr>rg_syncing = truthy (get ''isSyncing''),
                   rg_fields = [''#'', ''Node Operator'', ''Address'', ''Staking Limit'', ''Total / Used / Stopped'', ''Status''],
                   rg_operators = table (\<lambda>i. operatorRow you) (get ''nodeOperators''),
                   rg_menus = Some (map operatorMenu ops),
                   rg_boxes = [(''Number of operators'', jsx_text (get ''nodeOperatorsCount'')),
                               (''Number of Active operators'', jsx_text (get ''activeNodeOperatorsCount''))]\<rparr>))"

subsection \<open>The Lido app\<close>

text \<open>\<open>v?.k\<close>\<close>

definition opt_field :: "jsval \<Rightarrow> string \<Rightarrow> jsval" where
  "opt_field v k = (if not_nullish v then field v k else JUndef)"

definition loadableCell :: "jsval \<Rightarrow> cell \<Rightarrow> cell" where
  "loadableCell value c = (if value = JUndef then Amount Loading else c)"

definition yesNo :: "jsval \<Rightarrow> cell" where
  "yesNo v = loadableCell v (Str (if truthy v then ''Yes'' else ''No''))"

text \<open>The items of the state box, one component each.\<close>

definition badgeItem :: "string \<Rightarrow> string \<Rightarrow> jsval \<Rightarrow> string \<times> cell" where
  "badgeItem label key appState = (label, loadableCell (field appState key) (Badge (field appState key)))"

definition statusItem :: "jsval \<Rightarrow> string \<times> cell" where
  "statusItem appState =
     (let isStopped = field appState ''isStopped''
      in (''Status'', loadableCell isStopped
            (if truthy isStopped then WithEdit (Str ''Stopped'') ''Resume'' else WithEdit (Str ''Live'') ''Stop'')))"

definition feeItem :: "jsval \<Rightarrow> string \<times> cell" where
  "feeItem appState = (''Fee'', WithEdit (Amount (showBasisPoints (field appState ''fee''))) ''edit'')"

definition feeDistributionItems :: "jsval \<Rightarrow> (string \<times> cell) list" where
  "feeDistributionItems appState =
     (let share = (\<lambda>k owner. OwnedBy (Amount (showBasisPoints (opt_field (field appState ''feeDistribution'') k))) (field appState owner))
      in [(''Fee Distribution'', WithEdit (Str []) ''Edit fee distribution''),
          (''Treasury'', share ''treasuryFeeBasisPoints'' ''treasury''),
          (''Insurance'', share ''insuranceFeeBasisPoints'' ''insuranceFund''),
          (''Operators'', share ''operatorsFeeBasisPoints'' ''operators'')])"

definition credentialsItem :: "string \<Rightarrow> jsval \<Rightarrow> string \<times> cell" where
  "credentialsItem ellipsis appState =
     (let credentials = field appState ''withdrawalCredentials''
      in (''Withdrawal Credentials'', WithEdit (loadableCell credentials (Str (shortenBytes ellipsis credentials))) ''edit''))"

definition elLimitItem :: "jsval \<Rightarrow> string \<times> cell" where
  "elLimitItem appState =
     (''EL Rewards Withdrawal Limit'', WithEdit (Amount (showBasisPoints (field appState ''elRewardsWithdrawalLimit''))) ''edit'')"

definition vaultItem :: "jsval \<Rightarrow> string \<times> cell" where
  "vaultItem appState =
     (let vault = field appState ''elRewardsVault''
      in (''EL Rewards Vault'', WithEdit (loadableCell vault (Badge vault)) ''edit''))"

definition bufferedEtherItem :: "string \<Rightarrow> (jsval \<Rightarrow> int res) \<Rightarrow> jsval \<Rightarrow> string \<times> cell" where
  "bufferedEtherItem EtherSymbol bn appState =
     (''Buffered Ether'', Amount (showEther EtherSymbol bn (field appState ''bufferedEther'')))"

definition totalPooledEtherItem :: "string \<Rightarrow> (jsval \<Rightarrow> int res) \<Rightarrow> jsval \<Rightarrow> string \<times> cell" where
  "totalPooledEtherItem EtherSymbol bn appState =
     (''Total Pooled Ether'', Amount (showEther EtherSymbol bn (field appState ''totalPooledEther'')))"

definition depositContractItem :: "jsval \<Rightarrow> string \<times> cell" where
  "depositContractItem = badgeItem ''Deposit Contract'' ''depositContract''"

definition registryItem :: "jsval \<Rightarrow> string \<times> cell" where
  "registryItem = badgeItem ''Node Operators Registry'' ''nodeOperatorsRegistry''"

definition oracleItem :: "jsval \<Rightarrow> string \<times> cell" where
  "oracleItem = badgeItem ''Oracle'' ''oracle''"

definition lidoState :: "string \<Rightarrow> (jsval \<Rightarrow> int res) \<Rightarrow> string \<Rightarrow> jsval \<Rightarrow> (string \<times> cell) list" where
  "lidoState EtherSymbol bn ellipsis appState =
     [statusItem appState, feeItem appState] @ feeDistributionItems appState @
     [credentialsItem ellipsis appState, elLimitItem appState, vaultItem appState,
      bufferedEtherItem EtherSymbol bn appState, totalPooledEtherItem EtherSymbol bn appState,
      depositContractItem appState, registryItem appState, oracleItem appState]"

definition beaconStats :: "string \<Rightarrow> (jsval \<Rightarrow> int res) \<Rightarrow> jsval \<Rightarrow> (string \<times> cell) list" where
  "beaconStats EtherSymbol bn appState =
     (let beaconStat = field appState ''beaconStat''; deposited = opt_field beaconStat ''depositedValidators''
      in [(''Deposits'', loadableCell deposited (Str (jsx_text deposited))),
          (''Balance'', Amount (showEther EtherSymbol bn (opt_field beaconStat ''beaconBalance'')))])"

definition stakingLimitState :: "string \<Rightarrow> (jsval \<Rightarrow> int res) \<Rightarrow> jsval \<Rightarrow> (string \<times> cell) list" where
  "stakingLimitState EtherSymbol bn appState =
     (let info = field appState ''stakingLimitInfo''
      in [(''Paused'', yesNo (opt_field info ''isStakingPaused'')),
          (''Limit set'', yesNo (opt_field info ''isStakingLimitSet'')),
          (''Max limit'', Amount (showEther EtherSymbol bn (opt_field info ''maxStakeLimit''))),
          (''Restoration'', Amount (showRestorationRate EtherSymbol bn (opt_field info ''maxStakeLimit'')
             (opt_field info ''maxStakeLimitGrowthBlocks'')))])"

record lido_page =
  lg_syncing :: bool
  lg_title :: string
  lg_state :: "(string \<times> cell) list"
  lg_beacon :: "(string \<times> cell) list"
  lg_staking :: "(string \<times> cell) list"

definition lidoPage :: "string \<Rightarrow> (jsval \<Rightarrow> int res) \<Rightarrow> string \<Rightarrow> jsval \<Rightarrow> jsval \<Rightarrow> lido_page res" where
  "lidoPage EtherSymbol bn ellipsis currentApp appState =
     destructured appState (Inr \<lparr>lg_syncing = truthy (field appState ''isSyncing''), lg_title = appNameOf currentApp,
      lg_state = lidoState EtherSymbol bn ellipsis appState, lg_beacon = beaconStats EtherSymbol bn appState,
      lg_staking = stakingLimitState EtherSymbol bn appState\<rparr>)"

section \<open>Lemmas\<close>

text \<open>A field that is not rendered keeps its initial value for the whole session.\<close>

lemma form_session_unrendered:
  "form_session P acts values calls \<Longrightarrow> \<not> rendered P name \<Longrightarrow> obj_get values name = obj_get (fp_initial P) name"
  by (induction rule: form_session.induct) (auto simp: rendered_def)

text \<open>A form whose initial values are never valid, whatever is typed, submits nothing.\<close>

lemma form_session_blocked:
  "form_session P acts values calls \<Longrightarrow>
   (\<And>vs. obj_get vs name = obj_get (fp_initial P) name \<Longrightarrow> fp_valid P vs \<noteq> Inr True) \<Longrightarrow> \<not> rendered P name \<Longrightarrow>
   calls = []"
proof (induction rule: form_session.induct)
  case (submitted acts vs calls c)
  from form_session_unrendered [OF submitted.hyps(1) submitted.prems(2)] have "fp_valid P vs \<noteq> Inr True"
    by (rule submitted.prems(1))
  with submitted.hyps(2) show ?case by simp
qed auto

lemma table_rows: "table r (JArr xs) = Some (map (\<lambda>i. r i (xs ! i)) [0..<length xs])"
proof -
  have "map (\<lambda>(i, x). r i x) (enumerate 0 xs) = map (\<lambda>i. r i (xs ! i)) [0..<length xs]"
    by (rule nth_equalityI) (simp_all add: nth_enumerate_eq)
  then show ?thesis by (simp add: table_def entries_of_def)
qed

text \<open>The list of operators that a store in step with the contract holds.\<close>

lemma getNodeOperators_entries:
  assumes "getNodeOperators C n = Inr v"
  obtains ops where "v = JArr ops" and "length ops = loop_count (to_num n)" and
    "\<And>i. i < length ops \<Longrightarrow> \<exists>info. C ''getNodeOperator'' [JInt (int i), JBool True] = Inr info \<and>
       ops ! i = JObj (obj_set ''id'' (JInt (int i)) (own_props info))"
proof -
  from assms obtain ops where v: "v = JArr ops" and ops: "mapR (\<lambda>i. bindR (C ''getNodeOperator'' [JInt (int i), JBool True])
      (\<lambda>info. Inr (JObj (obj_set ''id'' (JInt (int i)) (own_props info))))) [0..<loop_count (to_num n)] = Inr ops"
    unfolding getNodeOperators_def by (auto simp: bindR_eq_Inr)
  from ops show thesis
    by (intro that [OF v]) (auto simp: mapR_eq_Inr list_all2_conv_all_nth bindR_eq_Inr)
qed

lemma currentUser_first:
  assumes "\<And>i. i < length ops \<Longrightarrow> obj_get (ops ! i) ''id'' = JInt (int i)" and "i < length ops"
  shows "strict_eq (currentUserOperatorId ops account) (JInt (int i)) \<longleftrightarrow>
    strict_eq (obj_get (ops ! i) ''rewardAddress'') account \<and>
    list_all (\<lambda>op. \<not> strict_eq (obj_get op ''rewardAddress'') account) (take i ops)"
proof (cases "find (\<lambda>op. strict_eq (obj_get op ''rewardAddress'') account) ops")
  case None
  then have "currentUserOperatorId ops account = JInt (- 1)" by (simp add: currentUserOperatorId_def)
  then have "\<not> strict_eq (currentUserOperatorId ops account) (JInt (int i))" by (simp add: strict_eq_def)
  moreover from None assms(2) have "\<not> strict_eq (obj_get (ops ! i) ''rewardAddress'') account"
    by (auto simp: find_None_iff)
  ultimately show ?thesis by simp
next
  case (Some op)
  then obtain k where k: "k < length ops" "op = ops ! k" "strict_eq (obj_get (ops ! k) ''rewardAddress'') account"
    "\<And>j. j < k \<Longrightarrow> \<not> strict_eq (obj_get (ops ! j) ''rewardAddress'') account"
    by (auto simp: find_Some_iff)
  have "strict_eq (currentUserOperatorId ops account) (JInt (int i)) \<longleftrightarrow> k = i"
    using Some k(1,2) assms(1) [of k] by (simp add: currentUserOperatorId_def strict_eq_def)
  moreover have "k = i \<longleftrightarrow> strict_eq (obj_get (ops ! i) ''rewardAddress'') account \<and>
      list_all (\<lambda>op. \<not> strict_eq (obj_get op ''rewardAddress'') account) (take i ops)"
    using k(1,3,4) assms(2) by (auto simp: list_all_length not_less [symmetric]) (metis linorder_neqE_nat)
  ultimately show ?thesis by simp
qed

lemma registryPage_rows:
  assumes "field s ''nodeOperators'' = JArr ops"
  obtains p where "registryPage account s = Inr p" and "rg_menus p = Some (map operatorMenu ops)"
    and "rg_operators p = Some (map (\<lambda>i. operatorRow
           (currentUserOperatorId (map own_props ops) account) (ops ! i)) [0..<length ops])"
    and "rg_boxes p = [(''Number of operators'', jsx_text (field s ''nodeOperatorsCount'')),
           (''Number of Active operators'', jsx_text (field s ''activeNodeOperatorsCount''))]"
  using assms by (auto simp: registryPage_def entries_of_def Let_def table_rows)

section \<open>Properties\<close>

text \<open>
  the registry's form for a new operator never submits anything, whatever is typed into its
  two fields and however often it is sent, because its schema asks for a limit, which the form does
  not render; the validation library does not take the empty string for a number.
\<close>

theorem add_operator_never_submits:
  assumes "\<not> yp_number Y (JStr [])" and "form_session (addOperatorPanel Y) acts values calls"
  shows "calls = []"
  using assms(2)
  by (rule form_session_blocked [where name = "''limit''"])
    (simp_all add: addOperatorPanel_def addOperatorValid_def rendered_def text_field_def assms(1))


definition strict_yup :: yup where
  "strict_yup = \<lparr>yp_number = (\<lambda>v. to_num v \<noteq> NaN \<and> v \<noteq> JStr []), yp_required = (\<lambda>v. v \<noteq> JStr []),
     yp_min = (\<lambda>_ _. True), yp_max = (\<lambda>_ _. True), yp_integer = (\<lambda>_. True), yp_positive = (\<lambda>_. True),
     yp_string = (\<lambda>_. True)\<rparr>"

theorem add_operator_never_submits_witness:
  "\<exists>values calls. form_session (addOperatorPanel strict_yup)
     [Submit, Edit ''name'' (JStr ''n'')] values calls \<and> calls = []"
proof -
  let ?P = "addOperatorPanel strict_yup"
  have nan: "\<not> yp_number strict_yup (JStr [])" by (simp add: strict_yup_def)
  have "form_session ?P [] (fp_initial ?P) []" by (rule form_session.shown)
  moreover have "rendered ?P ''name''" by code_simp
  ultimately have "form_session ?P [Edit ''name'' (JStr ''n'')] (obj_set ''name'' (JStr ''n'') (fp_initial ?P)) []"
    by (rule form_session.edited)
  moreover have "fp_valid ?P (obj_set ''name'' (JStr ''n'') (fp_initial ?P)) \<noteq> Inr True"
    by (simp add: addOperatorPanel_def addOperatorValid_def nan)
  ultimately have "form_session ?P [Submit, Edit ''name'' (JStr ''n'')]
      (obj_set ''name'' (JStr ''n'') (fp_initial ?P)) []"
    by (rule form_session.refused)
  with add_operator_never_submits [OF nan this] show ?thesis by blast
qed




text \<open>
  every page renders before its script has reduced anything: it shows that it is syncing, no
  operator, member or version, and every number of the Lido page as loading.
\<close>

theorem pages_first_paint:
  "(\<exists>p. registryPage account (registryFront JNull) = Inr p \<and> rg_syncing p \<and> rg_operators p = Some []) \<and>
   (\<exists>p. oraclePage EtherSymbol formatEther currentApp (oracleFront JNull) = Inr p \<and> og_syncing p \<and>
      og_members p = Some [] \<and> og_variants p = Some [] \<and> og_version p = None \<and> length (og_boxes p) = 2) \<and>
   (\<exists>p. lidoPage EtherSymbol bn ellipsis currentApp (lidoFront JNull) = Inr p \<and> lg_syncing p \<and>
      list_all (\<lambda>(label, c). c = Amount Loading) (lg_beacon p @ lg_staking p))"
  by (simp add: registryPage_def registryFront_def oraclePage_def oracleFront_def lidoPage_def lidoFront_def
      destructured_def not_nullish_def field_def entries_of_def table_def Let_def renderCurrentFrame_def
      renderLastCompletedReportDelta_def beaconStats_def stakingLimitState_def opt_field_def loadableCell_def
      yesNo_def showEther_def showRestorationRate_def)

end
