(* ===== verification/FormSessions.thy ===== *)
theory FormSessions
  imports AppViews
begin

text \<open>
  What the forms of the three front ends can send, whatever is typed and however often a form is sent.
  A form keeps its promise when each submission of values it accepts does; fields that are not
  rendered still have their initial values.
\<close>

section \<open>The contract of a form\<close>

definition untouched :: "form_panel \<Rightarrow> props \<Rightarrow> bool" where
  "untouched P vs \<longleftrightarrow> (\<forall>name. rendered P name \<or> obj_get vs name = obj_get (fp_initial P) name)"

lemma form_session_untouched: "form_session P acts values calls \<Longrightarrow> untouched P values"
  unfolding untouched_def using form_session_unrendered by blast

locale guarded_form =
  fixes P :: form_panel and promise :: "api_call \<Rightarrow> bool"
  assumes accepted_kept: "untouched P vs \<Longrightarrow> fp_valid P vs = Inr True \<Longrightarrow> fp_submit P vs = Inr c \<Longrightarrow> promise c"
begin

lemma session_kept: "form_session P acts values calls \<Longrightarrow> list_all promise calls"
proof (induction rule: form_session.induct)
  case (submitted acts vs calls c)
  from accepted_kept [OF form_session_untouched [OF submitted.hyps(1)] submitted.hyps(2,3)] submitted.IH
  show ?case by simp
qed simp_all

end

section \<open>The forms of the Lido app\<close>

text \<open>A percentage with at most two decimals, sent as basis points.\<close>

definition percentCall :: "string \<Rightarrow> api_call \<Rightarrow> bool" where
  "percentCall m c \<longleftrightarrow> fst c = m \<and> (\<exists>v. percentTest v \<and> snd c = [JNum (toBasisPoints (to_num v))])"

interpretation fee_form: guarded_form "feePanel Y" "percentCall ''setFee''" for Y
  by unfold_locales (auto simp: feePanel_def percentSchema_def feeSubmit_def percentCall_def)

interpretation el_limit_form: guarded_form "elLimitPanel Y" "percentCall ''setELRewardsWithdrawalLimit''" for Y
  by unfold_locales (auto simp: elLimitPanel_def percentSchema_def elLimitSubmit_def percentCall_def)

text \<open>\<open>new BN\<close> reads a decimal text as its number.\<close>

definition readsDecimals :: "(jsval \<Rightarrow> int res) \<Rightarrow> bool" where
  "readsDecimals bn \<longleftrightarrow> (\<forall>k. bn (JInt k) = Inr k \<and> bn (JStr (dec_int k)) = Inr k)"

definition wholeSplit :: "(jsval \<Rightarrow> int res) \<Rightarrow> api_call \<Rightarrow> bool" where
  "wholeSplit bn c \<longleftrightarrow> fst c = ''setFeeDistribution'' \<and>
     (\<exists>x y z a b d. snd c = [JNum x, JNum y, JNum z] \<and> bn (JNum x) = Inr a \<and> bn (JNum y) = Inr b \<and> bn (JNum z) = Inr d \<and>
        (\<not> readsDecimals bn \<or> a + b + d = 10000))"

lemma distribution_accepted:
  assumes "feeDistributionValid Y bn t i op = Inr True"
  shows "wholeSplit bn (feeDistributionSubmit t i op)"
proof -
  from assms have "feeTotalTest bn op i t = Inr True"
    by (auto simp: feeDistributionValid_def split: if_splits)
  then obtain a b d where bn: "bn (JNum (toBasisPoints (to_num op))) = Inr d" "bn (JNum (toBasisPoints (to_num i))) = Inr b"
    "bn (JNum (toBasisPoints (to_num t))) = Inr a"
    and total: "bindR (bn (JStr (sum3 d b a))) (\<lambda>tot. bindR (bn (JInt 10000)) (\<lambda>tenk. Inr (tot = tenk))) = Inr True"
    by (auto simp: feeTotalTest_def Let_def sumNums_def bindR_eq_Inr)
  have "a + b + d = 10000" if "readsDecimals bn"
  proof -
    from that have "bn (JStr (sum3 d b a)) = Inr (d + b + a)" "bn (JInt 10000) = Inr 10000"
      unfolding readsDecimals_def sum3_def by blast+
    with total show ?thesis by simp
  qed
  with bn show ?thesis by (auto simp: wholeSplit_def feeDistributionSubmit_def Let_def)
qed

lemma distribution_fields:
  "fp_valid (feeDistributionPanel Y bn) vs =
     feeDistributionValid Y bn (obj_get vs ''treasury'') (obj_get vs ''insurance'') (obj_get vs ''operators'')"
  "fp_submit (feeDistributionPanel Y bn) vs =
     Inr (feeDistributionSubmit (obj_get vs ''treasury'') (obj_get vs ''insurance'') (obj_get vs ''operators''))"
  by (simp_all add: feeDistributionPanel_def)

interpretation distribution_form: guarded_form "feeDistributionPanel Y bn" "wholeSplit bn" for Y bn
  by unfold_locales (metis Inr_inject distribution_accepted distribution_fields)

interpretation vault_form: guarded_form "vaultPanel Y isAddress" "\<lambda>c. \<exists>v. isAddress v \<and> c = (''setELRewardsVault'', [v])" for Y isAddress
  by unfold_locales (auto simp: vaultPanel_def vaultValid_def vaultSubmit_def)

interpretation credentials_form: guarded_form "credentialsPanel Y"
  "\<lambda>c. \<exists>v. credentialsTest v \<and> c = (''setWithdrawalCredentials'', [v])" for Y
  by unfold_locales (auto simp: credentialsPanel_def credentialsValid_def credentialsSubmit_def)

section \<open>The forms of the oracle app\<close>

interpretation member_form: guarded_form "addMemberPanel Y" "\<lambda>c. \<exists>v. addressValid Y v \<and> c = (''addOracleMember'', [v])" for Y
  by unfold_locales (auto simp: addMemberPanel_def)

interpretation quorum_form: guarded_form "changeQuorumPanel Y" "\<lambda>c. \<exists>v. quorumValid Y v \<and> c = (''setQuorum'', [v])" for Y
  by unfold_locales (auto simp: changeQuorumPanel_def)

interpretation receiver_form: guarded_form "reportReceiverPanel Y"
  "\<lambda>c. \<exists>v. addressValid Y v \<and> c = (''setBeaconReportReceiver'', [v])" for Y
  by unfold_locales (auto simp: reportReceiverPanel_def)

interpretation increase_form: guarded_form "changeIncreasePanel Y" "\<lambda>c. \<exists>v. changeSchema Y v \<and> c = changeIncreaseSubmit v" for Y
  by unfold_locales (auto simp: changeIncreasePanel_def)

interpretation decrease_form: guarded_form "changeDecreasePanel Y" "\<lambda>c. \<exists>v. changeSchema Y v \<and> c = changeDecreaseSubmit v" for Y
  by unfold_locales (auto simp: changeDecreasePanel_def)

section \<open>The forms of the registry app\<close>

interpretation operator_form: guarded_form "addOperatorPanel Y" "\<lambda>c. yp_number Y (JStr [])" for Y
  by unfold_locales
    (auto simp: untouched_def rendered_def addOperatorPanel_def addOperatorValid_def text_field_def
      elim!: allE [of _ "''limit''"])

interpretation limit_form: guarded_form "changeLimitPanel Y op"
  "\<lambda>c. \<exists>v. limitValid Y v \<and> c = (''setNodeOperatorStakingLimit'', [op, v])" for Y op
  by unfold_locales (auto simp: changeLimitPanel_def)

text \<open>A call with distinct keys and signatures, as many as it announces and within the limit.\<close>

definition keysCall :: "jsval \<Rightarrow> jsval \<Rightarrow> api_call \<Rightarrow> bool" where
  "keysCall skLimit operatorId c \<longleftrightarrow> fst c = ''addSigningKeys'' \<and>
     (\<exists>pks sgs. distinct pks \<and> distinct sgs \<and> length sgs = length pks \<and> pks \<noteq> [] \<and>
        list_all (\<lambda>p. length p = 96) pks \<and> list_all (\<lambda>s. length s = 192) sgs \<and>
        \<not> num_gt (Fin (of_nat (length pks))) (to_num (LIMIT skLimit)) \<and>
        snd c = [operatorId, JInt (int (length pks)), JStr (''0x'' @ concat pks), JStr (''0x'' @ concat sgs)])"

lemma keys_accepted:
  assumes "basicTest (LIMIT skLimit) json = Passes" and "formatJsonData json = Inr (n, pubkeys, signatures)"
  shows "keysCall skLimit op (''addSigningKeys'', [op, JInt (int n), JStr pubkeys, JStr signatures])"
proof (cases rule: passed_keys [OF assms(1)])
  case (1 data pks sgs)
  have "pks \<noteq> []" using 1(2,5) by auto
  moreover have "n = length pks" "pubkeys = ''0x'' @ concat pks" "signatures = ''0x'' @ concat sgs"
    using 1(5,12) assms(2) by simp_all
  ultimately show ?thesis using 1(3,5-7,9-11) unfolding keysCall_def
    by (intro conjI exI [of _ pks] exI [of _ sgs]) simp_all
qed

lemma signing_fields:
  "fp_valid (signingKeysPanel Y skLimit parse subgraph verifier endpoints op) vs =
     signingKeysValid Y skLimit parse subgraph verifier vs"
  "fp_submit (signingKeysPanel Y skLimit parse subgraph verifier endpoints op) vs =
     bindR (formatJsonData (parse (obj_get vs ''json''))) (\<lambda>(quantity, pubkeys, signatures).
        Inr (''addSigningKeys'', [op, JInt (int quantity), JStr pubkeys, JStr signatures]))"
  by (simp_all add: signingKeysPanel_def)

lemma signingKeysValid_basic:
  "signingKeysValid Y skLimit parse subgraph verifier vs = Inr True \<Longrightarrow> basicTest (LIMIT skLimit) (parse (obj_get vs ''json'')) = Passes"
  by (auto simp: signingKeysValid_def Let_def split: verdict.splits)

interpretation signing_form: guarded_form "signingKeysPanel Y skLimit parse subgraph verifier endpoints op" "keysCall skLimit op"
  for Y skLimit parse subgraph verifier endpoints op
proof unfold_locales
  fix vs c
  assume "fp_valid (signingKeysPanel Y skLimit parse subgraph verifier endpoints op) vs = Inr True"
    and "fp_submit (signingKeysPanel Y skLimit parse subgraph verifier endpoints op) vs = Inr c"
  then obtain n pubkeys signatures where "basicTest (LIMIT skLimit) (parse (obj_get vs ''json'')) = Passes"
    "formatJsonData (parse (obj_get vs ''json'')) = Inr (n, pubkeys, signatures)"
    "c = (''addSigningKeys'', [op, JInt (int n), JStr pubkeys, JStr signatures])"
    using signingKeysValid_basic unfolding signing_fields bindR_eq_Inr by fastforce
  then show "keysCall skLimit op c" using keys_accepted by blast
qed

text \<open>Without the two service addresses the check box is never rendered, and the services do not matter.\<close>

lemma unticked:
  "form_session (signingKeysPanel Y skLimit parse subgraph verifier False op) acts values calls \<Longrightarrow>
     obj_get values ''useAdvancedV8n'' = JBool False"
  by (drule form_session_unrendered [where name = "''useAdvancedV8n''"])
    (simp_all add: rendered_def signingKeysPanel_def text_field_def)

lemma signingKeysValid_unticked:
  "obj_get vs ''useAdvancedV8n'' = JBool False \<Longrightarrow>
     signingKeysValid Y skLimit parse subgraph verifier vs = signingKeysValid Y skLimit parse subgraph' verifier' vs"
  by (simp add: signingKeysValid_def advancedTest_def Let_def)

lemma services_unused:
  "form_session (signingKeysPanel Y skLimit parse subgraph verifier False op) acts values calls \<Longrightarrow>
     form_session (signingKeysPanel Y skLimit parse subgraph' verifier' False op) acts values calls"
proof (induction rule: form_session.induct)
  case shown
  then show ?case
    using form_session.shown [of "signingKeysPanel Y skLimit parse subgraph' verifier' False op"]
    by (simp add: signingKeysPanel_def)
next
  case (edited acts vs calls name v)
  then show ?case by (intro form_session.edited) (simp_all add: rendered_def signingKeysPanel_def)
next
  case (submitted acts vs calls c)
  then show ?case
    by (intro form_session.submitted)
      (simp_all add: signing_fields signingKeysValid_unticked [OF unticked [OF submitted.hyps(1)], of Y skLimit parse subgraph' verifier' subgraph verifier])
next
  case (refused acts vs calls)
  then show ?case
    by (intro form_session.refused)
      (simp_all add: signing_fields signingKeysValid_unticked [OF unticked [OF refused.hyps(1)], of Y skLimit parse subgraph' verifier' subgraph verifier])
next
  case (crashed acts vs calls e)
  then show ?case
    by (intro form_session.crashed)
      (simp_all add: signing_fields signingKeysValid_unticked [OF unticked [OF crashed.hyps(1)], of Y skLimit parse subgraph' verifier' subgraph verifier])
qed

section \<open>Properties\<close>

text \<open>
  C36: whatever is typed into the fee distribution form and however often it is sent, each call sets the
  distribution to three numbers that the contract's encoder reads as whole basis points adding up to
  10000.
\<close>

theorem distribution_sessions:
  assumes "form_session (feeDistributionPanel Y bn) acts values calls" and "readsDecimals bn"
  shows "list_all (\<lambda>(m, args). m = ''setFeeDistribution'' \<and> length args = 3 \<and>
    (\<exists>ks. mapR bn args = Inr ks \<and> sum_list ks = 10000)) calls"
proof -
  have "list_all (wholeSplit bn) calls" using assms(1) by (rule distribution_form.session_kept)
  then show ?thesis
    using assms(2) by (fastforce simp: wholeSplit_def list_all_iff)
qed

text \<open>
  C23: whatever is typed into the signing key form and however often it is sent, each call adds, to the
  operator the panel was opened for, as many keys as it announces, all different, at most the limit, each with
  its own signature and of the lengths the contract expects; and when the service addresses are not
  configured, no answer of the services changes what the form does.
\<close>

theorem signing_key_sessions:
  assumes "form_session (signingKeysPanel Y skLimit parse subgraph verifier endpoints op) acts values calls"
  shows "list_all (keysCall skLimit op) calls \<and>
    (endpoints \<or> form_session (signingKeysPanel Y skLimit parse subgraph' verifier' endpoints op) acts values calls)"
  using signing_form.session_kept [OF assms] services_unused assms by (cases endpoints) auto

text \<open>A parser of decimal texts, to run the forms with.\<close>

definition sample_bn :: "jsval \<Rightarrow> int res" where
  "sample_bn v = (case v of
     JNum (Fin q) \<Rightarrow> Inr \<lfloor>q\<rfloor>
   | JStr s \<Rightarrow> (case parse_nat s of
       Some n \<Rightarrow> Inr n
     | None \<Rightarrow> (case parse_nat (tl s) of Some n \<Rightarrow> Inr (- n) | None \<Rightarrow> Inl (Error ''invalid'')))
   | _ \<Rightarrow> Inl (Error ''invalid''))"

lemma sample_bn_reads: "readsDecimals sample_bn"
proof -
  have "sample_bn (JStr (dec_int k)) = Inr k" for k
  proof (cases "0 \<le> k")
    case True
    then show ?thesis by (simp add: sample_bn_def parse_nat_dec_int)
  next
    case False
    then have d: "dec_int k = CHR ''-'' # dec_int (- k)" by (simp add: dec_int_def)
    have "parse_nat (dec_int k) = None" by (simp add: d parse_nat_def digit_val_def)
    moreover have "parse_nat (dec_int (- k)) = Some (- k)" using False by (simp add: parse_nat_dec_int)
    ultimately show ?thesis by (simp add: sample_bn_def d)
  qed
  then show ?thesis by (simp add: readsDecimals_def sample_bn_def)
qed

theorem distribution_sessions_witness:
  "\<exists>values c. form_session (feeDistributionPanel strict_yup sample_bn)
     [Submit, Edit ''operators'' (JStr ''49.43''), Edit ''insurance'' (JStr ''50''), Edit ''treasury'' (JStr ''0.57'')]
     values [c] \<and> (\<exists>ks. mapR sample_bn (snd c) = Inr ks \<and> sum_list ks = 10000)"
proof -
  let ?P = "feeDistributionPanel strict_yup sample_bn"
  let ?acts = "[Submit, Edit ''operators'' (JStr ''49.43''), Edit ''insurance'' (JStr ''50''), Edit ''treasury'' (JStr ''0.57'')]"
  let ?vs = "[(''treasury'', JStr ''0.57''), (''insurance'', JStr ''50''), (''operators'', JStr ''49.43'')]"
  have typed: "form_session ?P [Edit ''operators'' (JStr ''49.43''), Edit ''insurance'' (JStr ''50''), Edit ''treasury'' (JStr ''0.57'')]
      (obj_set ''operators'' (JStr ''49.43'') (obj_set ''insurance'' (JStr ''50'') (obj_set ''treasury'' (JStr ''0.57'') (fp_initial ?P)))) []"
    by (intro form_session.edited form_session.shown)
      (simp_all add: rendered_def feeDistributionPanel_def number_field_def)
  have "obj_set ''operators'' (JStr ''49.43'') (obj_set ''insurance'' (JStr ''50'') (obj_set ''treasury'' (JStr ''0.57'') (fp_initial ?P))) = ?vs"
    by (simp add: feeDistributionPanel_def)
  with typed have "form_session ?P [Edit ''operators'' (JStr ''49.43''), Edit ''insurance'' (JStr ''50''), Edit ''treasury'' (JStr ''0.57'')] ?vs []"
    by simp
  moreover have "fp_valid ?P ?vs = Inr True" by code_simp
  moreover obtain c where "fp_submit ?P ?vs = Inr c" by (simp add: feeDistributionPanel_def)
  ultimately have sent: "form_session ?P ?acts ?vs [c]" by (rule form_session.submitted)
  from distribution_sessions [OF this sample_bn_reads]
  have "\<exists>ks. mapR sample_bn (snd c) = Inr ks \<and> sum_list ks = 10000" by (cases c) simp
  with sent show ?thesis by blast
qed

definition sample_file :: "jsval \<Rightarrow> fcontent" where
  "sample_file v = JsonText (JArr [sample_key (CHR ''a''), sample_key (CHR ''b'')])"

theorem signing_key_sessions_witness:
  "\<exists>values calls. form_session (signingKeysPanel strict_yup JUndef sample_file (\<lambda>_. Inr JUndef) (\<lambda>_. Inr JUndef) False (JStr ''1''))
     [Submit, Edit ''json'' (JStr ''keys'')] values calls \<and> length calls = 1 \<and> list_all (keysCall JUndef (JStr ''1'')) calls"
proof -
  let ?P = "signingKeysPanel strict_yup JUndef sample_file (\<lambda>_. Inr JUndef) (\<lambda>_. Inr JUndef) False (JStr ''1'')"
  let ?vs = "[(''json'', JStr ''keys''), (''useAdvancedV8n'', JBool False)]"
  have "form_session ?P [Edit ''json'' (JStr ''keys'')] (obj_set ''json'' (JStr ''keys'') (fp_initial ?P)) []"
    by (intro form_session.edited form_session.shown) (simp add: rendered_def signingKeysPanel_def text_field_def)
  then have "form_session ?P [Edit ''json'' (JStr ''keys'')] ?vs []" by (simp add: signingKeysPanel_def)
  moreover have "fp_valid ?P ?vs = Inr True" by code_simp
  moreover have "\<not> isl (fp_submit ?P ?vs)" by code_simp
  then obtain c where "fp_submit ?P ?vs = Inr c" by (cases "fp_submit ?P ?vs") simp_all
  ultimately have "form_session ?P [Submit, Edit ''json'' (JStr ''keys'')] ?vs [c]" by (rule form_session.submitted)
  from this signing_key_sessions [OF this] show ?thesis by (metis length_Cons list.size(3) One_nat_def)
qed

end
