(* ===== verification/AclChecks.thy ===== *)
theory AclChecks
  imports ScriptHelpers
begin

text \<open>
  scripts/helpers/aragon.js and scripts/multisig/checks/apm.js: reconstructing who holds an Aragon
  permission from the access-control list's event log, and the role assertions built on it.  Events
  returned by web3 always carry their \<open>args\<close>.
\<close>

section \<open>Grantees from the event log\<close>

definition normalizeBytes :: "jsval \<Rightarrow> string" where
  "normalizeBytes s = to_lower (to_str s)"

definition isSetPermission :: "string \<Rightarrow> string \<Rightarrow> jsval \<Rightarrow> bool" where
  "isSetPermission appAddress permission evt \<longleftrightarrow>
     evt_field evt ''event'' = JStr ''SetPermission'' \<and>
     normalizeBytes (evt_arg evt ''app'') = appAddress \<and>
     normalizeBytes (evt_arg evt ''role'') = permission"

definition evtEntity :: "jsval \<Rightarrow> string" where
  "evtEntity evt = normalizeBytes (evt_arg evt ''entity'')"

definition finalPermissionsByEntity :: "jsval list \<Rightarrow> props" where
  "finalPermissionsByEntity evts = fold (\<lambda>evt acc. obj_set (evtEntity evt) (evt_arg evt ''allowed'') acc) evts []"

definition getAllGrantees :: "string \<Rightarrow> string \<Rightarrow> jsval list \<Rightarrow> string list" where
  "getAllGrantees app permission allAclEvents =
     (let appAddress = normalizeBytes (JStr app);
          setPermissionEvts = filter (isSetPermission appAddress permission) allAclEvents;
          final = finalPermissionsByEntity setPermissionEvts
      in filter (\<lambda>entity. truthy (obj_get final entity)) (map fst final))"

section \<open>Role assertions\<close>

definition getAllAclEvents :: "env \<Rightarrow> string \<Rightarrow> jsval \<Rightarrow> jsval list res" where
  "getAllAclEvents E acl fromBlock = past_events E acl ''allEvents'' (defaultFromBlock fromBlock)"

definition aclEventsOr :: "env \<Rightarrow> string \<Rightarrow> jsval \<Rightarrow> jsval list option \<Rightarrow> jsval list res" where
  "aclEventsOr E acl fromBlock allAclEvents =
     (case allAclEvents of Some evts \<Rightarrow> Inr evts | None \<Rightarrow> getAllAclEvents E acl fromBlock)"

record role_check =
  rc_roleName :: string
  rc_acl :: string
  rc_app :: string
  rc_manager :: jsval
  rc_grantee :: jsval
  rc_onlyGrantee :: bool
  rc_events :: "jsval list option"

definition granteeList :: "jsval \<Rightarrow> jsval list" where
  "granteeList granteeAddress = (case granteeAddress of JArr gs \<Rightarrow> gs | g \<Rightarrow> [g])"

definition assertRole :: "env \<Rightarrow> role_check \<Rightarrow> jsval \<Rightarrow> unit res" where
  "assertRole E c fromBlock =
     bindR (assertR (rc_manager c \<noteq> JUndef \<or> rc_grantee c \<noteq> JUndef)) (\<lambda>_.
     bindR (call_view E (rc_app c) (rc_roleName c) []) (\<lambda>role.
     let permission = normalizeBytes role
     in bindR (call_view E (rc_acl c) ''getPermissionManager'' [JStr (rc_app c), JStr permission]) (\<lambda>actualManager.
        bindR (if rc_manager c \<noteq> JUndef then assert_addressEqual E actualManager (rc_manager c) else Inr ()) (\<lambda>_.
        if rc_grantee c = JUndef then Inr ()
        else bindR (forR (\<lambda>grantee.
                 bindR (call_view E (rc_acl c) ''hasPermission'' [grantee, JStr (rc_app c), JStr permission])
                   assert_isTrue) (granteeList (rc_grantee c))) (\<lambda>_.
             if rc_onlyGrantee c
             then bindR (aclEventsOr E (rc_acl c) fromBlock (rc_events c)) (\<lambda>evts.
                  assertR (same_members (getAllGrantees (rc_app c) permission evts)
                             (map normalizeBytes (granteeList (rc_grantee c)))))
             else Inr ())))))"

definition assertMissingRole :: "env \<Rightarrow> string \<Rightarrow> string \<Rightarrow> string \<Rightarrow> jsval list option \<Rightarrow> jsval \<Rightarrow> unit res" where
  "assertMissingRole E roleName acl app allAclEvents fromBlock =
     bindR (call_view E app roleName []) (\<lambda>role.
     let permission = normalizeBytes role
     in bindR (call_view E acl ''getPermissionManager'' [JStr app, JStr permission]) (\<lambda>managerAddress.
        bindR (assert_equal managerAddress (JStr ZERO_ADDR)) (\<lambda>_.
        bindR (aclEventsOr E acl fromBlock allAclEvents) (\<lambda>evts.
        assertR (getAllGrantees app permission evts = [])))))"

definition readAppName :: "env \<Rightarrow> string \<Rightarrow> string \<Rightarrow> jsval res" where
  "readAppName E appRoot netName =
     bindR (read_json E (path_resolve E appRoot ''arapp.json'')) (\<lambda>arapp.
     bindR (getp arapp ''environments'') (\<lambda>environments.
     if \<not> truthy environments then Inr JNull
     else if truthy (obj_get (own_props environments) netName)
     then Inr (obj_get (own_props (obj_get (own_props environments) netName)) ''appName'')
     else (let name = obj_get (own_props (obj_get (own_props environments) ''default'')) ''appName''
           in Inr (if truthy name then name else JNull))))"

section \<open>checks/apm.js\<close>

definition assertAPMRegistryPermissions ::
  "env \<Rightarrow> string \<Rightarrow> string \<Rightarrow> string \<Rightarrow> string \<Rightarrow> jsval \<Rightarrow> jsval \<Rightarrow> unit res" where
  "assertAPMRegistryPermissions E registry registrar registryACL registryKernel rootAddress fromBlock =
     bindR (past_events E registryACL ''allEvents'' (defaultFromBlock fromBlock)) (\<lambda>allAclEvents.
     seqR
       [assertRole E \<lparr>rc_roleName = ''CREATE_REPO_ROLE'', rc_acl = registryACL, rc_app = registry,
          rc_manager = rootAddress, rc_grantee = rootAddress, rc_onlyGrantee = True,
          rc_events = Some allAclEvents\<rparr> fromBlock,
        assertRole E \<lparr>rc_roleName = ''APP_MANAGER_ROLE'', rc_acl = registryACL, rc_app = registryKernel,
          rc_manager = rootAddress, rc_grantee = JUndef, rc_onlyGrantee = False,
          rc_events = None\<rparr> fromBlock,
        assertRole E \<lparr>rc_roleName = ''CREATE_PERMISSIONS_ROLE'', rc_acl = registryACL, rc_app = registryACL,
          rc_manager = rootAddress, rc_grantee = JArr [rootAddress, JStr registry], rc_onlyGrantee = True,
          rc_events = Some allAclEvents\<rparr> fromBlock,
        assertRole E \<lparr>rc_roleName = ''CREATE_NAME_ROLE'', rc_acl = registryACL, rc_app = registrar,
          rc_manager = rootAddress, rc_grantee = JStr registry, rc_onlyGrantee = True,
          rc_events = Some allAclEvents\<rparr> fromBlock,
        assertRole E \<lparr>rc_roleName = ''POINT_ROOTNODE_ROLE'', rc_acl = registryACL, rc_app = registrar,
          rc_manager = rootAddress, rc_grantee = JStr registry, rc_onlyGrantee = True,
          rc_events = Some allAclEvents\<rparr> fromBlock,
        assertMissingRole E ''DELETE_NAME_ROLE'' registryACL registrar (Some allAclEvents) fromBlock])"

section \<open>The abstract permission state\<close>

text \<open>
  The specification: the permission of an entity is the \<open>allowed\<close> flag of the last
  \<open>SetPermission\<close> event for it, and no permission without one.
\<close>

definition concerns :: "string \<Rightarrow> string \<Rightarrow> string \<Rightarrow> jsval \<Rightarrow> bool" where
  "concerns app permission entity evt \<longleftrightarrow>
     evt_field evt ''event'' = JStr ''SetPermission'' \<and>
     to_lower (to_str (evt_arg evt ''app'')) = to_lower app \<and>
     to_lower (to_str (evt_arg evt ''role'')) = permission \<and>
     to_lower (to_str (evt_arg evt ''entity'')) = entity"

definition lastPermission :: "string \<Rightarrow> string \<Rightarrow> jsval list \<Rightarrow> string \<Rightarrow> jsval option" where
  "lastPermission app permission evts entity =
     (let mine = filter (concerns app permission entity) evts
      in if mine = [] then None else Some (evt_arg (last mine) ''allowed''))"

definition holdsPermission :: "string \<Rightarrow> string \<Rightarrow> jsval list \<Rightarrow> string \<Rightarrow> bool" where
  "holdsPermission app permission evts entity =
     (case lastPermission app permission evts entity of None \<Rightarrow> False | Some allowed \<Rightarrow> truthy allowed)"

text \<open>The holders of a role by an event log: the entities listed, and no other.\<close>

definition holdersAre :: "env \<Rightarrow> jsval list \<Rightarrow> string \<Rightarrow> string \<Rightarrow> string list \<Rightarrow> bool" where
  "holdersAre E evts app roleName es =
     (case call_view E app roleName [] of
        Inl _ \<Rightarrow> False
      | Inr role \<Rightarrow> (\<forall>e. holdsPermission app (normalizeBytes role) evts e \<longleftrightarrow> e \<in> set es))"

lemma concerns_iff:
  "concerns app permission entity = (\<lambda>evt. isSetPermission (normalizeBytes (JStr app)) permission evt \<and> evtEntity evt = entity)"
  by (auto simp: fun_eq_iff concerns_def isSetPermission_def evtEntity_def normalizeBytes_def)

lemma map_of_final:
  "map_of (finalPermissionsByEntity evts) e =
     (let mine = filter (\<lambda>evt. evtEntity evt = e) evts
      in if mine = [] then None else Some (evt_arg (last mine) ''allowed''))"
  unfolding finalPermissionsByEntity_def
proof (induction evts rule: rev_induct)
  case (snoc x xs)
  then show ?case by (auto simp: Let_def)
qed simp

lemma distinct_final: "distinct (map fst (finalPermissionsByEntity evts))"
  unfolding finalPermissionsByEntity_def
proof (induction evts rule: rev_induct)
  case (snoc x xs)
  then show ?case by (simp add: distinct_obj_set)
qed simp

lemma map_of_final_filter:
  "map_of (finalPermissionsByEntity (filter (isSetPermission (normalizeBytes (JStr app)) perm) evts)) e =
     lastPermission app perm evts e"
  by (simp add: map_of_final lastPermission_def concerns_iff Let_def conj_commute)

lemma set_getAllGrantees: "e \<in> set (getAllGrantees app perm evts) \<longleftrightarrow> holdsPermission app perm evts e"
proof -
  let ?f = "finalPermissionsByEntity (filter (isSetPermission (normalizeBytes (JStr app)) perm) evts)"
  have "e \<in> set (getAllGrantees app perm evts) \<longleftrightarrow> e \<in> dom (map_of ?f) \<and> truthy (obj_get ?f e)"
    by (auto simp: getAllGrantees_def Let_def dom_map_of_conv_image_fst)
  also have "\<dots> \<longleftrightarrow> holdsPermission app perm evts e"
    by (auto simp: holdsPermission_def obj_get_def dom_def map_of_final_filter split: option.splits)
  finally show ?thesis .
qed

lemma distinct_getAllGrantees: "distinct (getAllGrantees app perm evts)"
  by (simp add: getAllGrantees_def Let_def distinct_final)

lemma lastPermission_snoc:
  "lastPermission app perm (evts @ [evt]) e =
     (if isSetPermission (normalizeBytes (JStr app)) perm evt \<and> evtEntity evt = e
      then Some (evt_arg evt ''allowed'') else lastPermission app perm evts e)"
  by (simp add: lastPermission_def concerns_iff Let_def)

section \<open>When the assertions pass\<close>

definition roleHolds :: "env \<Rightarrow> role_check \<Rightarrow> jsval \<Rightarrow> string \<Rightarrow> bool" where
  "roleHolds E c fromBlock permission \<longleftrightarrow>
     (\<exists>manager. call_view E (rc_acl c) ''getPermissionManager'' [JStr (rc_app c), JStr permission] = Inr manager \<and>
        (rc_manager c = JUndef \<or> same_address E manager (rc_manager c))) \<and>
     (rc_grantee c = JUndef \<or>
        list_all (\<lambda>g. call_view E (rc_acl c) ''hasPermission'' [g, JStr (rc_app c), JStr permission] = Inr (JBool True))
          (granteeList (rc_grantee c)) \<and>
        (\<not> rc_onlyGrantee c \<or>
           (\<exists>evts. aclEventsOr E (rc_acl c) fromBlock (rc_events c) = Inr evts \<and>
              mset (getAllGrantees (rc_app c) permission evts) =
                mset (map normalizeBytes (granteeList (rc_grantee c))))))"

lemma okR_view_isTrue: "okR (bindR m assert_isTrue) \<longleftrightarrow> m = Inr (JBool True)"
  by (cases m) auto

lemma okR_assertRole:
  "okR (assertRole E c fromBlock) \<longleftrightarrow>
     (rc_manager c \<noteq> JUndef \<or> rc_grantee c \<noteq> JUndef) \<and>
     (\<exists>role. call_view E (rc_app c) (rc_roleName c) [] = Inr role \<and>
        roleHolds E c fromBlock (normalizeBytes role))"
proof -
  have grantees: "okR (if rc_grantee c = JUndef then Inr () else
      bindR (forR (\<lambda>g. bindR (call_view E (rc_acl c) ''hasPermission'' [g, JStr (rc_app c), JStr p]) assert_isTrue)
              (granteeList (rc_grantee c))) (\<lambda>_.
        if rc_onlyGrantee c then bindR (aclEventsOr E (rc_acl c) fromBlock (rc_events c)) (\<lambda>evts.
             assertR (same_members (getAllGrantees (rc_app c) p evts)
                (map normalizeBytes (granteeList (rc_grantee c))))) else Inr ())) \<longleftrightarrow>
    rc_grantee c = JUndef \<or>
      list_all (\<lambda>g. call_view E (rc_acl c) ''hasPermission'' [g, JStr (rc_app c), JStr p] = Inr (JBool True))
        (granteeList (rc_grantee c)) \<and>
      (\<not> rc_onlyGrantee c \<or> (\<exists>evts. aclEventsOr E (rc_acl c) fromBlock (rc_events c) = Inr evts \<and>
         mset (getAllGrantees (rc_app c) p evts) = mset (map normalizeBytes (granteeList (rc_grantee c)))))" for p
    by (auto simp: okR_bindR okR_unit okR_view_isTrue same_members_mset)
  show ?thesis
    unfolding assertRole_def roleHolds_def grantees [symmetric]
    by (auto simp: okR_bindR Let_def okR_unit)
qed

lemma okR_assertMissingRole:
  "okR (assertMissingRole E roleName acl app evo fromBlock) \<longleftrightarrow>
     (\<exists>role manager evts. call_view E app roleName [] = Inr role \<and>
        call_view E acl ''getPermissionManager'' [JStr app, JStr (normalizeBytes role)] = Inr manager \<and>
        loose_eq manager (JStr ZERO_ADDR) \<and> aclEventsOr E acl fromBlock evo = Inr evts \<and>
        getAllGrantees app (normalizeBytes role) evts = [])"
  by (auto simp: assertMissingRole_def okR_bindR assert_equal_def Let_def)

lemma mset_getAllGrantees:
  "mset (getAllGrantees app p evts) = mset (map normalizeBytes gs) \<Longrightarrow>
   holdsPermission app p evts e \<longleftrightarrow> e \<in> normalizeBytes ` set gs"
  by (metis mset_eq_setD set_map set_getAllGrantees)

lemma assertRole_only:
  assumes "okR (assertRole E \<lparr>rc_roleName = r, rc_acl = acl, rc_app = app, rc_manager = m, rc_grantee = g,
      rc_onlyGrantee = True, rc_events = Some evts\<rparr> fromBlock)"
    and "g \<noteq> JUndef" and "call_view E app r [] = Inr role"
  shows "holdsPermission app (normalizeBytes role) evts e \<longleftrightarrow> e \<in> normalizeBytes ` set (granteeList g)"
  using assms by (auto simp: okR_assertRole roleHolds_def aclEventsOr_def mset_getAllGrantees)

lemma assertRole_holders:
  assumes "okR (assertRole E \<lparr>rc_roleName = r, rc_acl = acl, rc_app = app, rc_manager = m, rc_grantee = g,
      rc_onlyGrantee = True, rc_events = Some evts\<rparr> fromBlock)"
    and "g \<noteq> JUndef"
  shows "holdersAre E evts app r (map normalizeBytes (granteeList g))"
proof -
  from assms(1) obtain role where role: "call_view E app r [] = Inr role" by (auto simp: okR_assertRole)
  from assertRole_only [OF assms role] show ?thesis by (simp add: holdersAre_def role)
qed

lemma assertMissingRole_none:
  assumes "okR (assertMissingRole E r acl app (Some evts) fromBlock)" and "call_view E app r [] = Inr role"
  shows "\<not> holdsPermission app (normalizeBytes role) evts e"
  using assms by (auto simp: okR_assertMissingRole aclEventsOr_def simp flip: set_getAllGrantees)

lemma assertMissingRole_holders:
  assumes "okR (assertMissingRole E r acl app (Some evts) fromBlock)"
  shows "holdersAre E evts app r []"
proof -
  from assms obtain role where role: "call_view E app r [] = Inr role" by (auto simp: okR_assertMissingRole)
  from assertMissingRole_none [OF assms role] show ?thesis by (simp add: holdersAre_def role)
qed

lemma normalizeBytes_JStr [simp]: "normalizeBytes (JStr s) = to_lower s"
  by (simp add: normalizeBytes_def)

section \<open>Properties\<close>

text \<open>
  C1: \<open>getAllGrantees\<close> reconstructs the permission state exactly: it lists, once each, the
  entities whose last \<open>SetPermission\<close> event for this app and role allows them, so a revoked
  grant is not reported and a grant made again after a revocation is.
\<close>

theorem getAllGrantees_exact:
  "distinct (getAllGrantees app perm evts) \<and>
   (\<forall>e. e \<in> set (getAllGrantees app perm evts) \<longleftrightarrow> holdsPermission app perm evts e)"
  by (simp add: distinct_getAllGrantees set_getAllGrantees)

text \<open>
  C4: a passing \<open>assertRole\<close> with \<open>onlyGrantee\<close> means that, by the event log, an entity
  holds the permission if and only if it is one of the expected grantees, and that the access
  control list reports each of them as permitted.
\<close>

theorem assertRole_exclusive:
  assumes "okR (assertRole E c fromBlock)" and "rc_onlyGrantee c" and "rc_grantee c \<noteq> JUndef"
  shows "\<exists>role evts. call_view E (rc_app c) (rc_roleName c) [] = Inr role \<and>
    aclEventsOr E (rc_acl c) fromBlock (rc_events c) = Inr evts \<and>
    (\<forall>e. holdsPermission (rc_app c) (normalizeBytes role) evts e \<longleftrightarrow>
          e \<in> normalizeBytes ` set (granteeList (rc_grantee c))) \<and>
    list_all (\<lambda>g. call_view E (rc_acl c) ''hasPermission'' [g, JStr (rc_app c), JStr (normalizeBytes role)] =
        Inr (JBool True)) (granteeList (rc_grantee c))"
proof -
  from assms obtain role evts where r: "call_view E (rc_app c) (rc_roleName c) [] = Inr role"
    and evts: "aclEventsOr E (rc_acl c) fromBlock (rc_events c) = Inr evts"
    and m: "mset (getAllGrantees (rc_app c) (normalizeBytes role) evts) =
      mset (map normalizeBytes (granteeList (rc_grantee c)))"
    and h: "list_all (\<lambda>g. call_view E (rc_acl c) ''hasPermission'' [g, JStr (rc_app c), JStr (normalizeBytes role)] =
        Inr (JBool True)) (granteeList (rc_grantee c))"
    unfolding okR_assertRole roleHolds_def by blast
  from m have "set (getAllGrantees (rc_app c) (normalizeBytes role) evts) =
      normalizeBytes ` set (granteeList (rc_grantee c))"
    by (metis mset_eq_setD set_map)
  then have "\<forall>e. holdsPermission (rc_app c) (normalizeBytes role) evts e \<longleftrightarrow>
      e \<in> normalizeBytes ` set (granteeList (rc_grantee c))"
    by (simp flip: set_getAllGrantees)
  with r evts h show ?thesis by blast
qed

text \<open>A concrete access-control list: every role exists, \<open>0xc0\<close> manages it and is granted it.\<close>

definition set_permission :: "string \<Rightarrow> string \<Rightarrow> string \<Rightarrow> bool \<Rightarrow> jsval" where
  "set_permission app role entity allowed =
     JObj [(''event'', JStr ''SetPermission''),
           (''args'', JObj [(''app'', JStr app), (''role'', JStr role), (''entity'', JStr entity),
                           (''allowed'', JBool allowed)])]"

definition sample_acl_env :: env where
  "sample_acl_env = offline_env\<lparr>
     call_view := (\<lambda>a m args. Inr (if m = ''getPermissionManager''
       then (if JStr ''delete_name_role'' \<in> set args then JStr ZERO_ADDR else JStr ''0xC0'')
       else if m = ''hasPermission'' then JBool True else JStr m)),
     past_events := (\<lambda>_ _ _. Inr
       [set_permission ''0xA1'' ''create_repo_role'' ''0xD0'' True,
        set_permission ''0xA1'' ''create_repo_role'' ''0xC0'' True,
        set_permission ''0xA1'' ''create_repo_role'' ''0xD0'' False,
        set_permission ''0xAC'' ''create_permissions_role'' ''0xC0'' True,
        set_permission ''0xAC'' ''create_permissions_role'' ''0xA1'' True,
        set_permission ''0xA2'' ''create_name_role'' ''0xA1'' True,
        set_permission ''0xA2'' ''point_rootnode_role'' ''0xA1'' True])\<rparr>"

definition sample_role_check :: role_check where
  "sample_role_check = \<lparr>rc_roleName = ''CREATE_REPO_ROLE'', rc_acl = ''0xAC'', rc_app = ''0xA1'',
     rc_manager = JStr ''0xc0'', rc_grantee = JStr ''0xC0'', rc_onlyGrantee = True, rc_events = None\<rparr>"

theorem assertRole_exclusive_witness:
  "\<exists>evts. holdsPermission ''0xA1'' ''create_repo_role'' evts ''0xc0'' \<and>
     \<not> holdsPermission ''0xA1'' ''create_repo_role'' evts ''0xd0''"
proof -
  have ok: "okR (assertRole sample_acl_env sample_role_check JUndef)" by code_simp
  have "rc_onlyGrantee sample_role_check" "rc_grantee sample_role_check \<noteq> JUndef" by code_simp+
  from assertRole_exclusive [OF ok this] obtain role evts where
    r: "call_view sample_acl_env ''0xA1'' ''CREATE_REPO_ROLE'' [] = Inr role" and
    h: "\<forall>e. holdsPermission ''0xA1'' (normalizeBytes role) evts e \<longleftrightarrow> e \<in> normalizeBytes ` {JStr ''0xC0''}"
    by (auto simp: sample_role_check_def granteeList_def)
  have "call_view sample_acl_env ''0xA1'' ''CREATE_REPO_ROLE'' [] = Inr (JStr ''CREATE_REPO_ROLE'')"
    by (simp add: sample_acl_env_def)
  with r have "role = JStr ''CREATE_REPO_ROLE''" by simp
  moreover have "normalizeBytes (JStr ''CREATE_REPO_ROLE'') = ''create_repo_role''"
    "normalizeBytes (JStr ''0xC0'') = ''0xc0''" by code_simp+
  moreover note h [rule_format, of "''0xc0''"] h [rule_format, of "''0xd0''"]
  ultimately show ?thesis by (intro exI [of _ evts]) simp
qed

text \<open>
  \<open>assertMissingRole\<close> passes exactly when the permission has no manager and, by the
  event log, nobody holds it.
\<close>

theorem assertMissingRole_iff:
  "okR (assertMissingRole E roleName acl app evo fromBlock) \<longleftrightarrow>
     (\<exists>role manager evts. call_view E app roleName [] = Inr role \<and>
        call_view E acl ''getPermissionManager'' [JStr app, JStr (normalizeBytes role)] = Inr manager \<and>
        loose_eq manager (JStr ZERO_ADDR) \<and> aclEventsOr E acl fromBlock evo = Inr evts \<and>
        (\<nexists>e. holdsPermission app (normalizeBytes role) evts e))"
proof -
  have "getAllGrantees app p evts = [] \<longleftrightarrow> (\<nexists>e. holdsPermission app p evts e)" for p evts
    by (metis set_getAllGrantees set_empty equals0I empty_iff)
  then show ?thesis by (simp only: okR_assertMissingRole)
qed

text \<open>
  C5: the registry check as a whole: when it passes, then by one event log only the root
  address may create repositories, only the root and the registry may create permissions, only the
  registry may create names and point the root node, and nobody may delete names.
\<close>

theorem apm_permissions_sound:
  assumes "okR (assertAPMRegistryPermissions E registry registrar acl regKernel (JStr rootAddr) fromBlock)"
  shows "\<exists>evts. past_events E acl ''allEvents'' (defaultFromBlock fromBlock) = Inr evts \<and>
    holdersAre E evts registry ''CREATE_REPO_ROLE'' [to_lower rootAddr] \<and>
    holdersAre E evts acl ''CREATE_PERMISSIONS_ROLE'' [to_lower rootAddr, to_lower registry] \<and>
    holdersAre E evts registrar ''CREATE_NAME_ROLE'' [to_lower registry] \<and>
    holdersAre E evts registrar ''POINT_ROOTNODE_ROLE'' [to_lower registry] \<and>
    holdersAre E evts registrar ''DELETE_NAME_ROLE'' []"
proof -
  from assms obtain evts where evts: "past_events E acl ''allEvents'' (defaultFromBlock fromBlock) = Inr evts"
    by (auto simp: assertAPMRegistryPermissions_def okR_bindR)
  note checks = assms [unfolded assertAPMRegistryPermissions_def evts bindR_simps okR_seqR list.pred_inject]
  from checks show ?thesis
    by (intro exI [of _ evts] conjI evts)
       (auto dest!: assertRole_holders assertMissingRole_holders simp: granteeList_def)
qed

theorem apm_permissions_sound_witness:
  "\<exists>evts. holdersAre sample_acl_env evts ''0xA1'' ''CREATE_REPO_ROLE'' [''0xc0''] \<and>
     holdersAre sample_acl_env evts ''0xA2'' ''DELETE_NAME_ROLE'' []"
proof -
  have "okR (assertAPMRegistryPermissions sample_acl_env ''0xA1'' ''0xA2'' ''0xAC'' ''0xA3'' (JStr ''0xC0'') JUndef)"
    by code_simp
  moreover have "to_lower ''0xC0'' = ''0xc0''" by code_simp
  ultimately show ?thesis using apm_permissions_sound by fastforce
qed

end
