(* ===== verification/MultisigBase.thy ===== *)
theory MultisigBase
  imports AclChecks
begin

text \<open>
  scripts/multisig/constants.js and what every multisig script starts and ends with: reading the
  network state, checking the fields it requires, and persisting.  A script is a program over the
  world; its arguments \<open>web3\<close> and \<open>artifacts\<close> are the environment.
\<close>

section \<open>constants.js\<close>

datatype app_name = LIDO | ORACLE | NODE_OPERATORS_REGISTRY
  | ARAGON_AGENT | ARAGON_FINANCE | ARAGON_TOKEN_MANAGER | ARAGON_VOTING

fun APP_NAMES :: "app_name \<Rightarrow> string" where
  "APP_NAMES LIDO = ''lido''"
| "APP_NAMES ORACLE = ''oracle''"
| "APP_NAMES NODE_OPERATORS_REGISTRY = ''node-operators-registry''"
| "APP_NAMES ARAGON_AGENT = ''aragon-agent''"
| "APP_NAMES ARAGON_FINANCE = ''aragon-finance''"
| "APP_NAMES ARAGON_TOKEN_MANAGER = ''aragon-token-manager''"
| "APP_NAMES ARAGON_VOTING = ''aragon-voting''"

definition all_apps :: "app_name list" where
  "all_apps = [LIDO, ORACLE, NODE_OPERATORS_REGISTRY, ARAGON_AGENT, ARAGON_FINANCE, ARAGON_TOKEN_MANAGER, ARAGON_VOTING]"

fun artifactOf :: "app_name \<Rightarrow> string" where
  "artifactOf LIDO = ''Lido''"
| "artifactOf ORACLE = ''LidoOracle''"
| "artifactOf NODE_OPERATORS_REGISTRY = ''NodeOperatorsRegistry''"
| "artifactOf ARAGON_AGENT = ''external:Agent''"
| "artifactOf ARAGON_FINANCE = ''external:Finance''"
| "artifactOf ARAGON_TOKEN_MANAGER = ''external:TokenManager''"
| "artifactOf ARAGON_VOTING = ''external:Voting''"

definition APP_ARTIFACTS :: "(string \<times> string) list" where
  "APP_ARTIFACTS = map (\<lambda>a. (APP_NAMES a, artifactOf a)) all_apps"

definition VALID_APP_NAMES :: "string list" where
  "VALID_APP_NAMES = map APP_NAMES all_apps"

definition appKey :: "string \<Rightarrow> string" where
  "appKey name = ''app:'' @ name"

section \<open>The frame of a script\<close>

definition readState :: "env \<Rightarrow> props prog" where
  "readState E = readNetworkState E (network_name E) (network_id E)"

definition requireState :: "env \<Rightarrow> string list \<Rightarrow> props prog" where
  "requireState E required =
     bindP (readState E) (\<lambda>state.
     bindP (liftP (assertRequiredNetworkState state required)) (\<lambda>_. returnP state))"

definition persistState :: "env \<Rightarrow> props \<Rightarrow> props \<Rightarrow> props prog" where
  "persistState E state updates = persistNetworkState E (network_name E) (network_id E) state updates"

definition at_addr :: "env \<Rightarrow> string \<Rightarrow> jsval \<Rightarrow> string prog" where
  "at_addr E artifactName address = liftP (contract_at E artifactName address)"

definition view :: "env \<Rightarrow> string \<Rightarrow> string \<Rightarrow> jsval list \<Rightarrow> jsval prog" where
  "view E inst methodName args = liftP (call_view E inst methodName args)"

definition prop_of :: "jsval \<Rightarrow> string \<Rightarrow> jsval prog" where
  "prop_of v k = liftP (getp v k)"

text \<open>A method of \<open>String\<close> on a value that may not be one.\<close>

definition str_of :: "jsval \<Rightarrow> string res" where
  "str_of v = (case v of JStr s \<Rightarrow> Inr s | _ \<Rightarrow> Inl TypeError)"

definition saveTx :: "env \<Rightarrow> string \<Rightarrow> string \<Rightarrow> string \<Rightarrow> jsval list \<Rightarrow> jsval \<Rightarrow> unit prog" where
  "saveTx E inst methodName filename args from =
     bindP (saveCallTxData E inst methodName filename args True [(''from'', from)]) (\<lambda>_. returnP ())"

text \<open>A truffle contract instance as a value of the network state.\<close>

definition instanceVal :: "string \<Rightarrow> jsval" where
  "instanceVal address = JObj [(''address'', JStr address)]"

section \<open>What the frame does\<close>

definition state_file :: "env \<Rightarrow> string" where
  "state_file E = getFileName E (network_name E) (file_base E) (file_dir E)"

text \<open>The state a script reads from a world, when it can.\<close>

definition state_of :: "env \<Rightarrow> world \<Rightarrow> props option" where
  "state_of E w =
     (case net_files w (state_file E) of
        Some (JsonText v) \<Rightarrow>
          (case getp v ''networkId'' of Inr i \<Rightarrow> if strict_eq i (JInt (network_id E)) then Some (own_props v) else None
           | Inl _ \<Rightarrow> None)
      | Some (BadText _) \<Rightarrow> None
      | None \<Rightarrow> Some [(''networkId'', JInt (network_id E))])"

lemma readState_ok: "fst (readState E w) = Inr st \<longleftrightarrow> state_of E w = Some st"
  by (auto simp: readState_def readNetworkState_def readNetworkStateFile_def state_of_def state_file_def bindP_def
      prog_simps writeNetworkStateFile_def strict_eq_def
      split: option.splits fcontent.splits sum.splits if_splits)

text \<open>Reading can create the file of a network that has none, and changes nothing else.\<close>

definition after_read :: "env \<Rightarrow> world \<Rightarrow> world" where
  "after_read E w = (if net_files w (state_file E) = None
     then w\<lparr>net_files := (net_files w)(state_file E \<mapsto> JsonText (JObj [(''networkId'', JInt (network_id E))]))\<rparr> else w)"

lemma readState_world: "snd (readState E w) = after_read E w"
  by (auto simp: readState_def readNetworkState_def readNetworkStateFile_def after_read_def state_file_def bindP_def
      prog_simps writeNetworkStateFile_def strict_eq_def split: option.splits fcontent.splits sum.splits)

lemma after_read_simps [simp]:
  "tx_files (after_read E w) = tx_files w" "sent (after_read E w) = sent w"
  "state_of E (after_read E w) = state_of E w"
  by (auto simp: after_read_def state_of_def strict_eq_def)

lemma requireState_ok [prog_ok]:
  "requireState E ks w = (Inr st, w') \<longleftrightarrow>
     state_of E w = Some st \<and> list_all (\<lambda>k. truthy (obj_get st k)) ks \<and> w' = after_read E w"
proof -
  have "requireState E ks w = (Inr st, w') \<longleftrightarrow>
      readState E w = (Inr st, w') \<and> (\<exists>u. assertRequiredNetworkState st ks = Inr u)"
    by (auto simp: requireState_def prog_ok)
  also have "\<dots> \<longleftrightarrow> fst (readState E w) = Inr st \<and> snd (readState E w) = w' \<and> okR (assertRequiredNetworkState st ks)"
    by (auto simp: okR_iff prod_eq_iff)
  finally show ?thesis by (auto simp: readState_ok readState_world okR_assertRequired)
qed

lemma requireState_world: "snd (requireState E ks w) = after_read E w"
  unfolding readState_world [symmetric]
  by (simp add: requireState_def bindP_def prog_simps split: prod.splits sum.splits)

text \<open>A script that only looks after reading its state leaves the world as the read left it.\<close>

lemma snd_bindP_requireState:
  assumes "\<And>st. read_only (f st)"
  shows "snd (bindP (requireState E ks) f w) = after_read E w"
proof (cases "requireState E ks w")
  case (Pair r w')
  then have "w' = after_read E w" using requireState_world [of E ks w] by simp
  then show ?thesis using assms Pair by (auto simp: bindP_def read_only_def split: sum.splits)
qed

lemma persistState_eq:
  "persistState E st ups w =
     (let st1 = updateNetworkState (obj_set ''networkId'' (JInt (network_id E)) st) ups
      in (Inr st1, w\<lparr>net_files := (net_files w)(state_file E \<mapsto> JsonText (JObj (json_props (bn_json E) st1)))\<rparr>))"
  by (simp add: persistState_def persistNetworkState_eq state_file_def)

lemma state_of_persisted:
  assumes "obj_get st1 ''networkId'' = JInt (network_id E)"
  shows "state_of E (w\<lparr>net_files := (net_files w)(state_file E \<mapsto> JsonText (JObj (json_props b st1)))\<rparr>) =
     Some (json_props b st1)"
  using assms by (simp add: state_of_def json_props_get strict_eq_def)

lemma frame_ok [prog_ok]:
  "at_addr E a x w = (Inr i, w') \<longleftrightarrow> contract_at E a x = Inr i \<and> w' = w"
  "view E inst m as w = (Inr v, w') \<longleftrightarrow> call_view E inst m as = Inr v \<and> w' = w"
  "prop_of v k w = (Inr x, w') \<longleftrightarrow> getp v k = Inr x \<and> w' = w"
  by (auto simp: at_addr_def view_def prop_of_def prog_ok)

lemma read_only_frame [intro, simp]:
  "read_only (at_addr E a x)" "read_only (view E i m as)" "read_only (prop_of v k)"
  by (simp_all add: at_addr_def view_def prop_of_def)

lemma appends_frame [intro, simp]:
  "appends (readState E)" "appends (requireState E ks)" "appends (persistState E st ups)" "appends (saveTx E i m f as from)"
  by (auto simp: readState_def requireState_def persistState_def saveTx_def)

lemma requireState_missing:
  assumes "state_of E w = Some st" and "missingState st ks \<noteq> []"
  shows "requireState E ks w = (Inl (Error (''missing following fields from the network state file, make sure you've run previous deployment steps: '' @
           join_with '', '' (missingState st ks))), after_read E w)"
proof -
  have "readState E w = (Inr st, after_read E w)"
    using assms(1) by (simp add: readState_ok readState_world prod_eq_iff)
  with assms(2) show ?thesis
    by (simp add: requireState_def bindP_Inr bindP_liftP assertRequiredNetworkState_def Let_def)
qed

lemma after_read_id: "net_files w (state_file E) \<noteq> None \<Longrightarrow> after_read E w = w"
  by (auto simp: after_read_def)

lemma persistState_ok [prog_ok]:
  "persistState E st ups w = (Inr st1, w') \<longleftrightarrow>
     st1 = updateNetworkState (obj_set ''networkId'' (JInt (network_id E)) st) ups \<and>
     w' = w\<lparr>net_files := (net_files w)(state_file E \<mapsto> JsonText (JObj (json_props (bn_json E) st1)))\<rparr>"
  by (auto simp: persistState_eq Let_def)

lemma saveDeployTx_ok [prog_ok]:
  "saveDeployTx E a f args opts w = (Inr txd, w') \<longleftrightarrow>
     getDeployTx E a args opts = Inr txd \<and>
     w' = w\<lparr>tx_files := tx_files w @ [(f, JObj (json_props (bn_json E) txd))]\<rparr>"
  by (auto simp: tx_files_saveDeployTx split: sum.splits)

lemma saveCallTxData_ok [prog_ok]:
  "saveCallTxData E inst m f args est opts w = (Inr txd, w') \<longleftrightarrow>
     getCallTxData E inst m args est opts = Inr txd \<and>
     w' = w\<lparr>tx_files := tx_files w @ [(f, JObj (json_props (bn_json E) txd))]\<rparr>"
  by (auto simp: tx_files_saveCallTxData split: sum.splits)

lemma saveTx_ok [prog_ok]:
  "saveTx E inst m f args from w = (Inr u, w') \<longleftrightarrow>
     (\<exists>txd. getCallTxData E inst m args True [(''from'', from)] = Inr txd \<and>
        w' = w\<lparr>tx_files := tx_files w @ [(f, JObj (json_props (bn_json E) txd))]\<rparr>)"
  by (auto simp: saveTx_def prog_ok)

text \<open>The persisted state is what the next script reads, provided the updates keep the network id.\<close>

lemma state_of_persistState:
  assumes "''networkId'' \<notin> fst ` set ups"
  shows "state_of E (snd (persistState E st ups w)) =
     Some (json_props (bn_json E) (updateNetworkState (obj_set ''networkId'' (JInt (network_id E)) st) ups))"
proof -
  have "obj_get (updateNetworkState (obj_set ''networkId'' (JInt (network_id E)) st) ups) ''networkId'' = JInt (network_id E)"
    by (subst updateNetworkState_other) (use assms in auto)
  from state_of_persisted [OF this] show ?thesis by (simp add: persistState_eq Let_def)
qed

end
