(* ===== verification/DeployEnv.thy ===== *)
theory DeployEnv
  imports MultisigBase
begin

text \<open>
  The one-shot deployment scripts of scripts/ that create contracts directly: the constructors'
  side of helpers/deploy.js, deploy-aragon-env.js, deploy-beacon-deposit-contract.js,
  deploy-wsteth.js and deploy-lido-apm-and-template.js.  Creating a contract is a transaction
  \<open>new\<close> on the artifact's name; a truffle instance is its address and the constructor arguments
  that \<open>withArgs\<close> attaches to it.  Environment variables with defaults are arguments.
\<close>

section \<open>helpers/deploy.js\<close>

type_synonym instance_val = "string \<times> jsval list option"

definition instanceOf :: "instance_val \<Rightarrow> jsval" where
  "instanceOf i = (case i of
     (a, None) \<Rightarrow> instanceVal a
   | (a, Some args) \<Rightarrow> JObj [(''address'', JStr a), (''constructorArgs'', JArr args)])"

text \<open>The last argument of a truffle call holds the transaction's options when it is an object.\<close>

definition splitOpts :: "jsval list \<Rightarrow> jsval list \<times> props" where
  "splitOpts args =
     (if args = [] then (args, [])
      else case last args of JObj opts \<Rightarrow> (butlast args, opts) | _ \<Rightarrow> (args, []))"

definition newInstance :: "env \<Rightarrow> string \<Rightarrow> jsval list \<Rightarrow> string prog" where
  "newInstance E artifactName args =
     bindP (sendTx E artifactName ''new'' (fst (splitOpts args)) (snd (splitOpts args))) (\<lambda>inst.
     bindP (prop_of inst ''address'') (\<lambda>address. liftP (str_of address)))"

definition withArgs :: "jsval list \<Rightarrow> env \<Rightarrow> string \<Rightarrow> instance_val prog" where
  "withArgs args E artifactName =
     bindP (newInstance E artifactName args) (\<lambda>a. returnP (a, Some (fst (splitOpts args))))"

definition plainNew :: "env \<Rightarrow> string \<Rightarrow> instance_val prog" where
  "plainNew E artifactName = bindP (newInstance E artifactName []) (\<lambda>a. returnP (a, None))"

definition deploy ::
  "env \<Rightarrow> string \<Rightarrow> (env \<Rightarrow> string \<Rightarrow> instance_val prog) option \<Rightarrow> instance_val prog" where
  "deploy E artifactName dep =
     (case dep of Some d \<Rightarrow> d E artifactName | None \<Rightarrow> plainNew E artifactName)"

definition useOrDeploy ::
  "env \<Rightarrow> string \<Rightarrow> jsval \<Rightarrow> (env \<Rightarrow> string \<Rightarrow> instance_val prog) option \<Rightarrow> instance_val prog" where
  "useOrDeploy E artifactName address dep =
     (if truthy address then bindP (at_addr E artifactName address) (\<lambda>a. returnP (a, None))
      else deploy E artifactName dep)"

definition fromOwner :: "jsval \<Rightarrow> jsval" where
  "fromOwner owner = JObj [(''from'', owner)]"

definition fst_or_undef :: "jsval list \<Rightarrow> jsval" where
  "fst_or_undef xs = (case xs of [] \<Rightarrow> JUndef | a # _ \<Rightarrow> a)"

text \<open>\<open>updateNetworkState(state, results); persistNetworkState(network.name, netId, state)\<close>\<close>

definition saveResults :: "env \<Rightarrow> props \<Rightarrow> props \<Rightarrow> props prog" where
  "saveResults E state results = persistState E (updateNetworkState state results) []"

text \<open>\<open>result.logs\<close> of a transaction, and the events of one name among them.\<close>

definition logsOf :: "jsval \<Rightarrow> jsval list res" where
  "logsOf receipt =
     bindR (getp receipt ''logs'') (\<lambda>ls. case ls of JArr xs \<Rightarrow> Inr xs | _ \<Rightarrow> Inl TypeError)"

definition logsNamed :: "string \<Rightarrow> jsval list \<Rightarrow> jsval list" where
  "logsNamed eventName ls = filter (\<lambda>l. evt_field l ''event'' = JStr eventName) ls"

definition fstLogArg :: "string \<Rightarrow> string \<Rightarrow> jsval list \<Rightarrow> jsval res" where
  "fstLogArg eventName k ls =
     (case logsNamed eventName ls of [] \<Rightarrow> Inl TypeError | l # _ \<Rightarrow> Inr (evt_arg l k))"

section \<open>deploy-aragon-env.js\<close>

definition deployENS :: "env \<Rightarrow> jsval \<Rightarrow> (string \<times> props) prog" where
  "deployENS E owner =
     bindP (deploy E ''ENSFactory'' (Some (withArgs [fromOwner owner]))) (\<lambda>factory.
     bindP (sendTx E (fst factory) ''newENS'' [owner] [(''from'', owner)]) (\<lambda>result.
     bindP (liftP (bindR (logsOf result) (fstLogArg ''DeployENS'' ''ens''))) (\<lambda>ensAddr.
     bindP (at_addr E ''ENS'' ensAddr) (\<lambda>ens.
     returnP (ens, [(''ens'', instanceVal ens), (''ensFactory'', instanceOf factory)])))))"

definition useOrDeployENS :: "env \<Rightarrow> jsval \<Rightarrow> jsval \<Rightarrow> (string \<times> props) prog" where
  "useOrDeployENS E owner ensAddress =
     (if \<not> truthy ensAddress then deployENS E owner
      else bindP (at_addr E ''ENS'' ensAddress) (\<lambda>ens. returnP (ens, [(''ens'', instanceVal ens)])))"

definition deployDAOFactory :: "env \<Rightarrow> jsval \<Rightarrow> jsval \<Rightarrow> jsval \<Rightarrow> bool \<Rightarrow> (string \<times> props) prog" where
  "deployDAOFactory E owner kernelBaseAddress aclBaseAddress withEvmScriptRegistryFactory =
     bindP (useOrDeploy E ''Kernel'' kernelBaseAddress (Some (withArgs [JBool True, fromOwner owner]))) (\<lambda>kernelBase.
     bindP (useOrDeploy E ''ACL'' aclBaseAddress (Some (withArgs [fromOwner owner]))) (\<lambda>aclBase.
     bindP (if withEvmScriptRegistryFactory
            then bindP (deploy E ''EVMScriptRegistryFactory'' (Some (withArgs [fromOwner owner]))) (\<lambda>f. returnP (Some f))
            else returnP None) (\<lambda>evmScriptRegistryFactory.
     bindP (deploy E ''DAOFactory'' (Some (withArgs
              [JStr (fst kernelBase), JStr (fst aclBase),
               JStr (case evmScriptRegistryFactory of Some f \<Rightarrow> fst f | None \<Rightarrow> ZERO_ADDR), fromOwner owner]))) (\<lambda>daoFactory.
     returnP (fst daoFactory,
       [(''kernelBase'', instanceOf kernelBase), (''aclBase'', instanceOf aclBase)] @
       (case evmScriptRegistryFactory of Some f \<Rightarrow> [(''evmScriptRegistryFactory'', instanceOf f)] | None \<Rightarrow> []) @
       [(''daoFactory'', instanceOf daoFactory)])))))"

definition useOrDeployDaoFactory :: "env \<Rightarrow> jsval \<Rightarrow> jsval \<Rightarrow> (string \<times> props) prog" where
  "useOrDeployDaoFactory E owner daoFactoryAddress =
     (if truthy daoFactoryAddress
      then bindP (at_addr E ''DAOFactory'' daoFactoryAddress) (\<lambda>daoFactory.
           bindP (view E daoFactory ''regFactory'' []) (\<lambda>_.
           returnP (daoFactory, [(''daoFactory'', instanceVal daoFactory)])))
      else deployDAOFactory E owner JUndef JUndef True)"

definition useOrDeployAPMRegistryFactory ::
  "env \<Rightarrow> jsval \<Rightarrow> string \<Rightarrow> string \<Rightarrow> jsval \<Rightarrow> jsval \<Rightarrow> jsval \<Rightarrow> jsval \<Rightarrow> (string \<times> props) prog" where
  "useOrDeployAPMRegistryFactory E owner ens daoFactory apmRegistryFactoryAddress apmRegistryBaseAddress
       apmRepoBaseAddress ensSubdomainRegistrarBaseAddress =
     bindP (useOrDeploy E ''APMRegistry'' apmRegistryBaseAddress None) (\<lambda>apmRegistryBase.
     bindP (useOrDeploy E ''Repo'' apmRepoBaseAddress None) (\<lambda>apmRepoBase.
     bindP (useOrDeploy E ''ENSSubdomainRegistrar'' ensSubdomainRegistrarBaseAddress None) (\<lambda>ensSubdomainRegistrarBase.
     bindP (useOrDeploy E ''APMRegistryFactory'' apmRegistryFactoryAddress (Some (withArgs
              [JStr daoFactory, JStr (fst apmRegistryBase), JStr (fst apmRepoBase), JStr (fst ensSubdomainRegistrarBase),
               JStr ens, JStr ZERO_ADDR, fromOwner owner]))) (\<lambda>apmRegistryFactory.
     returnP (fst apmRegistryFactory,
       [(''apmRegistryBase'', instanceOf apmRegistryBase), (''apmRepoBase'', instanceOf apmRepoBase),
        (''ensSubdomainRegistrarBase'', instanceOf ensSubdomainRegistrarBase),
        (''apmRegistryFactory'', instanceOf apmRegistryFactory)])))))"

definition deployMiniMeTokenFactory :: "env \<Rightarrow> jsval \<Rightarrow> jsval \<Rightarrow> props prog" where
  "deployMiniMeTokenFactory E owner miniMeTokenFactoryAddress =
     bindP (useOrDeploy E ''MiniMeTokenFactory'' miniMeTokenFactoryAddress (Some (withArgs [fromOwner owner]))) (\<lambda>factory.
     returnP [(''miniMeTokenFactory'', instanceOf factory)])"

definition deployAragonID :: "env \<Rightarrow> jsval \<Rightarrow> string \<Rightarrow> jsval \<Rightarrow> props prog" where
  "deployAragonID E owner ens aragonIDAddress =
     (if not_nullish aragonIDAddress
      then bindP (at_addr E ''FIFSResolvingRegistrar'' aragonIDAddress) (\<lambda>aragonID.
           returnP [(''aragonID'', instanceVal aragonID)])
      else bindP (view E ens ''resolver'' [JStr (name_hash E ''resolver.eth'')]) (\<lambda>publicResolverAddress.
           let nodeName = ''aragonid.eth''; node = name_hash E nodeName
           in bindP (deploy E ''FIFSResolvingRegistrar'' (Some (withArgs
                       [JStr ens, publicResolverAddress, JStr node, fromOwner owner]))) (\<lambda>aragonID.
              bindP (assignENSName E ''eth'' ''aragonid'' owner ens (JStr (fst aragonID))) (\<lambda>_.
              bindP (sendTx E (fst aragonID) ''register'' [JStr (''0x'' @ keccak E ''owner''), owner] [(''from'', owner)]) (\<lambda>_.
              returnP [(''aragonID'', instanceOf aragonID), (''aragonIDEnsNodeName'', JStr nodeName),
                       (''aragonIDEnsNode'', JStr node)])))))"

text \<open>The owner has to be one of the node's accounts; without one the first account is taken.\<close>

definition chooseOwner :: "jsval list \<Rightarrow> props \<Rightarrow> props res" where
  "chooseOwner accounts state =
     (let owner = obj_get state ''owner''
      in if truthy owner
         then bindR (str_of owner) (\<lambda>o'.
              bindR (mapR str_of accounts) (\<lambda>accs.
              if \<not> list_ex (\<lambda>acc. to_lower acc = to_lower o') accs
              then Inl (Error (''owner account '' @ o' @ '' is missing from provided accounts'')) else Inr state))
         else Inr (obj_set ''owner'' (fst_or_undef accounts) state))"

definition defaultTo :: "string \<Rightarrow> string \<Rightarrow> props \<Rightarrow> props" where
  "defaultTo k d state = (if truthy (obj_get state k) then state else obj_set k (JStr d) state)"

definition opt_str :: "string option \<Rightarrow> jsval" where
  "opt_str x = (case x of None \<Rightarrow> JUndef | Some s \<Rightarrow> JStr s)"

definition aragonEnvSteps :: "env \<Rightarrow> jsval \<Rightarrow> props \<Rightarrow> props prog" where
  "aragonEnvSteps E owner state0 =
     bindP (useOrDeployENS E owner (obj_get state0 ''ensAddress'')) (\<lambda>(ens, ensResults).
     bindP (saveResults E state0 ensResults) (\<lambda>state1.
     bindP (useOrDeployDaoFactory E owner (obj_get state1 ''daoFactoryAddress'')) (\<lambda>(daoFactory, daoFactoryResults).
     bindP (saveResults E state1 daoFactoryResults) (\<lambda>state2.
     bindP (useOrDeployAPMRegistryFactory E owner ens daoFactory (obj_get state2 ''apmRegistryFactoryAddress'')
              (obj_get state2 ''apmRegistryBaseAddress'') (obj_get state2 ''apmRepoBaseAddress'')
              (obj_get state2 ''ensSubdomainRegistrarBaseAddress'')) (\<lambda>(apmRegistryFactory, factoryResults).
     bindP (saveResults E state2 factoryResults) (\<lambda>state3.
     bindP (liftP (str_of (obj_get state3 ''aragonEnsLabelName''))) (\<lambda>labelName.
     bindP (deployAPM E owner labelName ens apmRegistryFactory (obj_get state3 ''aragonApmRegistryAddress'')) (\<lambda>apm.
     bindP (saveResults E state3
              [(''aragonApmRegistry'', instanceVal (apm_registry apm)),
               (''aragonEnsNodeName'', opt_str (apm_ensNodeName apm)),
               (''aragonEnsNode'', opt_str (apm_ensNode apm))]) (\<lambda>state4.
     bindP (deployMiniMeTokenFactory E owner (obj_get state4 ''miniMeTokenFactoryAddress'')) (\<lambda>tokenFactoryResults.
     bindP (saveResults E state4 tokenFactoryResults) (\<lambda>state5.
     bindP (deployAragonID E owner ens (obj_get state5 ''aragonIDAddress'')) (\<lambda>aragonIDResults.
     saveResults E state5 aragonIDResults))))))))))))"

definition deployAragonEnv :: "env \<Rightarrow> string \<Rightarrow> unit prog" where
  "deployAragonEnv E ARAGON_ENS_LABEL =
     bindP (liftP (get_accounts E)) (\<lambda>accounts.
     bindP (readState E) (\<lambda>read.
     bindP (liftP (chooseOwner accounts read)) (\<lambda>owned.
     let state0 = defaultTo ''aragonEnsLabelName'' ARAGON_ENS_LABEL owned
     in bindP (aragonEnvSteps E (obj_get state0 ''owner'') state0) (\<lambda>_. returnP ()))))"

section \<open>deploy-beacon-deposit-contract.js\<close>

definition useOrDeployDepositContract :: "env \<Rightarrow> string \<Rightarrow> jsval \<Rightarrow> jsval \<Rightarrow> instance_val prog" where
  "useOrDeployDepositContract E interface owner depositContractAddress =
     (if truthy depositContractAddress
      then bindP (at_addr E interface depositContractAddress) (\<lambda>a. returnP (a, None))
      else deploy E ''DepositContract'' (Some (withArgs [fromOwner owner])))"

text \<open>\<open>v.k = x\<close> on a value: an object changes, \<open>null\<close> and \<open>undefined\<close> throw, others ignore it.\<close>

definition set_prop :: "jsval \<Rightarrow> string \<Rightarrow> jsval \<Rightarrow> jsval res" where
  "set_prop v k x =
     (if \<not> not_nullish v then Inl TypeError
      else case v of JObj ps \<Rightarrow> Inr (JObj (obj_set k x ps)) | _ \<Rightarrow> Inr v)"

definition deployBeaconDepositContract :: "env \<Rightarrow> unit prog" where
  "deployBeaconDepositContract E =
     bindP (readState E) (\<lambda>state.
     bindP (liftP (get_accounts E)) (\<lambda>accounts.
     let given = obj_get state ''daoInitialSettings'';
         daoInitialSettings = (if given = JUndef
           then JObj [(''beaconSpec'', JObj [(''depositContractAddress'', JStr [])])] else given)
     in bindP (prop_of daoInitialSettings ''beaconSpec'') (\<lambda>beaconSpec.
        let configured = (if truthy beaconSpec then obj_get (own_props beaconSpec) ''depositContractAddress'' else JUndef)
        in bindP (useOrDeployDepositContract E ''DepositContract'' (fst_or_undef accounts)
                    (if truthy configured then configured else obj_get state ''depositContractAddress'')) (\<lambda>depositContract.
           bindP (liftP (set_prop beaconSpec ''depositContractAddress'' (JStr (fst depositContract)))) (\<lambda>newSpec.
           bindP (liftP (set_prop daoInitialSettings ''beaconSpec'' newSpec)) (\<lambda>newSettings.
           bindP (persistState E state
                    [(''depositContract'', instanceOf depositContract), (''daoInitialSettings'', newSettings)]) (\<lambda>_.
           returnP ())))))))"

section \<open>deploy-wsteth.js\<close>

text \<open>
  \<open>network\<close> is the network's name here, so \<open>network.name\<close> is \<open>undefined\<close> and is spelt so in the
  name of the state file.
\<close>

definition deployWsteth :: "env \<Rightarrow> jsval \<Rightarrow> jsval \<Rightarrow> props prog" where
  "deployWsteth E stEthAddress deployer =
     bindP (deploy E ''WstETH'' (Some (withArgs [stEthAddress, fromOwner deployer]))) (\<lambda>wstethContract.
     returnP [(''wstethContract'', instanceOf wstethContract)])"

definition deployWstEthContract :: "env \<Rightarrow> unit prog" where
  "deployWstEthContract E =
     (let networkDotName = ''undefined''
      in bindP (readNetworkState E networkDotName (network_id E)) (\<lambda>state.
         bindP (liftP (get_accounts E)) (\<lambda>accounts.
         bindP (prop_of (obj_get state ''app:lido'') ''proxyAddress'') (\<lambda>stEthAddress.
         bindP (deployWsteth E stEthAddress (fst_or_undef accounts)) (\<lambda>results.
         bindP (persistNetworkState E networkDotName (network_id E) state results) (\<lambda>_. returnP ()))))))"

section \<open>deploy-lido-apm-and-template.js\<close>

text \<open>The scripts' own check, whose message differs from that of the shared helper.\<close>

definition requireFields :: "env \<Rightarrow> string list \<Rightarrow> props prog" where
  "requireFields E required =
     bindP (readState E) (\<lambda>state.
     let missing = missingState state required
     in if missing \<noteq> []
        then throwP (Error (''missing following fields from network state file, make sure you've run '' @
               ''previous deployment steps: '' @ join_with '', '' missing))
        else returnP state)"

definition REQUIRED_APM_TEMPLATE :: "string list" where
  "REQUIRED_APM_TEMPLATE = [''owner'', ''multisigAddress'', ''ensAddress'', ''apmRegistryFactoryAddress'',
     ''daoFactoryAddress'', ''miniMeTokenFactoryAddress'']"

record template_step =
  ts_owner :: jsval
  ts_ens :: string
  ts_lidoApmAddress :: jsval
  ts_daoFactoryAddress :: jsval
  ts_miniMeTokenFactoryAddress :: jsval
  ts_lidoEnsNodeName :: jsval
  ts_daoTemplateEnsLabel :: jsval
  ts_daoTemplateAddress :: jsval

definition deployDaoTemplate :: "env \<Rightarrow> template_step \<Rightarrow> props prog" where
  "deployDaoTemplate E t =
     (if truthy (ts_daoTemplateAddress t)
      then bindP (at_addr E ''LidoTemplate'' (ts_daoTemplateAddress t)) (\<lambda>daoTemplate.
           returnP [(''daoTemplate'', instanceVal daoTemplate)])
      else let daoTemplateNodeName = to_str (ts_daoTemplateEnsLabel t) @ ''.'' @ to_str (ts_lidoEnsNodeName t);
               daoTemplateNode = name_hash E daoTemplateNodeName;
               names = [(''daoTemplateNodeName'', JStr daoTemplateNodeName), (''daoTemplateNode'', JStr daoTemplateNode)]
           in bindP (liftP (resolveLatestVersion E daoTemplateNode (ts_ens t))) (\<lambda>latest.
              if truthy latest
              then bindP (prop_of latest ''contractAddress'') (\<lambda>address.
                   bindP (at_addr E ''LidoTemplate'' address) (\<lambda>daoTemplate.
                   returnP ((''daoTemplate'', instanceVal daoTemplate) # names)))
              else bindP (at_addr E ''APMRegistry'' (ts_lidoApmAddress t)) (\<lambda>lidoApmRegistry.
                   bindP (liftP (getENSNodeOwner E (ts_ens t) (name_hash E ''aragonid.eth''))) (\<lambda>aragonIdAddress.
                   if \<not> truthy aragonIdAddress then throwP (Error ''failed to resolve AragonID (aragonid.eth)'')
                   else bindP (deploy E ''LidoTemplate'' (Some (withArgs
                            [ts_owner t, ts_daoFactoryAddress t, JStr (ts_ens t), ts_miniMeTokenFactoryAddress t, aragonIdAddress,
                             JObj [(''from'', ts_owner t), (''gas'', JInt 6000000)]]))) (\<lambda>daoTemplate.
                        bindP (sendTx E lidoApmRegistry ''newRepoWithVersion''
                                 [ts_daoTemplateEnsLabel t, ts_owner t, JArr [JInt 1, JInt 0, JInt 0], JStr (fst daoTemplate), JStr ''0x0'']
                                 [(''from'', ts_owner t)]) (\<lambda>_.
                        returnP ((''daoTemplate'', instanceOf daoTemplate) # names)))))))"

definition deployApmAndTemplate :: "env \<Rightarrow> string \<Rightarrow> string \<Rightarrow> unit prog" where
  "deployApmAndTemplate E defaultLidoEnsLabelName defaultDaoTemplateEnsLabel =
     bindP (requireFields E REQUIRED_APM_TEMPLATE) (\<lambda>read.
     let owner = obj_get read ''owner''
     in bindP (at_addr E ''ENS'' (obj_get read ''ensAddress'')) (\<lambda>ens.
        let state0 = defaultTo ''daoTemplateEnsLabel'' defaultDaoTemplateEnsLabel
                       (defaultTo ''lidoEnsLabelName'' defaultLidoEnsLabelName read)
        in bindP (at_addr E ''APMRegistryFactory'' (obj_get state0 ''apmRegistryFactoryAddress'')) (\<lambda>apmRegistryFactory.
           bindP (liftP (str_of (obj_get state0 ''lidoEnsLabelName''))) (\<lambda>labelName.
           bindP (deployAPM E owner labelName ens apmRegistryFactory (obj_get state0 ''lidoApmAddress'')) (\<lambda>apm.
           bindP (saveResults E state0
                    [(''lidoApmRegistry'', instanceVal (apm_registry apm)), (''lidoEnsNodeName'', opt_str (apm_ensNodeName apm)),
                     (''lidoEnsNode'', opt_str (apm_ensNode apm))]) (\<lambda>state1.
           bindP (deployDaoTemplate E
                    \<lparr>ts_owner = owner, ts_ens = ens, ts_lidoApmAddress = obj_get state1 ''lidoApmAddress'',
                     ts_daoFactoryAddress = obj_get state1 ''daoFactoryAddress'',
                     ts_miniMeTokenFactoryAddress = obj_get state1 ''miniMeTokenFactoryAddress'',
                     ts_lidoEnsNodeName = obj_get state1 ''lidoEnsNodeName'',
                     ts_daoTemplateEnsLabel = obj_get state1 ''daoTemplateEnsLabel'',
                     ts_daoTemplateAddress = obj_get state1 ''daoTemplateAddress''\<rparr>) (\<lambda>results.
           bindP (saveResults E state1 results) (\<lambda>_. returnP ()))))))))"

section \<open>Programs that send nothing\<close>

definition quiet :: "'a prog \<Rightarrow> bool" where
  "quiet m \<longleftrightarrow> (\<forall>w. sent (snd (m w)) = sent w)"

lemma quiet_read_only [intro]: "read_only m \<Longrightarrow> quiet m"
  by (simp add: quiet_def read_only_def)

lemma quiet_basic [intro, simp]:
  "quiet (liftP r)" "quiet (returnP x)" "quiet (throwP e)" "quiet (at_addr E a v)" "quiet (view E i m as)"
  "quiet (prop_of v k)" "quiet (readState E)" "quiet (persistState E st ups)" "quiet (saveResults E st ups)"
  by (auto simp: quiet_def saveResults_def persistState_eq Let_def prog_simps readState_world at_addr_def view_def prop_of_def)

lemma quiet_bindP:
  assumes m: "quiet m" and f: "\<And>x w w'. m w = (Inr x, w') \<Longrightarrow> quiet (f x)"
  shows "quiet (bindP m f)"
  unfolding quiet_def
proof
  fix w
  obtain r w' where mw: "m w = (r, w')" by (cases "m w")
  from m have s: "sent w' = sent w" unfolding quiet_def by (metis mw snd_conv)
  show "sent (snd (bindP m f w)) = sent w"
  proof (cases r)
    case (Inr x)
    with mw f have "sent (snd (f x w')) = sent w'" unfolding quiet_def by blast
    with Inr mw s show ?thesis by (simp add: bindP_def)
  qed (use mw s in \<open>simp add: bindP_def\<close>)
qed

section \<open>Addresses in the state\<close>

definition ends_address :: "string \<Rightarrow> bool" where
  "ends_address k \<longleftrightarrow> drop (length k - 7) k = ''Address''"

definition has_address :: "props \<Rightarrow> string \<Rightarrow> bool" where
  "has_address st k \<longleftrightarrow> (\<exists>a. a \<noteq> [] \<and> obj_get st k = JStr a)"

lemma has_address_truthy: "has_address st k \<Longrightarrow> truthy (obj_get st k)"
  by (auto simp: has_address_def)

lemma ends_address_append [simp]:
  "ends_address (k @ ''Address'')" "\<not> ends_address (k @ ''ConstructorArgs'')"
  by (simp_all add: ends_address_def)

text \<open>What the steps put into the state: contract instances, names, and nothing for \<open>undefined\<close>.\<close>

definition result_value :: "string \<times> jsval \<Rightarrow> bool" where
  "result_value kv \<longleftrightarrow> \<not> ends_address (fst kv) \<and>
     (snd kv = JUndef \<or> (\<exists>s. snd kv = JStr s) \<or> (\<exists>i. snd kv = instanceOf i))"

lemma instanceVal_instanceOf: "instanceVal a = instanceOf (a, None)"
  by (simp add: instanceOf_def)

lemma updateKey_instanceOf:
  "a \<noteq> [] \<Longrightarrow> updateKey (k, instanceOf (a, c)) st =
     (let st1 = obj_set (k @ ''Address'') (JStr a) st
      in case c of None \<Rightarrow> st1 | Some args \<Rightarrow> obj_set (k @ ''ConstructorArgs'') (JArr args) st1)"
  by (cases c) (simp_all add: updateKey_def instanceOf_def instanceVal_def not_nullish_def Let_def)

lemma updateKey_has_address:
  assumes "ends_address k" and "has_address st k" and "result_value kv"
  shows "has_address (updateKey kv st) k"
proof -
  obtain key v where kv: "kv = (key, v)" by (cases kv)
  with assms have ne: "k \<noteq> key" by (auto simp: result_value_def)
  from assms(3) kv consider "v = JUndef" | s where "v = JStr s" | a c where "v = instanceOf (a, c)"
    by (auto simp: result_value_def)
  then show ?thesis
  proof cases
    case 1
    with assms(2) kv show ?thesis by (simp add: updateKey_nullish not_nullish_def)
  next
    case 2
    with assms(2) kv ne show ?thesis by (auto simp: has_address_def)
  next
    case 3
    show ?thesis
    proof (cases "a = []")
      case True
      then have "updateKey kv st = obj_set key v st"
        using 3 kv by (cases c) (simp_all add: updateKey_def instanceOf_def instanceVal_def not_nullish_def)
      with assms(2) ne show ?thesis by (auto simp: has_address_def)
    next
      case False
      have "k \<noteq> key @ ''ConstructorArgs''" using assms(1) by auto
      with False 3 kv assms(2) show ?thesis
        by (auto simp: updateKey_instanceOf has_address_def Let_def split: option.splits)
    qed
  qed
qed

lemma updateNetworkState_has_address:
  assumes "ends_address k" and "has_address st k" and "list_all result_value ups"
  shows "has_address (updateNetworkState st ups) k"
  using assms(2,3)
  by (induction ups arbitrary: st) (auto intro: updateKey_has_address [OF assms(1)])

lemma updateNetworkState_adds_address:
  assumes "(k, instanceOf (a, c)) \<in> set ups" and "a \<noteq> []" and "list_all result_value ups"
  shows "has_address (updateNetworkState st ups) (k @ ''Address'')"
  using assms(1,3)
proof (induction ups arbitrary: st)
  case (Cons kv ups)
  show ?case
  proof (cases "kv = (k, instanceOf (a, c))")
    case True
    then have "has_address (updateKey kv st) (k @ ''Address'')"
      using assms(2) by (auto simp: updateKey_instanceOf has_address_def Let_def split: option.splits)
    with Cons.prems(2) show ?thesis by (auto intro: updateNetworkState_has_address)
  next
    case False
    with Cons show ?thesis by auto
  qed
qed simp

lemma saveResults_ok [prog_ok]:
  "saveResults E st ups w = (Inr st', w') \<longleftrightarrow>
     st' = obj_set ''networkId'' (JInt (network_id E)) (updateNetworkState st ups) \<and>
     w' = w\<lparr>net_files := (net_files w)(state_file E \<mapsto> JsonText (JObj (json_props (bn_json E) st')))\<rparr>"
  by (auto simp: saveResults_def prog_ok)

lemma saved_has_address:
  assumes "saveResults E st ups w = (Inr st', w')" and "ends_address k" and "list_all result_value ups"
    and "has_address st k \<or> (\<exists>p a c. k = p @ ''Address'' \<and> (p, instanceOf (a, c)) \<in> set ups \<and> a \<noteq> [])"
  shows "has_address st' k"
proof -
  have "k \<noteq> ''networkId''" using assms(2) by (auto simp: ends_address_def)
  then show ?thesis
    using assms by (auto simp: prog_ok has_address_def [of "obj_set _ _ _"] simp flip: has_address_def
        intro: updateNetworkState_has_address updateNetworkState_adds_address)
qed

section \<open>Re-running the Aragon deployment\<close>

text \<open>The address fields whose presence makes every step of the script reuse what exists.\<close>

definition envAddresses :: "string list" where
  "envAddresses = [''ensAddress'', ''daoFactoryAddress'', ''apmRegistryFactoryAddress'', ''apmRegistryBaseAddress'',
     ''apmRepoBaseAddress'', ''ensSubdomainRegistrarBaseAddress'', ''aragonApmRegistryAddress'',
     ''miniMeTokenFactoryAddress'', ''aragonIDAddress'']"

lemma quiet_reuse:
  "truthy a \<Longrightarrow> quiet (useOrDeploy E n a d)"
  "truthy a \<Longrightarrow> quiet (useOrDeployENS E ow a)"
  "truthy a \<Longrightarrow> quiet (useOrDeployDaoFactory E ow a)"
  "truthy a \<Longrightarrow> quiet (deployAPM E ow l ens f a)"
  "truthy a \<Longrightarrow> quiet (deployMiniMeTokenFactory E ow a)"
  "not_nullish a \<Longrightarrow> quiet (deployAragonID E ow ens a)"
  by (simp_all add: useOrDeploy_def useOrDeployENS_def useOrDeployDaoFactory_def deployAPM_def
      deployMiniMeTokenFactory_def deployAragonID_def quiet_bindP)

lemma quiet_reuse_factory:
  "truthy a \<Longrightarrow> truthy b \<Longrightarrow> truthy c \<Longrightarrow> truthy d \<Longrightarrow> quiet (useOrDeployAPMRegistryFactory E ow ens f a b c d)"
  by (simp add: useOrDeployAPMRegistryFactory_def quiet_reuse quiet_bindP)

lemma saved_keeps:
  "saveResults E st ups w = (Inr st', w') \<Longrightarrow> list_all result_value ups \<Longrightarrow> ends_address k \<Longrightarrow> has_address st k \<Longrightarrow>
     has_address st' k"
  by (rule saved_has_address) auto

lemma saved_adds:
  "saveResults E st ups w = (Inr st', w') \<Longrightarrow> list_all result_value ups \<Longrightarrow> (p, instanceOf (a, c)) \<in> set ups \<Longrightarrow>
     a \<noteq> [] \<Longrightarrow> has_address st' (p @ ''Address'')"
  by (rule saved_has_address) auto

lemma result_value_simps [simp]:
  "result_value (k, instanceOf i) \<longleftrightarrow> \<not> ends_address k" "result_value (k, JStr s) \<longleftrightarrow> \<not> ends_address k"
  "result_value (k, instanceVal a) \<longleftrightarrow> \<not> ends_address k" "result_value (k, opt_str x) \<longleftrightarrow> \<not> ends_address k"
  unfolding result_value_def instanceVal_instanceOf opt_str_def by (auto split: option.splits) (metis surj_pair)+

lemma step_results:
  "useOrDeployENS E ow a w = (Inr (e, r), w') \<Longrightarrow> list_all result_value r"
  "useOrDeployDaoFactory E ow a w = (Inr (d, r), w') \<Longrightarrow> list_all result_value r"
  "deployMiniMeTokenFactory E ow a w = (Inr r, w') \<Longrightarrow> list_all result_value r"
  "deployAragonID E ow e a w = (Inr r, w') \<Longrightarrow> list_all result_value r"
  "useOrDeployAPMRegistryFactory E ow e d' x y z u w = (Inr (f, r), w') \<Longrightarrow> list_all result_value r"
  by (auto simp: useOrDeployENS_def deployENS_def useOrDeployDaoFactory_def deployDAOFactory_def prog_ok
      deployMiniMeTokenFactory_def deployAragonID_def useOrDeployAPMRegistryFactory_def ends_address_def
      Let_def split: if_splits option.splits)

definition known :: "props \<Rightarrow> bool" where
  "known st \<longleftrightarrow> list_all (has_address st) envAddresses"

lemma known_saved:
  assumes "saveResults E st ups w = (Inr st', w')" and "known st" and "list_all result_value ups"
  shows "known st'"
proof -
  have "list_all ends_address envAddresses" by (simp add: envAddresses_def ends_address_def)
  with assms(2) saved_keeps [OF assms(1,3)] show ?thesis by (auto simp: known_def list_all_iff)
qed

lemma known_truthy: "known st \<Longrightarrow> k \<in> set envAddresses \<Longrightarrow> truthy (obj_get st k)"
  by (auto simp: known_def list_all_iff intro: has_address_truthy)

lemma known_given: "known st \<Longrightarrow> k \<in> set envAddresses \<Longrightarrow> not_nullish (obj_get st k)"
  by (auto simp: known_def list_all_iff has_address_def not_nullish_def)

lemma quiet_bindP2:
  "quiet m \<Longrightarrow> (\<And>x y w w'. m w = (Inr (x, y), w') \<Longrightarrow> quiet (f x y)) \<Longrightarrow> quiet (bindP m (\<lambda>(x, y). f x y))"
  by (rule quiet_bindP) auto

lemma aragonEnvSteps_quiet: "known st \<Longrightarrow> quiet (aragonEnvSteps E owner st)"
  unfolding aragonEnvSteps_def
  by (intro quiet_bindP2 quiet_bindP quiet_reuse quiet_reuse_factory known_truthy known_given quiet_basic;
      (simp add: envAddresses_def)?; (elim known_saved)?;
      (simp add: step_results ends_address_def)?)

text \<open>What truffle promises: an instance has an address.\<close>

definition addresses_given :: "env \<Rightarrow> bool" where
  "addresses_given E \<longleftrightarrow>
     (\<forall>n v a. contract_at E n v = Inr a \<longrightarrow> a \<noteq> []) \<and>
     (\<forall>n args opts r a. send_tx E n ''new'' args opts = Inr r \<longrightarrow> getp r ''address'' = Inr (JStr a) \<longrightarrow> a \<noteq> [])"

lemma sendTx_result: "sendTx E n m args opts w = (Inr r, w') \<Longrightarrow> send_tx E n m args opts = Inr r"
  by (auto simp: sendTx_def split: sum.splits)

lemma str_of_Inr [simp]: "str_of v = Inr a \<longleftrightarrow> v = JStr a"
  by (auto simp: str_of_def split: jsval.splits)

lemma newInstance_given: "addresses_given E \<Longrightarrow> newInstance E n args w = (Inr a, w') \<Longrightarrow> a \<noteq> []"
  unfolding newInstance_def prog_ok str_of_Inr addresses_given_def by (metis sendTx_result)

lemma deploy_given:
  assumes g: "addresses_given E"
  shows "deploy E n (Some (withArgs args)) w = (Inr i, w') \<Longrightarrow> fst i \<noteq> []"
    and "useOrDeploy E n v (Some (withArgs args)) w = (Inr i, w') \<Longrightarrow> fst i \<noteq> []"
    and "useOrDeploy E n v None w = (Inr i, w') \<Longrightarrow> fst i \<noteq> []"
    and "at_addr E n v w = (Inr a, w') \<Longrightarrow> a \<noteq> []"
proof -
  have at: "contract_at E n v = Inr a \<Longrightarrow> a \<noteq> []" for n v a using g by (simp add: addresses_given_def)
  show dep: "deploy E n (Some (withArgs args)) w = (Inr i, w') \<Longrightarrow> fst i \<noteq> []"
    using newInstance_given [OF g] by (auto simp: deploy_def withArgs_def prog_ok)
  show "useOrDeploy E n v (Some (withArgs args)) w = (Inr i, w') \<Longrightarrow> fst i \<noteq> []"
    using at dep by (auto simp: useOrDeploy_def prog_ok split: if_splits)
  show "useOrDeploy E n v None w = (Inr i, w') \<Longrightarrow> fst i \<noteq> []"
    using at newInstance_given [OF g] by (auto simp: useOrDeploy_def deploy_def plainNew_def prog_ok split: if_splits)
  show "at_addr E n v w = (Inr a, w') \<Longrightarrow> a \<noteq> []" using at by (auto simp: prog_ok)
qed

text \<open>A step's results hold an instance with an address under the key.\<close>

definition yields :: "props \<Rightarrow> string \<Rightarrow> bool" where
  "yields r k \<longleftrightarrow> (\<exists>a c. a \<noteq> [] \<and> (k, instanceOf (a, c)) \<in> set r)"

lemma yieldsI: "(k, instanceOf i) \<in> set r \<Longrightarrow> fst i \<noteq> [] \<Longrightarrow> yields r k"
  unfolding yields_def by (metis prod.collapse)

lemma yields_ens: "addresses_given E \<Longrightarrow> useOrDeployENS E ow v w = (Inr (e, r), w') \<Longrightarrow> yields r ''ens''"
  by (rule yieldsI [of _ "(e, None)"])
    (auto simp: useOrDeployENS_def deployENS_def prog_ok instanceVal_instanceOf addresses_given_def split: if_splits)

lemma deployDAOFactory_last:
  assumes "deployDAOFactory E ow k a b w = (Inr (d, r), w')"
  shows "\<exists>c w1 args. deploy E ''DAOFactory'' (Some (withArgs args)) w1 = (Inr (d, c), w') \<and>
    (''daoFactory'', instanceOf (d, c)) \<in> set r"
proof -
  from assms obtain c w1 args pre where
    "deploy E ''DAOFactory'' (Some (withArgs args)) w1 = (Inr (d, c), w')" "r = pre @ [(''daoFactory'', instanceOf (d, c))]"
    unfolding deployDAOFactory_def prog_ok by (force simp: prog_ok)
  then show ?thesis by auto
qed

lemma yields_daoFactory:
  assumes g: "addresses_given E" and r: "useOrDeployDaoFactory E ow v w = (Inr (d, r), w')"
  shows "yields r ''daoFactory''"
proof (cases "truthy v")
  case True
  with g r show ?thesis
    by (intro yieldsI [of _ "(d, None)"])
      (auto simp: useOrDeployDaoFactory_def prog_ok instanceVal_instanceOf addresses_given_def)
next
  case False
  with r have "deployDAOFactory E ow JUndef JUndef True w = (Inr (d, r), w')"
    by (simp add: useOrDeployDaoFactory_def)
  from deployDAOFactory_last [OF this] obtain c w1 args where
    "deploy E ''DAOFactory'' (Some (withArgs args)) w1 = (Inr (d, c), w')" "(''daoFactory'', instanceOf (d, c)) \<in> set r"
    by blast
  with deploy_given(1) [OF g] show ?thesis by (fastforce intro: yieldsI)
qed

lemma yields_factory:
  assumes g: "addresses_given E" and r: "useOrDeployAPMRegistryFactory E ow en d' x y z u w = (Inr (f, r), w')"
  shows "yields r ''apmRegistryFactory''" "yields r ''apmRegistryBase''" "yields r ''apmRepoBase''"
    "yields r ''ensSubdomainRegistrarBase''"
proof -
  from r obtain i1 i2 i3 i4 args w1 w2 w3 w4 where
    "useOrDeploy E ''APMRegistry'' y None w = (Inr i1, w1)" "useOrDeploy E ''Repo'' z None w1 = (Inr i2, w2)"
    "useOrDeploy E ''ENSSubdomainRegistrar'' u None w2 = (Inr i3, w3)"
    "useOrDeploy E ''APMRegistryFactory'' x (Some (withArgs args)) w3 = (Inr i4, w4)"
    and r': "r = [(''apmRegistryBase'', instanceOf i1), (''apmRepoBase'', instanceOf i2),
      (''ensSubdomainRegistrarBase'', instanceOf i3), (''apmRegistryFactory'', instanceOf i4)]"
    unfolding useOrDeployAPMRegistryFactory_def prog_ok by blast
  then have "fst i1 \<noteq> []" "fst i2 \<noteq> []" "fst i3 \<noteq> []" "fst i4 \<noteq> []"
    by (auto dest: deploy_given(2,3) [OF g])
  then show "yields r ''apmRegistryFactory''" "yields r ''apmRegistryBase''" "yields r ''apmRepoBase''"
    "yields r ''ensSubdomainRegistrarBase''"
    by (auto simp: r' intro: yieldsI)
qed

lemma yields_others:
  assumes g: "addresses_given E"
  shows "deployMiniMeTokenFactory E ow v w = (Inr r, w') \<Longrightarrow> yields r ''miniMeTokenFactory''"
    and "deployAragonID E ow en v w = (Inr r, w') \<Longrightarrow> yields r ''aragonID''"
proof -
  show "deployMiniMeTokenFactory E ow v w = (Inr r, w') \<Longrightarrow> yields r ''miniMeTokenFactory''"
    unfolding deployMiniMeTokenFactory_def prog_ok by (auto intro: yieldsI dest: deploy_given(2) [OF g])
  have at: "contract_at E n v = Inr a \<Longrightarrow> a \<noteq> []" for n v a using g by (simp add: addresses_given_def)
  show "deployAragonID E ow en v w = (Inr r, w') \<Longrightarrow> yields r ''aragonID''"
    unfolding deployAragonID_def Let_def
    by (auto simp: prog_ok instanceVal_instanceOf intro!: yieldsI dest: deploy_given(1) [OF g] at split: if_splits)
qed

lemma apm_given: "addresses_given E \<Longrightarrow> deployAPM E ow l en f v w = (Inr apm, w') \<Longrightarrow> apm_registry apm \<noteq> []"
  unfolding deployAPM_def by (auto simp: prog_ok addresses_given_def split: if_splits)

lemma saved_yields:
  "saveResults E st ups w = (Inr st', w') \<Longrightarrow> list_all result_value ups \<Longrightarrow> yields ups p \<Longrightarrow> has_address st' (p @ ''Address'')"
  by (auto simp: yields_def intro: saved_adds)

lemma aragonEnvSteps_known:
  assumes g: "addresses_given E" and run: "aragonEnvSteps E owner st w = (Inr st', w')"
  shows "known st' \<and> state_of E w' = Some (json_props (bn_json E) st')"
proof -
  from run obtain e r1 s1 d r2 s2 f r3 s3 apm s4 r5 s5 r6
    v1 v2 v3 v4 x3 y3 z3 v5 v6 l
    w1 w2 w3 w4 w5 w6 w7 w8 w9 w10 w11 where
    ens: "useOrDeployENS E owner v1 w = (Inr (e, r1), w1)" and s1: "saveResults E st r1 w1 = (Inr s1, w2)" and
    dao: "useOrDeployDaoFactory E owner v2 w2 = (Inr (d, r2), w3)" and s2: "saveResults E s1 r2 w3 = (Inr s2, w4)" and
    fac: "useOrDeployAPMRegistryFactory E owner e d v3 x3 y3 z3 w4 = (Inr (f, r3), w5)" and
    s3: "saveResults E s2 r3 w5 = (Inr s3, w6)" and
    apm: "deployAPM E owner l e f v4 w6 = (Inr apm, w7)" and
    s4: "saveResults E s3 [(''aragonApmRegistry'', instanceVal (apm_registry apm)), (''aragonEnsNodeName'', opt_str (apm_ensNodeName apm)),
         (''aragonEnsNode'', opt_str (apm_ensNode apm))] w7 = (Inr s4, w8)" and
    mini: "deployMiniMeTokenFactory E owner v5 w8 = (Inr r5, w9)" and s5: "saveResults E s4 r5 w9 = (Inr s5, w10)" and
    aid: "deployAragonID E owner e v6 w10 = (Inr r6, w11)" and s6: "saveResults E s5 r6 w11 = (Inr st', w')"
    unfolding aragonEnvSteps_def by (auto simp: bindP_eq_Inr liftP_ok)
  let ?r4 = "[(''aragonApmRegistry'', instanceVal (apm_registry apm)), (''aragonEnsNodeName'', opt_str (apm_ensNodeName apm)),
         (''aragonEnsNode'', opt_str (apm_ensNode apm))]"
  have v: "list_all result_value r1" "list_all result_value r2" "list_all result_value r3" "list_all result_value ?r4"
    "list_all result_value r5" "list_all result_value r6"
    using step_results(1) [OF ens] step_results(2) [OF dao] step_results(5) [OF fac] step_results(3) [OF mini]
      step_results(4) [OF aid] by (simp_all add: ends_address_def)
  have y4: "yields ?r4 ''aragonApmRegistry''"
    using apm_given [OF g apm] by (intro yieldsI [of _ "(apm_registry apm, None)"]) (simp_all add: instanceVal_instanceOf)
  note keep6 = saved_keeps [OF s6 v(6)] and keep5 = saved_keeps [OF s5 v(5)] and keep4 = saved_keeps [OF s4 v(4)]
    and keep3 = saved_keeps [OF s3 v(3)] and keep2 = saved_keeps [OF s2 v(2)]
  have a: "has_address st' ''ensAddress''"
    using saved_yields [OF s1 v(1) yields_ens [OF g ens]] by (intro keep6 keep5 keep4 keep3 keep2) (simp_all add: ends_address_def)
  have b: "has_address st' ''daoFactoryAddress''"
    using saved_yields [OF s2 v(2) yields_daoFactory [OF g dao]] by (intro keep6 keep5 keep4 keep3) (simp_all add: ends_address_def)
  have c: "has_address st' ''apmRegistryFactoryAddress''" "has_address st' ''apmRegistryBaseAddress''"
    "has_address st' ''apmRepoBaseAddress''" "has_address st' ''ensSubdomainRegistrarBaseAddress''"
    using yields_factory [OF g fac, THEN saved_yields [OF s3 v(3)]]
    by (auto intro!: keep6 keep5 keep4 simp: ends_address_def)
  have d: "has_address st' ''aragonApmRegistryAddress''"
    using saved_yields [OF s4 v(4) y4] by (intro keep6 keep5) (simp_all add: ends_address_def)
  have e: "has_address st' ''miniMeTokenFactoryAddress''"
    using saved_yields [OF s5 v(5) yields_others(1) [OF g mini]] by (intro keep6) (simp_all add: ends_address_def)
  have f: "has_address st' ''aragonIDAddress''"
    using saved_yields [OF s6 v(6) yields_others(2) [OF g aid]] by simp
  have "state_of E w' = Some (json_props (bn_json E) st')"
    using s6 by (auto simp: prog_ok intro!: state_of_persisted)
  with a b c d e f show ?thesis by (simp add: known_def envAddresses_def)
qed

lemma known_json: "known st \<Longrightarrow> known (json_props b st)"
  by (auto simp: known_def list_all_iff has_address_def json_props_get)

lemma known_obj_set: "known st \<Longrightarrow> \<not> ends_address k \<Longrightarrow> known (obj_set k v st)"
proof -
  assume "known st" "\<not> ends_address k"
  moreover have "list_all ends_address envAddresses" by (simp add: envAddresses_def ends_address_def)
  ultimately show ?thesis by (auto simp: known_def list_all_iff has_address_def)
qed

lemma known_start:
  "known st \<Longrightarrow> known (defaultTo ''aragonEnsLabelName'' d st)"
  "known st \<Longrightarrow> chooseOwner accs st = Inr st' \<Longrightarrow> known st'"
  by (auto simp: chooseOwner_def Let_def bindR_eq_Inr defaultTo_def ends_address_def intro: known_obj_set split: if_splits)

lemma deployAragonEnv_ok:
  assumes "deployAragonEnv E label w = (Inr (), w1)"
  obtains st0 owner st1 where "aragonEnvSteps E owner st0 (after_read E w) = (Inr st1, w1)"
proof -
  from assms obtain accounts read w2 where "readState E w = (Inr read, w2)"
    and "\<exists>owner st0 st1. aragonEnvSteps E owner st0 w2 = (Inr st1, w1)"
    unfolding deployAragonEnv_def Let_def bindP_eq_Inr liftP_ok returnP_ok by blast
  moreover from this(1) have "w2 = after_read E w" using readState_world [of E w] by simp
  ultimately show thesis using that by blast
qed

text \<open>With every address in the state the script sends nothing.\<close>

lemma deployAragonEnv_quiet:
  assumes "state_of E w = Some st" and "known st"
  shows "sent (snd (deployAragonEnv E label w)) = sent w"
proof (cases "get_accounts E")
  case (Inr accounts)
  have read: "readState E w = (Inr st, after_read E w)"
    using assms(1) by (simp add: readState_ok readState_world prod_eq_iff)
  have "quiet (bindP (liftP (chooseOwner accounts st)) (\<lambda>owned.
      let state0 = defaultTo ''aragonEnsLabelName'' label owned
      in bindP (aragonEnvSteps E (obj_get state0 ''owner'') state0) (\<lambda>_. returnP ())))"
    using assms(2) unfolding Let_def
    by (intro quiet_bindP quiet_basic aragonEnvSteps_quiet known_start(1)) (auto simp: liftP_ok intro: known_start(2))
  with Inr read show ?thesis by (simp add: deployAragonEnv_def bindP_Inr bindP_liftP quiet_def)
qed (simp add: deployAragonEnv_def bindP_liftP)

lemma updateKey_other:
  "k \<noteq> key \<Longrightarrow> k \<noteq> key @ ''Address'' \<Longrightarrow> k \<noteq> key @ ''ConstructorArgs'' \<Longrightarrow> obj_get (updateKey (key, v) st) k = obj_get st k"
  by (simp add: updateKey_def Let_def)

lemma requireFields_ok [prog_ok]:
  "requireFields E ks w = (Inr st, w') \<longleftrightarrow>
     state_of E w = Some st \<and> missingState st ks = [] \<and> w' = after_read E w"
  using readState_ok [of E w] readState_world [of E w]
  by (cases "readState E w") (auto simp: requireFields_def Let_def bindP_def prog_simps split: sum.splits)

section \<open>Properties\<close>

text \<open>
  C17: deploying the Aragon environment is idempotent: after a successful run, running the script
  again on the state file it wrote sends no transaction, whatever the node answers and the
  environment label is by then, because the state holds the address of every contract.
\<close>

theorem aragon_env_rerun:
  assumes "deployAragonEnv E label w = (Inr (), w1)" and "addresses_given E" and "state_of E' w1 = state_of E w1"
  shows "sent (snd (deployAragonEnv E' label' w1)) = sent w1"
proof -
  from assms(1) obtain owner st0 st1 where "aragonEnvSteps E owner st0 (after_read E w) = (Inr st1, w1)"
    by (rule deployAragonEnv_ok)
  from aragonEnvSteps_known [OF assms(2) this] have "state_of E' w1 = Some (json_props (bn_json E) st1)" "known st1"
    using assms(3) by simp_all
  then show ?thesis using deployAragonEnv_quiet known_json by blast
qed

definition devnet :: env where
  "devnet = offline_env\<lparr>get_accounts := Inr [JStr ''0xaa''], contract_at := (\<lambda>n _. Inr (''@'' @ n)),
     call_view := (\<lambda>_ _ _. Inr (JStr ''0xaa'')),
     send_tx := (\<lambda>a m _ _. Inr (JObj [(''address'', JStr (''0x'' @ a)), (''logs'', JArr
        [JObj [(''event'', JStr ''DeployENS''), (''args'', JObj [(''ens'', JStr ''0xe'')])],
         JObj [(''event'', JStr ''DeployAPM''), (''args'', JObj [(''apm'', JStr ''0xb'')])]])]))\<rparr>"

text \<open>Running a script on a concrete environment, one call at a time.\<close>

lemma run_bindP:
  "bindP (bindP m g) f w = bindP m (\<lambda>x. bindP (g x) f) w"
  "bindP (returnP x) f w = f x w"
  "bindP (liftP (Inr x)) f w = f x w"
  by (simp_all add: bindP_def returnP_def liftP_def split: prod.splits sum.splits)

definition savedWorld :: "env \<Rightarrow> props \<Rightarrow> world \<Rightarrow> world" where
  "savedWorld E st w = w\<lparr>net_files := (net_files w)(state_file E \<mapsto> JsonText (JObj (json_props (bn_json E) st)))\<rparr>"

lemma sent_savedWorld [simp]: "sent (savedWorld E st w) = sent w"
  by (simp add: savedWorld_def)

lemma run_save:
  "bindP (saveResults E st ups) f w =
     (let st1 = obj_set ''networkId'' (JInt (network_id E)) (updateNetworkState st ups) in f st1 (savedWorld E st1 w))"
  by (simp add: saveResults_def persistState_eq bindP_def Let_def savedWorld_def)

lemma run_read:
  assumes "state_of E w = Some st"
  shows "bindP (readState E) f w = f st (after_read E w)"
proof -
  have "readState E w = (Inr st, after_read E w)"
    using assms by (simp add: readState_ok readState_world prod_eq_iff)
  then show ?thesis by (simp add: bindP_def)
qed

lemma run_send:
  "send_tx E a m args opts = Inr r \<Longrightarrow>
   bindP (sendTx E a m args opts) f w =
     f r (w\<lparr>sent := sent w @ [\<lparr>tx_to = a, tx_method = m, tx_args = args, tx_opts = opts\<rparr>]\<rparr>)"
  by (simp add: bindP_def sendTx_def)

lemma run_cong: "m = m' \<Longrightarrow> bindP m f w = bindP m' f w"
  by simp

lemma devnet_simps [simp]:
  "get_accounts devnet = Inr [JStr ''0xaa'']" "contract_at devnet n v = Inr (''@'' @ n)" "call_view devnet a m args = Inr (JStr ''0xaa'')"
  "network_id devnet = 1337"
  "send_tx devnet a m args opts = Inr (JObj [(''address'', JStr (''0x'' @ a)), (''logs'', JArr
        [JObj [(''event'', JStr ''DeployENS''), (''args'', JObj [(''ens'', JStr ''0xe'')])],
         JObj [(''event'', JStr ''DeployAPM''), (''args'', JObj [(''apm'', JStr ''0xb'')])]])])"
  by (simp_all add: devnet_def offline_env_def)


lemma devnet_run:
  "\<exists>w1. deployAragonEnv devnet ''aragonpm'' empty_world = (Inr (), w1) \<and> length (sent w1) = 16"
proof -
  have read: "state_of devnet empty_world = Some [(''networkId'', JInt 1337)]"
    by (simp add: state_of_def empty_world_def)
  have none_sent: "sent empty_world = []" by (simp add: empty_world_def)
  show ?thesis
    by (simp cong: run_cong
      add: deployAragonEnv_def run_read [OF read]
        run_bindP run_save run_send chooseOwner_def fst_or_undef_def defaultTo_def Let_def aragonEnvSteps_def
        useOrDeployENS_def deployENS_def deploy_def withArgs_def newInstance_def at_addr_def view_def prop_of_def
        updateKey_instanceOf instanceVal_instanceOf str_of_def logsOf_def fstLogArg_def logsNamed_def evt_field_def evt_arg_def
        splitOpts_def fromOwner_def useOrDeployDaoFactory_def deployDAOFactory_def useOrDeploy_def
        useOrDeployAPMRegistryFactory_def plainNew_def deployAPM_def assignENSName_def strict_eq_def opt_str_def
        deployMiniMeTokenFactory_def deployAragonID_def not_nullish_def returnP_apply none_sent)
qed

theorem aragon_env_rerun_witness:
  "\<exists>w1. length (sent w1) = 16 \<and> sent (snd (deployAragonEnv devnet ''again'' w1)) = sent w1"
proof -
  obtain w1 where w1: "deployAragonEnv devnet ''aragonpm'' empty_world = (Inr (), w1)" "length (sent w1) = 16"
    using devnet_run by blast
  have "addresses_given devnet" by (auto simp: addresses_given_def)
  from aragon_env_rerun [OF w1(1) this refl] w1(2) show ?thesis by blast
qed

text \<open>
  deploying wstETH never reads the network's state: the script looks for the state file of a
  network called "undefined"; without such a file it creates one that holds the network id and stops
  on the missing Lido proxy, whatever the real state file says.
\<close>

theorem wsteth_wrong_file:
  assumes "net_files w (getFileName E ''undefined'' (file_base E) (file_dir E)) = None"
  shows "deployWstEthContract E w =
    (bindR (get_accounts E) (\<lambda>_. Inl TypeError),
     w\<lparr>net_files := (net_files w)(getFileName E ''undefined'' (file_base E) (file_dir E) \<mapsto>
        JsonText (JObj [(''networkId'', JInt (network_id E))]))\<rparr>)"
  using assms
  by (simp add: deployWstEthContract_def readNetworkState_def readNetworkStateFile_def writeNetworkStateFile_def
      bindP_def prog_simps strict_eq_def prop_of_def Let_def split: sum.splits)

theorem wsteth_wrong_file_witness:
  "fst (deployWstEthContract devnet (empty_world\<lparr>net_files := (\<lambda>f. if f = ''./deployed-dev.json''
      then Some (JsonText (JObj [(''networkId'', JInt 1337), (''app:lido'', JObj [(''proxyAddress'', JStr ''0x1'')])])) else None)\<rparr>)) =
   Inl TypeError"
proof -
  let ?w = "empty_world\<lparr>net_files := (\<lambda>f. if f = ''./deployed-dev.json''
      then Some (JsonText (JObj [(''networkId'', JInt 1337), (''app:lido'', JObj [(''proxyAddress'', JStr ''0x1'')])])) else None)\<rparr>"
  have "net_files ?w (getFileName devnet ''undefined'' (file_base devnet) (file_dir devnet)) = None"
    by (simp add: getFileName_def devnet_def offline_env_def)
  from wsteth_wrong_file [OF this] show ?thesis by simp
qed

text \<open>
  a deposit contract can be lost: when the state has DAO settings without a beacon
  specification, the script creates the contract and then fails to note its address in the settings,
  so nothing is written and the state still has no deposit contract.
\<close>

theorem beacon_deposit_lost:
  assumes "state_of E w = Some st" and "net_files w (state_file E) \<noteq> None"
    and "obj_get st ''daoInitialSettings'' = JObj settings" and "obj_get settings ''beaconSpec'' = JUndef"
    and "\<not> truthy (obj_get st ''depositContractAddress'')" and "get_accounts E = Inr (a # accs)"
    and "send_tx E ''DepositContract'' ''new'' [] [(''from'', a)] = Inr (JObj [(''address'', JStr d)])"
  shows "deployBeaconDepositContract E w =
    (Inl TypeError, w\<lparr>sent := sent w @ [\<lparr>tx_to = ''DepositContract'', tx_method = ''new'', tx_args = [], tx_opts = [(''from'', a)]\<rparr>]\<rparr>)"
proof -
  have n: "not_nullish JUndef = False" by (simp add: not_nullish_def)
  show ?thesis
    using assms(3-7) after_read_id [OF assms(2)]
    by (simp cong: run_cong add: deployBeaconDepositContract_def run_read [OF assms(1)] run_bindP run_send Let_def prop_of_def
        useOrDeployDepositContract_def deploy_def withArgs_def newInstance_def splitOpts_def fromOwner_def fst_or_undef_def
        str_of_def set_prop_def n bindP_liftP)
qed

theorem beacon_deposit_lost_witness:
  "\<exists>w'. deployBeaconDepositContract (devnet\<lparr>send_tx := (\<lambda>_ _ _ _. Inr (JObj [(''address'', JStr ''0xd'')]))\<rparr>)
      (empty_world\<lparr>net_files := (\<lambda>_. Some (JsonText (JObj [(''networkId'', JInt 1337), (''daoInitialSettings'', JObj [])])))\<rparr>) =
    (Inl TypeError, w') \<and> length (sent w') = 1"
proof -
  let ?E = "devnet\<lparr>send_tx := (\<lambda>_ _ _ _. Inr (JObj [(''address'', JStr ''0xd'')]))\<rparr>"
  let ?w = "empty_world\<lparr>net_files := (\<lambda>_. Some (JsonText (JObj [(''networkId'', JInt 1337), (''daoInitialSettings'', JObj [])])))\<rparr>"
  have "state_of ?E ?w = Some [(''networkId'', JInt 1337), (''daoInitialSettings'', JObj [])]"
    by (simp add: state_of_def strict_eq_def)
  from beacon_deposit_lost [OF this, of "[]" "JStr ''0xaa''" "[]" "''0xd''"] show ?thesis by (simp add: empty_world_def)
qed

text \<open>
  the Lido APM script cannot finish on a fresh network: it stores the new registry's address
  as \<open>lidoApmRegistryAddress\<close> but looks the registry up under \<open>lidoApmAddress\<close>, so unless the
  template is already published the run never succeeds.
\<close>

theorem apm_template_fresh_fails:
  assumes "state_of E w = Some st" and "\<not> truthy (obj_get st ''lidoApmAddress'')"
    and "\<not> truthy (obj_get st ''daoTemplateAddress'')"
    and "\<And>v. \<not> truthy v \<Longrightarrow> contract_at E ''APMRegistry'' v = Inl (External ''Invalid address'')"
    and "\<And>node ens latest. resolveLatestVersion E node ens = Inr latest \<Longrightarrow> \<not> truthy latest"
  shows "\<not> okR (fst (deployApmAndTemplate E label templateLabel w))"
proof
  assume "okR (fst (deployApmAndTemplate E label templateLabel w))"
  then obtain w' where run: "deployApmAndTemplate E label templateLabel w = (Inr (), w')"
    by (auto simp: okR_iff prod_eq_iff)
  define st0 where st0: "st0 = defaultTo ''daoTemplateEnsLabel'' templateLabel (defaultTo ''lidoEnsLabelName'' label st)"
  from run obtain ens st1 w1 w2 w3 r and apm :: apm_deployment where
    s: "saveResults E st0 [(''lidoApmRegistry'', instanceVal (apm_registry apm)), (''lidoEnsNodeName'', opt_str (apm_ensNodeName apm)),
          (''lidoEnsNode'', opt_str (apm_ensNode apm))] w1 = (Inr st1, w2)" and
    t: "deployDaoTemplate E \<lparr>ts_owner = obj_get st ''owner'', ts_ens = ens, ts_lidoApmAddress = obj_get st1 ''lidoApmAddress'',
          ts_daoFactoryAddress = obj_get st1 ''daoFactoryAddress'',
          ts_miniMeTokenFactoryAddress = obj_get st1 ''miniMeTokenFactoryAddress'',
          ts_lidoEnsNodeName = obj_get st1 ''lidoEnsNodeName'', ts_daoTemplateEnsLabel = obj_get st1 ''daoTemplateEnsLabel'',
          ts_daoTemplateAddress = obj_get st1 ''daoTemplateAddress''\<rparr> w2 = (Inr r, w3)"
    unfolding deployApmAndTemplate_def Let_def by (auto simp: bindP_eq_Inr liftP_ok requireFields_ok assms(1) simp flip: st0)
  let ?ups = "[(''lidoApmRegistry'', instanceVal (apm_registry apm)), (''lidoEnsNodeName'', opt_str (apm_ensNodeName apm)),
          (''lidoEnsNode'', opt_str (apm_ensNode apm))]"
  have st1: "st1 = obj_set ''networkId'' (JInt (network_id E)) (updateNetworkState st0 ?ups)"
    using s by (simp only: saveResults_ok)
  have other: "obj_get (updateNetworkState st0 ?ups) ''lidoApmAddress'' = obj_get st0 ''lidoApmAddress''"
    "obj_get (updateNetworkState st0 ?ups) ''daoTemplateAddress'' = obj_get st0 ''daoTemplateAddress''"
    by (simp_all add: updateKey_other)
  have "obj_get st1 ''lidoApmAddress'' = obj_get st ''lidoApmAddress''"
    "obj_get st1 ''daoTemplateAddress'' = obj_get st ''daoTemplateAddress''"
    unfolding st1 obj_get_set other by (simp_all add: st0 defaultTo_def)
  then have "\<not> truthy (obj_get st1 ''lidoApmAddress'')" "\<not> truthy (obj_get st1 ''daoTemplateAddress'')"
    using assms(2,3) by auto
  with t assms(4,5) show False by (auto simp: deployDaoTemplate_def Let_def prog_ok split: if_splits)
qed

theorem apm_template_fresh_fails_witness:
  "\<not> okR (fst (deployApmAndTemplate
     (devnet\<lparr>contract_at := (\<lambda>n v. if truthy v then Inr n else Inl (External ''Invalid address'')),
       call_view := (\<lambda>_ m _. Inr (if m = ''owner'' then JStr ''0xaa'' else JNull))\<rparr>) ''lidopm'' ''template''
     (empty_world\<lparr>net_files := (\<lambda>_. Some (JsonText (JObj ((''networkId'', JInt 1337) #
        map (\<lambda>k. (k, JStr ''0xaa'')) REQUIRED_APM_TEMPLATE))))\<rparr>)))"
  by (rule apm_template_fresh_fails)
    (auto simp: state_of_def strict_eq_def REQUIRED_APM_TEMPLATE_def resolveLatestVersion_def resolveEnsAddress_def isZeroAddress_def)

end
