(* ===== verification/DeployApps.thy ===== *)
theory DeployApps
  imports DeployEnv
begin

text \<open>
  Publishing the apps: scripts/deploy-lido-apps.js and scripts/deploy-aragon-std-apps.js with the
  helpers that start child processes (helpers/exec.js, helpers/git.js, helpers/collections.js), and
  the tasks of scripts/hardhat-tasks.js that send a saved transaction and assign an ENS name.

  What the commands do is outside the repository: \<open>shell\<close> holds, as functions of the commands run so
  far, their exit status (\<open>None\<close> for a process ended by a signal) and the files they leave.  The state
  of such a script is the world of the other scripts, the app manifests it has rewritten and the
  commands it has started.
\<close>

section \<open>Child processes\<close>

record command =
  cm_name :: string
  cm_args :: "string list"
  cm_cwd :: "string option"
  cm_env :: "props option"

record shell =
  sh_exit :: "command list \<Rightarrow> command \<Rightarrow> int option"
  sh_read :: "command list \<Rightarrow> string \<Rightarrow> jsval res"
  sh_is_dir :: "command list \<Rightarrow> string \<Rightarrow> bool"
  sh_readdir :: "string \<Rightarrow> string list"
  sh_abs :: "string \<Rightarrow> string"
  sh_process_env :: props
  sh_config_ens :: jsval
  sh_hardhat_config :: string

record shell_world =
  sw_world :: world
  sw_json :: "string \<rightharpoonup> jsval"
  sw_commands :: "command list"

type_synonym 'a shprog = "shell_world \<Rightarrow> 'a res \<times> shell_world"

definition bindS :: "'a shprog \<Rightarrow> ('a \<Rightarrow> 'b shprog) \<Rightarrow> 'b shprog" where
  "bindS m f w = (case m w of (Inl e, w') \<Rightarrow> (Inl e, w') | (Inr x, w') \<Rightarrow> f x w')"

definition liftS :: "'a res \<Rightarrow> 'a shprog" where
  "liftS r w = (r, w)"

text \<open>Looking at the files as they are at this point of the run.\<close>

definition looking :: "(shell_world \<Rightarrow> 'a res) \<Rightarrow> 'a shprog" where
  "looking f w = (f w, w)"

definition inWorld :: "'a prog \<Rightarrow> 'a shprog" where
  "inWorld m w = (case m (sw_world w) of (r, w1) \<Rightarrow> (r, w\<lparr>sw_world := w1\<rparr>))"

definition execLive :: "shell \<Rightarrow> string \<Rightarrow> string list \<Rightarrow> string option \<Rightarrow> props option \<Rightarrow> unit shprog" where
  "execLive S cmd args cwd environ w =
     (let c = \<lparr>cm_name = cmd, cm_args = args, cm_cwd = cwd, cm_env = environ\<rparr>;
          code = sh_exit S (sw_commands w) c;
          w' = w\<lparr>sw_commands := sw_commands w @ [c]\<rparr>
      in if code \<noteq> Some 0
         then (Inl (Error (''exited with code '' @ (case code of None \<Rightarrow> ''null'' | Some n \<Rightarrow> dec_int n))), w')
         else (Inr (), w'))"

definition gitCloneRepo :: "shell \<Rightarrow> string \<Rightarrow> string \<Rightarrow> string \<Rightarrow> unit shprog" where
  "gitCloneRepo S targetPath repoLink gitRef =
     (let targetAbsPath = sh_abs S targetPath
      in bindS (looking (\<lambda>w. Inr (sh_is_dir S (sw_commands w) targetAbsPath))) (\<lambda>isDir.
         bindS (if \<not> isDir then execLive S ''git'' [''clone'', repoLink, targetAbsPath] None None else liftS (Inr ())) (\<lambda>_.
         bindS (execLive S ''git'' [''reset'', ''--hard''] (Some targetAbsPath) None) (\<lambda>_.
         execLive S ''git'' [''checkout'', gitRef] (Some targetAbsPath) None))))"

section \<open>An app's manifest\<close>

definition readManifest :: "shell \<Rightarrow> shell_world \<Rightarrow> string \<Rightarrow> jsval res" where
  "readManifest S w path = (case sw_json w path of Some v \<Rightarrow> Inr v | None \<Rightarrow> sh_read S (sw_commands w) path)"

text \<open>The environment the name is read in: files are read as they are now.\<close>

definition nowEnv :: "env \<Rightarrow> shell \<Rightarrow> shell_world \<Rightarrow> env" where
  "nowEnv E S w = E\<lparr>read_json := readManifest S w\<rparr>"

text \<open>\<open>namehash(name)\<close>, which takes a missing name for the empty one.\<close>

definition hashName :: "env \<Rightarrow> jsval \<Rightarrow> string res" where
  "hashName E v = (case v of JStr s \<Rightarrow> Inr (name_hash E s) | JNull \<Rightarrow> Inr (name_hash E [])
     | JUndef \<Rightarrow> Inr (name_hash E []) | _ \<Rightarrow> Inl TypeError)"

definition arappPath :: "env \<Rightarrow> string \<Rightarrow> string" where
  "arappPath E appRootPath = path_resolve E appRootPath ''arapp.json''"

text \<open>The environment of the network in the manifest, with the registry; \<open>always\<close> tells whether an
  environment that is already there gets the registry too.\<close>

definition setRegistry :: "bool \<Rightarrow> string \<Rightarrow> jsval \<Rightarrow> jsval \<Rightarrow> jsval res" where
  "setRegistry always netName configEns arapp =
     bindR (getp arapp ''environments'') (\<lambda>environments.
     bindR (getp environments netName) (\<lambda>old.
     if truthy old \<and> \<not> always then Inr arapp
     else bindR (if truthy old then Inr old
                 else bindR (getp environments ''default'') (\<lambda>d. Inr (JObj (own_props d)))) (\<lambda>netEnv.
          bindR (set_prop netEnv ''registry'' configEns) (\<lambda>netEnv'.
          bindR (set_prop environments netName netEnv') (\<lambda>environments'.
          set_prop arapp ''environments'' environments')))))"

definition rewriteManifest :: "env \<Rightarrow> shell \<Rightarrow> bool \<Rightarrow> string \<Rightarrow> unit shprog" where
  "rewriteManifest E S always appRootPath =
     bindS (looking (\<lambda>w. readManifest S w (arappPath E appRootPath))) (\<lambda>arapp.
     bindS (liftS (setRegistry always (network_name E) (sh_config_ens S) arapp)) (\<lambda>arapp' w.
     (Inr (), w\<lparr>sw_json := (sw_json w)(arappPath E appRootPath \<mapsto> json_val (bn_json E) arapp')\<rparr>)))"

definition appFields :: "jsval \<Rightarrow> string \<Rightarrow> string \<Rightarrow> props" where
  "appFields fullName name ident = [(''fullName'', fullName), (''name'', JStr name), (''id'', JStr ident)]"

section \<open>deploy-lido-apps.js\<close>

definition publishLidoApp :: "env \<Rightarrow> shell \<Rightarrow> string \<Rightarrow> props \<Rightarrow> string \<Rightarrow> string \<Rightarrow> props shprog" where
  "publishLidoApp E S appName environ appsDirPath releaseType =
     (let appRootPath = path_resolve E appsDirPath appName; appFrontendPath = appRootPath @ ''/app''
      in bindS (looking (\<lambda>w. readAppName (nowEnv E S w) appRootPath (network_name E))) (\<lambda>appFullName.
         bindS (liftS (hashName E appFullName)) (\<lambda>appId.
         bindS (rewriteManifest E S True appRootPath) (\<lambda>_.
         bindS (execLive S ''yarn'' [] (Some appFrontendPath) None) (\<lambda>_.
         bindS (execLive S ''yarn'' [''build''] (Some appFrontendPath) None) (\<lambda>_.
         bindS (execLive S ''hardhat'' [''publish'', releaseType, ''--network'', network_name E, ''--ipfs-api-url'', []]
                  (Some appRootPath) (Some environ)) (\<lambda>_.
         liftS (Inr (appFields appFullName appName appId)))))))))"

text \<open>\<open>persistNetworkState(..., netState, { [`app:${name}`]: { ...netState[`app:${name}`], ...app } })\<close>\<close>

definition recordApp :: "env \<Rightarrow> string \<Rightarrow> props \<Rightarrow> props \<Rightarrow> props prog" where
  "recordApp E name app netState =
     persistState E netState [(appKey name, JObj (obj_assign (own_props (obj_get netState (appKey name))) app))]"

fun publishAll :: "env \<Rightarrow> (string \<Rightarrow> props shprog) \<Rightarrow> string list \<Rightarrow> props \<Rightarrow> props shprog" where
  "publishAll E publishApp [] netState = liftS (Inr netState)"
| "publishAll E publishApp (name # names) netState =
     bindS (publishApp name) (\<lambda>app. bindS (inWorld (recordApp E name app netState)) (publishAll E publishApp names))"

text \<open>Both scripts start by reading the state and comparing its ENS address with the configured one.\<close>

definition ensMissing :: "env \<Rightarrow> string \<Rightarrow> jserr" where
  "ensMissing E networkStateFile = Error (''ensAddress for network '' @ dec_int (network_id E) @
     '' is missing from network state file '' @ networkStateFile)"

definition checkEnsAddress :: "env \<Rightarrow> shell \<Rightarrow> string \<Rightarrow> props \<Rightarrow> unit res" where
  "checkEnsAddress E S networkStateFile netState =
     (let given = obj_get netState ''ensAddress''; configured = sh_config_ens S
      in if \<not> truthy given then Inl (ensMissing E networkStateFile)
         else if \<not> truthy configured
         then Inl (Error (''ensAddress is not defined for network '' @ network_name E @ '' in Hardhat config file '' @
                sh_hardhat_config S))
         else bindR (str_of configured) (\<lambda>c. bindR (str_of given) (\<lambda>g.
              if to_lower c \<noteq> to_lower g
              then Inl (Error (''ensAddress for network '' @ dec_int (network_id E) @ '' is different in Hardhat config file '' @
                     sh_hardhat_config S @ '' and network state file '' @ networkStateFile))
              else Inr ())))"

definition subprocessEnv :: "shell \<Rightarrow> props" where
  "subprocessEnv S = filterObject (sh_process_env S) (\<lambda>key. take 8 key \<noteq> ''HARDHAT_'')"

definition chooseApps :: "shell \<Rightarrow> string \<Rightarrow> string \<Rightarrow> string list" where
  "chooseApps S appNames appsDirPath =
     (if appNames \<noteq> [] \<and> appNames \<noteq> ''*'' then split_on (CHR '','') appNames else sh_readdir S appsDirPath)"

definition deployLidoApps :: "env \<Rightarrow> shell \<Rightarrow> string \<Rightarrow> string \<Rightarrow> string \<Rightarrow> string \<Rightarrow> props shprog" where
  "deployLidoApps E S networkStateFile appsDirPath appNames releaseType =
     bindS (inWorld (readState E)) (\<lambda>netState.
     bindS (liftS (checkEnsAddress E S networkStateFile netState)) (\<lambda>_.
     publishAll E (\<lambda>name. publishLidoApp E S name (subprocessEnv S) appsDirPath releaseType)
       (chooseApps S appNames appsDirPath) netState))"

section \<open>deploy-aragon-std-apps.js\<close>

definition STD_APPS :: "string list" where
  "STD_APPS = [''agent'', ''finance'', ''token-manager'', ''vault'', ''voting'']"

definition childEnv :: "props \<Rightarrow> string \<Rightarrow> props" where
  "childEnv environ appName =
     obj_assign environ [(''STD_APPS_DEPLOY'', JStr ''1''),
       (''APP_FRONTEND_PATH'', JStr (''aragon-apps/apps/'' @ appName @ ''/app'')),
       (''APP_FRONTEND_DIST_PATH'', JStr (''aragon-apps/apps/'' @ appName @ ''/dist''))]"

text \<open>The release type is a parameter here, too, but every release is a major one.\<close>

definition publishStdApp :: "env \<Rightarrow> shell \<Rightarrow> string \<Rightarrow> props \<Rightarrow> string \<Rightarrow> string \<Rightarrow> props shprog" where
  "publishStdApp E S appsRepoPath environ releaseType appName =
     (let appRootPath = sh_abs S (appsRepoPath @ ''/apps/'' @ appName);
          appFrontendPath = appRootPath @ ''/app''
      in bindS (looking (\<lambda>w. readAppName (nowEnv E S w) appRootPath (network_name E))) (\<lambda>appFullName.
         bindS (liftS (hashName E appFullName)) (\<lambda>appId.
         bindS (looking (\<lambda>w. Inr (sh_is_dir S (sw_commands w) appFrontendPath))) (\<lambda>hasFrontend.
         bindS (rewriteManifest E S False appRootPath) (\<lambda>_.
            bindS (if hasFrontend then execLive S ''yarn'' [] (Some appFrontendPath) None else liftS (Inr ())) (\<lambda>_.
            bindS (execLive S ''hardhat'' [''publish'', ''major'', ''--config'', sh_hardhat_config S, ''--network'', network_name E,
                     ''--skip-validation'', ''--ipfs-api-url'', []] (Some appRootPath) (Some (childEnv environ appName))) (\<lambda>_.
            liftS (Inr (appFields appFullName appName appId)))))))))"

definition deployAragonStdApps :: "env \<Rightarrow> shell \<Rightarrow> string \<Rightarrow> string \<Rightarrow> string \<Rightarrow> string \<Rightarrow> props shprog" where
  "deployAragonStdApps E S networkStateFile aragonAppsRepo aragonAppsRepoRef releaseType =
     bindS (inWorld (readState E)) (\<lambda>netState.
     bindS (liftS (checkEnsAddress E S networkStateFile netState)) (\<lambda>_.
     bindS (gitCloneRepo S ''./aragon-apps'' aragonAppsRepo aragonAppsRepoRef) (\<lambda>_.
     publishAll E (publishStdApp E S ''./aragon-apps'' (subprocessEnv S) releaseType) STD_APPS netState)))"

section \<open>hardhat-tasks.js\<close>

text \<open>The text of a saved transaction file: the last one written under the name.\<close>

definition savedTx :: "world \<Rightarrow> string \<Rightarrow> jsval res" where
  "savedTx w file = (case map_of (rev (tx_files w)) file of
     Some v \<Rightarrow> Inr v | None \<Rightarrow> Inl (External ''ENOENT''))"

text \<open>\<open>estimate\<close> is \<open>web3.eth.estimateGas\<close>; a failing estimate ends the process.\<close>

definition txTask ::
  "env \<Rightarrow> (props \<Rightarrow> int res) \<Rightarrow> string \<Rightarrow> jsval \<Rightarrow> jsval \<Rightarrow> jsval \<Rightarrow> jsval prog" where
  "txTask E estimate file fromArg gasPrice nonce w =
     bindP (liftP (savedTx w file)) (\<lambda>saved.
     bindP (liftP (if truthy fromArg then set_prop saved ''from'' fromArg else Inr saved)) (\<lambda>data1.
     bindP (prop_of data1 ''from'') (\<lambda>from.
     bindP (if truthy from then returnP data1
            else bindP (liftP (get_accounts E)) (\<lambda>accounts.
                 if \<not> truthy (fst_or_undef accounts) then throwP (Error ''no accounts provided'')
                 else liftP (set_prop data1 ''from'' (fst_or_undef accounts)))) (\<lambda>data2.
     bindP (case estimate (own_props data2) of Inl e \<Rightarrow> throwP (External ''exit 1'') | Inr g \<Rightarrow> returnP ()) (\<lambda>_.
     bindP (liftP (if truthy gasPrice then set_prop data2 ''gasPrice'' gasPrice else Inr data2)) (\<lambda>data3.
     bindP (liftP (if truthy nonce then set_prop data3 ''nonce'' nonce else Inr data3)) (\<lambda>data4.
     bindP (sendTx E ''web3.eth'' ''sendTransaction'' [data4] []) (\<lambda>receipt.
     bindP (prop_of receipt ''status'') (\<lambda>_. returnP receipt))))))))) w"

definition ensAssignTask :: "env \<Rightarrow> jsval \<Rightarrow> string \<Rightarrow> jsval \<Rightarrow> jsval \<Rightarrow> jsval \<Rightarrow> unit prog" where
  "ensAssignTask E configEns domain to from ensParam =
     bindP (at_addr E ''ENS'' (if truthy ensParam then ensParam else configEns)) (\<lambda>ens.
     let labelName = (case index_of (CHR ''.'') domain of None \<Rightarrow> [] | Some i \<Rightarrow> take i domain);
         parentName = (case index_of (CHR ''.'') domain of None \<Rightarrow> domain | Some i \<Rightarrow> drop (i + 1) domain)
     in bindP (assignENSName E parentName labelName from ens to) (\<lambda>r.
        bindP (prop_of (ens_tx r) ''tx'') (\<lambda>_.
        bindP (view E ens ''owner'' [JStr (ens_node r)]) (\<lambda>owner.
        bindP (liftP (str_of owner)) (\<lambda>o'. bindP (liftP (str_of to)) (\<lambda>t.
        if to_lower o' \<noteq> to_lower t
        then throwP (Error (''the owner '' @ [CHR 0x27] @ o' @ [CHR 0x27] @ '' is different from the expected '' @
               [CHR 0x27] @ t @ [CHR 0x27]))
        else returnP ()))))))"

section \<open>Commands run in order, and stop at the first failure\<close>

fun all_ok :: "shell \<Rightarrow> command list \<Rightarrow> command list \<Rightarrow> bool" where
  "all_ok S hist [] = True"
| "all_ok S hist (c # cs) = (sh_exit S hist c = Some 0 \<and> all_ok S (hist @ [c]) cs)"

lemma all_ok_append: "all_ok S hist (xs @ ys) \<longleftrightarrow> all_ok S hist xs \<and> all_ok S (hist @ xs) ys"
  by (induction xs arbitrary: hist) auto

text \<open>A run that started \<open>xs\<close> after \<open>hist\<close>: all commands succeeded, but for the last one of a failed run.\<close>

definition in_order :: "shell \<Rightarrow> command list \<Rightarrow> bool \<Rightarrow> command list \<Rightarrow> bool" where
  "in_order S hist ok xs \<longleftrightarrow> all_ok S hist (butlast xs) \<and> (if ok then all_ok S hist xs else True)"

definition orderly :: "shell \<Rightarrow> (command \<Rightarrow> bool) \<Rightarrow> 'a shprog \<Rightarrow> bool" where
  "orderly S P m \<longleftrightarrow> (\<forall>w. \<exists>xs. sw_commands (snd (m w)) = sw_commands w @ xs \<and> list_all P xs \<and>
     in_order S (sw_commands w) (okR (fst (m w))) xs)"

lemma orderlyE:
  assumes "orderly S P m"
  obtains xs where "sw_commands (snd (m w)) = sw_commands w @ xs" and "list_all P xs"
    and "in_order S (sw_commands w) (okR (fst (m w))) xs"
  using assms unfolding orderly_def by blast

lemma in_order_append: "in_order S hist True xs \<Longrightarrow> in_order S (hist @ xs) ok ys \<Longrightarrow> in_order S hist ok (xs @ ys)"
  by (cases "ys = []") (simp_all add: in_order_def all_ok_append butlast_append split: if_splits)

lemma orderly_bindS:
  assumes "orderly S P m" and "\<And>x. orderly S P (f x)"
  shows "orderly S P (bindS m f)"
  unfolding orderly_def
proof
  fix w
  obtain xs where xs: "sw_commands (snd (m w)) = sw_commands w @ xs" "list_all P xs"
    "in_order S (sw_commands w) (okR (fst (m w))) xs"
    by (rule orderlyE [OF assms(1)])
  show "\<exists>xs. sw_commands (snd (bindS m f w)) = sw_commands w @ xs \<and> list_all P xs \<and>
     in_order S (sw_commands w) (okR (fst (bindS m f w))) xs"
  proof (cases "fst (m w)")
    case (Inl e)
    then have "bindS m f w = (Inl e, snd (m w))" by (cases "m w") (simp add: bindS_def)
    with Inl xs show ?thesis by (intro exI [of _ xs]) simp
  next
    case (Inr x)
    then have b: "bindS m f w = f x (snd (m w))" by (cases "m w") (simp add: bindS_def)
    obtain ys where ys: "sw_commands (snd (f x (snd (m w)))) = sw_commands (snd (m w)) @ ys" "list_all P ys"
      "in_order S (sw_commands (snd (m w))) (okR (fst (f x (snd (m w))))) ys"
      by (rule orderlyE [OF assms(2)])
    have "in_order S (sw_commands w) True xs" using xs(3) Inr by simp
    then have "in_order S (sw_commands w) (okR (fst (f x (snd (m w))))) (xs @ ys)"
      using ys(3) unfolding xs(1) by (rule in_order_append)
    with xs(1,2) ys(1,2) show ?thesis by (intro exI [of _ "xs @ ys"]) (simp add: b)
  qed
qed

lemma orderly_still: "(\<And>w. sw_commands (snd (m w)) = sw_commands w) \<Longrightarrow> orderly S P m"
  by (auto simp: orderly_def in_order_def)

lemma orderly_liftS: "orderly S P (liftS r)"
  by (rule orderly_still) (simp add: liftS_def)

lemma orderly_looking: "orderly S P (looking f)"
  by (rule orderly_still) (simp add: looking_def)

lemma orderly_inWorld: "orderly S P (inWorld p)"
  by (rule orderly_still) (simp add: inWorld_def split: prod.splits)

lemma orderly_rewriteManifest: "orderly S P (rewriteManifest E S always path)"
  unfolding rewriteManifest_def by (intro orderly_bindS orderly_looking orderly_liftS orderly_still) simp

lemma orderly_if: "(c \<Longrightarrow> orderly S P m) \<Longrightarrow> (\<not> c \<Longrightarrow> orderly S P m') \<Longrightarrow> orderly S P (if c then m else m')"
  by simp

lemma orderly_execLive:
  "P \<lparr>cm_name = cmd, cm_args = args, cm_cwd = cwd, cm_env = environ\<rparr> \<Longrightarrow> orderly S P (execLive S cmd args cwd environ)"
  by (auto simp: orderly_def in_order_def execLive_def Let_def)

lemmas orderly_intros =
  orderly_bindS orderly_liftS orderly_looking orderly_inWorld orderly_rewriteManifest orderly_execLive orderly_if

text \<open>Hardhat gets none of the variables that hold the parent's own configuration.\<close>

definition isolated :: "command \<Rightarrow> bool" where
  "isolated c \<longleftrightarrow> (if cm_name c = ''hardhat''
     then (case cm_env c of None \<Rightarrow> False | Some e \<Rightarrow> list_all (\<lambda>(k, v). take 8 k \<noteq> ''HARDHAT_'') e) else True)"

lemma list_all_keys_set: "list_all (\<lambda>(k, v). P k) ps \<Longrightarrow> P k \<Longrightarrow> list_all (\<lambda>(k, v). P k) (obj_set k v ps)"
  by (induction ps) auto

lemma filterObject_keys: "list_all (\<lambda>(k, v). P k) (filterObject obj P)"
proof -
  have "list_all (\<lambda>(k, v). P k) acc \<Longrightarrow>
      list_all (\<lambda>(k, v). P k) (fold (\<lambda>(key, v) result. if P key then obj_set key v result else result) obj acc)" for acc
    by (induction obj arbitrary: acc) (auto simp: list_all_keys_set)
  then show ?thesis by (simp add: filterObject_def)
qed

lemma subprocessEnv_clean: "list_all (\<lambda>(k, v). take 8 k \<noteq> ''HARDHAT_'') (subprocessEnv S)"
  unfolding subprocessEnv_def by (rule filterObject_keys)

lemma childEnv_clean: "list_all (\<lambda>(k, v). take 8 k \<noteq> ''HARDHAT_'') (childEnv (subprocessEnv S) name)"
  by (simp add: childEnv_def obj_assign_def list_all_keys_set subprocessEnv_clean)

lemma publishLidoApp_orderly: "orderly S isolated (publishLidoApp E S name (subprocessEnv S) dir release)"
  unfolding publishLidoApp_def Let_def by (intro orderly_intros) (simp_all add: isolated_def subprocessEnv_clean)

lemma publishStdApp_orderly: "orderly S isolated (publishStdApp E S dir (subprocessEnv S) release name)"
  unfolding publishStdApp_def Let_def by (intro orderly_intros) (simp_all add: isolated_def childEnv_clean)

lemma gitCloneRepo_orderly: "orderly S isolated (gitCloneRepo S path link ref)"
  unfolding gitCloneRepo_def Let_def by (intro orderly_intros) (simp_all add: isolated_def)

lemma publishAll_orderly: "(\<And>name. orderly S P (publish name)) \<Longrightarrow> orderly S P (publishAll E publish names st)"
  by (induction names arbitrary: st) (auto intro!: orderly_intros)

section \<open>What a run records\<close>

lemma bindS_ok: "bindS m f w = (Inr y, w') \<longleftrightarrow> (\<exists>x w1. m w = (Inr x, w1) \<and> f x w1 = (Inr y, w'))"
  by (cases "m w"; cases "fst (m w)") (auto simp: bindS_def)

lemma basicS_ok:
  "liftS r w = (Inr x, w') \<longleftrightarrow> r = Inr x \<and> w' = w"
  "looking g w = (Inr x, w') \<longleftrightarrow> g w = Inr x \<and> w' = w"
  "inWorld p w = (Inr x, w') \<longleftrightarrow> (\<exists>w1. p (sw_world w) = (Inr x, w1) \<and> w' = w\<lparr>sw_world := w1\<rparr>)"
  by (auto simp: liftS_def looking_def inWorld_def split: prod.splits)

text \<open>The commands that release one app, and the name its manifest gives it on a network.\<close>

definition releaseCommands :: "env \<Rightarrow> shell \<Rightarrow> string \<Rightarrow> string \<Rightarrow> string \<Rightarrow> command list" where
  "releaseCommands E S appsDirPath releaseType name =
     (let root = path_resolve E appsDirPath name
      in [\<lparr>cm_name = ''yarn'', cm_args = [], cm_cwd = Some (root @ ''/app''), cm_env = None\<rparr>,
          \<lparr>cm_name = ''yarn'', cm_args = [''build''], cm_cwd = Some (root @ ''/app''), cm_env = None\<rparr>,
          \<lparr>cm_name = ''hardhat'', cm_args = [''publish'', releaseType, ''--network'', network_name E, ''--ipfs-api-url'', []],
           cm_cwd = Some root, cm_env = Some (subprocessEnv S)\<rparr>])"

definition manifestName :: "string \<Rightarrow> jsval \<Rightarrow> jsval" where
  "manifestName netName arapp =
     (let environments = (case arapp of JObj ps \<Rightarrow> own_props (obj_get ps ''environments'') | _ \<Rightarrow> []);
          name = obj_get (own_props (obj_get environments ''default'')) ''appName''
      in if truthy (obj_get environments netName) then obj_get (own_props (obj_get environments netName)) ''appName''
         else if truthy name then name else JNull)"

lemma readAppName_manifest:
  assumes "readAppName (nowEnv E S w) appRoot netName = Inr full"
  obtains arapp where "readManifest S w (arappPath E appRoot) = Inr arapp" and "full = manifestName netName arapp"
proof -
  from assms obtain arapp envs where a: "readManifest S w (arappPath E appRoot) = Inr arapp" "getp arapp ''environments'' = Inr envs"
    and f: "(if \<not> truthy envs then Inr JNull
     else if truthy (obj_get (own_props envs) netName)
     then Inr (obj_get (own_props (obj_get (own_props envs) netName)) ''appName'')
     else (let name = obj_get (own_props (obj_get (own_props envs) ''default'')) ''appName''
           in Inr (if truthy name then name else JNull))) = (Inr full :: jsval res)"
    by (auto simp: readAppName_def nowEnv_def arappPath_def bindR_eq_Inr)
  show thesis
  proof (rule that [OF a(1)])
    have "\<not> truthy envs \<Longrightarrow> own_props envs = [] \<or> envs = JObj []" by (cases envs) (auto simp: indexed_def)
    then show "full = manifestName netName arapp"
      using f a(2) by (cases arapp) (auto simp: manifestName_def Let_def split: if_splits)
  qed
qed

text \<open>One release: the name is read before anything runs, then the manifest is rewritten and the commands run.\<close>

lemma execLive_ok:
  "execLive S cmd args cwd environ w = (Inr u, w') \<longleftrightarrow>
     sh_exit S (sw_commands w) \<lparr>cm_name = cmd, cm_args = args, cm_cwd = cwd, cm_env = environ\<rparr> = Some 0 \<and>
     w' = w\<lparr>sw_commands := sw_commands w @ [\<lparr>cm_name = cmd, cm_args = args, cm_cwd = cwd, cm_env = environ\<rparr>]\<rparr>"
  by (auto simp: execLive_def Let_def)

lemma rewriteManifest_ok:
  "rewriteManifest E S always path w = (Inr u, w') \<Longrightarrow> \<exists>v. w' = w\<lparr>sw_json := (sw_json w)(arappPath E path \<mapsto> v)\<rparr>"
  by (auto simp: rewriteManifest_def bindS_ok basicS_ok)

lemma publishLidoApp_ok:
  assumes "publishLidoApp E S name (subprocessEnv S) dir release w = (Inr app, w')"
  shows "\<exists>arapp ident v. readManifest S w (arappPath E (path_resolve E dir name)) = Inr arapp \<and>
    hashName E (manifestName (network_name E) arapp) = Inr ident \<and>
    app = appFields (manifestName (network_name E) arapp) name ident \<and>
    w' = w\<lparr>sw_json := (sw_json w)(arappPath E (path_resolve E dir name) \<mapsto> v),
           sw_commands := sw_commands w @ releaseCommands E S dir release name\<rparr>"
proof -
  let ?root = "path_resolve E dir name"
  from assms obtain full ident where full: "readAppName (nowEnv E S w) ?root (network_name E) = Inr full"
    and ident: "hashName E full = Inr ident" and app: "app = appFields full name ident"
    and run: "\<exists>w1 w2 w3. rewriteManifest E S True ?root w = (Inr (), w1) \<and>
       execLive S ''yarn'' [] (Some (?root @ ''/app'')) None w1 = (Inr (), w2) \<and>
       execLive S ''yarn'' [''build''] (Some (?root @ ''/app'')) None w2 = (Inr (), w3) \<and>
       execLive S ''hardhat'' [''publish'', release, ''--network'', network_name E, ''--ipfs-api-url'', []]
         (Some ?root) (Some (subprocessEnv S)) w3 = (Inr (), w')"
    unfolding publishLidoApp_def Let_def bindS_ok basicS_ok by auto
  from run obtain v where "w' = w\<lparr>sw_json := (sw_json w)(arappPath E ?root \<mapsto> v),
      sw_commands := sw_commands w @ releaseCommands E S dir release name\<rparr>"
    by (auto simp: execLive_ok releaseCommands_def Let_def dest!: rewriteManifest_ok)
  moreover obtain arapp where "readManifest S w (arappPath E ?root) = Inr arapp" "full = manifestName (network_name E) arapp"
    by (rule readAppName_manifest [OF full])
  ultimately show ?thesis using ident app by blast
qed

text \<open>The entry of an app in the state, with the fields of a release on top of the older ones.\<close>

definition released :: "props \<Rightarrow> string \<Rightarrow> props \<Rightarrow> jsval" where
  "released st name app = JObj (obj_assign (own_props (obj_get st (appKey name))) app)"

text \<open>An entry with an \<open>address\<close> would be taken for a contract instance.\<close>

definition no_address :: "props \<Rightarrow> string \<Rightarrow> bool" where
  "no_address st name \<longleftrightarrow> \<not> truthy (obj_get (own_props (obj_get st (appKey name))) ''address'')"

lemma appKey_simps [simp]: "appKey a = appKey b \<longleftrightarrow> a = b" "appKey a \<noteq> ''networkId''" "''networkId'' \<noteq> appKey a"
  by (simp_all add: appKey_def)

lemma recordApp_ok:
  assumes "recordApp E name (appFields full name ident) st w = (Inr st1, w1)" and "no_address st name"
  shows "obj_get st1 k = (if k = appKey name then released st name (appFields full name ident)
       else if k = ''networkId'' then JInt (network_id E) else obj_get st k)"
    and "state_of E w1 = Some (json_props (bn_json E) st1)"
proof -
  have "\<not> truthy (obj_get (obj_assign (own_props (obj_get st (appKey name))) (appFields full name ident)) ''address'')"
    using assms(2) by (simp add: no_address_def appFields_def obj_assign_def)
  then have st1: "st1 = obj_set (appKey name) (released st name (appFields full name ident)) (obj_set ''networkId'' (JInt (network_id E)) st)"
    and w1: "w1 = w\<lparr>net_files := (net_files w)(state_file E \<mapsto> JsonText (JObj (json_props (bn_json E) st1)))\<rparr>"
    using assms(1) by (simp_all add: recordApp_def persistState_ok updateKey_def Let_def not_nullish_def released_def)
  show "obj_get st1 k = (if k = appKey name then released st name (appFields full name ident)
       else if k = ''networkId'' then JInt (network_id E) else obj_get st k)" by (simp add: st1)
  have "obj_get st1 ''networkId'' = JInt (network_id E)" using appKey_simps(2) [of name] by (simp add: st1)
  then show "state_of E w1 = Some (json_props (bn_json E) st1)" unfolding w1 by (rule state_of_persisted)
qed

text \<open>
  What a successful run over \<open>names\<close> does: app \<open>i\<close> is recorded under the name its manifest gives it
  after the commands \<open>cmds\<close> of the apps before it, unless the run itself has rewritten the manifest (\<open>js\<close>).
\<close>

definition recordedAs ::
  "env \<Rightarrow> shell \<Rightarrow> string \<Rightarrow> (string \<rightharpoonup> jsval) \<Rightarrow> command list \<Rightarrow> string \<Rightarrow> props \<Rightarrow> jsval \<Rightarrow> bool" where
  "recordedAs E S dir js hist n st entry \<longleftrightarrow>
     (\<exists>arapp ident. (case js (arappPath E (path_resolve E dir n)) of Some v \<Rightarrow> Inr v
          | None \<Rightarrow> sh_read S hist (arappPath E (path_resolve E dir n))) = Inr arapp \<and>
        hashName E (manifestName (network_name E) arapp) = Inr ident \<and>
        entry = released st n (appFields (manifestName (network_name E) arapp) n ident))"

lemma publishAll_ok:
  assumes "publishAll E (\<lambda>name. publishLidoApp E S name (subprocessEnv S) dir release) names st w = (Inr st', w')"
    and "distinct (map (\<lambda>n. arappPath E (path_resolve E dir n)) names)" and "list_all (no_address st) names"
  shows "sw_commands w' = sw_commands w @ concat (map (releaseCommands E S dir release) names) \<and>
    (\<forall>i<length names. recordedAs E S dir (sw_json w)
       (sw_commands w @ concat (map (releaseCommands E S dir release) (take i names))) (names ! i) st (obj_get st' (appKey (names ! i)))) \<and>
    (\<forall>k. k \<notin> appKey ` set names \<and> k \<noteq> ''networkId'' \<longrightarrow> obj_get st' k = obj_get st k) \<and>
    (names \<noteq> [] \<longrightarrow> state_of E (sw_world w') = Some (json_props (bn_json E) st'))"
  using assms
proof (induction names arbitrary: st w)
  case Nil
  then show ?case by (simp add: basicS_ok)
next
  case (Cons n names)
  let ?path = "\<lambda>n. arappPath E (path_resolve E dir n)" and ?cmds = "releaseCommands E S dir release"
  from Cons.prems(1) obtain app w1 st1 w2 where p: "publishLidoApp E S n (subprocessEnv S) dir release w = (Inr app, w1)"
    and r: "recordApp E n app st (sw_world w1) = (Inr st1, w2)"
    and rest: "publishAll E (\<lambda>name. publishLidoApp E S name (subprocessEnv S) dir release) names st1 (w1\<lparr>sw_world := w2\<rparr>) = (Inr st', w')"
    by (auto simp: bindS_ok basicS_ok)
  from publishLidoApp_ok [OF p] obtain arapp ident v where m: "readManifest S w (?path n) = Inr arapp"
    "hashName E (manifestName (network_name E) arapp) = Inr ident" "app = appFields (manifestName (network_name E) arapp) n ident"
    and w1: "w1 = w\<lparr>sw_json := (sw_json w)(?path n \<mapsto> v), sw_commands := sw_commands w @ ?cmds n\<rparr>" by blast
  have na: "no_address st n" and fresh: "?path n \<notin> ?path ` set names" "n \<notin> set names"
    using Cons.prems(2,3) by auto
  note get = recordApp_ok [OF r [unfolded m(3)] na]
  have same: "obj_get st1 (appKey k) = obj_get st (appKey k)" if "k \<noteq> n" for k
    using that get(1) [of "appKey k"] by simp
  then have keep: "released st1 k app' = released st k app'" "no_address st1 k = no_address st k" if "k \<in> set names" for k app'
    using that fresh(2) same [of k] by (cases "k = n"; simp add: released_def no_address_def)+
  have IH: "sw_commands w' = sw_commands w @ ?cmds n @ concat (map ?cmds names)"
    "\<forall>i<length names. recordedAs E S dir ((sw_json w)(?path n \<mapsto> v)) (sw_commands w @ ?cmds n @ concat (map ?cmds (take i names)))
       (names ! i) st1 (obj_get st' (appKey (names ! i)))"
    "\<forall>k. k \<notin> appKey ` set names \<and> k \<noteq> ''networkId'' \<longrightarrow> obj_get st' k = obj_get st1 k"
    "names \<noteq> [] \<longrightarrow> state_of E (sw_world w') = Some (json_props (bn_json E) st')"
    using Cons.IH [OF rest] Cons.prems(2,3) keep(2) by (simp_all add: w1 list_all_iff fun_upd_def)
  have "recordedAs E S dir (sw_json w) (sw_commands w @ concat (map ?cmds (take i (n # names)))) ((n # names) ! i) st
      (obj_get st' (appKey ((n # names) ! i)))" if i: "i < length (n # names)" for i
  proof (cases i)
    case 0
    have "appKey n \<notin> appKey ` set names" using fresh(2) by auto
    then have "obj_get st' (appKey n) = obj_get st1 (appKey n)" using IH(3) by simp
    then show ?thesis using 0 m get(1) [of "appKey n"] by (auto simp: recordedAs_def readManifest_def)
  next
    case (Suc j)
    with i have j: "j < length names" by simp
    then have "?path (names ! j) \<in> ?path ` set names" by (intro imageI nth_mem)
    with fresh(1) have "?path (names ! j) \<noteq> ?path n" by metis
    with IH(2) j keep(1) [OF nth_mem [OF j]] show ?thesis by (auto simp: Suc recordedAs_def)
  qed
  moreover have "state_of E (sw_world w') = Some (json_props (bn_json E) st')"
  proof (cases "names = []")
    case True
    with rest get(2) show ?thesis by (simp add: basicS_ok)
  qed (use IH(4) in simp)
  ultimately show ?case using IH(1,3) get(1) by auto
qed

section \<open>Properties\<close>

text \<open>
  C21: both publishing scripts stop at the first failing command and keep Hardhat's child processes
  isolated: on any state, the commands a run starts are appended to those before it, each of them
  succeeded except possibly the last one of a run that failed, and no Hardhat process gets a
  variable whose name starts with HARDHAT_.
\<close>

theorem publishing_stops_and_isolates:
  "\<exists>xs ys. sw_commands (snd (deployLidoApps E S file dir names release w)) = sw_commands w @ xs \<and> list_all isolated xs \<and>
     in_order S (sw_commands w) (okR (fst (deployLidoApps E S file dir names release w))) xs \<and>
     sw_commands (snd (deployAragonStdApps E S file repo ref release w)) = sw_commands w @ ys \<and> list_all isolated ys \<and>
     in_order S (sw_commands w) (okR (fst (deployAragonStdApps E S file repo ref release w))) ys"
proof -
  have "orderly S isolated (deployLidoApps E S file dir names release)"
    unfolding deployLidoApps_def by (intro orderly_intros publishAll_orderly publishLidoApp_orderly)
  moreover have "orderly S isolated (deployAragonStdApps E S file repo ref release)"
    unfolding deployAragonStdApps_def by (intro orderly_intros publishAll_orderly publishStdApp_orderly gitCloneRepo_orderly)
  ultimately show ?thesis unfolding orderly_def by metis
qed

text \<open>
  C20: publishing the Lido apps records every app and loses nothing: a successful run has started for each
  app in turn the installation and build of its front end and the publication in the app's directory, and
  the state file holds for each app the full name that its manifest gave
  it for this network at that moment, its name and its id (the hash of that full name) on top of the fields
  the entry had before, such as its addresses; every other field of the state is unchanged, and the ENS address of the
  state agreed with the configured one.
\<close>

theorem lido_apps_recorded:
  assumes "deployLidoApps E S file dir names release w = (Inr st', w')" and "state_of E (sw_world w) = Some st"
    and "distinct (map (\<lambda>n. arappPath E (path_resolve E dir n)) (chooseApps S names dir))"
    and "list_all (no_address st) (chooseApps S names dir)" and "chooseApps S names dir \<noteq> []"
  shows "state_of E (sw_world w') = Some (json_props (bn_json E) st') \<and>
    sw_commands w' = sw_commands w @ concat (map (releaseCommands E S dir release) (chooseApps S names dir)) \<and>
    (\<forall>i<length (chooseApps S names dir). recordedAs E S dir (sw_json w)
       (sw_commands w @ concat (map (releaseCommands E S dir release) (take i (chooseApps S names dir))))
       (chooseApps S names dir ! i) st (obj_get st' (appKey (chooseApps S names dir ! i)))) \<and>
    (\<forall>k. k \<notin> appKey ` set (chooseApps S names dir) \<and> k \<noteq> ''networkId'' \<longrightarrow> obj_get st' k = obj_get st k) \<and>
    (\<exists>c g. sh_config_ens S = JStr c \<and> obj_get st ''ensAddress'' = JStr g \<and> to_lower c = to_lower g)"
proof -
  from assms(1) obtain netState w1 where r: "readState E (sw_world w) = (Inr netState, w1)"
    and c: "checkEnsAddress E S file netState = Inr ()"
    and p: "publishAll E (\<lambda>name. publishLidoApp E S name (subprocessEnv S) dir release) (chooseApps S names dir) netState
       (w\<lparr>sw_world := w1\<rparr>) = (Inr st', w')"
    by (auto simp: deployLidoApps_def bindS_ok basicS_ok)
  have st: "netState = st" using r assms(2) readState_ok [of E "sw_world w" netState] by simp
  have "\<exists>c g. sh_config_ens S = JStr c \<and> obj_get st ''ensAddress'' = JStr g \<and> to_lower c = to_lower g"
    using c by (auto simp: st checkEnsAddress_def Let_def bindR_eq_Inr str_of_def split: if_splits jsval.splits)
  with publishAll_ok [OF p [unfolded st] assms(3,4)] assms(5) show ?thesis by simp
qed

definition sample_shell :: shell where
  "sample_shell = \<lparr>sh_exit = (\<lambda>_ _. Some 0),
     sh_read = (\<lambda>_ _. Inr (JObj [(''environments'', JObj [(''default'', JObj [(''appName'', JStr ''lido.lidopm.eth'')])])])),
     sh_is_dir = (\<lambda>_ _. True), sh_readdir = (\<lambda>_. [''lido'']), sh_abs = id, sh_process_env = [(''HARDHAT_NETWORK'', JStr ''dev'')],
     sh_config_ens = JStr ''0xE'', sh_hardhat_config = ''hardhat.config.js''\<rparr>"

definition apps_world :: shell_world where
  "apps_world = \<lparr>sw_world = empty_world\<lparr>net_files := (\<lambda>_. Some (JsonText (JObj [(''networkId'', JInt 1337), (''ensAddress'', JStr ''0xe''),
       (''app:lido'', JObj [(''proxyAddress'', JStr ''0x11'')])])))\<rparr>, sw_json = Map.empty, sw_commands = []\<rparr>"

lemma apps_state: "state_of offline_env (sw_world apps_world) = Some [(''networkId'', JInt 1337), (''ensAddress'', JStr ''0xe''),
    (''app:lido'', JObj [(''proxyAddress'', JStr ''0x11'')])]"
  by (simp add: apps_world_def state_of_def strict_eq_def offline_env_def)

lemma apps_run: "\<exists>st' w'. deployLidoApps offline_env sample_shell ''deployed.json'' ''apps'' ''*'' ''major'' apps_world = (Inr st', w')"
proof -
  have r: "readState offline_env (sw_world apps_world) = (Inr [(''networkId'', JInt 1337), (''ensAddress'', JStr ''0xe''),
    (''app:lido'', JObj [(''proxyAddress'', JStr ''0x11'')])], after_read offline_env (sw_world apps_world))"
    using apps_state by (simp add: readState_ok readState_world prod_eq_iff)
  have l: "to_lower ''0xE'' = to_lower ''0xe''" by code_simp
  have e: "path_resolve offline_env d f = d @ ''/'' @ f" "name_hash offline_env x = x" for d f x by (simp_all add: offline_env_def)
  have n: "network_name offline_env = ''dev''" "sw_json apps_world = Map.empty" "sw_commands apps_world = []"
    by (simp_all add: offline_env_def apps_world_def)
  have s: "sh_config_ens sample_shell = JStr ''0xE''" "sh_exit sample_shell h c = Some 0" "sh_readdir sample_shell d = [''lido'']"
    "sh_read sample_shell h p = Inr (JObj [(''environments'', JObj [(''default'', JObj [(''appName'', JStr ''lido.lidopm.eth'')])])])"
    for h c d p by (simp_all add: sample_shell_def)
  show ?thesis
    by (simp add: deployLidoApps_def bindS_def inWorld_def r s e n l appKey_def checkEnsAddress_def str_of_def arappPath_def
        liftS_def looking_def chooseApps_def publishLidoApp_def Let_def readAppName_def nowEnv_def readManifest_def
        hashName_def rewriteManifest_def setRegistry_def set_prop_def not_nullish_def execLive_def recordApp_def persistState_eq)
qed

theorem lido_apps_recorded_witness:
  "\<exists>st' w'. deployLidoApps offline_env sample_shell ''deployed.json'' ''apps'' ''*'' ''major'' apps_world = (Inr st', w') \<and>
     obj_get st' ''app:lido'' = JObj [(''proxyAddress'', JStr ''0x11''), (''fullName'', JStr ''lido.lidopm.eth''),
       (''name'', JStr ''lido''), (''id'', JStr ''lido.lidopm.eth'')] \<and> length (sw_commands w') = 3"
proof -
  obtain st' w' where r: "deployLidoApps offline_env sample_shell ''deployed.json'' ''apps'' ''*'' ''major'' apps_world = (Inr st', w')"
    using apps_run by blast
  have c: "chooseApps sample_shell ''*'' ''apps'' = [''lido'']" by (simp add: chooseApps_def sample_shell_def)
  have j: "sw_json apps_world = Map.empty" "sw_commands apps_world = []" by (simp_all add: apps_world_def)
  have m: "sh_read sample_shell hist p = Inr (JObj [(''environments'', JObj [(''default'', JObj [(''appName'', JStr ''lido.lidopm.eth'')])])])"
    for hist p by (simp add: sample_shell_def)
  have n: "network_name offline_env = ''dev''" "name_hash offline_env x = x" for x by (simp_all add: offline_env_def)
  have "recordedAs offline_env sample_shell ''apps'' (sw_json apps_world) (sw_commands apps_world) ''lido''
      [(''networkId'', JInt 1337), (''ensAddress'', JStr ''0xe''), (''app:lido'', JObj [(''proxyAddress'', JStr ''0x11'')])]
      (obj_get st' (appKey ''lido''))" and "length (sw_commands w') = 3"
    using lido_apps_recorded [OF r apps_state, unfolded c] by (auto simp: no_address_def appKey_def releaseCommands_def j Let_def)
  with r show ?thesis
    by (auto simp: recordedAs_def j m n manifestName_def hashName_def released_def appFields_def appKey_def obj_assign_def)
qed

text \<open>An option of the task, put into the transaction when it is given.\<close>

definition overriding :: "string \<Rightarrow> jsval \<Rightarrow> props \<Rightarrow> props" where
  "overriding k v ps = (if truthy v then obj_set k v ps else ps)"

lemma set_prop_obj [simp]: "set_prop (JObj ps) k x = Inr (JObj (obj_set k x ps))"
  by (simp add: set_prop_def not_nullish_def)

text \<open>The task on a saved transaction that has a sender.\<close>

lemma txTask_run:
  assumes "savedTx w file = Inr (JObj ps)" and "truthy (obj_get ps ''from'')"
    and "ready = overriding ''from'' fromArg ps"
    and "final = overriding ''nonce'' nonce (overriding ''gasPrice'' gasPrice ready)"
  shows "txTask E estimate file fromArg gasPrice nonce w =
    (case estimate ready of Inl e \<Rightarrow> (Inl (External ''exit 1''), w)
     | Inr g \<Rightarrow> bindP (sendTx E ''web3.eth'' ''sendTransaction'' [JObj final] [])
         (\<lambda>receipt. bindP (prop_of receipt ''status'') (\<lambda>_. returnP receipt)) w)"
proof -
  have from_set: "truthy (obj_get ready ''from'')" using assms(2) by (simp add: assms(3) overriding_def)
  have lifted: "(if truthy v then set_prop (JObj qs) k v else Inr (JObj qs)) = Inr (JObj (overriding k v qs))" for v k qs
    by (simp add: overriding_def)
  show ?thesis
    using from_set
    by (cases "estimate ready")
      (simp_all cong: run_cong add: txTask_def assms(1) run_bindP lifted prop_of_def assms(3,4)
        bindP_def throwP_def returnP_def liftP_def split: prod.splits sum.splits)
qed

definition sending_env :: env where
  "sending_env = offline_env\<lparr>encode_call := (\<lambda>_ m _. Inr m), encode_deploy := (\<lambda>_ _. Inr ''6080''), estimate_gas := (\<lambda>_ _. Inr 21000),
     get_accounts := Inr [JStr ''0xaa''], read_artifact := (\<lambda>_. Inr (JObj [(''bytecode'', JStr ''6080'')])),
     send_tx := (\<lambda>_ _ _ _. Inr (JObj [(''transactionHash'', JStr ''0x7a''), (''status'', JBool True)]))\<rparr>"

lemma sending_env_simps [simp]:
  "encode_call sending_env i m as = Inr m" "encode_deploy sending_env b as = Inr ''6080''" "estimate_gas sending_env d opts = Inr 21000"
  "get_accounts sending_env = Inr [JStr ''0xaa'']" "read_artifact sending_env n = Inr (JObj [(''bytecode'', JStr ''6080'')])"
  "send_tx sending_env a m args opts = Inr (JObj [(''transactionHash'', JStr ''0x7a''), (''status'', JBool True)])"
  by (simp_all add: sending_env_def)

text \<open>
  C22: the transaction task sends exactly what a multisig script has saved: after a call has been saved
  to a file, the task on that file asks for an estimate of the saved fields, with the target and the sender the
  script chose unless another sender is given.  When the estimate succeeds and the node accepts the
  transaction, exactly one transaction is sent, these fields with the gas price and the nonce given as
  options, if any; otherwise the task fails and nothing is sent.
\<close>

theorem saved_call_is_sent:
  assumes "saveTx E inst m file args (JStr sender) w = (Inr (), w1)" and "sender \<noteq> []"
  shows "\<exists>txd. getCallTxData E inst m args True [(''from'', JStr sender)] = Inr txd \<and>
    obj_get txd ''to'' = JStr inst \<and> obj_get txd ''from'' = JStr sender \<and>
    (let ready = overriding ''from'' fromArg (json_props (bn_json E) txd);
         final = overriding ''nonce'' nonce (overriding ''gasPrice'' gasPrice ready);
         out = txTask E estimate file fromArg gasPrice nonce w1
     in if okR (estimate ready) \<and> okR (send_tx E ''web3.eth'' ''sendTransaction'' [JObj final] [])
        then sent (snd out) = sent w @
          [\<lparr>tx_to = ''web3.eth'', tx_method = ''sendTransaction'', tx_args = [JObj final], tx_opts = []\<rparr>]
        else \<not> okR (fst out) \<and> sent (snd out) = sent w)"
proof -
  from assms(1) obtain txd where t: "getCallTxData E inst m args True [(''from'', JStr sender)] = Inr txd"
    and w1: "w1 = w\<lparr>tx_files := tx_files w @ [(file, JObj (json_props (bn_json E) txd))]\<rparr>"
    by (auto simp: saveTx_ok)
  from t assms(2) have f: "obj_get txd ''to'' = JStr inst" "obj_get txd ''from'' = JStr sender"
    by (auto simp: getCallTxData_def getTxData_def bindR_eq_Inr)
  have s: "savedTx w1 file = Inr (JObj (json_props (bn_json E) txd))" by (simp add: savedTx_def w1)
  have j: "truthy (obj_get (json_props (bn_json E) txd) ''from'')" using f(2) assms(2) by (simp add: json_props_get)
  let ?ready = "overriding ''from'' fromArg (json_props (bn_json E) txd)"
  let ?final = "overriding ''nonce'' nonce (overriding ''gasPrice'' gasPrice ?ready)"
  have "sent w1 = sent w" by (simp add: w1)
  with t f show ?thesis unfolding Let_def txTask_run [OF s j refl refl]
    by (cases "estimate ?ready"; cases "send_tx E ''web3.eth'' ''sendTransaction'' [JObj ?final] []")
      (auto simp: bindP_def sendTx_def prop_of_def liftP_def returnP_def split: sum.splits prod.splits)
qed

theorem saved_call_is_sent_witness:
  "\<exists>w1. saveTx sending_env ''0xe'' ''finalizeDAO'' ''tx.json'' [] (JStr ''0xf'') empty_world = (Inr (), w1) \<and>
     length (sent (snd (txTask sending_env (\<lambda>_. Inr 1) ''tx.json'' JUndef (JStr ''5'') JUndef w1))) = 1"
proof -
  obtain w1 where w1: "saveTx sending_env ''0xe'' ''finalizeDAO'' ''tx.json'' [] (JStr ''0xf'') empty_world = (Inr (), w1)"
    by (simp add: saveTx_ok getCallTxData_def getTxData_def)
  show ?thesis
    using saved_call_is_sent [OF w1, of JUndef JUndef "JStr ''5''" "\<lambda>_. Inr 1"] w1 by (auto simp: empty_world_def Let_def)
qed

text \<open>
  a deployment saved for the multisig is not sent by it: the file of a saved deployment has no
  sender, so the task, run on it without options, sends it from the node's first account whatever
  sender the script had asked for.
\<close>

theorem saved_deployment_is_sent_by_first_account:
  assumes "saveDeployTx E artifact file args opts w = (Inr txd, w1)" and "get_accounts E = Inr (JStr a # accs)" and "a \<noteq> []"
    and "\<And>d. okR (estimate d :: int res)" and "\<And>d. okR (send_tx E ''web3.eth'' ''sendTransaction'' [d] [])"
  shows "\<exists>data. sent (snd (txTask E estimate file JUndef JUndef JUndef w1)) = sent w @
      [\<lparr>tx_to = ''web3.eth'', tx_method = ''sendTransaction'', tx_args = [JObj data], tx_opts = []\<rparr>] \<and>
    obj_get data ''from'' = JStr a \<and> obj_get data ''data'' = obj_get txd ''data''"
proof -
  from assms(1) have t: "getDeployTx E artifact args opts = Inr txd"
    and w1: "w1 = w\<lparr>tx_files := tx_files w @ [(file, JObj (json_props (bn_json E) txd))]\<rparr>"
    by (auto simp: saveDeployTx_ok)
  from t obtain gas code where txd: "txd = [(''gas'', JInt gas), (''data'', JStr code)]"
    by (auto simp: getDeployTx_def getTxData_def bindR_eq_Inr simp flip: of_int_add)
  have s: "savedTx w1 file = Inr (JObj [(''gas'', JInt gas), (''data'', JStr code)])"
    by (simp add: savedTx_def w1 txd)
  let ?data = "[(''gas'', JInt gas), (''data'', JStr code), (''from'', JStr a)]"
  obtain g where g: "estimate ?data = Inr g" using assms(4) by (auto simp: okR_iff)
  obtain r where r: "send_tx E ''web3.eth'' ''sendTransaction'' [JObj ?data] [] = Inr r" using assms(5) by (auto simp: okR_iff)
  have "sent (snd (txTask E estimate file JUndef JUndef JUndef w1)) = sent w @
      [\<lparr>tx_to = ''web3.eth'', tx_method = ''sendTransaction'', tx_args = [JObj ?data], tx_opts = []\<rparr>]"
    by (simp cong: run_cong add: txTask_def s run_bindP prop_of_def assms(2,3) fst_or_undef_def set_prop_def not_nullish_def g
        run_send [OF r] returnP_apply) (simp add: w1 liftP_def bindP_def returnP_def split: sum.splits)
  then show ?thesis by (intro exI [of _ ?data]) (simp add: txd)
qed

theorem saved_deployment_is_sent_by_first_account_witness:
  "\<exists>txd w1. saveDeployTx sending_env ''LidoTemplate'' ''tx.json'' [] [(''from'', JStr ''0xmultisig'')] empty_world = (Inr txd, w1) \<and>
     (\<exists>data. map tx_args (sent (snd (txTask sending_env (\<lambda>_. Inr 1) ''tx.json'' JUndef JUndef JUndef w1))) = [[JObj data]] \<and>
        obj_get data ''from'' = JStr ''0xaa'')"
proof -
  obtain txd w1 where w1: "saveDeployTx sending_env ''LidoTemplate'' ''tx.json'' [] [(''from'', JStr ''0xmultisig'')] empty_world = (Inr txd, w1)"
    by (simp add: saveDeployTx_ok getDeployTx_def getTxData_def)
  show ?thesis
    using saved_deployment_is_sent_by_first_account [OF w1, of "''0xaa''" "[]" "\<lambda>_. Inr 1"] w1 by (auto simp: empty_world_def)
qed

end
