(* ===== verification/MultisigSetup.thy ===== *)
theory MultisigSetup
  imports MultisigBase
begin

text \<open>
  scripts/multisig/01 to 07: deploying the template and the app bases, registering the ENS domain,
  publishing the front ends, deploying and checking the APM registry, creating the app repos.
\<close>

section \<open>01-deploy-lido-template-and-bases.js\<close>

definition REQUIRED_01 :: "string list" where
  "REQUIRED_01 = [''ensAddress'', ''daoFactoryAddress'', ''miniMeTokenFactoryAddress'', ''aragonIDAddress'',
     ''apmRegistryFactoryAddress'', ''multisigAddress'']"

definition daoTemplateConstructorArgs :: "props \<Rightarrow> jsval list" where
  "daoTemplateConstructorArgs state = map (obj_get state) [''multisigAddress'', ''daoFactoryAddress'', ''ensAddress'',
     ''miniMeTokenFactoryAddress'', ''aragonIDAddress'', ''apmRegistryFactoryAddress'']"

definition deployTemplate_01 :: "env \<Rightarrow> unit prog" where
  "deployTemplate_01 E =
     bindP (requireState E REQUIRED_01) (\<lambda>state.
     let from = [(''from'', obj_get state ''multisigAddress'')]
     in bindP (saveDeployTx E ''LidoTemplate'' ''tx-01-1-deploy-template.json'' (daoTemplateConstructorArgs state) from) (\<lambda>_.
        bindP (saveDeployTx E ''Lido'' ''tx-01-2-deploy-lido-base.json'' [] from) (\<lambda>_.
        bindP (saveDeployTx E ''LidoOracle'' ''tx-01-3-deploy-oracle-base.json'' [] from) (\<lambda>_.
        bindP (saveDeployTx E ''NodeOperatorsRegistry'' ''tx-01-4-deploy-nops-base.json'' [] from) (\<lambda>_.
        bindP (persistState E state
          [(''daoTemplateConstructorArgs'', JArr (daoTemplateConstructorArgs state)),
           (''daoTemplateDeployTx'', JStr []), (''lidoBaseDeployTx'', JStr []), (''oracleBaseDeployTx'', JStr []),
           (''nodeOperatorsRegistryBaseDeployTx'', JStr [])]) (\<lambda>_. returnP ()))))))"

section \<open>02-obtain-deployed-instances.js\<close>

definition REQUIRED_02 :: "string list" where
  "REQUIRED_02 = REQUIRED_01 @ [''daoTemplateDeployTx'', ''lidoBaseDeployTx'', ''oracleBaseDeployTx'',
     ''nodeOperatorsRegistryBaseDeployTx'']"

definition obtainTemplate :: "env \<Rightarrow> props \<Rightarrow> (string \<times> jsval) res" where
  "obtainTemplate E state =
     bindR (useOrGetDeployed E ''LidoTemplate'' (obj_get state ''daoTemplateAddress'') (obj_get state ''daoTemplateDeployTx''))
       (\<lambda>daoTemplate.
     bindR (getTxBlock E (obj_get state ''daoTemplateDeployTx'')) (\<lambda>daoTemplateDeployBlock.
     bindR (assertDeployedBytecode E (JStr daoTemplate) (JStr ''LidoTemplate'')) (\<lambda>_.
     bindR (call_view E daoTemplate ''getConfig'' []) (\<lambda>templateConfig.
     bindR (forR (\<lambda>(field, key). bindR (getp templateConfig field) (\<lambda>v. assert_addressEqual E v (obj_get state key)))
       [(''_owner'', ''multisigAddress''), (''_daoFactory'', ''daoFactoryAddress''), (''_ens'', ''ensAddress''),
        (''_miniMeFactory'', ''miniMeTokenFactoryAddress''), (''_aragonID'', ''aragonIDAddress''),
        (''_apmRegistryFactory'', ''apmRegistryFactoryAddress'')]) (\<lambda>_.
     Inr (daoTemplate, daoTemplateDeployBlock))))))"

definition assertAragonProxyBase :: "env \<Rightarrow> string \<Rightarrow> unit res" where
  "assertAragonProxyBase E inst =
     bindR (call_view E inst ''hasInitialized'' []) (\<lambda>initialized.
     bindR (assert_equal initialized (JBool False)) (\<lambda>_.
     bindR (call_view E inst ''isPetrified'' []) (\<lambda>petrified.
     assert_equal petrified (JBool True))))"

text \<open>One base: obtain, check the code and the petrified flag, record it in the app's entry.\<close>

definition obtainBase :: "env \<Rightarrow> string \<Rightarrow> string \<Rightarrow> string \<Rightarrow> string \<Rightarrow> props \<Rightarrow> props prog" where
  "obtainBase E artifactName addressKey txKey name state =
     bindP (liftP (useOrGetDeployed E artifactName (obj_get state addressKey) (obj_get state txKey))) (\<lambda>base.
     bindP (liftP (assertDeployedBytecode E (JStr base) (JStr artifactName))) (\<lambda>_.
     bindP (liftP (assertAragonProxyBase E base)) (\<lambda>_.
     persistState E state [(appKey name,
       JObj (obj_set ''baseAddress'' (JStr base) (own_props (obj_get state (appKey name)))))])))"

definition obtainInstances_02 :: "env \<Rightarrow> unit prog" where
  "obtainInstances_02 E =
     bindP (requireState E REQUIRED_02) (\<lambda>state.
     bindP (liftP (obtainTemplate E state)) (\<lambda>(daoTemplate, deployBlock).
     bindP (persistState E state [(''daoTemplate'', instanceVal daoTemplate), (''daoTemplateDeployBlock'', deployBlock)]) (\<lambda>st1.
     bindP (obtainBase E ''Lido'' ''lidoBaseAddress'' ''lidoBaseDeployTx'' (APP_NAMES LIDO) st1) (\<lambda>st2.
     bindP (obtainBase E ''LidoOracle'' ''oracleBaseAddress'' ''oracleBaseDeployTx'' (APP_NAMES ORACLE) st2) (\<lambda>st3.
     bindP (obtainBase E ''NodeOperatorsRegistry'' ''nodeOperatorsRegistryBaseAddress''
              ''nodeOperatorsRegistryBaseDeployTx'' (APP_NAMES NODE_OPERATORS_REGISTRY) st3) (\<lambda>st4.
     returnP ()))))))"

section \<open>03-register-ens-domain.js\<close>

definition CONTROLLER_INTERFACE_ID :: string where
  "CONTROLLER_INTERFACE_ID = ''0x018fac06''"

definition REQUIRED_03 :: "string list" where
  "REQUIRED_03 = [''ensAddress'', ''lidoApmEnsName'', ''lidoApmEnsRegDurationSec'', ''multisigAddress'', ''daoTemplateAddress'']"

definition isAtLeast :: "jsval \<Rightarrow> jnum \<Rightarrow> bool" where
  "isAtLeast v m = (case (v, m) of (JNum (Fin a), Fin b) \<Rightarrow> b \<le> a | (JNum PosInf, Fin b) \<Rightarrow> True | _ \<Rightarrow> False)"

text \<open>The branch for a name the multisig does not own yet: commit to it, then register it.\<close>

definition registerDomain :: "env \<Rightarrow> string \<Rightarrow> string \<Rightarrow> string \<Rightarrow> props \<Rightarrow> unit prog" where
  "registerDomain E ens tldNode domainLabel state =
     (let owner = obj_get state ''daoTemplateAddress''; duration = obj_get state ''lidoApmEnsRegDurationSec'';
          multisig = obj_get state ''multisigAddress''
      in bindP (view E ens ''resolver'' [JStr tldNode]) (\<lambda>tldResolverAddr.
         bindP (at_addr E ''IInterfaceResolver'' tldResolverAddr) (\<lambda>tldResolver.
         bindP (view E tldResolver ''interfaceImplementer'' [JStr tldNode, JStr CONTROLLER_INTERFACE_ID]) (\<lambda>controllerAddr.
         bindP (at_addr E ''IETHRegistrarController'' controllerAddr) (\<lambda>controller.
         bindP (view E controller ''minCommitmentAge'' []) (\<lambda>_.
         bindP (view E controller ''maxCommitmentAge'' []) (\<lambda>_.
         bindP (view E controller ''MIN_REGISTRATION_DURATION'' []) (\<lambda>minDuration.
         bindP (view E controller ''available'' [JStr domainLabel]) (\<lambda>available.
         bindP (liftP (assert_isTrue available)) (\<lambda>_.
         bindP (liftP (assertR (isAtLeast duration (to_num minDuration)))) (\<lambda>_.
         let salt = JStr (''0x'' @ random_salt E)
         in bindP (view E controller ''makeCommitment'' [JStr domainLabel, owner, salt]) (\<lambda>commitment.
            bindP (view E controller ''rentPrice'' [JStr domainLabel, duration]) (\<lambda>rentPrice.
            bindP (liftP (case rentPrice of JBN p \<Rightarrow> Inr (bn_div (p * 115) 100) | _ \<Rightarrow> Inl TypeError)) (\<lambda>registerTxValue.
            bindP (saveTx E controller ''commit'' ''tx-02-1-commit-ens-registration.json'' [commitment] multisig) (\<lambda>_.
            bindP (saveCallTxData E controller ''register'' ''tx-02-2-make-ens-registration.json''
                     [JStr domainLabel, owner, duration, salt] False
                     [(''from'', multisig), (''value'', JStr (''0x'' @ to_hex E registerTxValue))]) (\<lambda>_.
            returnP ()))))))))))))))))"

definition registerEnsDomain_03 :: "env \<Rightarrow> unit prog" where
  "registerEnsDomain_03 E =
     bindP (requireState E REQUIRED_03) (\<lambda>state.
     bindP (at_addr E ''ENS'' (obj_get state ''ensAddress'')) (\<lambda>ens.
     bindP (liftP (str_of (obj_get state ''lidoApmEnsName''))) (\<lambda>domainName.
     let owner = obj_get state ''daoTemplateAddress'';
         multisig = obj_get state ''multisigAddress'';
         tldNode = name_hash E ''eth''; node = name_hash E domainName; parts = split_on (CHR ''.'') domainName
     in bindP (liftP (assertR (length parts = 2))) (\<lambda>_.
        bindP (liftP (assertR (parts ! 1 = ''eth''))) (\<lambda>_.
        let domainLabel = hd parts; labelHash = ''0x'' @ keccak E domainLabel
        in bindP (view E ens ''owner'' [JStr node]) (\<lambda>nodeOwner.
           if strict_eq nodeOwner multisig
           then saveTx E ens ''setOwner'' ''tx-02-2-make-ens-registration.json'' [JStr node, owner] multisig
           else bindP (view E ens ''owner'' [JStr tldNode]) (\<lambda>tldOwner.
                if strict_eq tldOwner multisig
                then saveTx E ens ''setSubnodeOwner'' ''tx-02-2-make-ens-registration.json''
                       [JStr tldNode, JStr labelHash, owner] multisig
                else registerDomain E ens tldNode domainLabel state)))))))"

definition floor_to :: "jnum \<Rightarrow> int \<Rightarrow> jnum" where
  "floor_to n m = js_div (math_floor (js_mul n (Fin (of_int m)))) (Fin (of_int m))"

fun num_gt :: "jnum \<Rightarrow> int \<Rightarrow> bool" where
  "num_gt (Fin q) b = (of_int b < q)"
| "num_gt PosInf b = True"
| "num_gt NegInf b = False"
| "num_gt NaN b = False"

definition formatTimeInterval :: "jnum \<Rightarrow> string" where
  "formatTimeInterval sec =
     (let hour = 60 * 60; day = hour * 24; month = day * 30; year = day * 365
      in if num_gt sec year then num_str (floor_to (js_div sec (Fin (of_int year))) 100) @ '' year(s)''
         else if num_gt sec month then num_str (floor_to (js_div sec (Fin (of_int month))) 10) @ '' month(s)''
         else if num_gt sec day then num_str (floor_to (js_div sec (Fin (of_int day))) 10) @ '' day(s)''
         else num_str sec @ '' second(s)'')"

section \<open>04-publish-app-frontends.js\<close>

text \<open>The file system, the front-end build and the IPFS node.\<close>

record front_env =
  fe_dirs :: "string list"
  fe_arapp :: "string \<Rightarrow> jsval res"
  fe_build :: "string \<Rightarrow> jsval \<Rightarrow> unit res"
  fe_upload :: "string \<Rightarrow> jsval \<Rightarrow> string res"
  fe_contentUri :: "string \<Rightarrow> string \<Rightarrow> string"

definition getAppName :: "jsval \<Rightarrow> string \<Rightarrow> jsval res" where
  "getAppName arappJSON netName =
     bindR (getp arappJSON ''environments'') (\<lambda>environments.
     if \<not> truthy environments then Inr JNull
     else (let env = obj_get (own_props environments) netName;
               dflt = obj_get (own_props environments) ''default'';
               name = obj_get (own_props dflt) ''appName''
           in if truthy env then getp env ''appName''
              else Inr (if truthy name then name else JNull)))"

definition readArappJSON :: "front_env \<Rightarrow> string \<Rightarrow> string \<Rightarrow> (jsval \<times> jsval) res" where
  "readArappJSON F appDir netName =
     bindR (fe_arapp F appDir) (\<lambda>arapp.
     bindR (getAppName arapp netName) (\<lambda>name.
     bindR (getp arapp ''path'') (\<lambda>contractPath. Inr (name, contractPath))))"

definition publishAppFrontend :: "env \<Rightarrow> front_env \<Rightarrow> string \<Rightarrow> jsval \<Rightarrow> string \<Rightarrow> (string \<times> props) res" where
  "publishAppFrontend E F appDir ipfsAPI lidoApmEnsName =
     bindR (readArappJSON F appDir (network_name E)) (\<lambda>(fullName, contractPath).
     case fullName of
       JStr appFullName \<Rightarrow>
         (if \<not> ends_with (''.'' @ lidoApmEnsName) appFullName
          then Inl (Error (''app full name is not a subdomain of the Lido APM ENS domain '' @ lidoApmEnsName))
          else (let appName = (case index_of (CHR ''.'') appFullName of None \<Rightarrow> [] | Some i \<Rightarrow> take i appFullName)
                in if appName \<notin> set VALID_APP_NAMES
                   then Inl (Error (''app name is not recognized; valid app names are: '' @ join_with '', '' VALID_APP_NAMES))
                   else bindR (fe_build F appDir contractPath) (\<lambda>_.
                        bindR (fe_upload F appDir ipfsAPI) (\<lambda>rootCid.
                        Inr (appName,
                          [(''fullName'', JStr appFullName), (''name'', JStr appName),
                           (''id'', JStr (name_hash E appFullName)), (''ipfsCid'', JStr rootCid),
                           (''contentURI'', JStr (fe_contentUri F ''ipfs'' rootCid))])))))
     | _ \<Rightarrow> Inl TypeError)"

fun publishAll :: "env \<Rightarrow> front_env \<Rightarrow> string list \<Rightarrow> props \<Rightarrow> props prog" where
  "publishAll E F [] state w = (Inr state, w)"
| "publishAll E F (appDir # dirs) state w =
     bindP (liftP (publishAppFrontend E F appDir (obj_get state ''ipfsAPI'') (to_str (obj_get state ''lidoApmEnsName'')))) (\<lambda>(name, app).
     bindP (persistState E state
       [(appKey name, JObj (obj_assign (own_props (obj_get state (appKey name))) app))]) (\<lambda>st1.
     publishAll E F dirs st1)) w"

definition publishAppFrontends_04 :: "env \<Rightarrow> front_env \<Rightarrow> string \<Rightarrow> unit prog" where
  "publishAppFrontends_04 E F appDirs =
     bindP (requireState E [''lidoApmEnsName'', ''ipfsAPI'']) (\<lambda>state.
     bindP (publishAll E F (if appDirs \<noteq> [] \<and> appDirs \<noteq> ''*'' then split_on (CHR '','') appDirs else fe_dirs F) state) (\<lambda>_.
     returnP ()))"

section \<open>05-deploy-apm.js\<close>

definition splitDomain :: "string \<Rightarrow> (string \<times> string) res" where
  "splitDomain domain =
     (case index_of (CHR ''.'') domain of
        None \<Rightarrow> Inl (Error (''the ENS domain '' @ domain @ '' is a top-level domain''))
      | Some dotIndex \<Rightarrow> Inr (take dotIndex domain, drop (dotIndex + 1) domain))"

definition deployAPM_05 :: "env \<Rightarrow> unit prog" where
  "deployAPM_05 E =
     bindP (requireState E [''multisigAddress'', ''daoTemplateAddress'', ''ensAddress'', ''lidoApmEnsName'']) (\<lambda>state.
     bindP (at_addr E ''LidoTemplate'' (obj_get state ''daoTemplateAddress'')) (\<lambda>template.
     bindP (liftP (assertNoEvents E template (obj_get state ''daoTemplateDeployBlock''))) (\<lambda>_.
     bindP (at_addr E ''ENS'' (obj_get state ''ensAddress'')) (\<lambda>ens.
     bindP (liftP (str_of (obj_get state ''lidoApmEnsName''))) (\<lambda>ensName.
        bindP (liftP (getENSNodeOwner E ens (name_hash E ensName))) (\<lambda>nodeOwner.
        bindP (liftP (assert_equal nodeOwner (obj_get state ''daoTemplateAddress''))) (\<lambda>_.
        bindP (liftP (splitDomain ensName)) (\<lambda>(sub, parent).
        let args = [JStr (name_hash E parent), JStr (''0x'' @ keccak E sub)]
        in bindP (saveTx E template ''deployLidoAPM'' ''tx-03-deploy-apm.json'' args (obj_get state ''multisigAddress'')) (\<lambda>_.
           bindP (persistState E state [(''lidoApmDeployArguments'', JArr args), (''lidoApmDeployTx'', JStr [])]) (\<lambda>_.
           returnP ()))))))))))"

section \<open>06-obtain-deployed-apm.js\<close>

definition obtainDeployedAPM_06 :: "env \<Rightarrow> unit prog" where
  "obtainDeployedAPM_06 E =
     bindP (requireState E [''ensAddress'', ''lidoApmEnsName'', ''daoTemplateAddress'']) (\<lambda>state0.
     let block = obj_get state0 ''daoTemplateDeployBlock''; ensAddress = obj_get state0 ''ensAddress''
     in bindP (at_addr E ''LidoTemplate'' (obj_get state0 ''daoTemplateAddress'')) (\<lambda>template.
        bindP (liftP (assertLastEvent E template ''TmplAPMDeployed'' block)) (\<lambda>evt.
        bindP (persistState E (obj_set ''lidoApmDeployTx'' (evt_field evt ''transactionHash'') state0) []) (\<lambda>state.
        bindP (at_addr E ''APMRegistry'' (evt_arg evt ''apm'')) (\<lambda>registry.
        bindP (liftP (loadArtifact E ''external:APMRegistry'' (network_name E))) (\<lambda>registryArtifact.
        bindP (liftP (loadArtifact E ''external:AppProxyUpgradeable_APM'' (network_name E))) (\<lambda>proxyArtifact.
        bindP (liftP (assertProxiedContractBytecode E (JStr registry) proxyArtifact registryArtifact)) (\<lambda>_.
        bindP (view E registry ''ens'' []) (\<lambda>registryEns.
        bindP (liftP (assert_addressEqual E registryEns ensAddress)) (\<lambda>_.
        bindP (view E registry ''registrar'' []) (\<lambda>registrarAddress.
        bindP (at_addr E ''ENSSubdomainRegistrar'' registrarAddress) (\<lambda>registrar.
        bindP (view E registrar ''ens'' []) (\<lambda>registrarEns.
        bindP (liftP (assert_addressEqual E registrarEns ensAddress)) (\<lambda>_.
        bindP (view E registrar ''rootNode'' []) (\<lambda>rootNode.
        let lidoApmRootNode = name_hash E (to_str (obj_get state ''lidoApmEnsName''))
        in bindP (liftP (assert_equal rootNode (JStr lidoApmRootNode))) (\<lambda>_.
           bindP (at_addr E ''ENS'' registryEns) (\<lambda>ens.
           bindP (liftP (getENSNodeOwner E ens lidoApmRootNode)) (\<lambda>rootNodeOwner.
           bindP (liftP (assert_addressEqual E rootNodeOwner registrarAddress)) (\<lambda>_.
           bindP (view E registry ''kernel'' []) (\<lambda>registryKernelAddress.
           bindP (at_addr E ''Kernel'' registryKernelAddress) (\<lambda>registryKernel.
           bindP (view E registryKernel ''acl'' []) (\<lambda>registryACLAddress.
           bindP (at_addr E ''ACL'' registryACLAddress) (\<lambda>registryACL.
           bindP (view E registrar ''kernel'' []) (\<lambda>registrarKernelAddress.
           bindP (liftP (assert_addressEqual E registrarKernelAddress registryKernelAddress)) (\<lambda>_.
           bindP (liftP (assertAPMRegistryPermissions E registry registrar registryACL registryKernel
                    (obj_get state ''daoTemplateAddress'') block)) (\<lambda>_.
           bindP (persistState E state [(''lidoApmAddress'', evt_arg evt ''apm'')]) (\<lambda>_.
           returnP ())))))))))))))))))))))))))))"

section \<open>07-create-app-repos.js\<close>

definition createAppRepos_07 :: "env \<Rightarrow> unit prog" where
  "createAppRepos_07 E =
     bindP (requireState E [''multisigAddress'', ''daoTemplateAddress'', appKey (APP_NAMES LIDO), appKey (APP_NAMES ORACLE),
       appKey (APP_NAMES NODE_OPERATORS_REGISTRY)]) (\<lambda>state.
     bindP (at_addr E ''LidoTemplate'' (obj_get state ''daoTemplateAddress'')) (\<lambda>template.
     bindP (liftP (assertLastEvent E template ''TmplAPMDeployed'' (obj_get state ''daoTemplateDeployBlock''))) (\<lambda>_.
     bindP (liftP (mapR (\<lambda>name. bindR (getp (obj_get state (appKey name)) ''baseAddress'') (\<lambda>base.
                         bindR (getp (obj_get state (appKey name)) ''contentURI'') (\<lambda>uri. Inr [base, uri])))
              [APP_NAMES LIDO, APP_NAMES NODE_OPERATORS_REGISTRY, APP_NAMES ORACLE])) (\<lambda>apps.
     bindP (saveTx E template ''createRepos'' ''tx-04-create-app-repos.json''
              (JArr [JInt 1, JInt 0, JInt 0] # concat apps) (obj_get state ''multisigAddress'')) (\<lambda>_.
     bindP (persistState E state []) (\<lambda>_. returnP ()))))))"

section \<open>Properties\<close>

lemma updateNetworkState_simps [simp]:
  "updateNetworkState st [] = st"
  "updateNetworkState st (u # us) = updateNetworkState (updateKey u st) us"
  by (simp_all add: updateNetworkState_def)

definition deployTxKeys :: "string list" where
  "deployTxKeys = [''daoTemplateDeployTx'', ''lidoBaseDeployTx'', ''oracleBaseDeployTx'', ''nodeOperatorsRegistryBaseDeployTx'']"

lemma deployTemplate_01_result:
  assumes "deployTemplate_01 E w = (Inr (), w')"
  obtains st txds where "state_of E w' = Some st" "net_files w' (state_file E) \<noteq> None"
    "list_all (\<lambda>k. obj_get st k = JStr []) deployTxKeys"
    "tx_files w' = tx_files w @ zip [''tx-01-1-deploy-template.json'', ''tx-01-2-deploy-lido-base.json'',
       ''tx-01-3-deploy-oracle-base.json'', ''tx-01-4-deploy-nops-base.json''] txds" "length txds = 4"
proof -
  from assms obtain st0 t1 t2 t3 t4 where
    w': "w' = snd (persistState E st0
          [(''daoTemplateConstructorArgs'', JArr (daoTemplateConstructorArgs st0)),
           (''daoTemplateDeployTx'', JStr []), (''lidoBaseDeployTx'', JStr []), (''oracleBaseDeployTx'', JStr []),
           (''nodeOperatorsRegistryBaseDeployTx'', JStr [])]
          ((after_read E w)\<lparr>tx_files := tx_files w @ [(''tx-01-1-deploy-template.json'', t1),
             (''tx-01-2-deploy-lido-base.json'', t2), (''tx-01-3-deploy-oracle-base.json'', t3),
             (''tx-01-4-deploy-nops-base.json'', t4)]\<rparr>))"
    unfolding deployTemplate_01_def Let_def prog_ok by (auto simp: persistState_eq Let_def)
  show ?thesis
  proof (rule that [where txds = "[t1, t2, t3, t4]"])
    show "state_of E w' = Some (json_props (bn_json E) (updateNetworkState (obj_set ''networkId'' (JInt (network_id E)) st0)
          [(''daoTemplateConstructorArgs'', JArr (daoTemplateConstructorArgs st0)),
           (''daoTemplateDeployTx'', JStr []), (''lidoBaseDeployTx'', JStr []), (''oracleBaseDeployTx'', JStr []),
           (''nodeOperatorsRegistryBaseDeployTx'', JStr [])]))"
      unfolding w' by (rule state_of_persistState) simp
    show "net_files w' (state_file E) \<noteq> None" by (simp add: w' persistState_eq Let_def)
  qed (simp_all add: w' persistState_eq Let_def deployTxKeys_def json_props_get)
qed

text \<open>
  the deployment stops for its operator: after step 01 succeeds, step 02 fails, naming all four
  deployment transactions as missing and changing nothing, until someone writes their hashes into the
  network state.
\<close>

theorem obtain_needs_operator:
  assumes "deployTemplate_01 E w = (Inr (), w')"
  shows "\<exists>missing. obtainInstances_02 E w' =
      (Inl (Error (''missing following fields from the network state file, make sure you've run previous deployment steps: '' @
             join_with '', '' missing)), w') \<and> set deployTxKeys \<subseteq> set missing"
proof -
  from assms obtain st txds where st: "state_of E w' = Some st" and f: "net_files w' (state_file E) \<noteq> None"
    and e: "list_all (\<lambda>k. obj_get st k = JStr []) deployTxKeys"
    by (rule deployTemplate_01_result)
  have sub: "set deployTxKeys \<subseteq> set (missingState st REQUIRED_02)"
    using e by (auto simp: missingState_def REQUIRED_02_def list_all_iff deployTxKeys_def)
  then have "missingState st REQUIRED_02 \<noteq> []" by (auto simp: deployTxKeys_def)
  note r = requireState_missing [OF st this, unfolded after_read_id [OF f]]
  show ?thesis
    by (rule exI [of _ "missingState st REQUIRED_02"]) (simp add: obtainInstances_02_def bindP_def r sub)
qed

definition deployer_env :: env where
  "deployer_env = offline_env\<lparr>read_artifact := \<lambda>_. Inr (JObj [(''bytecode'', JStr ''0x60'')]),
     encode_deploy := \<lambda>_ _. Inr ''0x60'', get_accounts := Inr [JStr ''0xa''], estimate_gas := \<lambda>_ _. Inr 21000\<rparr>"

definition initial_world :: world where
  "initial_world = empty_world\<lparr>net_files := [''./deployed-dev.json'' \<mapsto> JsonText (JObj ((''networkId'', JInt 1337) #
     map (\<lambda>k. (k, JStr ''0x1'')) REQUIRED_01))]\<rparr>"

theorem obtain_needs_operator_witness:
  "\<exists>e w'. obtainInstances_02 deployer_env w' = (Inl e, w') \<and> w' = snd (deployTemplate_01 deployer_env initial_world)"
proof -
  have fn: "state_file deployer_env = ''./deployed-dev.json''"
    by (simp add: state_file_def getFileName_def deployer_env_def offline_env_def)
  have nid: "network_id deployer_env = 1337" by (simp add: deployer_env_def offline_env_def)
  have st: "state_of deployer_env initial_world = Some ((''networkId'', JInt 1337) # map (\<lambda>k. (k, JStr ''0x1'')) REQUIRED_01)"
    by (simp add: state_of_def fn nid initial_world_def strict_eq_def)
  have tx: "getDeployTx deployer_env a args opts = Inr [(''gas'', JInt 31000), (''data'', JStr ''0x60'')]" for a args opts
    by (simp add: getDeployTx_def getTxData_def deployer_env_def)
  obtain w' where "deployTemplate_01 deployer_env initial_world = (Inr (), w')"
    unfolding deployTemplate_01_def Let_def prog_ok by (auto simp: prog_ok st tx REQUIRED_01_def)
  from obtain_needs_operator [OF this] this show ?thesis by auto
qed

lemma splitDomain_parts:
  assumes "splitDomain domain = Inr (sub, parent)"
  shows "domain = sub @ ''.'' @ parent \<and> CHR ''.'' \<notin> set sub"
proof -
  from assms obtain i where i: "index_of (CHR ''.'') domain = Some i" and s: "sub = take i domain" "parent = drop (i + 1) domain"
    by (auto simp: splitDomain_def split: option.splits)
  note p = index_of_Some [OF i]
  have "domain = take i domain @ domain ! i # drop (Suc i) domain" using p id_take_nth_drop by blast
  with s p show ?thesis by simp
qed

text \<open>
  \<open>splitDomain\<close> cuts a domain at its first dot and nowhere else: it returns \<open>(sub, parent)\<close>
  exactly when the domain is \<open>sub.parent\<close> and \<open>sub\<close> has no dot, and fails exactly on a name
  without a dot.
\<close>

theorem splitDomain_iff:
  "(splitDomain domain = Inr (sub, parent) \<longleftrightarrow> domain = sub @ ''.'' @ parent \<and> CHR ''.'' \<notin> set sub) \<and>
   (okR (splitDomain domain) \<longleftrightarrow> CHR ''.'' \<in> set domain)"
proof (intro conjI iffI)
  assume "splitDomain domain = Inr (sub, parent)"
  from splitDomain_parts [OF this] show "domain = sub @ ''.'' @ parent" "CHR ''.'' \<notin> set sub" by simp_all
next
  assume d: "domain = sub @ ''.'' @ parent \<and> CHR ''.'' \<notin> set sub"
  have "index_of (CHR ''.'') (sub @ ''.'' @ parent) = Some (length sub)" if "CHR ''.'' \<notin> set sub"
    using that by (induction sub) auto
  with d show "splitDomain domain = Inr (sub, parent)" by (simp add: splitDomain_def)
next
  have "okR (splitDomain domain) \<longleftrightarrow> index_of (CHR ''.'') domain \<noteq> None"
    by (simp add: splitDomain_def split: option.splits)
  then show "okR (splitDomain domain) \<Longrightarrow> CHR ''.'' \<in> set domain"
    "CHR ''.'' \<in> set domain \<Longrightarrow> okR (splitDomain domain)"
    by (simp_all add: index_of_None)
qed

text \<open>
  a front end is published only for a known app of this APM: when \<open>publishAppFrontend\<close> succeeds,
  the app's name is one of the valid names, it is the first label of the full name, the full name is
  below the APM's domain, and the entry to be stored carries that name and the hash of the full name.
\<close>

theorem publishAppFrontend_sound:
  assumes "publishAppFrontend E F appDir ipfsAPI ensName = Inr (name, app)"
  shows "name \<in> set VALID_APP_NAMES \<and> obj_get app ''name'' = JStr name \<and>
    (\<exists>rest. obj_get app ''fullName'' = JStr (name @ ''.'' @ rest) \<and> CHR ''.'' \<notin> set name \<and>
       ends_with (''.'' @ ensName) (name @ ''.'' @ rest) \<and> obj_get app ''id'' = JStr (name_hash E (name @ ''.'' @ rest)))"
proof -
  from assms obtain v path where v: "readArappJSON F appDir (network_name E) = Inr (v, path)"
    by (auto simp: publishAppFrontend_def bindR_eq_Inr)
  with assms obtain full where full: "v = JStr full"
    by (cases v) (simp_all add: publishAppFrontend_def)
  from assms v full have e: "ends_with (''.'' @ ensName) full"
    and n: "name = (case index_of (CHR ''.'') full of None \<Rightarrow> [] | Some i \<Rightarrow> take i full)" "name \<in> set VALID_APP_NAMES"
    and a: "obj_get app ''name'' = JStr name" "obj_get app ''fullName'' = JStr full" "obj_get app ''id'' = JStr (name_hash E full)"
    by (auto simp: publishAppFrontend_def bindR_eq_Inr Let_def split: if_splits)
  from e have "CHR ''.'' \<in> set full"
    by (auto simp: ends_with_def) (metis in_set_dropD list.set_intros(1))
  then obtain i where i: "index_of (CHR ''.'') full = Some i" by (metis index_of_None not_None_eq)
  have "splitDomain full = Inr (name, drop (i + 1) full)" using i n by (simp add: splitDomain_def)
  then have "full = name @ ''.'' @ drop (i + 1) full \<and> CHR ''.'' \<notin> set name" by (rule splitDomain_parts)
  with e n a show ?thesis by metis
qed

definition sample_front :: front_env where
  "sample_front = \<lparr>fe_dirs = [''lido''], fe_arapp = \<lambda>_. Inr (JObj [(''environments'', JObj [(''dev'',
     JObj [(''appName'', JStr ''lido.lidopm.eth'')])]), (''path'', JStr ''c.sol'')]), fe_build = \<lambda>_ _. Inr (),
     fe_upload = \<lambda>_ _. Inr ''Qm'', fe_contentUri = \<lambda>a b. a @ b\<rparr>"

theorem publishAppFrontend_sound_witness:
  "\<exists>app. publishAppFrontend offline_env sample_front ''lido'' JUndef ''lidopm.eth'' = Inr (''lido'', app) \<and>
     obj_get app ''name'' = JStr ''lido''"
proof -
  obtain app where p: "publishAppFrontend offline_env sample_front ''lido'' JUndef ''lidopm.eth'' = Inr (''lido'', app)"
    by (simp add: publishAppFrontend_def readArappJSON_def getAppName_def sample_front_def offline_env_def ends_with_def
        VALID_APP_NAMES_def all_apps_def Let_def)
  from publishAppFrontend_sound [OF this] p show ?thesis by blast
qed

end
