(* ===== verification/DevScripts.thy ===== *)
theory DevScripts
  imports DeployApps MultisigSetup LibTools GasSource Calendar
begin

text \<open>
  The scripts a developer runs: scripts/start-aragon.js (a local Aragon client that loads the apps from
  their dev servers), scripts/build-apps-frontend.js and scripts/extract-abi.js, with
  scripts/helpers/fs.js.  Commands, their results and the files are those of \<open>shell\<close> in DeployApps;
  what they print is not modelled.
\<close>

section \<open>helpers/fs.js\<close>

text \<open>\<open>stat\<close>: whether the path is a directory, \<open>None\<close> when it cannot be looked at.\<close>

definition fileExists :: "(string \<Rightarrow> bool option) \<Rightarrow> string \<Rightarrow> bool \<Rightarrow> bool" where
  "fileExists stat path isDirectory = (stat path = Some isDirectory)"

definition directoryExists :: "(string \<Rightarrow> bool option) \<Rightarrow> string \<Rightarrow> bool" where
  "directoryExists stat path = fileExists stat path True"

definition readJSON :: "shell \<Rightarrow> string \<Rightarrow> jsval shprog" where
  "readJSON S path = looking (\<lambda>w. sh_read S (sw_commands w) path)"

section \<open>start-aragon.js\<close>

definition CMD_MAINNET :: string where
  "CMD_MAINNET = ''mainnet''"

definition AVAILIABLE_RUN_CMDS :: "string list" where
  "AVAILIABLE_RUN_CMDS = [''local'', CMD_MAINNET, ''rinkeby'', ''staging'', ''ropsten'', ''xdai'']"

definition appsRepoPath :: string where
  "appsRepoPath = ''./aragon-client''"

text \<open>\<open>process.env.K || d\<close>\<close>

definition envOr :: "shell \<Rightarrow> string \<Rightarrow> jsval \<Rightarrow> jsval" where
  "envOr S k d = (let v = obj_get (sh_process_env S) k in if truthy v then v else d)"

definition assertRequiredRunCmd :: "string \<Rightarrow> string list \<Rightarrow> unit res" where
  "assertRequiredRunCmd runCmd availableCmd =
     (if filter (\<lambda>key. runCmd = key) availableCmd = []
      then Inl (Error (''Invalid RUN_CMD env, available options: '' @ join_with '', '' availableCmd)) else Inr ())"

text \<open>\<open>dev.match(/--port\s+(\d+)/)\<close>: the digits of the first match.\<close>

definition portAt :: "string \<Rightarrow> string option" where
  "portAt s =
     (let r = drop 6 s; d = takeWhile is_digit (dropWhile is_space r)
      in if starts_with ''--port'' s \<and> r \<noteq> [] \<and> is_space (hd r) \<and> d \<noteq> [] then Some d else None)"

fun matchPort :: "string \<Rightarrow> string option" where
  "matchPort [] = None"
| "matchPort (c # cs) = (case portAt (c # cs) of Some d \<Rightarrow> Some d | None \<Rightarrow> matchPort cs)"

text \<open>The port of the next app: declared by its dev script, or one more than the port before.\<close>

definition nextPort :: "jsval \<Rightarrow> jsval \<Rightarrow> jsval res" where
  "nextPort port dev =
     (let succ = JNum (js_add (to_num port) (Fin 1))
      in if \<not> truthy dev then Inr succ
         else case dev of JStr s \<Rightarrow> Inr (case matchPort s of None \<Rightarrow> succ | Some d \<Rightarrow> JStr d) | _ \<Rightarrow> Inl TypeError)"

definition locationText :: "string \<Rightarrow> jsval \<Rightarrow> string" where
  "locationText appHash port = appHash @ '':http://localhost:'' @ to_str port @ ''/''"

definition appLocation :: "env \<Rightarrow> shell \<Rightarrow> string \<Rightarrow> jsval \<Rightarrow> string \<Rightarrow> (jsval \<times> string) shprog" where
  "appLocation E S appsDirPath port appName =
     (let appRootPath = path_resolve E appsDirPath appName
      in bindS (readJSON S (appRootPath @ ''/arapp.json'')) (\<lambda>arapp.
         bindS (readJSON S (appRootPath @ ''/app/package.json'')) (\<lambda>appPackageJson.
         liftS (bindR (getp appPackageJson ''scripts'') (\<lambda>scripts.
                bindR (getp scripts ''dev'') (\<lambda>dev.
                bindR (nextPort port dev) (\<lambda>port'.
                bindR (getp arapp ''environments'') (\<lambda>environments.
                bindR (getp environments ''mainnet'') (\<lambda>environ.
                bindR (getp environ ''appName'') (\<lambda>appId.
                bindR (hashName E appId) (\<lambda>appHash.
                Inr (port', locationText appHash port'))))))))))))"

fun appLocations :: "env \<Rightarrow> shell \<Rightarrow> string \<Rightarrow> jsval \<Rightarrow> string list \<Rightarrow> string list shprog" where
  "appLocations E S appsDirPath port [] = liftS (Inr [])"
| "appLocations E S appsDirPath port (appName # appNames) =
     bindS (appLocation E S appsDirPath port appName) (\<lambda>(port', location).
     bindS (appLocations E S appsDirPath port' appNames) (\<lambda>locations. liftS (Inr (location # locations))))"

definition aragonEnv :: "shell \<Rightarrow> string \<Rightarrow> jsval \<Rightarrow> string list \<Rightarrow> props" where
  "aragonEnv S runCmd ensAddress locations =
     obj_assign (sh_process_env S)
       [(''ARAGON_APP_LOCATOR'', envOr S ''ARAGON_APP_LOCATOR'' (JStr (join_with '','' locations))),
        (''ARAGON_ENS_REGISTRY_ADDRESS'', ensAddress),
        (''ARAGON_DEFAULT_ETH_NODE'', JStr ''ws://localhost:8545''),
        (''ARAGON_IPFS_GATEWAY'', JStr (if runCmd = CMD_MAINNET then ''https://mainnet.lido.fi/ipfs'' else ''http://localhost:8080''))]"

definition deployedEns :: "shell \<Rightarrow> jsval \<Rightarrow> jsval res" where
  "deployedEns S deployedFile =
     (let given = obj_get (sh_process_env S) ''ENS_ADDRESS''
      in if truthy given then Inr given
         else bindR (getp deployedFile ''ensAddress'') (\<lambda>v.
              Inr (if truthy v then v else JStr ''0x00000000000C2E074eC69A0dFb2997BA6C7d2e1e'')))"

definition startAragonClient ::
  "env \<Rightarrow> shell \<Rightarrow> (string \<Rightarrow> bool option) \<Rightarrow> string \<Rightarrow> string \<Rightarrow> string \<Rightarrow> string \<Rightarrow> unit shprog" where
  "startAragonClient E S stat aragonAppsRepoRef appsDirPath appNames runCmd =
     bindS (liftS (assertRequiredRunCmd runCmd AVAILIABLE_RUN_CMDS)) (\<lambda>_.
     let deployedFileName = ''deployed-'' @ to_str (envOr S ''NETWORK_NAME'' (JStr ''localhost'')) @ ''.json''
     in if \<not> fileExists stat deployedFileName False then liftS (Inr ())
        else bindS (readJSON S deployedFileName) (\<lambda>deployedFile.
             bindS (liftS (deployedEns S deployedFile)) (\<lambda>ensAddress.
             bindS (gitCloneRepo S appsRepoPath
               (to_str (envOr S ''ARAGON_APPS_REPO'' (JStr ''https://github.com/lidofinance/aragon-client''))) aragonAppsRepoRef) (\<lambda>_.
             bindS (execLive S ''yarn'' [] (Some appsRepoPath) None) (\<lambda>_.
             bindS (appLocations E S appsDirPath (JInt 3000) (chooseApps S appNames appsDirPath)) (\<lambda>locations.
             execLive S ''yarn'' [''start:'' @ runCmd] (Some appsRepoPath) (Some (aragonEnv S runCmd ensAddress locations))))))))"

text \<open>The call at the end of the script, with the defaults from the environment variables.\<close>

definition startAragon :: "env \<Rightarrow> shell \<Rightarrow> (string \<Rightarrow> bool option) \<Rightarrow> string \<Rightarrow> unit shprog" where
  "startAragon E S stat scriptsDir =
     startAragonClient E S stat (to_str (envOr S ''ARAGON_APPS_REPO_REF'' (JStr ''master'')))
       (to_str (envOr S ''APPS_DIR_PATH'' (JStr (path_resolve E scriptsDir ''../apps''))))
       (to_str (envOr S ''APPS'' (JStr ''*''))) (to_str (envOr S ''RUN_CMD'' (JStr ''local'')))"

section \<open>build-apps-frontend.js\<close>

text \<open>
  \<open>generate\<close> is the artifact generator of the Aragon plugin: it gets the working directory, the
  output directory and the function it runs tasks with.
\<close>

record run_request =
  rq_task :: string
  rq_args :: props

record build_tools =
  bt_flatten :: string
  bt_hardhat_flatten :: string
  bt_generate :: "string \<Rightarrow> string \<Rightarrow> (string \<Rightarrow> run_request) \<Rightarrow> unit res"
  bt_exec :: "command list \<Rightarrow> string \<Rightarrow> unit res"

record build_world =
  bd_sw :: shell_world
  bd_cwd :: string

definition LIDO_APM_ENS_NAME :: string where
  "LIDO_APM_ENS_NAME = ''lidopm.eth''"

definition wrappedRun :: "build_tools \<Rightarrow> string \<Rightarrow> string \<Rightarrow> run_request" where
  "wrappedRun T contractPath taskName =
     (if taskName \<noteq> bt_flatten T then \<lparr>rq_task = taskName, rq_args = []\<rparr>
      else \<lparr>rq_task = bt_hardhat_flatten T, rq_args = [(''files'', JArr [JStr contractPath])]\<rparr>)"

text \<open>\<open>exec\<close> hands one line to the shell.\<close>

definition execLine :: "build_tools \<Rightarrow> string \<Rightarrow> unit shprog" where
  "execLine T line w =
     (bt_exec T (sw_commands w) line,
      w\<lparr>sw_commands := sw_commands w @ [\<lparr>cm_name = line, cm_args = [], cm_cwd = None, cm_env = None\<rparr>]\<rparr>)"

definition readArapp :: "env \<Rightarrow> shell \<Rightarrow> string \<Rightarrow> (jsval \<times> string) shprog" where
  "readArapp E S appRoot =
     bindS (readJSON S (path_resolve E appRoot ''arapp.json'')) (\<lambda>arappJSON.
     liftS (bindR (getAppName arappJSON (network_name E)) (\<lambda>appFullName.
            bindR (getp arappJSON ''path'') (\<lambda>p. bindR (str_of p) (\<lambda>path.
            Inr (appFullName, path_resolve E appRoot path))))))"

text \<open>The checks of an app's name.\<close>

definition checkAppName :: "jsval \<Rightarrow> string res" where
  "checkAppName fullName =
     (case fullName of
        JStr appFullName \<Rightarrow>
          (if \<not> ends_with (''.'' @ LIDO_APM_ENS_NAME) appFullName
           then Inl (Error (''app full name is not a subdomain of the Lido APM ENS domain '' @ LIDO_APM_ENS_NAME))
           else (let appName = (case index_of (CHR ''.'') appFullName of None \<Rightarrow> [] | Some i \<Rightarrow> take i appFullName)
                 in if appName \<notin> set VALID_APP_NAMES
                    then Inl (Error (''app name is not recognized; valid app names are: '' @ join_with '', '' VALID_APP_NAMES))
                    else Inr appName))
      | _ \<Rightarrow> Inl TypeError)"

definition distPath :: "string \<Rightarrow> string" where
  "distPath appRootPath = appRootPath @ ''/dist''"

text \<open>Up to the change of directory: the checks, the removal of the old output and the build.\<close>

definition prepareApp :: "env \<Rightarrow> shell \<Rightarrow> build_tools \<Rightarrow> string \<Rightarrow> string shprog" where
  "prepareApp E S T appRootPath =
     bindS (readArapp E S appRootPath) (\<lambda>(appFullName, contractPath).
     bindS (liftS (checkAppName appFullName)) (\<lambda>appName.
     bindS (execLine T (''rm -rf '' @ distPath appRootPath)) (\<lambda>_.
     bindS (execLive S ''yarn'' [''build''] (Some (appRootPath @ ''/app'')) None) (\<lambda>_.
     liftS (Inr contractPath)))))"

definition buildAppFrontend :: "env \<Rightarrow> shell \<Rightarrow> build_tools \<Rightarrow> string \<Rightarrow> string \<Rightarrow> build_world \<Rightarrow> unit res \<times> build_world" where
  "buildAppFrontend E S T appsDirPath appDir w =
     (let appRootPath = path_resolve E appsDirPath appDir
      in case prepareApp E S T appRootPath (bd_sw w) of
           (Inl e, sw) \<Rightarrow> (Inl e, w\<lparr>bd_sw := sw\<rparr>)
         | (Inr contractPath, sw) \<Rightarrow>
             (bt_generate T appRootPath (distPath appRootPath) (wrappedRun T contractPath),
              w\<lparr>bd_sw := sw, bd_cwd := appRootPath\<rparr>))"

text \<open>The loop; \<open>finally\<close> goes back to the directory the script was started in.\<close>

fun buildAll :: "env \<Rightarrow> shell \<Rightarrow> build_tools \<Rightarrow> string \<Rightarrow> string \<Rightarrow> string list \<Rightarrow> build_world \<Rightarrow> unit res \<times> build_world" where
  "buildAll E S T cwd appsDirPath [] w = (Inr (), w)"
| "buildAll E S T cwd appsDirPath (appDir # appDirs) w =
     (case buildAppFrontend E S T appsDirPath appDir w of
        (Inl e, w') \<Rightarrow> (Inl e, w'\<lparr>bd_cwd := cwd\<rparr>)
      | (Inr _, w') \<Rightarrow> buildAll E S T cwd appsDirPath appDirs (w'\<lparr>bd_cwd := cwd\<rparr>))"

definition buildAppsFrontend :: "env \<Rightarrow> shell \<Rightarrow> build_tools \<Rightarrow> string \<Rightarrow> string \<Rightarrow> build_world \<Rightarrow> unit res \<times> build_world" where
  "buildAppsFrontend E S T appsDirPath appDirs w =
     (let dir = sh_abs S appsDirPath in buildAll E S T (bd_cwd w) dir (chooseApps S appDirs dir) w)"

section \<open>extract-abi.js\<close>

datatype dirent = DFile string | DDir string "dirent list"

fun getFiles :: "string \<Rightarrow> dirent list \<Rightarrow> string list" where
  "getFiles dir [] = []"
| "getFiles dir (DFile n # ds) = (dir @ ''/'' @ n) # getFiles dir ds"
| "getFiles dir (DDir n sub # ds) = getFiles (dir @ ''/'' @ n) sub @ getFiles dir ds"

text \<open>\<open>.dbg.json\<close> inside the pattern: the point stands for any character of the line.\<close>

fun anyDbg :: "string \<Rightarrow> bool" where
  "anyDbg [] = False"
| "anyDbg (c # cs) \<longleftrightarrow> (c \<notin> {CHR 0x0A, CHR 0x0D} \<and> starts_with ''dbg.json'' cs) \<or> anyDbg cs"

definition skipNames :: "string \<Rightarrow> bool" where
  "skipNames relpath \<longleftrightarrow>
     list_ex (\<lambda>p. contains p relpath)
       [''Mock'', ''test_helpers'', ''Imports'', ''deposit_contract'', ''Pausable'', ''build-info'', ''interfaces''] \<or>
     anyDbg relpath"

definition aragonArtifactPaths :: "string list" where
  "aragonArtifactPaths =
     [''@aragon/apps-finance/contracts/Finance.sol/Finance.json'',
      ''@aragon/apps-token-manager/contracts/TokenManager.sol/TokenManager.json'',
      ''@aragon/apps-vault/contracts/Vault.sol/Vault.json'',
      ''@aragon/apps-voting/contracts/Voting.sol/Voting.json'']"

text \<open>A path below \<open>artifactsPath\<close>, relative to it.\<close>

definition relativeTo :: "string \<Rightarrow> string \<Rightarrow> string" where
  "relativeTo base f = drop (length base + 1) f"

definition selectedArtifacts :: "string \<Rightarrow> dirent list \<Rightarrow> string list" where
  "selectedArtifacts artifactsPath tree =
     filter (\<lambda>p. take 10 p = ''contracts/'')
       (filter (\<lambda>p. \<not> skipNames p) (map (relativeTo artifactsPath) (getFiles artifactsPath tree))) @
     aragonArtifactPaths"

text \<open>The output directory: its entries with their parsed content, \<open>None\<close> for a directory.\<close>

type_synonym abi_dir = "(string \<times> jsval option) list option"

fun unlinkAll :: "(string \<times> jsval option) list \<Rightarrow> unit res \<times> (string \<times> jsval option) list" where
  "unlinkAll [] = (Inr (), [])"
| "unlinkAll ((f, Some v) # es) = unlinkAll es"
| "unlinkAll ((f, None) # es) = (Inl (External ''EISDIR''), (f, None) # es)"

text \<open>What one artifact contributes: a file name and the ABI, when there is one that is not empty.\<close>

definition abiOf :: "jsval \<Rightarrow> (string \<times> jsval) option res" where
  "abiOf artifact =
     bindR (getp artifact ''abi'') (\<lambda>abi.
     if \<not> truthy abi then Inr None
     else bindR (getp abi ''length'') (\<lambda>n.
          if \<not> truthy n then Inr None
          else bindR (getp artifact ''contractName'') (\<lambda>name. Inr (Some (to_str name @ ''.json'', abi)))))"

fun writeABIs :: "(string \<Rightarrow> jsval res) \<Rightarrow> string list \<Rightarrow> (string \<times> jsval option) list \<Rightarrow>
    unit res \<times> (string \<times> jsval option) list" where
  "writeABIs read [] es = (Inr (), es)"
| "writeABIs read (p # ps) es =
     (case bindR (read p) abiOf of
        Inl e \<Rightarrow> (Inl e, es)
      | Inr None \<Rightarrow> writeABIs read ps es
      | Inr (Some (f, abi)) \<Rightarrow> writeABIs read ps (obj_set f (Some abi) es))"

definition extractABIs :: "(string \<Rightarrow> jsval res) \<Rightarrow> string list \<Rightarrow> abi_dir \<Rightarrow> unit res \<times> abi_dir" where
  "extractABIs read artifactPaths dir =
     (case unlinkAll (case dir of None \<Rightarrow> [] | Some es \<Rightarrow> es) of
        (Inl e, es) \<Rightarrow> (Inl e, Some es)
      | (Inr _, _) \<Rightarrow> (case writeABIs read artifactPaths [] of (r, es) \<Rightarrow> (r, Some es)))"

definition exportAbi :: "string \<Rightarrow> dirent list \<Rightarrow> (string \<Rightarrow> jsval res) \<Rightarrow> abi_dir \<Rightarrow> unit res \<times> abi_dir" where
  "exportAbi artifactsPath tree read dir = extractABIs read (selectedArtifacts artifactsPath tree) dir"

section \<open>Lemmas\<close>

subsection \<open>Extraction\<close>

text \<open>The files the artifacts of a list contribute, in its order.\<close>

definition abiEntries :: "(string \<Rightarrow> jsval res) \<Rightarrow> string list \<Rightarrow> (string \<times> jsval option) list" where
  "abiEntries read ps =
     concat (map (\<lambda>p. case bindR (read p) abiOf of Inr (Some (f, abi)) \<Rightarrow> [(f, Some abi)] | _ \<Rightarrow> []) ps)"

lemma writeABIs_fold:
  "writeABIs read ps es = (Inr (), es') \<Longrightarrow>
     es' = fold (\<lambda>(f, v) acc. obj_set f v acc) (abiEntries read ps) es \<and> list_all (\<lambda>p. okR (bindR (read p) abiOf)) ps"
proof (induction ps arbitrary: es)
  case (Cons p ps)
  then show ?case
    by (cases "bindR (read p) abiOf") (auto simp: abiEntries_def split: option.splits prod.splits)
qed (simp add: abiEntries_def)

lemma fold_obj_set:
  "map_of (fold (\<lambda>(k, v) acc. obj_set k v acc) kvs es) = map_of es ++ map_of (rev kvs)"
  "distinct (map fst es) \<Longrightarrow> distinct (map fst (fold (\<lambda>(k, v) acc. obj_set k v acc) kvs es))"
proof (induction kvs arbitrary: es)
  case (Cons kv kvs)
  { case 1 show ?case using Cons.IH(1) [of "obj_set (fst kv) (snd kv) es"]
      by (cases kv) (auto simp: map_add_def fun_eq_iff split: option.splits) }
  { case 2 then show ?case using Cons.IH(2) [of "obj_set (fst kv) (snd kv) es"]
      by (cases kv) (simp add: distinct_obj_set) }
qed simp_all

subsection \<open>Builds\<close>

text \<open>The commands of one build: none before the name is accepted.\<close>

definition buildCommand :: "string \<Rightarrow> command \<Rightarrow> bool" where
  "buildCommand appRoot c \<longleftrightarrow>
     c = \<lparr>cm_name = ''rm -rf '' @ distPath appRoot, cm_args = [], cm_cwd = None, cm_env = None\<rparr> \<or>
     c = \<lparr>cm_name = ''yarn'', cm_args = [''build''], cm_cwd = Some (appRoot @ ''/app''), cm_env = None\<rparr>"

definition acceptedAt :: "env \<Rightarrow> shell \<Rightarrow> string \<Rightarrow> command list \<Rightarrow> bool" where
  "acceptedAt E S appRoot cs =
     okR (bindR (sh_read S cs (path_resolve E appRoot ''arapp.json'')) (\<lambda>arapp.
          bindR (getAppName arapp (network_name E)) checkAppName))"

lemma readArapp_cases:
  obtains e where "readArapp E S appRoot w = (Inl e, w)"
  | name path where "readArapp E S appRoot w = (Inr (name, path), w)"
      and "okR (checkAppName name) \<Longrightarrow> acceptedAt E S appRoot (sw_commands w)"
proof (cases "sh_read S (sw_commands w) (path_resolve E appRoot ''arapp.json'')")
  case (Inl e)
  then show ?thesis
    by (intro that(1)) (simp add: readArapp_def readJSON_def bindS_def looking_def)
next
  case (Inr arapp)
  let ?r = "bindR (getAppName arapp (network_name E)) (\<lambda>appFullName. bindR (getp arapp ''path'') (\<lambda>p. bindR (str_of p)
    (\<lambda>path. Inr (appFullName, path_resolve E appRoot path))))"
  have r: "readArapp E S appRoot w = (?r, w)"
    using Inr by (simp add: readArapp_def readJSON_def bindS_def looking_def liftS_def)
  show ?thesis
  proof (cases ?r)
    case Inl
    with r show ?thesis by (intro that(1)) simp
  next
    case r': (Inr np)
    then have "getAppName arapp (network_name E) = Inr (fst np)" by (auto simp: bindR_eq_Inr)
    with r r' Inr show ?thesis
      by (intro that(2) [of "fst np" "snd np"]) (simp_all add: acceptedAt_def)
  qed
qed

lemma prepareApp_commands:
  "\<exists>xs. sw_commands (snd (prepareApp E S T appRoot w)) = sw_commands w @ xs \<and> list_all (buildCommand appRoot) xs \<and>
     (xs = [] \<or> acceptedAt E S appRoot (sw_commands w))"
proof (rule readArapp_cases [of E S appRoot w])
  fix e assume "readArapp E S appRoot w = (Inl e, w)"
  then show ?thesis by (simp add: prepareApp_def bindS_def)
next
  fix name path
  assume r: "readArapp E S appRoot w = (Inr (name, path), w)"
    and ok: "okR (checkAppName name) \<Longrightarrow> acceptedAt E S appRoot (sw_commands w)"
  show ?thesis
  proof (cases "checkAppName name")
    case (Inl e)
    with r show ?thesis by (simp add: prepareApp_def bindS_def liftS_def)
  next
    case (Inr appName)
    let ?m = "bindS (execLine T (''rm -rf '' @ distPath appRoot)) (\<lambda>_.
      bindS (execLive S ''yarn'' [''build''] (Some (appRoot @ ''/app'')) None) (\<lambda>_. liftS (Inr path)))"
    have "prepareApp E S T appRoot w = ?m w"
      using r Inr by (simp add: prepareApp_def bindS_def liftS_def)
    moreover have "\<exists>xs. sw_commands (snd (?m w)) = sw_commands w @ xs \<and> list_all (buildCommand appRoot) xs"
      by (auto simp: bindS_def execLine_def execLive_def liftS_def Let_def buildCommand_def split: sum.splits)
    ultimately show ?thesis using ok Inr by auto
  qed
qed

text \<open>Which app a command of a whole build belongs to, and when its name was accepted.\<close>

definition builtFor :: "env \<Rightarrow> shell \<Rightarrow> string \<Rightarrow> string list \<Rightarrow> command list \<Rightarrow> command list \<Rightarrow> bool" where
  "builtFor E S dir appDirs hist xs \<longleftrightarrow>
     (\<forall>i<length xs. \<exists>appDir\<in>set appDirs. \<exists>k\<le>i. buildCommand (path_resolve E dir appDir) (xs ! i) \<and>
        acceptedAt E S (path_resolve E dir appDir) (hist @ take k xs))"

lemma builtFor_append:
  assumes "builtFor E S dir ds hist xs" and "builtFor E S dir ds (hist @ xs) ys"
  shows "builtFor E S dir ds hist (xs @ ys)"
  unfolding builtFor_def
proof (intro allI impI)
  fix i assume i: "i < length (xs @ ys)"
  show "\<exists>appDir\<in>set ds. \<exists>k\<le>i. buildCommand (path_resolve E dir appDir) ((xs @ ys) ! i) \<and>
    acceptedAt E S (path_resolve E dir appDir) (hist @ take k (xs @ ys))"
  proof (cases "i < length xs")
    case True
    with assms(1) obtain d k where "d \<in> set ds" "k \<le> i" "buildCommand (path_resolve E dir d) (xs ! i)"
      "acceptedAt E S (path_resolve E dir d) (hist @ take k xs)" unfolding builtFor_def by blast
    with True show ?thesis by (intro bexI [of _ d] exI [of _ k]) (simp_all add: nth_append)
  next
    case False
    with i have "i - length xs < length ys" by simp
    with assms(2) obtain d k where "d \<in> set ds" "k \<le> i - length xs" "buildCommand (path_resolve E dir d) (ys ! (i - length xs))"
      "acceptedAt E S (path_resolve E dir d) ((hist @ xs) @ take k ys)" unfolding builtFor_def by blast
    with False show ?thesis by (intro bexI [of _ d] exI [of _ "length xs + k"]) (simp_all add: nth_append)
  qed
qed

lemma builtFor_mono: "set ds \<subseteq> set es \<Longrightarrow> builtFor E S dir ds hist xs \<Longrightarrow> builtFor E S dir es hist xs"
  unfolding builtFor_def by blast

lemma buildAppFrontend_commands:
  "\<exists>xs. sw_commands (bd_sw (snd (buildAppFrontend E S T dir d w))) = sw_commands (bd_sw w) @ xs \<and>
     builtFor E S dir [d] (sw_commands (bd_sw w)) xs"
proof -
  let ?root = "path_resolve E dir d"
  obtain xs where xs: "sw_commands (snd (prepareApp E S T ?root (bd_sw w))) = sw_commands (bd_sw w) @ xs"
    "list_all (buildCommand ?root) xs" "xs = [] \<or> acceptedAt E S ?root (sw_commands (bd_sw w))"
    using prepareApp_commands by blast
  have "builtFor E S dir [d] (sw_commands (bd_sw w)) xs"
    using xs(2,3) by (auto simp: builtFor_def list_all_length intro!: exI [of _ 0])
  moreover have "bd_sw (snd (buildAppFrontend E S T dir d w)) = snd (prepareApp E S T ?root (bd_sw w))"
    by (auto simp: buildAppFrontend_def Let_def split: prod.splits sum.splits)
  ultimately show ?thesis using xs(1) by auto
qed

lemma buildAll_commands:
  "\<exists>xs. sw_commands (bd_sw (snd (buildAll E S T cwd dir ds w))) = sw_commands (bd_sw w) @ xs \<and>
     builtFor E S dir ds (sw_commands (bd_sw w)) xs"
proof (induction ds arbitrary: w)
  case Nil
  then show ?case by (intro exI [of _ "[]"]) (simp add: builtFor_def)
next
  case (Cons d ds)
  obtain r w1 where b: "buildAppFrontend E S T dir d w = (r, w1)" by fastforce
  obtain xs where xs: "sw_commands (bd_sw w1) = sw_commands (bd_sw w) @ xs" "builtFor E S dir [d] (sw_commands (bd_sw w)) xs"
    using buildAppFrontend_commands [of E S T dir d w] b by auto
  have xs': "builtFor E S dir (d # ds) (sw_commands (bd_sw w)) xs" by (rule builtFor_mono [OF _ xs(2)]) simp
  show ?case
  proof (cases r)
    case (Inl e)
    with b xs(1) xs' show ?thesis by (intro exI [of _ xs]) simp
  next
    case (Inr u)
    obtain ys where ys: "sw_commands (bd_sw (snd (buildAll E S T cwd dir ds (w1\<lparr>bd_cwd := cwd\<rparr>)))) = sw_commands (bd_sw w1) @ ys"
      "builtFor E S dir ds (sw_commands (bd_sw w1)) ys" using Cons.IH [of "w1\<lparr>bd_cwd := cwd\<rparr>"] by auto
    have "builtFor E S dir (d # ds) (sw_commands (bd_sw w1)) ys"
      by (rule builtFor_mono [OF _ ys(2)]) auto
    then have "builtFor E S dir (d # ds) (sw_commands (bd_sw w) @ xs) ys" unfolding xs(1) .
    with xs' have "builtFor E S dir (d # ds) (sw_commands (bd_sw w)) (xs @ ys)" by (rule builtFor_append)
    with b Inr ys(1) xs(1) show ?thesis by (intro exI [of _ "xs @ ys"]) simp
  qed
qed

lemma buildAll_cwd: "bd_cwd w = cwd \<Longrightarrow> bd_cwd (snd (buildAll E S T cwd dir ds w)) = cwd"
  by (induction ds arbitrary: w) (auto split: prod.splits sum.splits)

subsection \<open>The Aragon client\<close>

text \<open>What is read of an app: the dev script of its front end and the hash of its name on mainnet.\<close>

definition devScript :: "env \<Rightarrow> shell \<Rightarrow> string \<Rightarrow> command list \<Rightarrow> string \<Rightarrow> jsval res" where
  "devScript E S dir cs name =
     bindR (sh_read S cs (path_resolve E dir name @ ''/app/package.json'')) (\<lambda>pkg.
     bindR (getp pkg ''scripts'') (\<lambda>scripts. getp scripts ''dev''))"

definition mainnetHash :: "env \<Rightarrow> shell \<Rightarrow> string \<Rightarrow> command list \<Rightarrow> string \<Rightarrow> string res" where
  "mainnetHash E S dir cs name =
     bindR (sh_read S cs (path_resolve E dir name @ ''/arapp.json'')) (\<lambda>arapp.
     bindR (getp arapp ''environments'') (\<lambda>environments.
     bindR (getp environments ''mainnet'') (\<lambda>environ.
     bindR (getp environ ''appName'') (hashName E))))"

lemma appLocation_ok:
  assumes "appLocation E S dir port name w = (Inr (port', loc), w')"
  shows "w' = w \<and> (\<exists>dev h. devScript E S dir (sw_commands w) name = Inr dev \<and> nextPort port dev = Inr port' \<and>
    mainnetHash E S dir (sw_commands w) name = Inr h \<and> loc = locationText h port')"
  using assms
  by (auto simp: appLocation_def Let_def bindS_ok basicS_ok readJSON_def bindR_eq_Inr devScript_def mainnetHash_def)

lemma appLocations_ok:
  "appLocations E S dir port names w = (Inr locs, w') \<Longrightarrow>
   w' = w \<and> length locs = length names \<and> (\<exists>ports. length ports = length names \<and>
     (\<forall>i<length names. \<exists>dev h. devScript E S dir (sw_commands w) (names ! i) = Inr dev \<and>
        nextPort ((port # ports) ! i) dev = Inr (ports ! i) \<and>
        mainnetHash E S dir (sw_commands w) (names ! i) = Inr h \<and> locs ! i = locationText h (ports ! i)))"
proof (induction names arbitrary: port locs w)
  case Nil
  then show ?case by (simp add: liftS_def)
next
  case (Cons name names)
  from Cons.prems obtain port' loc rest w1 where one: "appLocation E S dir port name w = (Inr (port', loc), w1)"
    and rest: "appLocations E S dir port' names w1 = (Inr rest, w')" and locs: "locs = loc # rest"
    by (auto simp: bindS_ok basicS_ok)
  from appLocation_ok [OF one] obtain dev h where w1: "w1 = w" and first: "devScript E S dir (sw_commands w) name = Inr dev"
    "nextPort port dev = Inr port'" "mainnetHash E S dir (sw_commands w) name = Inr h" "loc = locationText h port'"
    by blast
  from Cons.IH [OF rest] obtain ports where ih: "w' = w1" "length rest = length names" "length ports = length names"
    "\<And>i. i < length names \<Longrightarrow> \<exists>dev h. devScript E S dir (sw_commands w) (names ! i) = Inr dev \<and>
        nextPort ((port' # ports) ! i) dev = Inr (ports ! i) \<and>
        mainnetHash E S dir (sw_commands w) (names ! i) = Inr h \<and> rest ! i = locationText h (ports ! i)"
    unfolding w1 by blast
  have "\<exists>dev h. devScript E S dir (sw_commands w) ((name # names) ! i) = Inr dev \<and>
      nextPort ((port # port' # ports) ! i) dev = Inr ((port' # ports) ! i) \<and>
      mainnetHash E S dir (sw_commands w) ((name # names) ! i) = Inr h \<and>
      (loc # rest) ! i = locationText h ((port' # ports) ! i)" if "i < length (name # names)" for i
    using that first ih(4) by (cases i) auto
  with ih(1-3) w1 locs show ?case by (intro conjI exI [of _ "port' # ports"]) auto
qed

lemma portAt_Some:
  assumes "portAt s = Some d"
  shows "\<exists>sp rest. s = ''--port'' @ sp @ d @ rest \<and> sp \<noteq> [] \<and> list_all is_space sp \<and> d \<noteq> [] \<and> list_all is_digit d"
proof -
  let ?r = "drop 6 s"
  let ?t = "dropWhile is_space ?r"
  from assms have d: "d = takeWhile is_digit ?t" "d \<noteq> []" "starts_with ''--port'' s" "?r \<noteq> []" "is_space (hd ?r)"
    by (auto simp: portAt_def Let_def split: if_splits)
  have "s = take 6 s @ takeWhile is_space ?r @ d @ dropWhile is_digit ?t"
    unfolding d(1) by simp
  moreover have "take 6 s = ''--port''" using d(3) by (simp add: starts_with_def eval_nat_numeral)
  moreover have "takeWhile is_space ?r \<noteq> []" using d(4,5) by (cases ?r) auto
  moreover have "list_all is_space (takeWhile is_space ?r)" "list_all is_digit d"
    unfolding d(1) by (auto simp: list_all_iff dest: set_takeWhileD)
  ultimately show ?thesis using d(2) by metis
qed

lemma matchPort_Some:
  "matchPort s = Some d \<Longrightarrow> \<exists>before sp rest. s = before @ ''--port'' @ sp @ d @ rest \<and> sp \<noteq> [] \<and>
     list_all is_space sp \<and> d \<noteq> [] \<and> list_all is_digit d"
proof (induction s)
  case (Cons c cs)
  show ?case
  proof (cases "portAt (c # cs)")
    case None
    with Cons obtain before sp rest where "cs = before @ ''--port'' @ sp @ d @ rest \<and> sp \<noteq> [] \<and>
      list_all is_space sp \<and> d \<noteq> [] \<and> list_all is_digit d" by auto
    then show ?thesis by (intro exI [of _ "c # before"] exI [of _ sp] exI [of _ rest]) auto
  next
    case (Some d')
    with Cons.prems portAt_Some [OF Some] show ?thesis by (metis append_Nil matchPort.simps(2) option.inject option.simps(5))
  qed
qed simp

section \<open>Properties\<close>

text \<open>
  a successful extraction leaves in lib/abi exactly one file per contract of the selected
  artifacts that has an ABI, holding the ABI of the last such artifact, whatever was there before.
\<close>

theorem extracted_abis_exact:
  assumes "exportAbi artifactsPath tree read dir = (Inr (), dir')"
  shows "\<exists>es. dir' = Some es \<and> distinct (map fst es) \<and>
    map_of es = map_of (rev (abiEntries read (selectedArtifacts artifactsPath tree))) \<and>
    list_all (\<lambda>p. okR (bindR (read p) abiOf)) (selectedArtifacts artifactsPath tree)"
proof -
  from assms obtain es where es: "writeABIs read (selectedArtifacts artifactsPath tree) [] = (Inr (), es)" "dir' = Some es"
    by (auto simp: exportAbi_def extractABIs_def split: prod.splits sum.splits)
  let ?entries = "abiEntries read (selectedArtifacts artifactsPath tree)"
  have "map_of es = map_of (rev ?entries)" and "distinct (map fst es)"
    using writeABIs_fold [OF es(1)] fold_obj_set(1) [of ?entries "[]"] fold_obj_set(2) [where es = "[]" and kvs = ?entries]
    by simp_all
  with writeABIs_fold [OF es(1)] es(2) show ?thesis by blast
qed

definition sample_artifacts :: "string \<Rightarrow> jsval res" where
  "sample_artifacts p =
     (if p = ''contracts/Lido.sol/Lido.json'' then Inr (JObj [(''contractName'', JStr ''Lido''), (''abi'', JArr [JStr ''submit''])])
      else if p \<in> set aragonArtifactPaths then Inr (JObj [(''contractName'', JStr ''Vault''), (''abi'', JArr [])])
      else Inl (External ''ENOENT''))"

theorem extracted_abis_exact_witness:
  "\<exists>es. exportAbi ''a'' [DDir ''contracts'' [DDir ''Lido.sol'' [DFile ''Lido.json'', DFile ''Lido.dbg.json'']],
       DDir ''build-info'' [DFile ''x.json'']] sample_artifacts (Some [(''Old.json'', Some JNull)]) = (Inr (), Some es) \<and>
     map_of es ''Lido.json'' = Some (Some (JArr [JStr ''submit''])) \<and> map_of es ''Old.json'' = None"
proof -
  let ?tree = "[DDir ''contracts'' [DDir ''Lido.sol'' [DFile ''Lido.json'', DFile ''Lido.dbg.json'']],
       DDir ''build-info'' [DFile ''x.json'']]"
  let ?dir' = "Some [(''Lido.json'', Some (JArr [JStr ''submit'']))]"
  have run: "exportAbi ''a'' ?tree sample_artifacts (Some [(''Old.json'', Some JNull)]) = (Inr (), ?dir')" by code_simp
  have old: "map_of (rev (abiEntries sample_artifacts (selectedArtifacts ''a'' ?tree))) ''Old.json'' = None" by code_simp
  have new: "map_of (rev (abiEntries sample_artifacts (selectedArtifacts ''a'' ?tree))) ''Lido.json'' =
      Some (Some (JArr [JStr ''submit'']))" by code_simp
  from extracted_abis_exact [OF run] obtain es where es: "?dir' = Some es"
    "map_of es = map_of (rev (abiEntries sample_artifacts (selectedArtifacts ''a'' ?tree)))" by blast
  show ?thesis unfolding run
    by (intro exI [of _ es] conjI) (simp_all only: es old new)
qed

text \<open>
  building the front ends ends in the directory it was started in, whether it succeeds or not,
  and each command it runs removes the output of, or builds, a listed app whose name had been
  accepted before that command.
\<close>

theorem build_touches_accepted_apps:
  "bd_cwd (snd (buildAppsFrontend E S T appsDirPath appDirs w)) = bd_cwd w \<and>
   (\<exists>xs. sw_commands (bd_sw (snd (buildAppsFrontend E S T appsDirPath appDirs w))) = sw_commands (bd_sw w) @ xs \<and>
      builtFor E S (sh_abs S appsDirPath) (chooseApps S appDirs (sh_abs S appsDirPath)) (sw_commands (bd_sw w)) xs)"
  unfolding buildAppsFrontend_def Let_def
  by (intro conjI buildAll_commands buildAll_cwd) simp

text \<open>
  when the local Aragon client is started, its last command gets a locator with one entry per
  app, in order, each the hash of the app's mainnet name with the port its dev script declares or else one
  more than the port of the app before it (the first one 3001).
\<close>

theorem start_aragon_locator:
  assumes "startAragonClient E S stat gitRef dir appNames runCmd w = (Inr (), w')"
    and "fileExists stat (''deployed-'' @ to_str (envOr S ''NETWORK_NAME'' (JStr ''localhost'')) @ ''.json'') False"
    and "\<not> truthy (obj_get (sh_process_env S) ''ARAGON_APP_LOCATOR'')"
  shows "\<exists>cs environ locs ports. sw_commands w' = cs @
      [\<lparr>cm_name = ''yarn'', cm_args = [''start:'' @ runCmd], cm_cwd = Some appsRepoPath, cm_env = Some environ\<rparr>] \<and>
    runCmd \<in> set AVAILIABLE_RUN_CMDS \<and>
    obj_get environ ''ARAGON_APP_LOCATOR'' = JStr (join_with '','' locs) \<and>
    length locs = length (chooseApps S appNames dir) \<and> length ports = length locs \<and>
    (\<forall>i<length locs. \<exists>dev h. mainnetHash E S dir cs (chooseApps S appNames dir ! i) = Inr h \<and>
       devScript E S dir cs (chooseApps S appNames dir ! i) = Inr dev \<and>
       locs ! i = h @ '':http://localhost:'' @ to_str (ports ! i) @ ''/'' \<and>
       ports ! i = (case dev of JStr s \<Rightarrow> (case matchPort s of Some d \<Rightarrow> JStr d
                      | None \<Rightarrow> JNum (js_add (to_num ((JInt 3000 # ports) ! i)) (Fin 1)))
                    | _ \<Rightarrow> JNum (js_add (to_num ((JInt 3000 # ports) ! i)) (Fin 1))))"
proof -
  let ?apps = "chooseApps S appNames dir"
  from assms(1,2) obtain ensAddress locs w1 where cmd: "assertRequiredRunCmd runCmd AVAILIABLE_RUN_CMDS = Inr ()"
    and locs: "appLocations E S dir (JInt 3000) ?apps w1 = (Inr locs, w1)"
    and run: "execLive S ''yarn'' [''start:'' @ runCmd] (Some appsRepoPath) (Some (aragonEnv S runCmd ensAddress locs)) w1 = (Inr (), w')"
    unfolding startAragonClient_def Let_def
    by (auto simp: bindS_ok basicS_ok dest: appLocations_ok)
  from appLocations_ok [OF locs] obtain ports where ports: "length locs = length ?apps" "length ports = length ?apps"
    "\<And>i. i < length ?apps \<Longrightarrow> \<exists>dev h. devScript E S dir (sw_commands w1) (?apps ! i) = Inr dev \<and>
        nextPort ((JInt 3000 # ports) ! i) dev = Inr (ports ! i) \<and>
        mainnetHash E S dir (sw_commands w1) (?apps ! i) = Inr h \<and> locs ! i = locationText h (ports ! i)"
    by blast
  have next_port: "p = (case dev of JStr s \<Rightarrow> (case matchPort s of Some d \<Rightarrow> JStr d | None \<Rightarrow> JNum (js_add (to_num before) (Fin 1)))
      | _ \<Rightarrow> JNum (js_add (to_num before) (Fin 1)))" if "nextPort before dev = Inr p" for before dev p
    using that by (cases dev) (auto simp: nextPort_def Let_def split: if_splits option.splits)
  have env: "obj_get (aragonEnv S runCmd ensAddress locs) ''ARAGON_APP_LOCATOR'' = JStr (join_with '','' locs)"
    using assms(3) by (simp add: aragonEnv_def obj_assign_def envOr_def)
  have cmd': "runCmd \<in> set AVAILIABLE_RUN_CMDS"
    using cmd by (auto simp: assertRequiredRunCmd_def filter_empty_conv split: if_splits)
  show ?thesis
    using run [unfolded execLive_ok] ports env cmd' next_port
    by (intro exI [of _ "sw_commands w1"] exI [of _ "aragonEnv S runCmd ensAddress locs"] exI [of _ locs] exI [of _ ports])
      (fastforce simp: locationText_def)
qed

text \<open>The dev scripts of two front ends: one declares its port.\<close>

definition aragon_shell :: shell where
  "aragon_shell = sample_shell\<lparr>sh_process_env := [], sh_readdir := (\<lambda>_. [''lido'', ''other'']),
     sh_read := (\<lambda>_ p. if p = ''apps/lido/app/package.json''
       then Inr (JObj [(''scripts'', JObj [(''dev'', JStr ''yarn serve -- --port 3010'')])])
       else if p = ''apps/other/app/package.json'' then Inr (JObj [(''scripts'', JObj [])])
       else Inr (JObj [(''environments'', JObj [(''mainnet'', JObj [(''appName'', JStr ''n.lidopm.eth'')])])]))\<rparr>"

theorem start_aragon_locator_witness:
  "\<exists>w' cs c environ. startAragonClient offline_env aragon_shell (\<lambda>_. Some False) ''master'' ''apps'' ''*'' ''local'' apps_world = (Inr (), w') \<and>
     sw_commands w' = cs @ [c] \<and> cm_env c = Some environ \<and>
     (\<exists>a b. obj_get environ ''ARAGON_APP_LOCATOR'' = JStr (join_with '','' [a, b]))"
proof -
  have e: "path_resolve offline_env d f = d @ ''/'' @ f" "name_hash offline_env x = x" for d f x by (simp_all add: offline_env_def)
  have k: "sh_exit aragon_shell h c = Some 0" "sh_readdir aragon_shell d = [''lido'', ''other'']" "sh_is_dir aragon_shell h d"
    "sh_abs aragon_shell d = d" "sh_process_env aragon_shell = []" for h c d
    by (simp_all add: aragon_shell_def sample_shell_def)
  have r: "sh_read aragon_shell h ''apps/lido/app/package.json'' = Inr (JObj [(''scripts'', JObj [(''dev'', JStr ''yarn serve -- --port 3010'')])])"
    "sh_read aragon_shell h ''apps/other/app/package.json'' = Inr (JObj [(''scripts'', JObj [])])"
    "sh_read aragon_shell h ''apps/lido/arapp.json'' = Inr (JObj [(''environments'', JObj [(''mainnet'', JObj [(''appName'', JStr ''n.lidopm.eth'')])])])"
    "sh_read aragon_shell h ''apps/other/arapp.json'' = Inr (JObj [(''environments'', JObj [(''mainnet'', JObj [(''appName'', JStr ''n.lidopm.eth'')])])])"
    "sh_read aragon_shell h ''deployed-localhost.json'' = Inr (JObj [(''environments'', JObj [(''mainnet'', JObj [(''appName'', JStr ''n.lidopm.eth'')])])])"
    for h by (simp_all add: aragon_shell_def)
  have m: "matchPort ''yarn serve -- --port 3010'' = Some ''3010''" by code_simp
  have c: "assertRequiredRunCmd ''local'' AVAILIABLE_RUN_CMDS = Inr ()" by code_simp
  obtain w' where run: "startAragonClient offline_env aragon_shell (\<lambda>_. Some False) ''master'' ''apps'' ''*'' ''local'' apps_world = (Inr (), w')"
    by (simp add: startAragonClient_def c bindS_def liftS_def fileExists_def envOr_def k readJSON_def looking_def r deployedEns_def
        gitCloneRepo_def execLive_def chooseApps_def appLocation_def e nextPort_def m hashName_def Let_def)
  have f: "fileExists (\<lambda>_. Some False) (''deployed-'' @ to_str (envOr aragon_shell ''NETWORK_NAME'' (JStr ''localhost'')) @ ''.json'') False"
    by (simp add: fileExists_def)
  have o: "\<not> truthy (obj_get (sh_process_env aragon_shell) ''ARAGON_APP_LOCATOR'')" by (simp add: k)
  have apps: "chooseApps aragon_shell ''*'' ''apps'' = [''lido'', ''other'']" by (simp add: chooseApps_def k)
  have n: "length [''lido'', ''other''] = 2" by simp
  from start_aragon_locator [OF run f o, unfolded apps n] obtain cs environ locs where l: "length locs = 2"
    "sw_commands w' = cs @ [\<lparr>cm_name = ''yarn'', cm_args = [''start:'' @ ''local''], cm_cwd = Some appsRepoPath, cm_env = Some environ\<rparr>]"
    "obj_get environ ''ARAGON_APP_LOCATOR'' = JStr (join_with '','' locs)" by blast
  from l(1) obtain a b where "locs = [a, b]" by (auto simp: numeral_2_eq_2 length_Suc_conv)
  with run l(2,3) show ?thesis by fastforce
qed

end
