(* ===== verification/ConfigScripts.thy ===== *)
theory ConfigScripts
  imports DeployApps AppStores LibTools Calendar
begin

text \<open>
  The Hardhat configuration (hardhat.config.js, hardhat.config.aragon-apps.js and the one of each
  front end), scripts/helpers/run-or-wrap-script.js, which turns a script's outcome into an exit code,
  the vesting report scripts/multisig/print-vesting.js, and the two scripts of gasprofile that prepare a
  node's accounts.  A configuration is the object the module exports; reading a file is a parameter.
\<close>

section \<open>hardhat.config.js\<close>

text \<open>The argument after the first occurrence of a flag.\<close>

fun argAfter :: "string \<Rightarrow> string list \<Rightarrow> string option" where
  "argAfter flag [] = None"
| "argAfter flag [x] = None"
| "argAfter flag (x # y # xs) = (if x = flag then Some y else argAfter flag (y # xs))"

definition getNetworkName :: "props \<Rightarrow> string list \<Rightarrow> string" where
  "getNetworkName environ argv =
     (let hardhat = obj_get environ ''HARDHAT_NETWORK''; name = obj_get environ ''NETWORK_NAME''
      in if truthy hardhat then to_str hardhat
         else case argAfter ''--network'' argv of
                Some n \<Rightarrow> n
              | None \<Rightarrow> (if truthy name then to_str name else ''hardhat''))"

text \<open>\<open>files\<close> maps a file name to its text, \<open>None\<close> when it cannot be read.\<close>

definition readJson :: "(string \<Rightarrow> fcontent option) \<Rightarrow> string \<Rightarrow> jsval res" where
  "readJson files fileName =
     (case files fileName of None \<Rightarrow> Inr JNull | Some (JsonText v) \<Rightarrow> Inr v
      | Some (BadText s) \<Rightarrow> Inl (External ''SyntaxError''))"

text \<open>\<open>a || b\<close>\<close>

definition orElse :: "jsval \<Rightarrow> jsval \<Rightarrow> jsval" where
  "orElse a b = (if truthy a then a else b)"

definition readAccounts :: "(string \<Rightarrow> fcontent option) \<Rightarrow> jsval res" where
  "readAccounts files =
     bindR (readJson files ''./accounts.json'') (\<lambda>v. Inr (orElse v (JObj
       [(''eth'', JObj [(''dev'', JStr ''remote'')]), (''etherscan'', JObj [(''apiKey'', JUndef)]),
        (''infura'', JObj [(''projectId'', JUndef)]),
        (''infura_ipfs'', JObj [(''projectId'', JUndef), (''projectSecret'', JUndef)])])))"

text \<open>Which key of the accounts a network signs with.\<close>

definition chosenAccounts :: "jsval \<Rightarrow> string \<Rightarrow> jsval \<Rightarrow> jsval" where
  "chosenAccounts ethAccts networkName ethAccountName =
     (let acct = \<lambda>k. obj_get (own_props ethAccts) k
      in if ethAccountName = JStr ''remote'' then JStr ''remote''
         else orElse (acct (to_str ethAccountName)) (orElse (acct networkName) (orElse (acct ''dev'') (JStr ''remote''))))"

text \<open>The table of all networks, built in full whatever network is asked for.\<close>

definition byNetName :: "jsval \<Rightarrow> jsval \<Rightarrow> jsval \<Rightarrow> props" where
  "byNetName accts ensAddress projectId =
     (let base = [(''accounts'', accts), (''ensAddress'', ensAddress), (''timeout'', JInt 60000)];
          infura = \<lambda>net chainId. JObj (obj_assign base
            [(''url'', JStr (''https://'' @ net @ ''.infura.io/v3/'' @ to_str projectId)), (''chainId'', JInt chainId),
             (''timeout'', JInt 600000)])
      in [(''localhost'', JObj (obj_assign base
             [(''url'', JStr ''http://localhost:8545''), (''chainId'', JInt 31337), (''gas'', JInt 8000000)])),
          (''local'', JObj (obj_assign base
             [(''accounts'', JObj [(''mnemonic'', JStr ''explain tackle mirror kit van hammer degree position ginger unfair soup bonus'')]),
              (''url'', JStr ''http://localhost:8545''), (''chainId'', JInt 1337)])),
          (''hardhat'', JObj
             [(''blockGasLimit'', JInt 20000000), (''gasPrice'', JInt 0), (''initialBaseFeePerGas'', JInt 0),
              (''allowUnlimitedContractSize'', JBool True),
              (''accounts'', JObj [(''mnemonic'', JStr ''hardhat''), (''count'', JInt 20),
                 (''accountsBalance'', JStr ''100000000000000000000000''), (''gasPrice'', JInt 0)])]),
          (''goerli-pyrmont'', JObj (obj_assign base [(''url'', JStr ''http://206.81.31.11/rpc''), (''chainId'', JInt 5)])),
          (''rinkeby'', infura ''rinkeby'' 4), (''goerli'', infura ''goerli'' 5), (''mainnet-test'', infura ''mainnet'' 1),
          (''mainnet'', infura ''mainnet'' 1),
          (''fork'', JObj (obj_assign base
             [(''chainId'', JInt 1), (''timeout'', JInt 600000),
              (''forking'', JObj [(''url'', JStr (''https://mainnet.infura.io/v3/'' @ to_str projectId))])]))])"

definition getNetConfig :: "(string \<Rightarrow> fcontent option) \<Rightarrow> jsval \<Rightarrow> string \<Rightarrow> jsval \<Rightarrow> props res" where
  "getNetConfig files accounts networkName ethAccountName =
     bindR (readJson files (''./deployed-'' @ networkName @ ''.json'')) (\<lambda>netState.
     bindR (getp accounts ''eth'') (\<lambda>eth.
     bindR (getp accounts ''infura'') (\<lambda>infura.
     bindR (getp infura ''projectId'') (\<lambda>projectId.
     let nets = byNetName (chosenAccounts (orElse eth (JObj [])) networkName ethAccountName)
                  (obj_get (own_props (orElse netState (JObj []))) ''ensAddress'') projectId;
         netConfig = obj_get nets networkName
     in Inr (if truthy netConfig then [(networkName, netConfig)] else [])))))"

definition optimizer :: "int \<Rightarrow> jsval" where
  "optimizer runs = JObj [(''enabled'', JBool True), (''runs'', JInt runs)]"

definition solcSettings :: "string \<Rightarrow> jsval" where
  "solcSettings evmVersion = JObj [(''optimizer'', optimizer 200), (''evmVersion'', JStr evmVersion)]"

definition compiler :: "string \<Rightarrow> string \<Rightarrow> jsval" where
  "compiler version evmVersion = JObj [(''version'', JStr version), (''settings'', solcSettings evmVersion)]"

definition solidityConfig :: jsval where
  "solidityConfig = JObj
     [(''compilers'', JArr [compiler ''0.4.24'' ''constantinople'', compiler ''0.6.11'' ''istanbul'',
         compiler ''0.6.12'' ''istanbul'', compiler ''0.8.9'' ''istanbul'']),
      (''overrides'', JObj [(''contracts/0.6.11/deposit_contract.sol'',
         JObj [(''version'', JStr ''0.6.11''), (''settings'', JObj [(''optimizer'', optimizer 5000000)])])])]"

definition hardhatConfig :: "(string \<Rightarrow> fcontent option) \<Rightarrow> props \<Rightarrow> string list \<Rightarrow> props res" where
  "hardhatConfig files environ argv =
     (let networkName = getNetworkName environ argv; env = obj_get environ;
          api = orElse (env ''IPFS_API_URL'') (JStr ''https://ipfs.infura.io:5001/api/v0'');
          gateway = orElse (env ''IPFS_GATEWAY_URL'') (JStr ''https://ipfs.io/'')
      in bindR (readAccounts files) (\<lambda>accounts.
         bindR (getNetConfig files accounts networkName (env ''ETH_ACCOUNT_NAME'')) (\<lambda>networks.
         bindR (getp accounts ''etherscan'') (\<lambda>etherscan.
         Inr [(''defaultNetwork'', JStr networkName), (''networks'', JObj networks), (''solidity'', solidityConfig),
              (''gasReporter'', JObj [(''enabled'', JBool (truthy (env ''REPORT_GAS''))), (''currency'', JStr ''USD'')]),
              (''etherscan'', etherscan),
              (''aragon'', JObj [(''ipfsApi'', api), (''ipfsGateway'', gateway)]),
              (''ipfs'', JObj [(''url'', api), (''gateway'', gateway),
                 (''pinata'', JObj [(''key'', JStr ''YOUR_PINATA_API_KEY''), (''secret'', JStr ''YOUR_PINATA_API_SECRET_KEY'')])])]))))"

text \<open>hardhat.config.aragon-apps.js, with the front end a child process is told to build.\<close>

definition aragonAppsConfig :: "props \<Rightarrow> props \<Rightarrow> props" where
  "aragonAppsConfig environ baseConfig =
     (let path = obj_get environ ''APP_FRONTEND_PATH'';
          aragonConfig = (if truthy path
            then [(''appSrcPath'', path), (''appBuildOutputPath'', obj_get environ ''APP_FRONTEND_DIST_PATH'')] else [])
      in obj_assign baseConfig
           [(''aragon'', JObj (obj_assign (own_props (obj_get baseConfig ''aragon'')) aragonConfig))])"

text \<open>apps/*/hardhat.config.js: the front end's name, port and hooks.\<close>

definition appConfig :: "string \<Rightarrow> int \<Rightarrow> jsval \<Rightarrow> props \<Rightarrow> props \<Rightarrow> props" where
  "appConfig appName appServePort hooks environ baseConfig =
     obj_assign baseConfig
       [(''paths'', JObj (obj_assign (own_props (obj_get baseConfig ''paths'')) [(''root'', JStr ''../..'')])),
        (''defaultNetwork'', orElse (obj_get environ ''NETWORK_NAME'') (JStr ''localhost'')),
        (''aragon'', JObj (obj_assign (own_props (obj_get baseConfig ''aragon''))
           [(''appServePort'', JInt appServePort), (''clientServePort'', JInt 3000),
            (''appSrcPath'', JStr (''apps/'' @ appName @ ''/app/'')), (''appBuildOutputPath'', JStr (''apps/'' @ appName @ ''/dist/'')),
            (''appName'', JStr appName), (''hooks'', hooks)]))]"

definition lidoAppConfig :: "jsval \<Rightarrow> props \<Rightarrow> props \<Rightarrow> props" where
  "lidoAppConfig = appConfig ''lido'' 3010"

definition oracleAppConfig :: "jsval \<Rightarrow> props \<Rightarrow> props \<Rightarrow> props" where
  "oracleAppConfig = appConfig ''lidooracle'' 3011"

definition registryAppConfig :: "jsval \<Rightarrow> props \<Rightarrow> props \<Rightarrow> props" where
  "registryAppConfig = appConfig ''node-operators-registry'' 3013"

section \<open>helpers/run-or-wrap-script.js\<close>

text \<open>Who loads the script's module: Node itself, Truffle with a callback, or other code with options.\<close>

datatype loader = MainModule | Truffle | Required

datatype ending = Exit int | Callback "jserr option" | Promise "unit res"

definition runOrWrap :: "bool \<Rightarrow> loader \<Rightarrow> unit prog \<Rightarrow> world \<Rightarrow> ending \<times> world" where
  "runOrWrap globals how scriptFn w =
     (if how \<noteq> Required \<and> \<not> globals then (Exit 1, w)
      else case scriptFn w of (r, w') \<Rightarrow>
        (case how of
           MainModule \<Rightarrow> Exit (case r of Inr _ \<Rightarrow> 0 | Inl _ \<Rightarrow> 2)
         | Truffle \<Rightarrow> Callback (case r of Inr _ \<Rightarrow> None | Inl e \<Rightarrow> Some e)
         | Required \<Rightarrow> Promise r, w'))"

section \<open>print-vesting.js\<close>

text \<open>
  \<open>pairs.sort((pa, pb) => new BN(pa[1]).lt(new BN(pb[1])) ? 1 : -1)\<close>.  The comparison never answers 0, so
  the order of holders with equal amounts is the engine's choice: \<open>sorting\<close> is the engine's \<open>sort\<close>, of
  which \<open>js_sort\<close> states what the language promises.  A sort returns the elements it was given, and
  where the comparison puts different elements into one order, it returns them in this order; like every engine,
  it does not compare an element with itself.
\<close>

definition vestingCompare :: "env \<Rightarrow> string \<times> jsval \<Rightarrow> string \<times> jsval \<Rightarrow> int res" where
  "vestingCompare E pa pb =
     bindR (bn_new E (snd pa)) (\<lambda>a. bindR (bn_new E (snd pb)) (\<lambda>b. Inr (if a < b then 1 else - 1)))"

definition precedes :: "('a \<Rightarrow> 'a \<Rightarrow> int res) \<Rightarrow> 'a \<Rightarrow> 'a \<Rightarrow> bool" where
  "precedes cmp x y \<longleftrightarrow> (case cmp x y of Inr c \<Rightarrow> c < 0 | Inl _ \<Rightarrow> False)"

definition orders :: "('a \<Rightarrow> 'a \<Rightarrow> int res) \<Rightarrow> 'a list \<Rightarrow> bool" where
  "orders cmp xs \<longleftrightarrow> distinct xs \<and>
     list_all (\<lambda>x. list_all (\<lambda>y. x = y \<or> okR (cmp x y) \<and> precedes cmp x y \<noteq> precedes cmp y x) xs) xs \<and>
     list_all (\<lambda>x. list_all (\<lambda>y. list_all (\<lambda>z.
       precedes cmp x y \<and> precedes cmp y z \<longrightarrow> x = y \<or> y = z \<or> precedes cmp x z) xs) xs) xs"

definition js_sort :: "(('a \<Rightarrow> 'a \<Rightarrow> int res) \<Rightarrow> 'a list \<Rightarrow> 'a list res) \<Rightarrow> bool" where
  "js_sort sorting \<longleftrightarrow> (\<forall>cmp xs ys. sorting cmp xs = Inr ys \<longrightarrow>
     mset ys = mset xs \<and> (orders cmp xs \<longrightarrow> sorted_wrt (precedes cmp) ys))"

fun bigSum :: "env \<Rightarrow> jsval list \<Rightarrow> int \<Rightarrow> int res" where
  "bigSum E [] acc = Inr acc"
| "bigSum E (amount # amounts) acc = bindR (bn_new E amount) (\<lambda>a. bigSum E amounts (acc + a))"

definition percentOf :: "env \<Rightarrow> jsval \<Rightarrow> int \<Rightarrow> jnum res" where
  "percentOf E amount totalSupply =
     bindR (bn_new E amount) (\<lambda>a.
     if totalSupply = 0 then Inl (Error ''Assertion failed'')
     else Inr (js_div (to_num (JBN (bn_div (a * 10000) totalSupply))) (Fin 100)))"

record vesting_row =
  vr_holder :: string
  vr_amount :: string
  vr_percent :: jnum

record vesting_report =
  vt_dates :: "string list"
  vt_revokable :: jsval
  vt_rows :: "vesting_row list"
  vt_unvested :: string
  vt_unvestedPercent :: jnum
  vt_total :: string

definition vestingRow :: "env \<Rightarrow> (jsval \<Rightarrow> string \<Rightarrow> string res) \<Rightarrow> int \<Rightarrow> string \<times> jsval \<Rightarrow> vesting_row res" where
  "vestingRow E fromWei totalSupply p =
     bindR (percentOf E (snd p) totalSupply) (\<lambda>percentage.
     bindR (fromWei (snd p) ''ether'') (\<lambda>text.
     Inr \<lparr>vr_holder = fst p, vr_amount = text, vr_percent = percentage\<rparr>))"

definition vestingReport :: "env \<Rightarrow> (jsval \<Rightarrow> string \<Rightarrow> string res) \<Rightarrow> jsval \<Rightarrow> props \<Rightarrow> vesting_report res" where
  "vestingReport E fromWei vesting order =
     bindR (getp vesting ''unvestedTokensAmount'') (\<lambda>unvested.
     bindR (bn_new E unvested) (\<lambda>u.
     bindR (bigSum E (map snd order) u) (\<lambda>totalSupply.
     bindR (mapR (vestingRow E fromWei totalSupply) order) (\<lambda>rows.
     bindR (percentOf E unvested totalSupply) (\<lambda>unvestedPercentage.
     bindR (fromWei unvested ''wei'') (\<lambda>unvestedText.
     bindR (fromWei (JStr (dec_int totalSupply)) ''ether'') (\<lambda>totalText.
     let f = \<lambda>k. obj_get (own_props vesting) k
     in Inr \<lparr>vt_dates = map (\<lambda>k. formatDate (f k)) [''start'', ''cliff'', ''end''], vt_revokable = f ''revokable'',
             vt_rows = rows, vt_unvested = unvestedText, vt_unvestedPercent = unvestedPercentage,
             vt_total = totalText\<rparr>)))))))"

definition printVesting ::
  "env \<Rightarrow> (jsval \<Rightarrow> string \<Rightarrow> string res) \<Rightarrow>
   ((string \<times> jsval \<Rightarrow> string \<times> jsval \<Rightarrow> int res) \<Rightarrow> props \<Rightarrow> props res) \<Rightarrow> vesting_report prog" where
  "printVesting E fromWei sorting =
     bindP (requireState E [''vestingParams'']) (\<lambda>state.
     let vesting = obj_get state ''vestingParams''
     in bindP (liftP (getp vesting ''holders'')) (\<lambda>holders.
        bindP (if not_nullish holders then returnP () else liftP (Inl TypeError)) (\<lambda>_.
        bindP (liftP (sorting (vestingCompare E) (own_props holders))) (\<lambda>pairs.
        liftP (vestingReport E fromWei vesting pairs)))))"

section \<open>gasprofile/fund-accounts.js and populate-geth.js\<close>

datatype node_call = Send jsval jsval jsval | NewAccount string | Unlock jsval string

text \<open>\<open>xs[i]\<close>\<close>

definition item :: "string list \<Rightarrow> nat \<Rightarrow> jsval" where
  "item xs i = (if i < length xs then JStr (xs ! i) else JUndef)"

text \<open>10000 ether, converted by web3, to each account from the node's first one.\<close>

definition fundAccounts :: "jsval \<Rightarrow> string list \<Rightarrow> string list \<Rightarrow> node_call list" where
  "fundAccounts tenThousand nodeAccounts accounts =
     map (\<lambda>account. Send (item nodeAccounts 0) (JStr account) tenThousand) accounts"

text \<open>The arguments of the command line; without the second one the script stops at once.\<close>

definition fundAccountsMain :: "jsval \<Rightarrow> (string \<Rightarrow> string list) \<Rightarrow> string list \<Rightarrow> node_call list res" where
  "fundAccountsMain tenThousand nodeAccounts argv =
     (let endpoint = (if item argv 2 = JUndef \<or> item argv 2 = JStr [] then ''http://localhost:8545'' else argv ! 2)
      in if item argv 3 = JUndef then Inl TypeError
         else Inr (fundAccounts tenThousand (nodeAccounts endpoint) (split_on (CHR '','') (argv ! 3))))"

text \<open>\<open>created\<close> is the address the node answers for a new account with this password.\<close>

definition populateStep :: "jsval \<Rightarrow> (string \<Rightarrow> string) \<Rightarrow> string list \<Rightarrow> nat \<Rightarrow> node_call list" where
  "populateStep tenThousand created accounts i =
     (let needsCreating = length accounts \<le> i; passwd = dec_int (int i - 1);
          account = (if needsCreating then JStr (created passwd) else item accounts i)
      in (if needsCreating then [NewAccount passwd] else []) @ [Unlock account passwd] @
         (if needsCreating then [Send (item accounts 0) account tenThousand] else []))"

definition createAccounts :: "jsval \<Rightarrow> (string \<Rightarrow> string) \<Rightarrow> string list \<Rightarrow> jnum \<Rightarrow> node_call list" where
  "createAccounts tenThousand created accounts numAccounts =
     concat (map (populateStep tenThousand created accounts) [1..<loop_count numAccounts])"

section \<open>Lemmas\<close>

lemma byNetName_keys:
  "map fst (byNetName a e p) = [''localhost'', ''local'', ''hardhat'', ''goerli-pyrmont'', ''rinkeby'', ''goerli'',
     ''mainnet-test'', ''mainnet'', ''fork'']"
  by (simp add: byNetName_def Let_def)

definition configured :: "string list" where
  "configured = [''localhost'', ''local'', ''hardhat'', ''goerli-pyrmont'', ''rinkeby'', ''goerli'', ''mainnet-test'', ''mainnet'', ''fork'']"

lemma byNetName_objects: "list_all (\<lambda>(k, v). truthy v) (byNetName a e p)"
  by (simp add: byNetName_def Let_def)

lemma truthy_byNetName: "truthy (obj_get (byNetName a e p) n) \<longleftrightarrow> n \<in> set configured"
proof (cases "map_of (byNetName a e p) n")
  case None
  then have "n \<notin> fst ` set (byNetName a e p)" by (simp add: map_of_eq_None_iff)
  then have "n \<notin> set (map fst (byNetName a e p))" by simp
  with None show ?thesis unfolding byNetName_keys configured_def by (simp add: obj_get_def)
next
  case (Some v)
  then have v: "(n, v) \<in> set (byNetName a e p)" by (rule map_of_SomeD)
  then have "n \<in> set (map fst (byNetName a e p))" by force
  moreover have "truthy v" using v byNetName_objects [of a e p] by (auto simp: list_all_iff)
  ultimately show ?thesis using Some unfolding byNetName_keys configured_def by (simp add: obj_get_def)
qed

lemma byNetName_ens:
  "list_all (\<lambda>(n, net). n = ''hardhat'' \<or> field net ''ensAddress'' = e) (byNetName a e p)"
  by (simp add: byNetName_def Let_def field_def obj_assign_def)

lemma field_orElse: "field (orElse v (JObj [])) k = field v k"
  by (cases v) (auto simp: orElse_def field_def indexed_def)

lemma bigSum_eq: "mapR (bn_new E) xs = Inr as \<Longrightarrow> bigSum E xs acc = Inr (acc + sum_list as)"
  by (induction xs arbitrary: acc as) (auto split: sum.splits)

text \<open>Shares rounded down, of a whole that the parts add up to.\<close>

lemma floor_shares:
  assumes "0 < (T :: int)" and "list_all (\<lambda>a. 0 \<le> a) as"
  shows "sum_list (map (\<lambda>a. a * 10000 div T) as) * T \<le> sum_list as * 10000"
    and "sum_list as * 10000 \<le> sum_list (map (\<lambda>a. a * 10000 div T) as) * T + int (length as) * (T - 1)"
  using assms(2)
proof (induction as)
  case (Cons a as)
  { case 1
    then have "sum_list (map (\<lambda>a. a * 10000 div T) as) * T \<le> sum_list as * 10000" using Cons.IH(1) by simp
    moreover have "a * 10000 div T * T \<le> a * 10000" using div_mult_mod_eq [of "a * 10000" T] assms(1)
      pos_mod_sign [of T "a * 10000"] by linarith
    ultimately show ?case by (simp add: algebra_simps) }
  { case 2
    then have "sum_list as * 10000 \<le> sum_list (map (\<lambda>a. a * 10000 div T) as) * T + int (length as) * (T - 1)"
      using Cons.IH(2) by simp
    moreover have "a * 10000 \<le> a * 10000 div T * T + (T - 1)" using div_mult_mod_eq [of "a * 10000" T] assms(1)
      pos_mod_bound [of T "a * 10000"] by linarith
    ultimately show ?case by (simp add: algebra_simps) }
qed simp_all

lemma floor_shares_total:
  assumes "list_all (\<lambda>a. 0 \<le> a) as" and "0 < sum_list as"
  shows "sum_list (map (\<lambda>a. a * 10000 div sum_list as) as) \<le> 10000"
    and "10000 < sum_list (map (\<lambda>a. a * 10000 div sum_list as) as) + int (length as)"
proof -
  let ?T = "sum_list as" and ?X = "sum_list (map (\<lambda>a. a * 10000 div sum_list as) as)" and ?n = "int (length as)"
  have "?X * ?T \<le> 10000 * ?T" using floor_shares(1) [OF assms(2,1)] by (simp add: mult.commute)
  then show "?X \<le> 10000" using assms(2) by simp
  have "as \<noteq> []" using assms(2) by auto
  then have n: "0 < ?n" by simp
  show "10000 < ?X + ?n"
  proof (rule ccontr)
    assume "\<not> 10000 < ?X + ?n"
    then have "(?X + ?n) * ?T \<le> 10000 * ?T" using assms(2) by (intro mult_right_mono) simp_all
    moreover have "10000 * ?T \<le> ?X * ?T + ?n * (?T - 1)" using floor_shares(2) [OF assms(2,1)] by (simp add: mult.commute)
    ultimately show False using n by (simp add: algebra_simps)
  qed
qed

lemma percentOf_ok:
  assumes "percentOf E v T = Inr x" and "bn_new E v = Inr a" and "0 \<le> a" and "0 < T"
  shows "x = js_div (to_num (JBN (a * 10000 div T))) (Fin 100)"
  using assms by (cases "a = 0") (simp_all add: percentOf_def bn_div_def)

text \<open>What the report says of one holder: the amount in ether and the share, both of the holder's own amount.\<close>

definition rowOf :: "env \<Rightarrow> (jsval \<Rightarrow> string \<Rightarrow> string res) \<Rightarrow> int \<Rightarrow> string \<times> jsval \<Rightarrow> vesting_row \<Rightarrow> bool" where
  "rowOf E fromWei T p row \<longleftrightarrow> vr_holder row = fst p \<and> fromWei (snd p) ''ether'' = Inr (vr_amount row) \<and>
     (\<exists>a. bn_new E (snd p) = Inr a \<and> vr_percent row = js_div (to_num (JBN (a * 10000 div T))) (Fin 100))"

lemma vestingRows_own:
  assumes "mapR (vestingRow E fromWei T) order = Inr rows" and "mapR (bn_new E) (map snd order) = Inr amounts"
    and "list_all (\<lambda>a. 0 \<le> a) amounts" and "0 < T"
  shows "list_all2 (rowOf E fromWei T) order rows"
  using assms
proof (induction order arbitrary: rows amounts)
  case (Cons p order)
  from Cons.prems(1,2) obtain row rest a as where r: "vestingRow E fromWei T p = Inr row"
    "mapR (vestingRow E fromWei T) order = Inr rest" "rows = row # rest" "bn_new E (snd p) = Inr a"
    "mapR (bn_new E) (map snd order) = Inr as" "amounts = a # as"
    by (auto split: sum.splits)
  from r(1) obtain x where "percentOf E (snd p) T = Inr x" "vr_percent row = x" "vr_holder row = fst p"
    "fromWei (snd p) ''ether'' = Inr (vr_amount row)"
    by (auto simp: vestingRow_def bindR_eq_Inr)
  with r Cons.prems(3,4) have "rowOf E fromWei T p row" using percentOf_ok [of E "snd p" T x a] by (simp add: rowOf_def)
  with r Cons.IH [of rest as] Cons.prems(3,4) show ?case by simp
qed simp

definition amountOf :: "env \<Rightarrow> string \<times> jsval \<Rightarrow> int" where
  "amountOf E p = (case bn_new E (snd p) of Inr a \<Rightarrow> a | Inl _ \<Rightarrow> 0)"

lemma amountOf_Inr: "bn_new E (snd p) = Inr a \<Longrightarrow> amountOf E p = a"
  by (simp add: amountOf_def)

lemma amounts_map:
  "mapR (bn_new E) (map snd ps) = Inr amounts \<longleftrightarrow>
     list_all (\<lambda>p. bn_new E (snd p) = Inr (amountOf E p)) ps \<and> amounts = map (amountOf E) ps"
proof (induction ps arbitrary: amounts)
  case (Cons p ps)
  from Cons.IH [of "map (amountOf E) ps"] Cons.IH show ?case
    by (cases "bn_new E (snd p)"; cases "mapR (bn_new E) (map snd ps)") (auto simp: amountOf_Inr)
qed auto

lemma amounts_perm:
  fixes E :: env and pairs order :: props
  assumes "mset order = mset pairs" and "mapR (bn_new E) (map snd pairs) = Inr amounts"
  obtains ordered where "mapR (bn_new E) (map snd order) = Inr ordered" and "mset ordered = mset amounts"
proof -
  from assms(2) have a: "list_all (\<lambda>p. bn_new E (snd p) = Inr (amountOf E p)) pairs" "amounts = map (amountOf E) pairs"
    by (simp_all add: amounts_map)
  with mset_eq_setD [OF assms(1)] have "mapR (bn_new E) (map snd order) = Inr (map (amountOf E) order)"
    by (simp add: amounts_map list_all_iff)
  moreover have "mset (map (amountOf E) order) = mset amounts" using assms(1) a(2) by simp
  ultimately show thesis by (rule that)
qed

text \<open>Different amounts are ordered by the comparison, the larger before the smaller.\<close>

lemma precedes_vesting:
  "bn_new E (snd p) = Inr a \<Longrightarrow> bn_new E (snd q) = Inr b \<Longrightarrow> precedes (vestingCompare E) p q \<longleftrightarrow> b \<le> a"
  by (auto simp: precedes_def vestingCompare_def)

lemma vesting_orders:
  assumes "mapR (bn_new E) (map snd pairs) = Inr amounts" and "distinct amounts"
  shows "orders (vestingCompare E) pairs"
proof -
  from assms have a: "bn_new E (snd p) = Inr (amountOf E p)" if "p \<in> set pairs" for p
    using that by (simp add: amounts_map list_all_iff)
  from assms have d: "distinct pairs" "inj_on (amountOf E) (set pairs)" by (simp_all add: amounts_map distinct_map)
  have p: "precedes (vestingCompare E) p q \<longleftrightarrow> amountOf E q \<le> amountOf E p" if "p \<in> set pairs" "q \<in> set pairs" for p q
    using precedes_vesting [OF a a] that by simp
  have "okR (vestingCompare E p q)" if "p \<in> set pairs" "q \<in> set pairs" for p q
    using a that by (simp add: vestingCompare_def)
  moreover have "p = q \<or> (amountOf E q \<le> amountOf E p) \<noteq> (amountOf E p \<le> amountOf E q)"
    if "p \<in> set pairs" "q \<in> set pairs" for p q
    using inj_onD [OF d(2) _ that] by linarith
  ultimately show ?thesis using d(1) by (auto simp: orders_def list_all_iff p)
qed

lemma sorted_amounts:
  assumes "sorted_wrt (precedes (vestingCompare E)) order" and "mapR (bn_new E) (map snd order) = Inr amounts"
  shows "sorted_wrt (\<lambda>a b. b \<le> a) amounts"
proof -
  from assms(2) have a: "bn_new E (snd p) = Inr (amountOf E p)" if "p \<in> set order" for p
    using that by (simp add: amounts_map list_all_iff)
  have "sorted_wrt (\<lambda>p q. amountOf E q \<le> amountOf E p) order"
    by (rule sorted_wrt_mono_rel [OF _ assms(1)]) (simp add: precedes_vesting a)
  then show ?thesis using assms(2) by (simp add: amounts_map sorted_wrt_map)
qed

lemma vestingReport_ok:
  assumes "vestingReport E fromWei vesting order = Inr r" and "getp vesting ''unvestedTokensAmount'' = Inr unvested"
    and "bn_new E unvested = Inr u" and "mapR (bn_new E) (map snd order) = Inr amounts"
  obtains rows q where "mapR (vestingRow E fromWei (u + sum_list amounts)) order = Inr rows"
    and "percentOf E unvested (u + sum_list amounts) = Inr q"
    and "vt_rows r = rows" and "vt_unvestedPercent r = q"
  using assms unfolding vestingReport_def Let_def by (auto simp: bindR_eq_Inr bigSum_eq)

section \<open>Properties\<close>

text \<open>
  a configuration that loads has at most one network, the chosen one, and has it exactly when
  its name is one of the nine in the table; every other name, such as \<open>e2e\<close>, leaves the default
  network without an entry.  Of the known networks all but \<open>hardhat\<close> carry the ENS address of their state file.
\<close>

theorem config_network:
  assumes "hardhatConfig files environ argv = Inr c"
  shows "\<exists>nets state. obj_get c ''defaultNetwork'' = JStr (getNetworkName environ argv) \<and> obj_get c ''networks'' = JObj nets \<and>
    map fst nets = (if getNetworkName environ argv \<in> set configured then [getNetworkName environ argv] else []) \<and>
    readJson files (''./deployed-'' @ getNetworkName environ argv @ ''.json'') = Inr state \<and>
    list_all (\<lambda>(n, net). n = ''hardhat'' \<or> field net ''ensAddress'' = field state ''ensAddress'') nets"
proof -
  let ?n = "getNetworkName environ argv"
  from assms obtain accounts nets where nets: "getNetConfig files accounts ?n (obj_get environ ''ETH_ACCOUNT_NAME'') = Inr nets"
    and c: "obj_get c ''defaultNetwork'' = JStr ?n" "obj_get c ''networks'' = JObj nets"
    unfolding hardhatConfig_def Let_def by (auto simp: bindR_eq_Inr)
  from nets obtain state eth projectId where state: "readJson files (''./deployed-'' @ ?n @ ''.json'') = Inr state"
    and n: "nets = (let table = byNetName (chosenAccounts (orElse eth (JObj [])) ?n (obj_get environ ''ETH_ACCOUNT_NAME''))
        (field state ''ensAddress'') projectId
      in if truthy (obj_get table ?n) then [(?n, obj_get table ?n)] else [])"
    unfolding getNetConfig_def Let_def field_def [symmetric] field_orElse by (auto simp: bindR_eq_Inr)
  let ?t = "byNetName (chosenAccounts (orElse eth (JObj [])) ?n (obj_get environ ''ETH_ACCOUNT_NAME''))
        (field state ''ensAddress'') projectId"
  have nets_eq: "nets = (if ?n \<in> set configured then [(?n, obj_get ?t ?n)] else [])"
    unfolding n Let_def truthy_byNetName by (rule refl)
  have "list_all (\<lambda>(n, net). n = ''hardhat'' \<or> field net ''ensAddress'' = field state ''ensAddress'') nets"
  proof (cases "map_of ?t ?n")
    case None
    then have "\<not> truthy (obj_get ?t ?n)" by (simp add: obj_get_def)
    then show ?thesis unfolding nets_eq truthy_byNetName by simp
  next
    case (Some net)
    from map_of_SomeD [OF Some] byNetName_ens have "?n = ''hardhat'' \<or> field net ''ensAddress'' = field state ''ensAddress''"
      by (fastforce simp: list_all_iff)
    with Some show ?thesis unfolding nets_eq by (simp add: obj_get_def)
  qed
  moreover have "map fst nets = (if ?n \<in> set configured then [?n] else [])" unfolding nets_eq by simp
  ultimately show ?thesis using state c by blast
qed

theorem config_network_witness:
  "\<exists>c nets. hardhatConfig (\<lambda>_. None) [] [''node'', ''--network'', ''local''] = Inr c \<and>
     obj_get c ''networks'' = JObj nets \<and> map fst nets = [''local'']"
proof -
  have "okR (hardhatConfig (\<lambda>_. None) [] [''node'', ''--network'', ''local''])" by code_simp
  then obtain c where c: "hardhatConfig (\<lambda>_. None) [] [''node'', ''--network'', ''local''] = Inr c" by (auto simp: okR_iff)
  have n: "getNetworkName [] [''node'', ''--network'', ''local''] = ''local''" "''local'' \<in> set configured" by code_simp+
  from config_network [OF c, unfolded n(1) if_P [OF n(2)]] obtain nets
    where "obj_get c ''networks'' = JObj nets" "map fst nets = [''local'']" by (elim exE conjE)
  with c show ?thesis by (intro exI conjI)
qed

text \<open>
  an accounts.json without an \<open>infura\<close> entry makes the configuration throw whatever network
  is asked for, the local ones included, because the table of all networks is built first.
\<close>

theorem config_needs_infura:
  assumes "files ''./accounts.json'' = Some (JsonText (JObj ps))" and "obj_get ps ''infura'' = JUndef"
    and "okR (readJson files (''./deployed-'' @ getNetworkName environ argv @ ''.json''))"
  shows "hardhatConfig files environ argv = Inl TypeError"
  using assms by (auto simp: hardhatConfig_def Let_def readAccounts_def readJson_def orElse_def getNetConfig_def
      okR_iff split: option.splits fcontent.splits)

theorem config_needs_infura_witness:
  "hardhatConfig (\<lambda>f. if f = ''./accounts.json'' then Some (JsonText (JObj [(''eth'', JObj [])])) else None) [] [] = Inl TypeError"
proof -
  have "okR (readJson (\<lambda>f. if f = ''./accounts.json'' then Some (JsonText (JObj [(''eth'', JObj [])])) else None)
      (''./deployed-'' @ getNetworkName [] [] @ ''.json''))" by code_simp
  then show ?thesis by (intro config_needs_infura [where ps = "[(''eth'', JObj [])]"]) simp_all
qed

text \<open>
  the child process that publishes a standard app finds, in the configuration it is started
  with, the paths of exactly this app, and everything but the Aragon section is the common configuration.
\<close>

theorem std_app_configured:
  "field (obj_get (aragonAppsConfig (childEnv environ appName) baseConfig) ''aragon'') ''appSrcPath'' =
     JStr (''aragon-apps/apps/'' @ appName @ ''/app'') \<and>
   field (obj_get (aragonAppsConfig (childEnv environ appName) baseConfig) ''aragon'') ''appBuildOutputPath'' =
     JStr (''aragon-apps/apps/'' @ appName @ ''/dist'') \<and>
   (k = ''aragon'' \<or> obj_get (aragonAppsConfig (childEnv environ appName) baseConfig) k = obj_get baseConfig k)"
  by (simp add: aragonAppsConfig_def childEnv_def obj_assign_def field_def Let_def)

text \<open>
  a script run by Node exits with 0 exactly when it completed, and with the globals missing it
  exits with 1 before it has done anything.
\<close>

theorem exit_code_tells:
  "(fst (runOrWrap globals MainModule scriptFn w) = Exit 0 \<longleftrightarrow> globals \<and> okR (fst (scriptFn w))) \<and>
   snd (runOrWrap globals MainModule scriptFn w) = (if globals then snd (scriptFn w) else w)"
  by (auto simp: runOrWrap_def okR_iff split: prod.splits sum.splits)

text \<open>
  C40: a vesting report lists every holder once, each with the text and the share of the holder's own amount,
  where the share is taken of the unvested amount plus all amounts, in hundredths of a percent rounded
  down; all shares add up to at most 100 percent and miss it by at most a hundredth per holder.  When no two
  holders have the same amount, the script's comparison puts the larger amounts first on every
  engine.
\<close>

theorem vesting_percentages:
  assumes "js_sort sorting" and "printVesting E fromWei sorting w = (Inr r, w')" and "state_of E w = Some st"
    and "getp (obj_get st ''vestingParams'') ''holders'' = Inr holders"
    and "getp (obj_get st ''vestingParams'') ''unvestedTokensAmount'' = Inr unvested" and "bn_new E unvested = Inr u"
    and "mapR (bn_new E) (map snd (own_props holders)) = Inr amounts"
    and "list_all (\<lambda>a. 0 \<le> a) (u # amounts)" and "0 < u + sum_list amounts"
  shows "\<exists>order ordered k. mset order = mset (own_props holders) \<and> mapR (bn_new E) (map snd order) = Inr ordered \<and>
    list_all2 (rowOf E fromWei (u + sum_list amounts)) order (vt_rows r) \<and>
    (if distinct amounts then sorted_wrt (\<lambda>a b. b < a) ordered else True) \<and>
    vt_unvestedPercent r = js_div (to_num (JBN k)) (Fin 100) \<and> k = u * 10000 div (u + sum_list amounts) \<and>
    k + (\<Sum>a\<leftarrow>ordered. a * 10000 div (u + sum_list amounts)) \<le> 10000 \<and>
    10000 - int (length (vt_rows r)) \<le> k + (\<Sum>a\<leftarrow>ordered. a * 10000 div (u + sum_list amounts))"
proof -
  let ?T = "u + sum_list amounts"
  let ?share = "\<lambda>a. a * 10000 div ?T"
  from assms(2-4) obtain order where order: "sorting (vestingCompare E) (own_props holders) = Inr order"
    and rep: "vestingReport E fromWei (obj_get st ''vestingParams'') order = Inr r"
    by (auto simp: printVesting_def Let_def prog_ok)
  with assms(1) have perm: "mset order = mset (own_props holders)" unfolding js_sort_def by blast
  obtain ordered where o: "mapR (bn_new E) (map snd order) = Inr ordered" "mset ordered = mset amounts"
    by (rule amounts_perm [OF perm assms(7)])
  have sums: "sum_list ordered = sum_list amounts" "set ordered = set amounts" "distinct ordered = distinct amounts"
    using arg_cong [OF o(2), of sum_mset] mset_eq_setD [OF o(2)] mset_eq_imp_distinct_iff [OF o(2)]
    by (simp_all add: sum_mset_sum_list)
  from rep assms(5,6) o(1) obtain rows q where rows: "mapR (vestingRow E fromWei ?T) order = Inr rows"
    and q: "percentOf E unvested ?T = Inr q" and r: "vt_rows r = rows" "vt_unvestedPercent r = q"
    unfolding sums(1) [symmetric] by (rule vestingReport_ok)
  have nonneg: "list_all (\<lambda>a. 0 \<le> a) (u # ordered)" using assms(8) sums(2) by (simp add: list_all_iff)
  have own: "list_all2 (rowOf E fromWei ?T) order rows"
    using vestingRows_own [OF rows o(1)] nonneg assms(9) by simp
  have len: "length ordered = length rows"
    using list_all2_lengthD [OF own] o(1) by (auto simp: mapR_eq_Inr dest: list_all2_lengthD)
  have sorted: "if distinct amounts then sorted_wrt (\<lambda>a b. b < a) ordered else True"
  proof (cases "distinct amounts")
    case True
    with assms(1,7) order have "sorted_wrt (precedes (vestingCompare E)) order"
      unfolding js_sort_def using vesting_orders by blast
    then have "sorted_wrt (\<lambda>a b. b \<le> a) ordered" using o(1) by (rule sorted_amounts)
    then show ?thesis
      using True sums(3) by (auto simp: sorted_wrt_iff_nth_less distinct_conv_nth order.strict_iff_order)
  qed simp
  have "q = js_div (to_num (JBN (?share u))) (Fin 100)"
    using percentOf_ok [OF q assms(6)] assms(8,9) by simp
  moreover have "?share u + sum_list (map ?share ordered) \<le> 10000"
    and "10000 - int (length rows) \<le> ?share u + sum_list (map ?share ordered)"
    using floor_shares_total [of "u # ordered"] nonneg assms(9) len sums(1) by simp_all
  ultimately show ?thesis using perm o(1) own sorted r by blast
qed

text \<open>One sort that keeps the promise: insertion.\<close>

fun insertBy :: "('a \<Rightarrow> 'a \<Rightarrow> int res) \<Rightarrow> 'a \<Rightarrow> 'a list \<Rightarrow> 'a list res" where
  "insertBy cmp x [] = Inr [x]"
| "insertBy cmp x (y # ys) =
     bindR (cmp x y) (\<lambda>c. if c < 0 then Inr (x # y # ys) else bindR (insertBy cmp x ys) (\<lambda>zs. Inr (y # zs)))"

fun insertionSort :: "('a \<Rightarrow> 'a \<Rightarrow> int res) \<Rightarrow> 'a list \<Rightarrow> 'a list res" where
  "insertionSort cmp [] = Inr []"
| "insertionSort cmp (x # xs) = bindR (insertionSort cmp xs) (insertBy cmp x)"

lemma insertBy_mset: "insertBy cmp x ys = Inr zs \<Longrightarrow> mset zs = add_mset x (mset ys)"
  by (induction ys arbitrary: zs) (auto simp: bindR_eq_Inr split: if_splits)

lemma insertionSort_mset: "insertionSort cmp xs = Inr ys \<Longrightarrow> mset ys = mset xs"
  by (induction xs arbitrary: ys) (auto simp: bindR_eq_Inr dest: insertBy_mset)

lemma insertBy_sorted:
  assumes "orders cmp zs" and "set (x # ys) \<subseteq> set zs" and "x \<notin> set ys" and "distinct ys"
    and "sorted_wrt (precedes cmp) ys" and "insertBy cmp x ys = Inr out"
  shows "sorted_wrt (precedes cmp) out"
  using assms(2-)
proof (induction ys arbitrary: out)
  case (Cons y ys)
  from Cons.prems(5) obtain c where c: "cmp x y = Inr c" by (auto simp: bindR_eq_Inr)
  have trans: "precedes cmp a b \<Longrightarrow> precedes cmp b d \<Longrightarrow> a \<in> set zs \<Longrightarrow> b \<in> set zs \<Longrightarrow> d \<in> set zs \<Longrightarrow> a \<noteq> b \<Longrightarrow> b \<noteq> d \<Longrightarrow> precedes cmp a d"
    and either: "a \<in> set zs \<Longrightarrow> b \<in> set zs \<Longrightarrow> a \<noteq> b \<Longrightarrow> precedes cmp a b \<noteq> precedes cmp b a" for a b d
    using assms(1) unfolding orders_def list_all_iff by blast+
  show ?case
  proof (cases "c < 0")
    case True
    then have "precedes cmp x y" using c by (simp add: precedes_def)
    moreover have "precedes cmp x v" if "v \<in> set ys" for v
      using trans [of x y v] that Cons.prems \<open>precedes cmp x y\<close> by auto
    ultimately show ?thesis using Cons.prems c True by auto
  next
    case False
    with Cons.prems(5) c obtain rest where rest: "insertBy cmp x ys = Inr rest" "out = y # rest" by (auto simp: bindR_eq_Inr)
    have "\<not> precedes cmp x y" using False c by (simp add: precedes_def)
    then have "precedes cmp y x" using either [of x y] Cons.prems by auto
    moreover have "set rest = insert x (set ys)" using mset_eq_setD [OF insertBy_mset [OF rest(1), folded mset.simps(2)]] by simp
    moreover have "sorted_wrt (precedes cmp) rest" using Cons.IH [OF _ _ _ _ rest(1)] Cons.prems by simp
    ultimately show ?thesis using Cons.prems(4) rest(2) by auto
  qed
qed auto

lemma insertionSort_js: "js_sort insertionSort"
proof -
  have sorts: "set xs \<subseteq> set zs \<Longrightarrow> distinct xs \<Longrightarrow> insertionSort cmp xs = Inr ys \<Longrightarrow> sorted_wrt (precedes cmp) ys"
    if "orders cmp zs" for cmp xs zs and ys :: "'a list"
  proof (induction xs arbitrary: ys)
    case (Cons x xs)
    then obtain vs where vs: "insertionSort cmp xs = Inr vs" "insertBy cmp x vs = Inr ys" by (auto simp: bindR_eq_Inr)
    have same: "set vs = set xs" "distinct vs = distinct xs"
      using mset_eq_setD mset_eq_imp_distinct_iff insertionSort_mset [OF vs(1)] by blast+
    have "sorted_wrt (precedes cmp) vs" using Cons.IH [OF _ _ vs(1)] Cons.prems(1,2) by simp
    then show ?case
      using insertBy_sorted [OF that _ _ _ _ vs(2)] Cons.prems(1,2) same by simp
  qed simp
  show ?thesis
    unfolding js_sort_def
  proof (intro allI impI conjI)
    fix cmp and xs ys :: "'a list"
    assume s: "insertionSort cmp xs = Inr ys"
    then show "mset ys = mset xs" by (rule insertionSort_mset)
    assume o: "orders cmp xs"
    then have "distinct xs" by (simp add: orders_def)
    then show "sorted_wrt (precedes cmp) ys" using s by (rule sorts [OF o subset_refl])
  qed
qed

lemma mset_two:
  assumes "mset xs = mset [a, b]"
  shows "xs = [a, b] \<or> xs = [b, a]"
proof -
  from mset_eq_length [OF assms] obtain p q where xs: "xs = [p, q]" by (auto simp: length_Suc_conv)
  from mset_eq_setD [OF assms] have "{p, q} = {a, b}" by (simp add: xs)
  then show ?thesis by (auto simp: xs doubleton_eq_iff)
qed

definition vesting_world :: world where
  "vesting_world = empty_world\<lparr>net_files := (\<lambda>_. Some (JsonText (JObj [(''networkId'', JInt 1337), (''vestingParams'',
     JObj [(''holders'', JObj [(''a'', JStr ''1''), (''b'', JStr ''3'')]), (''unvestedTokensAmount'', JStr ''2''),
           (''start'', JInt 1), (''cliff'', JInt 2), (''end'', JInt 3), (''revokable'', JBool False)])])))\<rparr>"

theorem vesting_percentages_witness:
  "\<exists>r w'. printVesting offline_env (\<lambda>v unit. Inr (to_str v)) insertionSort vesting_world = (Inr r, w') \<and>
     map vr_holder (vt_rows r) = [''b'', ''a'']"
proof -
  let ?vesting = "JObj [(''holders'', JObj [(''a'', JStr ''1''), (''b'', JStr ''3'')]), (''unvestedTokensAmount'', JStr ''2''),
           (''start'', JInt 1), (''cliff'', JInt 2), (''end'', JInt 3), (''revokable'', JBool False)]"
  let ?pairs = "[(''a'', JStr ''1''), (''b'', JStr ''3'')]"
  have st: "state_of offline_env vesting_world = Some [(''networkId'', JInt 1337), (''vestingParams'', ?vesting)]"
    by (simp add: state_of_def vesting_world_def strict_eq_def offline_env_def)
  have bn: "bn_new offline_env (JStr ''1'') = Inr 1" "bn_new offline_env (JStr ''3'') = Inr 3" "bn_new offline_env (JStr ''2'') = Inr 2"
    by (simp_all add: offline_env_def) code_simp+
  have "insertionSort (vestingCompare offline_env) ?pairs = Inr [(''b'', JStr ''3''), (''a'', JStr ''1'')]"
    by (simp add: vestingCompare_def bn)
  then obtain r w' where run: "printVesting offline_env (\<lambda>v unit. Inr (to_str v)) insertionSort vesting_world = (Inr r, w')"
    by (simp add: printVesting_def Let_def prog_ok st not_nullish_def vestingReport_def bn vestingRow_def percentOf_def)
  from vesting_percentages [OF insertionSort_js run st, of "JObj ?pairs" "JStr ''2''" 2 "[1, 3]"] bn
  obtain order ordered where o: "mset order = mset ?pairs" "mapR (bn_new offline_env) (map snd order) = Inr ordered"
    "list_all2 (rowOf offline_env (\<lambda>v unit. Inr (to_str v)) 6) order (vt_rows r)" "sorted_wrt (\<lambda>a b. b < a) ordered"
    by auto
  have "order = ?pairs \<or> order = [(''b'', JStr ''3''), (''a'', JStr ''1'')]" using o(1) by (rule mset_two)
  with o bn have "order = [(''b'', JStr ''3''), (''a'', JStr ''1'')]" by auto
  with o(3) have "map vr_holder (vt_rows r) = [''b'', ''a'']" by (auto simp: list_all2_Cons1 rowOf_def)
  with run show ?thesis by (intro exI conjI)
qed

end
