(* ===== verification/SingleGas.thy ===== *)
theory SingleGas
  imports GasSource "HOL-Library.While_Combinator"
begin

text \<open>
  gasprofile/profile_gas_single_contract.js, the older profiler that reports the gas one contract
  used inside a transaction, line by line.  Its own copies of the source map, program counter and
  line tables are translated as they stand here.  The trace, solc's output and the contract's
  source are inputs; \<open>getCode\<close> of the node and \<open>binarysearch.closest\<close> are arguments.
\<close>

section \<open>The tables\<close>

record sections =
  prevS :: "string option"
  prevL :: "string option"
  prevF :: "string option"
  prevJ :: "string option"

definition keep_prev :: "string option \<Rightarrow> string option \<Rightarrow> string option" where
  "keep_prev cur prev = (if cur = Some [] \<or> cur = None then prev else cur)"

fun singleSections :: "sections \<Rightarrow> string list \<Rightarrow> sm_entry list" where
  "singleSections p [] = []"
| "singleSections p (sect # sects) =
     (let parts = split_on (CHR '':'') sect;
          s = keep_prev (part_of parts 0) (prevS p); l = keep_prev (part_of parts 1) (prevL p);
          f = keep_prev (part_of parts 2) (prevF p); j = keep_prev (part_of parts 3) (prevJ p)
      in \<lparr>sm_s = num_of s, sm_l = num_of l, sm_f = num_of f, sm_j = j\<rparr> #
         singleSections \<lparr>prevS = s, prevL = l, prevF = f, prevJ = j\<rparr> sects)"

definition singleParseSourceMap :: "string \<Rightarrow> sm_entry list" where
  "singleParseSourceMap raw =
     singleSections \<lparr>prevS = None, prevL = None, prevF = None, prevJ = None\<rparr> (split_on (CHR '';'') (trim raw))"

text \<open>\<open>s[i]\<close> as text, which is "undefined" outside of the string.\<close>

definition char_text :: "string \<Rightarrow> nat \<Rightarrow> string" where
  "char_text s i = (if i < length s then [s ! i] else ''undefined'')"

definition singleStep :: "string \<Rightarrow> nat \<Rightarrow> nat" where
  "singleStep codeHexStr pc =
     (let byteHex = char_text codeHexStr (pc * 2) @ char_text codeHexStr (pc * 2 + 1)
      in case parseInt16 byteHex of
           None \<Rightarrow> 1
         | Some byte \<Rightarrow> if 0x60 \<le> byte \<and> byte \<le> 0x7f then (let n = byte - 0x60 + 1 in nat (n + 1)) else 1)"

lemma singleStep_pos: "0 < singleStep code pc"
  by (simp add: singleStep_def Let_def split: option.splits)

function singlePcLoop :: "string \<Rightarrow> nat \<Rightarrow> nat \<Rightarrow> (nat \<times> nat) list" where
  "singlePcLoop codeHexStr pc instructionIndex =
     (if 2 * pc < length codeHexStr
      then (pc, instructionIndex) # singlePcLoop codeHexStr (pc + singleStep codeHexStr pc) (instructionIndex + 1)
      else [])"
  by pat_completeness auto
termination
  by (relation "measure (\<lambda>(code, pc, i). length code - pc)") (auto intro: diff_less_mono2 simp: singleStep_pos)

declare singlePcLoop.simps [simp del]

text \<open>The loop as it stands, over its three variables; it returns when \<open>while_option\<close> gives \<open>Some\<close>.\<close>

definition singlePcWhile :: "string \<Rightarrow> (nat \<times> nat \<times> (nat \<times> nat) list) option" where
  "singlePcWhile codeHexStr =
     while_option (\<lambda>(pc, instructionIndex, mapping). 2 * pc < length codeHexStr)
       (\<lambda>(pc, instructionIndex, mapping).
          (pc + singleStep codeHexStr pc, instructionIndex + 1, mapping @ [(pc, instructionIndex)]))
       (0, 0, [])"

fun singleOffsets :: "nat \<Rightarrow> string list \<Rightarrow> nat list" where
  "singleOffsets accu [] = []"
| "singleOffsets accu (line # lines) = accu # singleOffsets (accu + length line + 1) lines"

section \<open>Finding the contract's file (recFindByName)\<close>

datatype fs_node = FsFile string | FsDir string "fs_node list"

text \<open>The file's name without its extension is the contract's name.\<close>

definition isSourceOf :: "string \<Rightarrow> string \<Rightarrow> bool" where
  "isSourceOf name filename \<longleftrightarrow> join_with ''.'' (butlast (split_on (CHR ''.'') filename)) = name"

fun recFindByName :: "string \<Rightarrow> string \<Rightarrow> fs_node list \<Rightarrow> string list \<Rightarrow> string list" where
  "recFindByName base name [] result = result"
| "recFindByName base name (FsDir d children # files) result =
     recFindByName base name files (recFindByName (base @ ''/'' @ d) name children result)"
| "recFindByName base name (FsFile f # files) result =
     recFindByName base name files (if isSourceOf name f then result @ [base @ ''/'' @ f] else result)"

section \<open>The trace\<close>

record slog =
  sl_depth :: int
  sl_gasCost :: int
  sl_op :: string
  sl_pc :: nat
  sl_stack :: "string list"

definition callOpCodes :: "string list" where
  "callOpCodes = [''CALL'', ''CALLCODE'', ''DELEGATECALL'', ''STATICCALL'']"

definition extractAddrFromCall :: "string list \<Rightarrow> string res" where
  "extractAddrFromCall stack =
     (if length stack < 2 then Inl TypeError else Inr (''0x'' @ drop 24 (stack ! (length stack - 2))))"

text \<open>\<open>Array.from(new Set(arr))\<close>: first occurrences, in order.\<close>

fun dedup :: "'a list \<Rightarrow> 'a list" where
  "dedup [] = []"
| "dedup (x # xs) = x # filter (\<lambda>y. y \<noteq> x) (dedup xs)"

fun find_index :: "('a \<Rightarrow> bool) \<Rightarrow> 'a list \<Rightarrow> nat option" where
  "find_index p [] = None"
| "find_index p (x # xs) = (if p x then Some 0 else map_option Suc (find_index p xs))"

definition calls :: "slog list \<Rightarrow> slog list" where
  "calls logs = filter (\<lambda>g. sl_op g \<in> set callOpCodes) logs"

text \<open>The address whose code is the profiled one and the depth it runs at; \<open>None\<close> is the exit with status 1.\<close>

definition findThatContract ::
  "(string \<Rightarrow> string res) \<Rightarrow> string \<Rightarrow> slog list \<Rightarrow> (string \<times> int) option res" where
  "findThatContract getCode code logs =
     bindR (mapR (\<lambda>g. extractAddrFromCall (sl_stack g)) (calls logs)) (\<lambda>targets.
     let contractAddresses = dedup targets
     in bindR (mapR getCode contractAddresses) (\<lambda>codes.
        let contractCodes = map (drop 2) codes
        in Inr (case find_index (\<lambda>c. c = code) contractCodes of
             None \<Rightarrow> None
           | Some contractIndex \<Rightarrow>
               (let thatContract = contractAddresses ! contractIndex
                in map_option (\<lambda>(addr, depth). (thatContract, depth))
                     (find (\<lambda>(addr, depth). addr = thatContract)
                        (zip targets (map (\<lambda>g. sl_depth g + 1) (calls logs))))))))"

record single =
  si_lineGas :: "(nat \<times> int) list"
  si_synthCost :: int
  si_lastContract :: "string option"

definition lineGasAt :: "single \<Rightarrow> nat \<Rightarrow> int" where
  "lineGasAt s line = (case map_of (si_lineGas s) line of None \<Rightarrow> 0 | Some g \<Rightarrow> g)"

record tables =
  tb_pcToIdx :: "nat \<rightharpoonup> nat"
  tb_sourceMap :: "sm_entry list"
  tb_lineOffsets :: "nat list"

definition chargeSingle :: "(nat list \<Rightarrow> jnum \<Rightarrow> nat) \<Rightarrow> tables \<Rightarrow> slog \<Rightarrow> single \<Rightarrow> single res" where
  "chargeSingle closest tb g s =
     (let cost = max (sl_gasCost g) 0
      in case tb_pcToIdx tb (sl_pc g) of
           None \<Rightarrow> Inl TypeError
         | Some instructionIdx \<Rightarrow>
             if \<not> instructionIdx < length (tb_sourceMap tb) then Inl TypeError
             else (let entry = tb_sourceMap tb ! instructionIdx
                   in if sm_f entry = Fin (-1) then Inr (s\<lparr>si_synthCost := si_synthCost s + cost\<rparr>)
                      else (let line = closest (tb_lineOffsets tb) (sm_s entry)
                            in Inr (s\<lparr>si_lineGas := obj_set line (lineGasAt s line + cost) (si_lineGas s)\<rparr>))))"

definition singleLog ::
  "(nat list \<Rightarrow> jnum \<Rightarrow> nat) \<Rightarrow> tables \<Rightarrow> string \<Rightarrow> int \<Rightarrow> slog \<Rightarrow> single \<Rightarrow> single res" where
  "singleLog closest tb thatContract thatDepth g s =
     bindR (if sl_op g \<in> set callOpCodes
            then bindR (extractAddrFromCall (sl_stack g)) (\<lambda>a. Inr (s\<lparr>si_lastContract := Some a\<rparr>)) else Inr s) (\<lambda>s1.
     if sl_depth g = thatDepth \<and> si_lastContract s1 = Some thatContract then chargeSingle closest tb g s1 else Inr s1)"

fun singleLogs ::
  "(nat list \<Rightarrow> jnum \<Rightarrow> nat) \<Rightarrow> tables \<Rightarrow> string \<Rightarrow> int \<Rightarrow> slog list \<Rightarrow> single \<Rightarrow> single res" where
  "singleLogs closest tb thatContract thatDepth [] s = Inr s"
| "singleLogs closest tb thatContract thatDepth (g # gs) s =
     bindR (singleLog closest tb thatContract thatDepth g s) (singleLogs closest tb thatContract thatDepth gs)"

text \<open>What is printed: the gas of every line with its text, then the gas of synthetic instructions.\<close>

datatype single_report = NotFoundAContract | Lines "(int \<times> string) list" int

definition profileSingle ::
  "(nat list \<Rightarrow> jnum \<Rightarrow> nat) \<Rightarrow> (string \<Rightarrow> string res) \<Rightarrow> string \<Rightarrow> string \<Rightarrow> string \<Rightarrow> slog list \<Rightarrow> single_report res" where
  "profileSingle closest getCode sourceMap code src logs =
     (let tb = \<lparr>tb_pcToIdx = map_of (singlePcLoop code 0 0), tb_sourceMap = singleParseSourceMap sourceMap,
                tb_lineOffsets = singleOffsets 0 (split_on (CHR 0x0A) src)\<rparr>
      in bindR (findThatContract getCode code logs) (\<lambda>found.
         case found of
           None \<Rightarrow> Inr NotFoundAContract
         | Some (thatContract, thatDepth) \<Rightarrow>
             bindR (singleLogs closest tb thatContract thatDepth logs
                      \<lparr>si_lineGas = [], si_synthCost = 0, si_lastContract = None\<rparr>) (\<lambda>s.
             Inr (Lines (map (\<lambda>(i, line). (lineGasAt s i, line)) (enumerate 0 (split_on (CHR 0x0A) src))) (si_synthCost s)))))"

section \<open>The tables agree with those of the newer profiler\<close>

lemma keep_prev_inherit: "keep_prev cur prev = inherit_field cur prev"
  by (auto simp: keep_prev_def inherit_field_def split: option.splits)

lemma upt4: "[0..<4] = [0, 1, 2, 3 :: nat]"
  by (simp add: upt_rec)

lemma sections_agree: "singleSections p sects = sm_sections [prevS p, prevL p, prevF p, prevJ p] sects"
proof (induction sects arbitrary: p)
  case (Cons sect sects)
  then show ?case by (simp add: Let_def sm_section_def sm_of_def keep_prev_inherit upt4)
qed simp

lemma offsets_agree: "singleOffsets accu ls = offsets_from accu ls"
  by (induction ls arbitrary: accu) (simp_all add: add.assoc)

text \<open>\<open>parseInt\<close> also reads signs, white space and \<open>0x\<close>; those bytes are no push opcodes either way.\<close>

lemma parseInt16_two:
  assumes "hex_val c = Some x" and "c \<noteq> CHR ''0'' \<or> d \<noteq> CHR ''x'' \<and> d \<noteq> CHR ''X''"
  shows "parseInt16 (c # d # t) = (case hex_val d of None \<Rightarrow> Some x
      | Some y \<Rightarrow> parse_hex (c # d # takeWhile (\<lambda>c. hex_val c \<noteq> None) t))"
proof -
  have "\<not> is_space c" "c \<noteq> CHR ''-''" "c \<noteq> CHR ''+''"
    using assms(1) by (auto simp: is_space_def hex_val_def)
  then show ?thesis
    using assms by (auto simp: parseInt16_def Let_def starts_with_def parse_hex_def option.map_ident split: option.splits)
qed

lemma hex_val_less: "hex_val d = Some y \<Longrightarrow> y < 16"
  by (auto simp: hex_val_def Let_def split: if_splits)

text \<open>A first character that is no digit leaves at most one digit to read.\<close>

lemma parseInt16_no_digit:
  assumes "hex_val c = None"
  shows "parseInt16 [c, d] = Some n \<Longrightarrow> n < 16" and "parseInt16 (c # ''undefined'') = None"
proof -
  have z: "c \<noteq> CHR ''0''" using assms by (auto simp: hex_val_def)
  have h: "hex_val (CHR ''u'') = None" "\<not> is_space (CHR ''u'')" by (simp_all add: hex_val_def is_space_def)
  show "parseInt16 (c # ''undefined'') = None"
    using assms z h by (auto simp: parseInt16_def Let_def starts_with_def parse_hex_def)
  have d: "parse_hex (takeWhile (\<lambda>c. hex_val c \<noteq> None) [d]) = Some n \<Longrightarrow> n < 16 \<and> - n < 16" for n
    by (auto simp: parse_hex_def hex_val_def Let_def split: option.splits if_splits)
  have "parse_hex [] = None" by (simp add: parse_hex_def)
  then show "parseInt16 [c, d] = Some n \<Longrightarrow> n < 16"
    using assms z d by (auto simp: parseInt16_def Let_def starts_with_def split: if_splits)
qed

lemma size_small: "n < 16 \<Longrightarrow> instr_size (Some n) = 1"
  by (simp add: instr_size_def)

lemma singleStep_size:
  "singleStep code pc = instr_size (parseInt16 (char_text code (pc * 2) @ char_text code (pc * 2 + 1)))"
  by (auto simp: singleStep_def instr_size_def Let_def nat_add_distrib split: option.splits)

lemma step_agrees:
  assumes "2 * pc < length code"
  shows "singleStep code pc = instr_size (byte_at code pc)"
proof -
  define c d where "c = code ! (pc * 2)" and "d = char_text code (pc * 2 + 1)"
  have s: "singleStep code pc = instr_size (parseInt16 (c # d))"
    using assms by (simp add: singleStep_size char_text_def c_def d_def mult.commute)
  have "d = ''undefined'' \<and> \<not> 2 * pc + 1 < length code \<or> 2 * pc + 1 < length code \<and> d = [code ! (2 * pc + 1)]"
    by (auto simp: d_def char_text_def mult.commute)
  then consider (out) "d = ''undefined''" "\<not> 2 * pc + 1 < length code" | (char) e where "d = [e]" "e = code ! (2 * pc + 1)" "2 * pc + 1 < length code"
    by blast
  then show ?thesis
  proof cases
    case out
    have "parseInt16 (c # d) = byte_at code pc"
    proof (cases "hex_val c")
      case None
      with out assms show ?thesis by (simp add: parseInt16_no_digit byte_at_def c_def mult.commute)
    next
      case (Some x)
      have "hex_val (CHR ''u'') = None" by (simp add: hex_val_def)
      with Some out assms parseInt16_two [OF Some, of "CHR ''u''" "''ndefined''"] show ?thesis
        by (simp add: byte_at_def c_def mult.commute)
    qed
    with s show ?thesis by simp
  next
    case char
    show ?thesis
    proof (cases "hex_val c")
      case None
      then have b: "byte_at code pc = None" using assms by (simp add: byte_at_def c_def mult.commute)
      have "instr_size (parseInt16 [c, e]) = 1"
      proof (cases "parseInt16 [c, e]")
        case (Some n)
        then show ?thesis using size_small [OF parseInt16_no_digit(1) [OF None Some]] by simp
      qed (simp add: instr_size_def)
      with b char(1) s show ?thesis by (simp add: instr_size_def)
    next
      case (Some x)
      have e: "code ! Suc (2 * pc) = e" using char(2) by simp
      show ?thesis
      proof (cases "c = CHR ''0'' \<and> (e = CHR ''x'' \<or> e = CHR ''X'')")
        case True
        then have "parseInt16 [c, e] = None"
          by (auto simp: parseInt16_def Let_def starts_with_def is_space_def parse_hex_def)
        moreover have "byte_at code pc = Some 0"
          using True char assms by (auto simp: byte_at_def c_def hex_val_def mult.commute)
        ultimately show ?thesis using s char(1) by (simp add: instr_size_def)
      next
        case False
        have "parseInt16 [c, e] = byte_at code pc"
          using parseInt16_two [OF Some, of e "[]"] False Some char(3) assms e
          by (auto simp: byte_at_def c_def mult.commute parse_hex_def split: option.splits)
        with s char(1) show ?thesis by simp
      qed
    qed
  qed
qed

lemma pcLoop_agree: "singlePcLoop code pc i = pcLoop code pc i"
proof (induction code pc i rule: pcLoop.induct)
  case (1 code pc i)
  then show ?case by (subst singlePcLoop.simps, subst pcLoop.simps) (simp add: step_agrees)
qed

text \<open>
  the older profiler's copies of the three tables compute what the newer profiler computes: the
  decompressed source map, the instruction index of every program counter and the line offsets are
  equal on every input.
\<close>

theorem single_tables_agree:
  "singleParseSourceMap raw = parseSourceMap raw \<and> singlePcLoop code 0 0 = buildPcToInstructionMapping code \<and>
   singleOffsets 0 (split_on (CHR 0x0A) src) = buildLineOffsets src"
  by (simp add: singleParseSourceMap_def parseSourceMap_def sections_agree pcLoop_agree buildPcToInstructionMapping_def
      offsets_agree buildLineOffsets_def)

section \<open>What is accounted\<close>

text \<open>The address of the last call instruction so far.\<close>

definition lastTarget :: "slog list \<Rightarrow> string option" where
  "lastTarget logs = (case rev (calls logs) of [] \<Rightarrow> None
     | g # _ \<Rightarrow> (case extractAddrFromCall (sl_stack g) of Inr a \<Rightarrow> Some a | Inl _ \<Rightarrow> None))"

definition accounted :: "string \<Rightarrow> int \<Rightarrow> slog list \<Rightarrow> nat \<Rightarrow> bool" where
  "accounted that depth logs i \<longleftrightarrow> sl_depth (logs ! i) = depth \<and> lastTarget (take (Suc i) logs) = Some that"

definition lineTotal :: "single \<Rightarrow> int" where
  "lineTotal s = sum_list (map snd (si_lineGas s))"

definition costOf :: "slog \<Rightarrow> int" where
  "costOf g = max (sl_gasCost g) 0"

lemma singleLogs_append:
  "singleLogs c tb a d (gs @ hs) s = bindR (singleLogs c tb a d gs s) (singleLogs c tb a d hs)"
  by (induction gs arbitrary: s) (auto simp: bindR_def split: sum.splits)

lemma sum_line_set:
  "distinct (map fst xs) \<Longrightarrow>
   sum_list (map snd (obj_set k (v :: int) xs)) = sum_list (map snd xs) - (case map_of xs k of None \<Rightarrow> 0 | Some u \<Rightarrow> u) + v"
  by (induction xs) auto

definition single_ok :: "nat \<Rightarrow> single \<Rightarrow> bool" where
  "single_ok n s \<longleftrightarrow> distinct (map fst (si_lineGas s)) \<and> fst ` set (si_lineGas s) \<subseteq> {..<n}"

lemma chargeSingle_total:
  assumes "chargeSingle closest tb g s = Inr s'" and "single_ok n s" and "\<And>x. closest (tb_lineOffsets tb) x < n"
  shows "lineTotal s' + si_synthCost s' = lineTotal s + si_synthCost s + costOf g" and "single_ok n s'"
    and "si_lastContract s' = si_lastContract s"
proof -
  let ?cost = "max (sl_gasCost g) 0"
  from assms(1) consider (synth) "s' = s\<lparr>si_synthCost := si_synthCost s + ?cost\<rparr>"
    | (line) x where "s' = s\<lparr>si_lineGas := obj_set (closest (tb_lineOffsets tb) x)
         (lineGasAt s (closest (tb_lineOffsets tb) x) + ?cost) (si_lineGas s)\<rparr>"
    by (auto simp: chargeSingle_def Let_def split: option.splits if_splits)
  note cases = this
  have d: "distinct (map fst (si_lineGas s))" "fst ` set (si_lineGas s) \<subseteq> {..<n}"
    using assms(2) by (simp_all add: single_ok_def)
  from cases show "lineTotal s' + si_synthCost s' = lineTotal s + si_synthCost s + costOf g"
    by cases (simp_all add: lineTotal_def costOf_def lineGasAt_def sum_line_set [OF d(1)])
  from cases show "single_ok n s'"
    by cases (simp_all add: single_ok_def keys_obj_set distinct_obj_set d assms(3))
  from cases show "si_lastContract s' = si_lastContract s" by cases simp_all
qed

lemma lastTarget_snoc:
  "lastTarget (gs @ [g]) = (if sl_op g \<in> set callOpCodes
     then (case extractAddrFromCall (sl_stack g) of Inr a \<Rightarrow> Some a | Inl _ \<Rightarrow> None) else lastTarget gs)"
  by (simp add: lastTarget_def calls_def)

lemma singleLog_step:
  assumes "singleLog closest tb that depth g s0 = Inr s" and "si_lastContract s0 = lastTarget gs"
    and "s1 = s0\<lparr>si_lastContract := lastTarget (gs @ [g])\<rparr>"
  shows "(if sl_depth g = depth \<and> si_lastContract s1 = Some that then chargeSingle closest tb g s1 else Inr s1) = Inr s"
proof (cases "sl_op g \<in> set callOpCodes")
  case True
  with assms(1) obtain a where a: "extractAddrFromCall (sl_stack g) = Inr a" by (auto simp: singleLog_def bindR_eq_Inr)
  have s1: "s1 = s0\<lparr>si_lastContract := Some a\<rparr>" using True a assms(3) by (simp add: lastTarget_snoc)
  from True a assms(1) show ?thesis unfolding s1 by (simp add: singleLog_def)
next
  case False
  then have "s1 = s0" using assms(2,3) by (simp add: lastTarget_snoc)
  with False assms(1) show ?thesis by (auto simp: singleLog_def split: if_splits)
qed

lemma singleLogs_total:
  assumes "singleLogs closest tb that depth logs \<lparr>si_lineGas = [], si_synthCost = 0, si_lastContract = None\<rparr> = Inr s"
    and "\<And>x. closest (tb_lineOffsets tb) x < n"
  shows "lineTotal s + si_synthCost s = (\<Sum>i < length logs. if accounted that depth logs i then costOf (logs ! i) else 0) \<and>
    single_ok n s \<and> si_lastContract s = lastTarget logs"
  using assms(1)
proof (induction logs arbitrary: s rule: rev_induct)
  case Nil
  then show ?case by (auto simp: lineTotal_def single_ok_def lastTarget_def calls_def)
next
  case (snoc g gs)
  from snoc.prems obtain s0 where s0: "singleLogs closest tb that depth gs \<lparr>si_lineGas = [], si_synthCost = 0, si_lastContract = None\<rparr> = Inr s0"
    and l: "singleLog closest tb that depth g s0 = Inr s"
    by (auto simp: singleLogs_append bindR_eq_Inr)
  define s1 where s1: "s1 = s0\<lparr>si_lastContract := lastTarget (gs @ [g])\<rparr>"
  have r: "(if sl_depth g = depth \<and> si_lastContract s1 = Some that then chargeSingle closest tb g s1 else Inr s1) = Inr s"
    using singleLog_step [OF l _ s1] snoc.IH [OF s0] by simp
  have t: "lineTotal s1 = lineTotal s0" "si_synthCost s1 = si_synthCost s0" "single_ok n s1"
    using snoc.IH [OF s0] by (auto simp: s1 lineTotal_def single_ok_def)
  have a: "accounted that depth (gs @ [g]) (length gs) \<longleftrightarrow> sl_depth g = depth \<and> si_lastContract s1 = Some that"
    by (simp add: accounted_def s1)
  have old: "accounted that depth (gs @ [g]) i = accounted that depth gs i" if "i < length gs" for i
    using that by (simp add: accounted_def nth_append)
  have "(\<Sum>i < length (gs @ [g]). if accounted that depth (gs @ [g]) i then costOf ((gs @ [g]) ! i) else 0) =
      (\<Sum>i < length gs. if accounted that depth gs i then costOf (gs ! i) else 0) +
      (if accounted that depth (gs @ [g]) (length gs) then costOf g else 0)"
    by (simp add: old nth_append cong: if_cong)
  then show ?case
    using snoc.IH [OF s0] t r a chargeSingle_total [where closest = closest and tb = tb and n = n and g = g and s' = s, OF _ t(3) assms(2)] by (auto simp: s1 split: if_splits)
qed

lemma length_singleOffsets: "length (singleOffsets accu ls) = length ls"
  by (induction ls arbitrary: accu) simp_all

lemma sum_lookup:
  fixes xs :: "(nat \<times> int) list"
  assumes "distinct (map fst xs)" and "fst ` set xs \<subseteq> {..<n}"
  shows "(\<Sum>i < n. case map_of xs i of None \<Rightarrow> 0 | Some g \<Rightarrow> g) = sum_list (map snd xs)"
proof -
  have "sum_list (map snd xs) = (\<Sum>p \<in> set xs. snd p)"
    using assms(1) by (simp add: sum_list_distinct_conv_sum_set distinct_map)
  also have "\<dots> = (\<Sum>k \<in> fst ` set xs. case map_of xs k of None \<Rightarrow> 0 | Some g \<Rightarrow> g)"
    using assms(1) by (subst sum.reindex) (auto simp: distinct_map intro!: sum.cong)
  also have "\<dots> = (\<Sum>i < n. case map_of xs i of None \<Rightarrow> 0 | Some g \<Rightarrow> g)"
  proof (rule sum.mono_neutral_left)
    show "\<forall>i \<in> {..<n} - fst ` set xs. (case map_of xs i of None \<Rightarrow> 0 | Some g \<Rightarrow> g) = 0"
    proof
      fix i assume "i \<in> {..<n} - fst ` set xs"
      then have "map_of xs i = None" by (simp add: map_of_eq_None_iff)
      then show "(case map_of xs i of None \<Rightarrow> 0 | Some g \<Rightarrow> g) = 0" by simp
    qed
  qed (use assms(2) in simp_all)
  finally show ?thesis by simp
qed

text \<open>
  C30: the report accounts for every instruction of the contract exactly once: the gas of the printed
  lines and of the synthetic instructions add up to the non-negative costs of the instructions that
  run at the contract's depth while the last call instruction had the contract as its target.
\<close>

theorem single_gas_accounted:
  assumes "profileSingle closest getCode sourceMap code src logs = Inr (Lines rows synth)"
    and "\<And>offs x. offs \<noteq> [] \<Longrightarrow> closest offs x < length offs"
  shows "\<exists>that depth. findThatContract getCode code logs = Inr (Some (that, depth)) \<and> map snd rows = split_on (CHR 0x0A) src \<and>
    sum_list (map fst rows) + synth = (\<Sum>i < length logs. if accounted that depth logs i then costOf (logs ! i) else 0)"
proof -
  let ?lines = "split_on (CHR 0x0A) src"
  let ?tb = "\<lparr>tb_pcToIdx = map_of (singlePcLoop code 0 0), tb_sourceMap = singleParseSourceMap sourceMap,
      tb_lineOffsets = singleOffsets 0 ?lines\<rparr>"
  from assms(1) obtain that depth s where f: "findThatContract getCode code logs = Inr (Some (that, depth))"
    and l: "singleLogs closest ?tb that depth logs \<lparr>si_lineGas = [], si_synthCost = 0, si_lastContract = None\<rparr> = Inr s"
    and rows: "rows = map (\<lambda>(i, line). (lineGasAt s i, line)) (enumerate 0 ?lines)" "synth = si_synthCost s"
    by (auto simp: profileSingle_def Let_def bindR_eq_Inr split: option.splits)
  have "singleOffsets 0 ?lines \<noteq> []" using length_singleOffsets [of 0 ?lines] by (metis length_0_conv split_on_nonempty)
  then have "closest (tb_lineOffsets ?tb) x < length ?lines" for x
    using assms(2) [of "singleOffsets 0 ?lines" x] by (simp add: length_singleOffsets)
  from singleLogs_total [OF l this] have t: "lineTotal s + si_synthCost s =
      (\<Sum>i < length logs. if accounted that depth logs i then costOf (logs ! i) else 0)" and ok: "single_ok (length ?lines) s" by auto
  have "map fst rows = map (lineGasAt s) [0..<length ?lines]"
    by (rule nth_equalityI) (simp_all add: rows(1) nth_enumerate_eq)
  then have "sum_list (map fst rows) = sum_list (map (lineGasAt s) [0..<length ?lines])" by (rule arg_cong)
  also have "\<dots> = lineTotal s"
    using ok by (simp add: single_ok_def lineTotal_def lineGasAt_def sum_lookup interv_sum_list_conv_sum_set_nat atLeast0LessThan)
  finally have "sum_list (map fst rows) + synth = lineTotal s + si_synthCost s" by (simp add: rows(2))
  moreover have "map snd rows = ?lines" by (simp add: rows(1) comp_def case_prod_beta' enumerate_eq_zip)
  ultimately show ?thesis using f t by auto
qed

definition first_line :: "nat list \<Rightarrow> jnum \<Rightarrow> nat" where
  "first_line offs x = 0"

definition proxy_trace :: "slog list" where
  "proxy_trace =
     [\<lparr>sl_depth = 1, sl_gasCost = 700, sl_op = ''CALL'', sl_pc = 0, sl_stack = [replicate 24 (CHR ''0'') @ ''c'', ''1'']\<rparr>,
      \<lparr>sl_depth = 2, sl_gasCost = 3, sl_op = ''ADD'', sl_pc = 0, sl_stack = []\<rparr>,
      \<lparr>sl_depth = 2, sl_gasCost = 40, sl_op = ''STATICCALL'', sl_pc = 1, sl_stack = [replicate 24 (CHR ''0'') @ ''d'', ''1'']\<rparr>,
      \<lparr>sl_depth = 3, sl_gasCost = 9, sl_op = ''MUL'', sl_pc = 0, sl_stack = []\<rparr>,
      \<lparr>sl_depth = 2, sl_gasCost = 20000, sl_op = ''SSTORE'', sl_pc = 2, sl_stack = []\<rparr>]"

definition proxy_code :: "string \<Rightarrow> string res" where
  "proxy_code a = Inr (if a = ''0xc'' then ''0x01fa55'' else ''0x02'')"

lemma proxy_report:
  "profileSingle first_line proxy_code ''0:1:0;0:1:0;0:1:0'' ''01fa55'' ''contract'' proxy_trace = Inr (Lines [(3, ''contract'')] 0)"
  by code_simp

theorem single_gas_accounted_witness:
  "\<exists>that depth. findThatContract proxy_code ''01fa55'' proxy_trace = Inr (Some (that, depth)) \<and>
     (\<Sum>i < length proxy_trace. if accounted that depth proxy_trace i then costOf (proxy_trace ! i) else 0) = 3"
  using single_gas_accounted [OF proxy_report] by (auto simp: first_line_def)

text \<open>
  after the profiled contract has made a call of its own, nothing it executes is charged any
  more until it is called again: the address of the last call instruction is never restored when
  that call returns, and the call instruction itself is already attributed to its target.
\<close>

theorem single_loses_caller:
  assumes "singleLogs closest tb that depth (g # gs) s = Inr s'"
    and "sl_op g \<in> set callOpCodes" and "extractAddrFromCall (sl_stack g) \<noteq> Inr that"
    and "list_all (\<lambda>h. extractAddrFromCall (sl_stack h) \<noteq> Inr that) (calls gs)"
  shows "si_lineGas s' = si_lineGas s \<and> si_synthCost s' = si_synthCost s"
proof -
  have rest: "si_lineGas u' = si_lineGas u \<and> si_synthCost u' = si_synthCost u"
    if "singleLogs closest tb that depth hs u = Inr u'" and "si_lastContract u \<noteq> Some that"
      and "list_all (\<lambda>h. extractAddrFromCall (sl_stack h) \<noteq> Inr that) (calls hs)" for hs u u'
    using that
  proof (induction hs arbitrary: u)
    case (Cons h hs)
    from Cons.prems obtain u1 where u1: "singleLog closest tb that depth h u = Inr u1"
      and r: "singleLogs closest tb that depth hs u1 = Inr u'" by (auto simp: bindR_eq_Inr)
    have "si_lineGas u1 = si_lineGas u \<and> si_synthCost u1 = si_synthCost u \<and> si_lastContract u1 \<noteq> Some that"
      using u1 Cons.prems(2,3) by (auto simp: singleLog_def bindR_eq_Inr calls_def split: if_splits)
    with Cons.IH [OF r] Cons.prems(3) show ?case by (auto simp: calls_def split: if_splits)
  qed simp
  from assms(1) obtain s1 where s1: "singleLog closest tb that depth g s = Inr s1"
    and r: "singleLogs closest tb that depth gs s1 = Inr s'" by (auto simp: bindR_eq_Inr)
  have "si_lineGas s1 = si_lineGas s \<and> si_synthCost s1 = si_synthCost s \<and> si_lastContract s1 \<noteq> Some that"
    using s1 assms(2,3) by (auto simp: singleLog_def bindR_eq_Inr split: if_splits)
  with rest [OF r _ assms(4)] show ?thesis by auto
qed

theorem single_loses_caller_witness:
  "\<exists>s. singleLogs first_line \<lparr>tb_pcToIdx = Map.empty, tb_sourceMap = [], tb_lineOffsets = []\<rparr> ''0xc'' 2 (drop 2 proxy_trace)
       \<lparr>si_lineGas = [(0, 3)], si_synthCost = 0, si_lastContract = Some ''0xc''\<rparr> = Inr s \<and> si_lineGas s = [(0, 3)]"
proof -
  let ?tb = "\<lparr>tb_pcToIdx = Map.empty, tb_sourceMap = [], tb_lineOffsets = []\<rparr>"
  let ?s = "\<lparr>si_lineGas = [(0, 3)], si_synthCost = 0, si_lastContract = Some ''0xc''\<rparr>"
  obtain s where s: "singleLogs first_line ?tb ''0xc'' 2 (drop 2 proxy_trace) ?s = Inr s"
    by (simp add: proxy_trace_def singleLog_def callOpCodes_def extractAddrFromCall_def)
  have c: "drop 2 proxy_trace = proxy_trace ! 2 # drop 3 proxy_trace" by (simp add: proxy_trace_def)
  from single_loses_caller [OF s [unfolded c]] have "si_lineGas s = si_lineGas ?s"
    by (simp add: proxy_trace_def callOpCodes_def extractAddrFromCall_def calls_def)
  with s show ?thesis by auto
qed

text \<open>All files under a directory with their paths, in the order they are visited.\<close>

fun allFiles :: "string \<Rightarrow> fs_node list \<Rightarrow> (string \<times> string) list" where
  "allFiles base [] = []"
| "allFiles base (FsDir d children # files) = allFiles (base @ ''/'' @ d) children @ allFiles base files"
| "allFiles base (FsFile f # files) = (base @ ''/'' @ f, f) # allFiles base files"

text \<open>
  the search for a contract's source is exact: it returns the paths of all files below the
  directory, at any depth, whose name without its last extension is the contract's name, each once
  and in the order of the traversal, after the results it was given.
\<close>

theorem recFindByName_exact:
  "recFindByName base name files result =
     result @ map fst (filter (\<lambda>(p, f). isSourceOf name f) (allFiles base files))"
  by (induction base name files result rule: recFindByName.induct) simp_all

text \<open>The loop from any state: what it adds is what the recursion computes.\<close>

lemma singlePcWhile_from:
  "\<exists>pc' i'. while_option (\<lambda>(pc, i, m). 2 * pc < length code) (\<lambda>(pc, i, m). (pc + singleStep code pc, i + 1, m @ [(pc, i)])) (pc, i, m) =
     Some (pc', i', m @ singlePcLoop code pc i) \<and> (i \<le> pc \<longrightarrow> 2 * i \<le> length code + 1 \<longrightarrow> 2 * i' \<le> length code + 1)"
proof (induction code pc i arbitrary: m rule: singlePcLoop.induct)
  case (1 code pc i)
  show ?case
  proof (cases "2 * pc < length code")
    case False
    then show ?thesis by (subst while_option_unfold, subst singlePcLoop.simps) simp
  next
    case True
    from "1.IH" [OF True, of "m @ [(pc, i)]"] obtain pc' i' where
      w: "while_option (\<lambda>(pc, i, m). 2 * pc < length code) (\<lambda>(pc, i, m). (pc + singleStep code pc, i + 1, m @ [(pc, i)]))
         (pc + singleStep code pc, i + 1, m @ [(pc, i)]) = Some (pc', i', (m @ [(pc, i)]) @ singlePcLoop code (pc + singleStep code pc) (i + 1))"
      and b: "i + 1 \<le> pc + singleStep code pc \<longrightarrow> 2 * (i + 1) \<le> length code + 1 \<longrightarrow> 2 * i' \<le> length code + 1"
      by blast
    have "i \<le> pc \<longrightarrow> 2 * i' \<le> length code + 1" using b True singleStep_pos [of code pc] by auto
    with True w show ?thesis by (subst while_option_unfold, subst singlePcLoop.simps) simp
  qed
qed

text \<open>
  C39: the loop over the program counters returns on every input, malformed code included: it ends
  with the instruction index of every instruction start in the mapping, after at most one round
  for every two characters of the code.
\<close>

theorem single_pc_loop_returns:
  "\<exists>pc rounds. singlePcWhile code = Some (pc, rounds, buildPcToInstructionMapping code) \<and> 2 * rounds \<le> length code + 1"
  using singlePcWhile_from [of code 0 0 "[]"] by (auto simp: singlePcWhile_def pcLoop_agree buildPcToInstructionMapping_def)

end
