(* ===== verification/SingleMain.thy ===== *)
theory SingleMain
  imports SingleGas
begin

text \<open>
  The main function of gasprofile/profile_gas_single_contract.js up to the trace: the directories are
  read from the text of the Buidler configuration, the contract's file is looked up by name, and
  solc's output gives its code and source map.  The files and the node are parameters.
\<close>

section \<open>The configuration's text\<close>

text \<open>\<open>[\w\.\/]\<close>\<close>

definition path_char :: "char \<Rightarrow> bool" where
  "path_char c \<longleftrightarrow> of_char c \<in> {0x30..0x39 :: nat} \<or> of_char c \<in> {0x41..0x5A :: nat} \<or> of_char c \<in> {0x61..0x7A :: nat} \<or>
     c = CHR ''_'' \<or> c = CHR ''.'' \<or> c = CHR ''/''"

text \<open>\<open>text.match(/key: '([\w\.\/]+)'/)\<close>; the quote ends the run of path characters.\<close>

definition quotedAt :: "string \<Rightarrow> string \<Rightarrow> string option" where
  "quotedAt key s =
     (let prefix = key @ '': '' @ [CHR 0x27]; r = drop (length prefix) s; p = takeWhile path_char r
      in if starts_with prefix s \<and> p \<noteq> [] \<and> take 1 (drop (length p) r) = [CHR 0x27] then Some p else None)"

fun matchQuoted :: "string \<Rightarrow> string \<Rightarrow> string option" where
  "matchQuoted key [] = None"
| "matchQuoted key (c # cs) = (case quotedAt key (c # cs) of Some p \<Rightarrow> Some p | None \<Rightarrow> matchQuoted key cs)"

text \<open>\<open>const [, dir] = text.match(...)\<close>: no match is \<open>null\<close>, which cannot be taken apart.\<close>

definition matched :: "string \<Rightarrow> string \<Rightarrow> string res" where
  "matched key text = (case matchQuoted key text of None \<Rightarrow> Inl TypeError | Some p \<Rightarrow> Inr p)"

section \<open>main\<close>

record single_outside =
  so_read :: "string \<Rightarrow> string res"
  so_parse :: "string \<Rightarrow> jsval res"
  so_tree :: "string \<Rightarrow> fs_node list"
  so_join :: "string \<Rightarrow> string \<Rightarrow> string"
  so_relative :: "string \<Rightarrow> string \<Rightarrow> string"
  so_trace :: "string \<Rightarrow> slog list res"
  so_getCode :: "string \<Rightarrow> string res"
  so_closest :: "nat list \<Rightarrow> jnum \<Rightarrow> nat"

definition foundFirst :: "string list \<Rightarrow> string res" where
  "foundFirst found = (case found of [] \<Rightarrow> Inl TypeError | p # _ \<Rightarrow> Inr p)"

text \<open>\<open>output.contracts[file][name].evm.deployedBytecode\<close>\<close>

definition deployedBytecode :: "jsval \<Rightarrow> string \<Rightarrow> string \<Rightarrow> jsval res" where
  "deployedBytecode solcOutput file name =
     bindR (getp solcOutput ''contracts'') (\<lambda>contracts.
     bindR (getp contracts file) (\<lambda>inFile.
     bindR (getp inFile name) (\<lambda>contract.
     bindR (getp contract ''evm'') (\<lambda>evm. getp evm ''deployedBytecode''))))"

definition as_text :: "jsval \<Rightarrow> string res" where
  "as_text v = (case v of JStr s \<Rightarrow> Inr s | _ \<Rightarrow> Inl TypeError)"

definition singleMain :: "single_outside \<Rightarrow> string \<Rightarrow> string \<Rightarrow> string \<Rightarrow> string \<Rightarrow> single_report res" where
  "singleMain T dirname buidlerConfigPath contractName txHash =
     bindR (so_read T buidlerConfigPath) (\<lambda>buidlerConfigText.
     bindR (matched ''sources'' buidlerConfigText) (\<lambda>sourcesDir.
     bindR (matched ''cache'' buidlerConfigText) (\<lambda>cacheDir.
     let sourcesRoot = so_join T dirname sourcesDir;
         foundContracts = recFindByName sourcesRoot contractName (so_tree T sourcesRoot) [];
         solcOutputPath = so_join T (so_join T dirname cacheDir) ''solc-output.json''
     in bindR (so_read T solcOutputPath) (\<lambda>text. bindR (so_parse T text) (\<lambda>solcOutput.
        bindR (foundFirst foundContracts) (\<lambda>contractPath.
        let relContractPath = so_relative T sourcesRoot contractPath
        in bindR (deployedBytecode solcOutput (so_join T sourcesDir relContractPath) contractName) (\<lambda>bytecode.
           bindR (getp bytecode ''sourceMap'') (\<lambda>sourceMap.
           bindR (getp bytecode ''object'') (\<lambda>code.
           bindR (so_read T contractPath) (\<lambda>src.
           bindR (as_text sourceMap) (\<lambda>sm.
           bindR (so_trace T txHash) (\<lambda>logs.
           bindR (as_text code) (\<lambda>c.
           profileSingle (so_closest T) (so_getCode T) sm c src logs)))))))))))))"

text \<open>
  \<open>showAllPointsInSourceMap\<close>, a call of which is commented out: how many entries of the source map
  point into each line.
\<close>

definition linePoints :: "(nat list \<Rightarrow> jnum \<Rightarrow> nat) \<Rightarrow> sm_entry list \<Rightarrow> nat list \<Rightarrow> (nat \<times> nat) list" where
  "linePoints closest sourceMap lineOffsets =
     fold (\<lambda>e points. if sm_f e = Fin (- 1) then points
        else (let line = closest lineOffsets (sm_s e)
              in obj_set line ((case map_of points line of None \<Rightarrow> 0 | Some n \<Rightarrow> n) + 1) points)) sourceMap []"

definition showAllPoints :: "(nat list \<Rightarrow> jnum \<Rightarrow> nat) \<Rightarrow> sm_entry list \<Rightarrow> string \<Rightarrow> nat list \<Rightarrow> (nat \<times> nat \<times> nat \<times> string) list" where
  "showAllPoints closest sourceMap src lineOffsets =
     (let points = linePoints closest sourceMap lineOffsets
      in map (\<lambda>(i, line). (i, lineOffsets ! i, (case map_of points i of None \<Rightarrow> 0 | Some n \<Rightarrow> n), line))
           (enumerate 0 (split_on (CHR 0x0A) src)))"

section \<open>Lemmas\<close>

lemma quotedAt_Some:
  assumes "quotedAt key s = Some p"
  shows "\<exists>rest. s = key @ '': '' @ [CHR 0x27] @ p @ [CHR 0x27] @ rest \<and> p \<noteq> [] \<and> list_all path_char p"
proof -
  let ?prefix = "key @ '': '' @ [CHR 0x27]"
  let ?r = "drop (length ?prefix) s"
  from assms have p: "p = takeWhile path_char ?r" "p \<noteq> []" "starts_with ?prefix s" "take 1 (drop (length p) ?r) = [CHR 0x27]"
    unfolding quotedAt_def Let_def by (auto split: if_splits)
  from p(3) have s: "s = ?prefix @ ?r" unfolding starts_with_def by (metis append_take_drop_id)
  obtain rest where "drop (length p) ?r = CHR 0x27 # rest"
    using p(4) by (cases "drop (length p) ?r") auto
  then have "?r = p @ CHR 0x27 # rest" using p(1) by (metis append_eq_conv_conj takeWhile_eq_take append_take_drop_id)
  with s p(1,2) show ?thesis
    by (intro exI [of _ rest]) (auto simp: list_all_iff dest: set_takeWhileD)
qed

lemma matchQuoted_Some:
  "matchQuoted key s = Some p \<Longrightarrow> \<exists>before rest. s = before @ key @ '': '' @ [CHR 0x27] @ p @ [CHR 0x27] @ rest \<and>
     p \<noteq> [] \<and> list_all path_char p"
proof (induction s)
  case (Cons c cs)
  show ?case
  proof (cases "quotedAt key (c # cs)")
    case None
    with Cons obtain before rest where "cs = before @ key @ '': '' @ [CHR 0x27] @ p @ [CHR 0x27] @ rest" "p \<noteq> []" "list_all path_char p"
      by auto
    then show ?thesis by (intro exI [of _ "c # before"] exI [of _ rest]) simp
  next
    case (Some q)
    with Cons.prems have "q = p" by simp
    with quotedAt_Some [OF Some] show ?thesis by (metis append_Nil)
  qed
qed simp

lemma recFind_files:
  "recFindByName base name files result =
     result @ map fst (filter (\<lambda>(p, f). isSourceOf name f) (allFiles base files))"
  by (induction base name files result rule: recFindByName.induct) simp_all

lemma found_exact:
  "recFindByName base name files [] = map fst (filter (\<lambda>(p, f). isSourceOf name f) (allFiles base files))"
  by (simp add: recFind_files)

section \<open>Properties\<close>

text \<open>
  a report of the single-contract profiler is that of the first file, in the order of the
  directory tree, with the contract's name, even where other files have the same name: the check for
  exactly one file only prints.
\<close>

theorem single_main_takes_first:
  assumes "singleMain T dirname config contractName txHash = Inr report"
  shows "\<exists>cfg sourcesDir p f rest sm code src logs. so_read T config = Inr cfg \<and> matchQuoted ''sources'' cfg = Some sourcesDir \<and>
    filter (\<lambda>(p, f). isSourceOf contractName f) (allFiles (so_join T dirname sourcesDir) (so_tree T (so_join T dirname sourcesDir))) =
      (p, f) # rest \<and> so_read T p = Inr src \<and> so_trace T txHash = Inr logs \<and>
    profileSingle (so_closest T) (so_getCode T) sm code src logs = Inr report"
proof -
  from assms obtain cfg sourcesDir p code sm src logs where cfg: "so_read T config = Inr cfg" "matched ''sources'' cfg = Inr sourcesDir"
    and p: "foundFirst (recFindByName (so_join T dirname sourcesDir) contractName (so_tree T (so_join T dirname sourcesDir)) []) = Inr p"
    and rest: "so_read T p = Inr src" "so_trace T txHash = Inr logs"
      "profileSingle (so_closest T) (so_getCode T) sm code src logs = Inr report"
    unfolding singleMain_def Let_def by (auto simp: bindR_eq_Inr)
  from cfg(2) have "matchQuoted ''sources'' cfg = Some sourcesDir" by (auto simp: matched_def split: option.splits)
  moreover from p obtain f r where "filter (\<lambda>(p, f). isSourceOf contractName f)
      (allFiles (so_join T dirname sourcesDir) (so_tree T (so_join T dirname sourcesDir))) = (p, f) # r"
    unfolding foundFirst_def found_exact by (auto split: list.splits)
  ultimately show ?thesis using cfg(1) rest by blast
qed

definition two_files :: single_outside where
  "two_files = \<lparr>so_read = (\<lambda>p. Inr (if p = ''buidler'' then ''sources: '' @ [CHR 0x27] @ ''c'' @ [CHR 0x27] @ '', cache: '' @ [CHR 0x27] @ ''k'' @ [CHR 0x27]
       else if p = ''./c/A.sol'' then ''contract'' else if p = ''./c/old/A.sol'' then ''older'' else [])),
     so_parse = (\<lambda>_. Inr (JObj [(''contracts'', JObj [(''c/A.sol'', JObj [(''A'', JObj [(''evm'', JObj [(''deployedBytecode'',
       JObj [(''sourceMap'', JStr ''0:1:0;0:1:0;0:1:0''), (''object'', JStr ''01fa55'')])])])])])])),
     so_tree = (\<lambda>_. [FsFile ''A.sol'', FsDir ''old'' [FsFile ''A.sol'']]),
     so_join = (\<lambda>a b. a @ ''/'' @ b), so_relative = (\<lambda>a b. drop (length a + 1) b),
     so_trace = (\<lambda>_. Inr proxy_trace), so_getCode = proxy_code, so_closest = first_line\<rparr>"

theorem single_main_takes_first_witness:
  "\<exists>p f rest. singleMain two_files ''.'' ''buidler'' ''A'' ''0x1'' = Inr (Lines [(3, ''contract'')] 0) \<and> rest \<noteq> [] \<and>
     filter (\<lambda>(p, f). isSourceOf ''A'' f) (allFiles ''./c'' [FsFile ''A.sol'', FsDir ''old'' [FsFile ''A.sol'']]) = (p, f) # rest"
proof -
  have run: "singleMain two_files ''.'' ''buidler'' ''A'' ''0x1'' = Inr (Lines [(3, ''contract'')] 0)" by code_simp
  have cfg: "so_read two_files ''buidler'' = Inr cfg \<Longrightarrow> matchQuoted ''sources'' cfg = Some d \<Longrightarrow> d = ''c''" for cfg d
  proof -
    have "bindR (so_read two_files ''buidler'') (matched ''sources'') = Inr ''c''" by code_simp
    then show "so_read two_files ''buidler'' = Inr cfg \<Longrightarrow> matchQuoted ''sources'' cfg = Some d \<Longrightarrow> d = ''c''"
      by (simp add: matched_def)
  qed
  have two: "length (filter (\<lambda>(p, f). isSourceOf ''A'' f) (allFiles ''./c'' [FsFile ''A.sol'', FsDir ''old'' [FsFile ''A.sol'']])) = 2"
    by code_simp
  have t: "so_join two_files ''.'' ''c'' = ''./c''" "so_tree two_files x = [FsFile ''A.sol'', FsDir ''old'' [FsFile ''A.sol'']]" for x
    by (simp_all add: two_files_def)
  from single_main_takes_first [OF run] obtain cfg d p f rest where "so_read two_files ''buidler'' = Inr cfg"
    "matchQuoted ''sources'' cfg = Some d" and r: "filter (\<lambda>(p, f). isSourceOf ''A'' f)
      (allFiles (so_join two_files ''.'' d) (so_tree two_files (so_join two_files ''.'' d))) = (p, f) # rest" by blast
  then have "d = ''c''" using cfg by blast
  from r [unfolded this t] have "filter (\<lambda>(p, f). isSourceOf ''A'' f)
      (allFiles ''./c'' [FsFile ''A.sol'', FsDir ''old'' [FsFile ''A.sol'']]) = (p, f) # rest" .
  moreover from this two have "rest \<noteq> []" by (metis length_Cons list.size(3) numeral_2_eq_2 nat.inject zero_neq_one One_nat_def)
  ultimately show ?thesis using run by blast
qed

end
