(* ===== verification/GasCommand.thy ===== *)
theory GasCommand
  imports GasMain
begin

text \<open>
  The command line of gasprofile/gasprofile.js: the positional arguments and options it declares, with
  their aliases, types and defaults, the fields of the parsed arguments that \<open>main\<close> reads, and the exit
  code of a run.  The parser (yargs) is a parameter: it gets the declarations and the words of the
  command line, and gives the fields by the names the program reads them by.
\<close>

section \<open>The options\<close>

datatype opt_value = OptString "string option" | OptArray "string list"

record cli_option =
  co_key :: string
  co_alias :: "string option"
  co_type :: string
  co_default :: "opt_value option"

definition gas_positionals :: "(string \<times> string) list" where
  "gas_positionals = [(''solc-output-json'', ''string''), (''transaction-hash-or-dump'', ''string'')]"

definition gas_options :: "cli_option list" where
  "gas_options =
     [\<lparr>co_key = ''i'', co_alias = Some ''solc-input-json'', co_type = ''string'', co_default = None\<rparr>,
      \<lparr>co_key = ''S'', co_alias = Some ''skip'', co_type = ''array'', co_default = Some (OptArray [])\<rparr>,
      \<lparr>co_key = ''only-address'', co_alias = None, co_type = ''string'', co_default = None\<rparr>,
      \<lparr>co_key = ''R'', co_alias = Some ''src-root'', co_type = ''string'', co_default = Some (OptString (Some ''.''))\<rparr>,
      \<lparr>co_key = ''e'', co_alias = Some ''rpc-endpoint'', co_type = ''string'',
         co_default = Some (OptString (Some ''http://localhost:8545''))\<rparr>,
      \<lparr>co_key = ''dump-to'', co_alias = None, co_type = ''string'', co_default = Some (OptString None)\<rparr>]"

type_synonym cli_parser =
  "(string \<times> string) list \<Rightarrow> cli_option list \<Rightarrow> string list \<Rightarrow> (string \<Rightarrow> opt_value option) res"

definition string_value :: "opt_value option \<Rightarrow> string option" where
  "string_value v = (case v of Some (OptString s) \<Rightarrow> s | _ \<Rightarrow> None)"

definition needed_string :: "opt_value option \<Rightarrow> string res" where
  "needed_string v = (case string_value v of Some s \<Rightarrow> Inr s | None \<Rightarrow> Inl TypeError)"

definition needed_array :: "opt_value option \<Rightarrow> string list res" where
  "needed_array v = (case v of Some (OptArray xs) \<Rightarrow> Inr xs | _ \<Rightarrow> Inl TypeError)"

text \<open>The arguments \<open>main\<close> gets; those that are declared with a string or a list as default have a value.\<close>

definition gasArgv :: "cli_parser \<Rightarrow> string list \<Rightarrow> gas_argv res" where
  "gasArgv parse words =
     bindR (parse gas_positionals gas_options words) (\<lambda>argv.
     bindR (needed_string (argv ''transactionHashOrDump'')) (\<lambda>target.
     bindR (needed_string (argv ''solcOutputJson'')) (\<lambda>solcOutput.
     bindR (needed_array (argv ''skip'')) (\<lambda>skip.
     bindR (needed_string (argv ''srcRoot'')) (\<lambda>srcRoot.
     bindR (needed_string (argv ''rpcEndpoint'')) (\<lambda>rpcEndpoint.
     Inr \<lparr>ga_target = target, ga_solcOutput = solcOutput, ga_solcInput = string_value (argv ''solcInputJson''), ga_skip = skip,
          ga_onlyAddress = string_value (argv ''onlyAddress''), ga_srcRoot = srcRoot, ga_rpcEndpoint = rpcEndpoint,
          ga_dumpTo = string_value (argv ''dumpTo'')\<rparr>))))))"

section \<open>The exit code\<close>

text \<open>The \<open>catch\<close> handler ends the process before the handler that follows it runs.\<close>

definition profilerExit :: "bool res \<Rightarrow> nat" where
  "profilerExit r = (case r of Inl e \<Rightarrow> 2 | Inr success \<Rightarrow> (if success then 0 else 1))"

definition refusals :: "gas_argv \<Rightarrow> out_line list" where
  "refusals argv =
     [Text ''Dumping the trace is only supported when not running from a dump'',
      Text (''Dump file '' @ ga_target argv @ '' not found''), Text ''Transaction not found'',
      Text ''The transaction target address is not a contract'']"

section \<open>Properties\<close>

lemma ended_simps [simp]:
  "gr_out (ended out r) = out" "gr_result (ended out r) = r" "gr_written (ended out r) = None"
  by (simp_all add: ended_def)

text \<open>How a run may end.\<close>

definition proper_end :: "gas_argv \<Rightarrow> gas_run \<Rightarrow> bool" where
  "proper_end argv run \<longleftrightarrow>
     (case gr_result run of
        Inl e \<Rightarrow> gr_written run = None
      | Inr success \<Rightarrow>
          if success then (gr_written run \<noteq> None) = given (ga_dumpTo argv)
          else gr_out run \<noteq> [] \<and> last (gr_out run) \<in> set (refusals argv) \<and> gr_written run = None)"

lemma proper_end_ended:
  "proper_end argv (ended out (Inl e))"
  "x \<in> set (refusals argv) \<Longrightarrow> proper_end argv (ended (out @ [x]) (Inr False))"
  "\<not> given (ga_dumpTo argv) \<Longrightarrow> proper_end argv (ended out (Inr True))"
  by (simp_all add: proper_end_def)

lemma refusal_members:
  "Text ''Dumping the trace is only supported when not running from a dump'' \<in> set (refusals argv)"
  "Text (''Dump file '' @ ga_target argv @ '' not found'') \<in> set (refusals argv)"
  "Text ''Transaction not found'' \<in> set (refusals argv)"
  "Text ''The transaction target address is not a contract'' \<in> set (refusals argv)"
  unfolding refusals_def by (simp_all only: list.set insert_iff simp_thms)

lemma refused_twice: "out @ [x, y] = (out @ [x]) @ [y]"
  by simp

lemma proper_end_cases:
  "(c \<Longrightarrow> proper_end argv r1) \<Longrightarrow> (\<not> c \<Longrightarrow> proper_end argv r2) \<Longrightarrow> proper_end argv (if c then r1 else r2)"
  "(\<And>e. proper_end argv (f e)) \<Longrightarrow> (\<And>x. proper_end argv (g x)) \<Longrightarrow> proper_end argv (case r of Inl e \<Rightarrow> f e | Inr x \<Rightarrow> g x)"
  "proper_end argv r0 \<Longrightarrow> (\<And>x y. proper_end argv (h x y)) \<Longrightarrow> proper_end argv (case v of None \<Rightarrow> r0 | Some (x, y) \<Rightarrow> h x y)"
  by (simp_all split: sum.split option.split prod.split)

lemma profileTx_end: "proper_end argv (profileTx E argv traceR tx receipt)"
proof -
  have dumped: "proper_end argv \<lparr>gr_out = out, gr_result = Inr True, gr_written = Some d\<rparr>" if "given (ga_dumpTo argv)" for out d
    using that by (simp add: proper_end_def)
  show ?thesis
    unfolding profileTx_def Let_def refused_twice
    by (intro proper_end_cases proper_end_ended dumped refusal_members)
qed

lemma gasMain_end: "proper_end argv (gasMain W argv)"
proof -
  have single: "proper_end argv (ended [x] (Inr False))" if "x \<in> set (refusals argv)" for x
    using proper_end_ended(2) [OF that, of "[]"] by simp
  show ?thesis
    unfolding gasMain_def Let_def
    by (intro proper_end_cases proper_end_ended(1) single refusal_members profileTx_end)
qed

text \<open>
  C38: the exit code of the profiler says how a run ended: with 0 a dump has been written exactly when one
  was asked for; otherwise nothing has been written, and the code is 2 after an error, or 1 and the
  last line is one of the four refusals.
\<close>

theorem profiler_exit_codes:
  "(let run = gasMain W argv; code = profilerExit (gr_result run)
    in if code = 0 then (gr_written run \<noteq> None) = given (ga_dumpTo argv)
       else gr_written run = None \<and>
         (code = 2 \<and> okR (gr_result run) = False \<or>
          code = 1 \<and> gr_out run \<noteq> [] \<and> last (gr_out run) \<in> set (refusals argv)))"
  using gasMain_end [of argv W]
  by (auto simp: Let_def proper_end_def profilerExit_def split: sum.splits if_splits)

end
