(* ===== verification/MultisigDao.thy ===== *)
theory MultisigDao
  imports MultisigBase
begin

text \<open>
  scripts/multisig/08 to 11 with checks/apps.js and checks/dao-token.js: creating the DAO, checking
  the apps it installed, issuing the vested tokens in batches, and the final transaction.
\<close>

section \<open>checks/apps.js\<close>

definition appFullName :: "string \<Rightarrow> jsval \<Rightarrow> string" where
  "appFullName name ensName = name @ ''.'' @ to_str ensName"

definition appNameByAppId :: "env \<Rightarrow> jsval \<Rightarrow> string \<Rightarrow> string option" where
  "appNameByAppId E ensName appId =
     map_of (rev (map (\<lambda>name. (name_hash E (appFullName name ensName), name)) VALID_APP_NAMES)) appId"

definition assertInitializedAragonApp :: "env \<Rightarrow> string \<Rightarrow> string \<Rightarrow> unit res" where
  "assertInitializedAragonApp E inst dao =
     bindR (call_view E inst ''hasInitialized'' []) (\<lambda>initialized.
     bindR (assert_equal initialized (JBool True)) (\<lambda>_.
     bindR (call_view E inst ''kernel'' []) (\<lambda>k. assert_addressEqual E k (JStr dao))))"

text \<open>The check of one installed app: proxy and base code, dao registration, initialisation.\<close>

definition checkInstalledApp ::
  "env \<Rightarrow> string \<Rightarrow> jsval \<Rightarrow> jsval \<Rightarrow> string \<Rightarrow> jsval \<Rightarrow> jsval \<Rightarrow> (string \<times> props) res" where
  "checkInstalledApp E dao ensName proxyArtifact aragonAppArtifactName basesNamespace args =
     bindR (getp args ''appId'') (\<lambda>appId.
     bindR (getp args ''appProxy'') (\<lambda>appProxy.
     bindR (checksum E appProxy) (\<lambda>proxyAddress.
     case (case appId of JStr i \<Rightarrow> appNameByAppId E ensName i | _ \<Rightarrow> None) of
       None \<Rightarrow> Inl TypeError
     | Some appName \<Rightarrow>
         bindR (case map_of APP_ARTIFACTS appName of None \<Rightarrow> Inl TypeError | Some a \<Rightarrow> loadArtifact E a (network_name E)) (\<lambda>artifact.
         bindR (assertProxiedContractBytecode E (JStr proxyAddress) proxyArtifact artifact) (\<lambda>implAddress.
         bindR (call_view E dao ''getApp'' [basesNamespace, appId]) (\<lambda>kernelBaseAddr.
         bindR (assert_addressEqual E kernelBaseAddr implAddress) (\<lambda>_.
         bindR (contract_at E aragonAppArtifactName (JStr proxyAddress)) (\<lambda>inst.
         bindR (assertInitializedAragonApp E inst dao) (\<lambda>_.
         Inr (appName, [(''name'', JStr appName), (''fullName'', JStr (appFullName appName ensName)), (''id'', appId),
                (''proxyAddress'', JStr proxyAddress)]))))))))))"

definition assertInstalledApps ::
  "env \<Rightarrow> string \<Rightarrow> string \<Rightarrow> jsval \<Rightarrow> string \<Rightarrow> string \<Rightarrow> jsval \<Rightarrow> (string \<times> props) list res" where
  "assertInstalledApps E template dao ensName proxyArtifactName aragonAppArtifactName fromBlock =
     bindR (past_events E template ''TmplAppInstalled'' (defaultFromBlock fromBlock)) (\<lambda>evts.
     let appInstalledEvents = map (\<lambda>e. evt_field e ''args'') evts
     in bindR (mapR (\<lambda>a. getp a ''appId'') appInstalledEvents) (\<lambda>ids.
        bindR (assertR (same_members ids (map (\<lambda>name. JStr (name_hash E (appFullName name ensName))) VALID_APP_NAMES))) (\<lambda>_.
        bindR (loadArtifact E proxyArtifactName (network_name E)) (\<lambda>proxyArtifact.
        bindR (call_view E dao ''APP_BASES_NAMESPACE'' []) (\<lambda>ns.
        bindR (mapR (checkInstalledApp E dao ensName proxyArtifact aragonAppArtifactName ns) appInstalledEvents) (\<lambda>data.
        Inr (fold (\<lambda>(name, d) acc. obj_set name d acc) data [])))))))"

section \<open>08-deploy-dao.js\<close>

record repo_info =
  ri_appName :: string
  ri_contractAddress :: jsval
  ri_contentURI :: jsval

definition repoInfo :: "env \<Rightarrow> jsval \<Rightarrow> repo_info res" where
  "repoInfo E evt =
     bindR (contract_at E ''Repo'' (evt_arg evt ''repo'')) (\<lambda>repo.
     bindR (call_view E repo ''getLatest'' []) (\<lambda>latest.
     bindR (getp latest ''contractAddress'') (\<lambda>contractAddress.
     bindR (getp latest ''contentURI'') (\<lambda>contentURI.
     Inr \<lparr>ri_appName = to_str (evt_arg evt ''name''), ri_contractAddress = contractAddress, ri_contentURI = contentURI\<rparr>))))"

definition checkLidoRepo :: "props \<Rightarrow> repo_info \<Rightarrow> unit res" where
  "checkLidoRepo state app =
     (let appState = obj_get state (appKey (ri_appName app))
      in bindR (getp appState ''baseAddress'') (\<lambda>base.
         bindR (assert_equal (ri_contractAddress app) base) (\<lambda>_.
         bindR (getp appState ''contentURI'') (\<lambda>uri.
         assert_equal (ri_contentURI app) uri))))"

definition checkAragonRepo :: "env \<Rightarrow> string \<Rightarrow> repo_info \<Rightarrow> unit res" where
  "checkAragonRepo E ens app =
     (let upstreamRepoName = drop 7 (ri_appName app) @ ''.aragonpm.eth''
      in bindR (resolveLatestVersion E (name_hash E upstreamRepoName) ens) (\<lambda>latest.
         bindR (getp latest ''contractAddress'') (\<lambda>contractAddress.
         bindR (assert_equal (ri_contractAddress app) contractAddress) (\<lambda>_.
         bindR (getp latest ''contentURI'') (\<lambda>contentURI.
         assert_equal (ri_contentURI app) contentURI)))))"

definition checkAppRepos :: "env \<Rightarrow> props \<Rightarrow> unit res" where
  "checkAppRepos E state =
     bindR (get_receipt E (obj_get state ''createAppReposTx'')) (\<lambda>receipt.
     bindR (assertR (truthy receipt)) (\<lambda>_.
     bindR (read_artifact E ''APMRegistry'') (\<lambda>_.
     bindR (receipt_events E receipt ''NewRepo'') (\<lambda>events.
     let repoIds = map (\<lambda>evt. evt_arg evt ''id'') events;
         expectedIds = map (\<lambda>name. JStr (name_hash E (appFullName name (obj_get state ''lidoApmEnsName'')))) VALID_APP_NAMES
     in bindR (assertR (same_members repoIds expectedIds)) (\<lambda>_.
        bindR (mapR (repoInfo E) events) (\<lambda>appsInfo.
        bindR (forR (checkLidoRepo state) (filter (\<lambda>i. \<not> starts_with ''aragon-'' (ri_appName i)) appsInfo)) (\<lambda>_.
        bindR (contract_at E ''ENS'' (obj_get state ''ensAddress'')) (\<lambda>ens.
        forR (checkAragonRepo E ens) (filter (\<lambda>i. starts_with ''aragon-'' (ri_appName i)) appsInfo)))))))))"

definition propsOf :: "jsval \<Rightarrow> string list \<Rightarrow> jsval list res" where
  "propsOf v ks = mapR (getp v) ks"

definition deployDAO_08 :: "env \<Rightarrow> unit prog" where
  "deployDAO_08 E =
     bindP (requireState E [''ensAddress'', ''multisigAddress'', ''daoTemplateAddress'', appKey (APP_NAMES LIDO),
       appKey (APP_NAMES ORACLE), appKey (APP_NAMES NODE_OPERATORS_REGISTRY), ''daoInitialSettings'']) (\<lambda>state0.
     bindP (at_addr E ''LidoTemplate'' (obj_get state0 ''daoTemplateAddress'')) (\<lambda>template.
     bindP (liftP (assertLastEvent E template ''TmplReposCreated'' (obj_get state0 ''daoTemplateDeployBlock''))) (\<lambda>evt.
     bindP (persistState E (obj_set ''createAppReposTx'' (evt_field evt ''transactionHash'') state0) []) (\<lambda>state.
     bindP (liftP (checkAppRepos E state)) (\<lambda>_.
     let settings = obj_get state ''daoInitialSettings''
     in bindP (prop_of settings ''voting'') (\<lambda>voting.
        bindP (liftP (propsOf voting [''minSupportRequired'', ''minAcceptanceQuorum'', ''voteDuration''])) (\<lambda>votingSettings.
        bindP (prop_of settings ''beaconSpec'') (\<lambda>spec.
        bindP (liftP (propsOf spec [''epochsPerFrame'', ''slotsPerEpoch'', ''secondsPerSlot'', ''genesisTime''])) (\<lambda>beaconSpec.
        bindP (prop_of settings ''token'') (\<lambda>token.
        bindP (liftP (propsOf token [''name'', ''symbol''])) (\<lambda>names.
        bindP (prop_of spec ''depositContractAddress'') (\<lambda>specDeposit.
        bindP (saveTx E template ''newDAO'' ''tx-05-deploy-dao.json''
          (names @ [JArr votingSettings,
             if truthy specDeposit then specDeposit else obj_get state ''depositContractAddress'', JArr beaconSpec])
          (obj_get state ''multisigAddress'')) (\<lambda>_. returnP ())))))))))))))"

section \<open>09-obtain-deployed-dao.js\<close>

definition mergeApps :: "(string \<times> props) list \<Rightarrow> props \<Rightarrow> props" where
  "mergeApps apps state =
     fold (\<lambda>(name, d) st. obj_set (appKey name) (JObj (obj_assign (own_props (obj_get st (appKey name))) d)) st) apps state"

definition obtainDeployedDAO_09 :: "env \<Rightarrow> unit prog" where
  "obtainDeployedDAO_09 E =
     bindP (requireState E [''lidoApmEnsName'', ''daoTemplateAddress'', appKey (APP_NAMES LIDO), appKey (APP_NAMES ORACLE),
       appKey (APP_NAMES NODE_OPERATORS_REGISTRY)]) (\<lambda>state0.
     bindP (at_addr E ''LidoTemplate'' (obj_get state0 ''daoTemplateAddress'')) (\<lambda>template.
     bindP (liftP (assertLastEvent E template ''TmplDAOAndTokenDeployed'' (obj_get state0 ''daoTemplateDeployBlock''))) (\<lambda>evt.
     bindP (persistState E (obj_set ''newDaoTx'' (evt_field evt ''transactionHash'') state0) []) (\<lambda>state.
     bindP (at_addr E ''Kernel'' (evt_arg evt ''dao'')) (\<lambda>dao.
     bindP (at_addr E ''MiniMeToken'' (evt_arg evt ''token'')) (\<lambda>daoToken.
     let st1 = obj_set ''daoTokenAddress'' (JStr daoToken) (obj_set ''daoAddress'' (JStr dao) state)
     in bindP (liftP (assertInstalledApps E template dao (obj_get st1 ''lidoApmEnsName'')
                 ''external:AppProxyUpgradeable_DAO'' ''AragonApp'' (obj_get st1 ''daoTemplateDeployBlock''))) (\<lambda>apps.
        bindP (persistState E (mergeApps apps st1) []) (\<lambda>_. returnP ()))))))))"

section \<open>10-issue-tokens.js\<close>

definition MAX_HOLDERS_IN_ONE_TX :: nat where
  "MAX_HOLDERS_IN_ONE_TX = 30"

fun bigSum :: "env \<Rightarrow> jsval list \<Rightarrow> int \<Rightarrow> int res" where
  "bigSum E [] acc = Inr acc"
| "bigSum E (amount # amounts) acc = bindR (bn_new E amount) (\<lambda>a. bigSum E amounts (acc + a))"

definition batchFile :: "nat \<Rightarrow> string" where
  "batchFile i = ''tx-06-'' @ dec_int (int (i + 1)) @ ''-issue-tokens.json''"

definition vestingTail :: "jsval \<Rightarrow> jsval list res" where
  "vestingTail vesting = propsOf vesting [''start'', ''cliff'', ''end'', ''revokable'']"

text \<open>
  The loop over batches: \<open>n\<close> iterations left of which the next is number \<open>i\<close>; \<open>endTotalSupply\<close> is
  the running total.
\<close>

fun issueLoop ::
  "env \<Rightarrow> string \<Rightarrow> jsval \<Rightarrow> jsval list \<Rightarrow> jsval list \<Rightarrow> jsval list \<Rightarrow> nat \<Rightarrow> nat \<Rightarrow> nat \<Rightarrow> int \<Rightarrow> unit prog" where
  "issueLoop E template from vest holders amounts k 0 i endTotalSupply w = (Inr (), w)"
| "issueLoop E template from vest holders amounts k (Suc n) i endTotalSupply w =
     (let startIndex = i * k;
          iHolders = take k (drop startIndex holders);
          iAmounts = take k (drop startIndex amounts)
      in bindP (liftP (bigSum E iAmounts 0)) (\<lambda>s.
         bindP (saveCallTxData E template ''issueTokens'' (batchFile i)
                  ([JArr iHolders, JArr iAmounts] @ vest @ [JStr (''0x'' @ to_hex E (endTotalSupply + s))])
                  (i = 0) [(''from'', from)]) (\<lambda>_.
         issueLoop E template from vest holders amounts k n (Suc i) (endTotalSupply + s))) w)"

definition batchCount :: "nat \<Rightarrow> nat" where
  "batchCount n = (let k = min MAX_HOLDERS_IN_ONE_TX n in if k = 0 then 0 else (n + k - 1) div k)"

definition issueTokens_10 :: "env \<Rightarrow> unit prog" where
  "issueTokens_10 E =
     bindP (requireState E [''daoAddress'', ''daoTemplateAddress'', ''vestingParams'']) (\<lambda>state.
     bindP (at_addr E ''LidoTemplate'' (obj_get state ''daoTemplateAddress'')) (\<lambda>template.
     bindP (liftP (assertLastEvent E template ''TmplDAOAndTokenDeployed'' (obj_get state ''daoTemplateDeployBlock''))) (\<lambda>_.
     let vesting = obj_get state ''vestingParams''
     in bindP (prop_of vesting ''holders'') (\<lambda>holdersObj.
        bindP (liftP (if not_nullish holdersObj then Inr (own_props holdersObj) else Inl TypeError)) (\<lambda>pairs.
        bindP (prop_of vesting ''unvestedTokensAmount'') (\<lambda>unvested.
        bindP (liftP (bindR (bn_new E unvested) (bigSum E (map snd pairs)))) (\<lambda>totalSupply.
        bindP (liftP (if totalSupply = 0 \<and> pairs \<noteq> [] then Inl (External ''division by zero'') else Inr ())) (\<lambda>_.
        bindP (liftP (vestingTail vesting)) (\<lambda>vest.
        issueLoop E template (obj_get state ''multisigAddress'') vest (map (\<lambda>p. JStr (fst p)) pairs) (map snd pairs)
          (min MAX_HOLDERS_IN_ONE_TX (length pairs)) (batchCount (length pairs)) 0 0)))))))))"

section \<open>checks/dao-token.js\<close>

definition noVesting :: "jserr \<Rightarrow> bool" where
  "noVesting e = (case e of External m \<Rightarrow> contains ''TM_NO_VESTING'' m | Error m \<Rightarrow> contains ''TM_NO_VESTING'' m | _ \<Rightarrow> False)"

definition getVestingOrNull :: "env \<Rightarrow> string \<Rightarrow> string \<Rightarrow> jsval res" where
  "getVestingOrNull E tokenManager addr =
     (case call_view E tokenManager ''getVesting'' [JStr addr, JInt 0] of
        Inr v \<Rightarrow> Inr v
      | Inl e \<Rightarrow> if noVesting e then Inr JNull else Inl e)"

definition checkVesting :: "int \<Rightarrow> jsval \<Rightarrow> jsval \<times> jsval \<times> jsval \<Rightarrow> unit res" where
  "checkVesting expectedTotalSupply params x =
     (case x of (vesting, balance, amount) \<Rightarrow>
        bindR (assertR (not_nullish vesting)) (\<lambda>_.
        bindR (getp vesting ''amount'') (\<lambda>a. bindR (assert_bnEqual a amount) (\<lambda>_.
        bindR (assert_bnEqual balance amount) (\<lambda>_.
        bindR (forR (\<lambda>(field, param). bindR (getp vesting field) (\<lambda>v. bindR (getp params param) (assert_bnEqual v)))
                 [(''start'', ''start''), (''cliff'', ''cliff''), (''vesting'', ''end'')]) (\<lambda>_.
        bindR (getp vesting ''revokable'') (\<lambda>v. bindR (getp params ''revokable'') (\<lambda>r. bindR (assert_equal v r) (\<lambda>_.
        if expectedTotalSupply = 0 then Inl (External ''division by zero'') else Inr ())))))))))"

definition assertVesting :: "env \<Rightarrow> string \<Rightarrow> string \<Rightarrow> jsval \<Rightarrow> jsval \<Rightarrow> unit res" where
  "assertVesting E tokenManager token vestingParams unvestedTokensManagerAddress =
     bindR (getp vestingParams ''holders'') (\<lambda>holdersObj.
     bindR (if not_nullish holdersObj then Inr (own_props holdersObj) else Inl TypeError) (\<lambda>pairs.
     bindR (mapR (\<lambda>p. getVestingOrNull E tokenManager (fst p)) pairs) (\<lambda>vestings.
     bindR (mapR (\<lambda>p. call_view E token ''balanceOf'' [JStr (fst p)]) pairs) (\<lambda>balances.
     bindR (getp vestingParams ''unvestedTokensAmount'') (\<lambda>unvested.
     bindR (bn_new E unvested) (\<lambda>unvestedTokensAmount.
     bindR (bigSum E (map snd pairs) unvestedTokensAmount) (\<lambda>expectedTotalSupply.
     bindR (forR (checkVesting expectedTotalSupply vestingParams) (zip vestings (zip balances (map snd pairs)))) (\<lambda>_.
     bindR (if 0 < unvestedTokensAmount
            then bindR (call_view E token ''balanceOf'' [unvestedTokensManagerAddress])
                   (\<lambda>b. assert_bnEqual b (JBN unvestedTokensAmount))
            else Inr ()) (\<lambda>_.
     bindR (call_view E token ''totalSupply'' []) (\<lambda>supply. assert_bnEqual supply (JBN expectedTotalSupply)))))))))))"

section \<open>11-finalize-dao.js\<close>

definition feePercents :: "string list" where
  "feePercents = [''totalPercent'', ''treasuryPercent'', ''insurancePercent'', ''nodeOperatorsPercent'']"

definition finalizeDAO_11 :: "env \<Rightarrow> unit prog" where
  "finalizeDAO_11 E =
     bindP (requireState E [''daoAddress'', ''daoTokenAddress'', ''daoAragonId'', ''daoInitialSettings'', ''vestingParams'',
       appKey (APP_NAMES ARAGON_TOKEN_MANAGER)]) (\<lambda>state.
     bindP (at_addr E ''LidoTemplate'' (obj_get state ''daoTemplateAddress'')) (\<lambda>template.
     bindP (liftP (assertLastEvent E template ''TmplTokensIssued'' (obj_get state ''daoTemplateDeployBlock''))) (\<lambda>_.
     bindP (prop_of (obj_get state (appKey (APP_NAMES ARAGON_TOKEN_MANAGER))) ''proxyAddress'') (\<lambda>tokenManagerAddress.
     bindP (at_addr E ''TokenManager'' tokenManagerAddress) (\<lambda>tokenManager.
     bindP (at_addr E ''MiniMeToken'' (obj_get state ''daoTokenAddress'')) (\<lambda>daoToken.
     bindP (prop_of (obj_get state ''daoInitialSettings'') ''fee'') (\<lambda>fee.
     bindP (liftP (propsOf fee feePercents)) (\<lambda>percents.
     let vesting = own_props (obj_get state ''vestingParams'')
     in bindP (liftP (assertVesting E tokenManager daoToken (JObj (obj_set ''unvestedTokensAmount'' (JStr ''0'') vesting)) JUndef)) (\<lambda>_.
        bindP (saveTx E template ''finalizeDAO'' ''tx-11-finalize-dao.json''
          ([obj_get state ''daoAragonId''] @ map (\<lambda>p. JNum (percentToBP (to_num p))) percents @
           [obj_get vesting ''unvestedTokensAmount'']) (obj_get state ''multisigAddress'')) (\<lambda>_. returnP ()))))))))))"

section \<open>Batches\<close>

lemma bigSum_acc: "bigSum E xs (a + b) = bindR (bigSum E xs a) (\<lambda>s. Inr (s + b))"
proof (induction xs arbitrary: a)
  case (Cons x xs)
  show ?case
  proof (cases "bn_new E x")
    case (Inr y)
    have "bigSum E xs (a + b + y) = bigSum E xs ((a + y) + b)" by (simp add: ac_simps)
    then show ?thesis using Inr Cons.IH [of "a + y"] by simp
  qed simp
qed simp

lemma bigSum_append: "bigSum E (xs @ ys) a = bindR (bigSum E xs a) (bigSum E ys)"
proof (induction xs arbitrary: a)
  case (Cons x xs)
  then show ?case by (cases "bn_new E x") simp_all
qed simp

lemma batches_cover: "concat (map (\<lambda>i. take k (drop (i * k) xs)) [0..<m]) = take (m * k) xs"
proof (induction m)
  case (Suc m)
  have "take (m * k) xs @ take k (drop (m * k) xs) = take (m * k + k) xs" by (simp add: take_add)
  with Suc show ?case by (simp add: ac_simps)
qed simp

lemma batchCount_enough:
  assumes "k = min MAX_HOLDERS_IN_ONE_TX n"
  shows "n \<le> batchCount n * k"
proof (cases "k = 0")
  case True
  with assms show ?thesis by (simp add: MAX_HOLDERS_IN_ONE_TX_def)
next
  case False
  have "n + k - 1 = (n + k - 1) div k * k + (n + k - 1) mod k" by simp
  moreover have "(n + k - 1) mod k < k" using False by simp
  ultimately have "n \<le> (n + k - 1) div k * k" using False by linarith
  moreover have "batchCount n = (n + k - 1) div k" using assms False by (simp add: batchCount_def Let_def)
  ultimately show ?thesis by simp
qed

text \<open>What one transaction of the loop holds: its slice of the holders and the supply so far.\<close>

definition batchTx ::
  "env \<Rightarrow> string \<Rightarrow> jsval \<Rightarrow> jsval list \<Rightarrow> jsval list \<Rightarrow> jsval list \<Rightarrow> nat \<Rightarrow> nat \<Rightarrow> jsval \<Rightarrow> bool" where
  "batchTx E template from vest holders amounts k i file \<longleftrightarrow>
     (\<exists>supply txd. bigSum E (take ((i + 1) * k) amounts) 0 = Inr supply \<and>
        getCallTxData E template ''issueTokens''
          ([JArr (take k (drop (i * k) holders)), JArr (take k (drop (i * k) amounts))] @ vest @
           [JStr (''0x'' @ to_hex E supply)]) (i = 0) [(''from'', from)] = Inr txd \<and>
        file = JObj (json_props (bn_json E) txd))"

lemma issueLoop_files:
  assumes "issueLoop E template from vest holders amounts k n i acc w = (Inr (), w')"
    and "bigSum E (take (i * k) amounts) 0 = Inr acc"
  shows "\<exists>fs. tx_files w' = tx_files w @ zip (map batchFile [i..<i + n]) fs \<and>
    list_all2 (batchTx E template from vest holders amounts k) [i..<i + n] fs \<and> net_files w' = net_files w"
  using assms
proof (induction n arbitrary: i acc w)
  case 0
  then show ?case by (intro exI [of _ "[]"]) simp
next
  case (Suc n)
  let ?h = "take k (drop (i * k) holders)" and ?a = "take k (drop (i * k) amounts)"
  from Suc.prems(1) obtain s txd where s: "bigSum E ?a 0 = Inr s"
    and txd: "getCallTxData E template ''issueTokens'' ([JArr ?h, JArr ?a] @ vest @ [JStr (''0x'' @ to_hex E (acc + s))])
        (i = 0) [(''from'', from)] = Inr txd"
    and r: "issueLoop E template from vest holders amounts k n (Suc i) (acc + s)
        (w\<lparr>tx_files := tx_files w @ [(batchFile i, JObj (json_props (bn_json E) txd))]\<rparr>) = (Inr (), w')"
    unfolding issueLoop.simps Let_def prog_ok by auto
  have "Suc i * k = i * k + k" by simp
  then have "take (Suc i * k) amounts = take (i * k) amounts @ ?a" by (simp only: take_add)
  moreover have "bigSum E ?a acc = Inr (acc + s)"
    using bigSum_acc [of E ?a 0 acc] s by (simp add: ac_simps)
  ultimately have t: "bigSum E (take (Suc i * k) amounts) 0 = Inr (acc + s)"
    using Suc.prems(2) by (simp add: bigSum_append)
  have b: "batchTx E template from vest holders amounts k i (JObj (json_props (bn_json E) txd))"
    unfolding batchTx_def using t txd by (auto simp: ac_simps)
  from Suc.IH [OF r t] obtain fs where
    "tx_files w' = (tx_files w @ [(batchFile i, JObj (json_props (bn_json E) txd))]) @ zip (map batchFile [Suc i..<Suc i + n]) fs"
    and "list_all2 (batchTx E template from vest holders amounts k) [Suc i..<Suc i + n] fs" and "net_files w' = net_files w"
    by auto
  moreover have "[i..<i + Suc n] = i # [Suc i..<Suc i + n]" by (simp add: upt_rec)
  ultimately show ?case using b
    by (intro exI [of _ "JObj (json_props (bn_json E) txd) # fs"]) simp
qed

section \<open>Installed apps\<close>

lemma fold_obj_set_keys:
  "fst ` set (fold (\<lambda>(n, d) acc. obj_set n d acc) xs acc) = fst ` set acc \<union> fst ` set xs"
proof (induction xs arbitrary: acc)
  case (Cons x xs)
  obtain n d where x: "x = (n, d)" by (cases x)
  from Cons.IH [of "obj_set n d acc"] keys_obj_set [of n d acc] x show ?case by simp
qed simp

lemma set_obj_set: "set (obj_set k v ps) \<subseteq> insert (k, v) (set ps)"
  by (induction ps) (auto split: if_splits)

lemma fold_obj_set_subset: "set (fold (\<lambda>(n, d) acc. obj_set n d acc) xs acc) \<subseteq> set acc \<union> set xs"
proof (induction xs arbitrary: acc)
  case (Cons x xs)
  obtain n d where x: "x = (n, d)" by (cases x)
  from Cons [of "obj_set n d acc"] set_obj_set [of n d acc] x show ?case by auto
qed simp

lemma appNameByAppId_Some:
  assumes "appNameByAppId E ensName i = Some name"
  shows "name \<in> set VALID_APP_NAMES \<and> i = name_hash E (appFullName name ensName)"
  using map_of_SomeD [OF assms [unfolded appNameByAppId_def]] by auto

text \<open>What the check of one app guarantees about the data it returns for an event.\<close>

definition appChecked :: "env \<Rightarrow> string \<Rightarrow> jsval \<Rightarrow> jsval \<Rightarrow> string \<Rightarrow> jsval \<Rightarrow> jsval \<Rightarrow> string \<times> props \<Rightarrow> bool" where
  "appChecked E dao ensName proxyArtifact aragonApp ns args x =
     (case x of (name, d) \<Rightarrow> name \<in> set VALID_APP_NAMES \<and>
        (\<exists>proxy artifactName artifact impl base inst.
           d = [(''name'', JStr name), (''fullName'', JStr (appFullName name ensName)),
                (''id'', JStr (name_hash E (appFullName name ensName))), (''proxyAddress'', JStr proxy)] \<and>
           getp args ''appId'' = Inr (JStr (name_hash E (appFullName name ensName))) \<and>
           bindR (getp args ''appProxy'') (checksum E) = Inr proxy \<and>
           map_of APP_ARTIFACTS name = Some artifactName \<and> loadArtifact E artifactName (network_name E) = Inr artifact \<and>
           assertProxiedContractBytecode E (JStr proxy) proxyArtifact artifact = Inr impl \<and>
           call_view E dao ''getApp'' [ns, JStr (name_hash E (appFullName name ensName))] = Inr base \<and> same_address E base impl \<and>
           contract_at E aragonApp (JStr proxy) = Inr inst \<and> okR (assertInitializedAragonApp E inst dao)))"

text \<open>
  What the check of all apps guarantees of one entry of its result: it is the data of an event of the
  template, checked against the named proxy artifact and the namespace the kernel itself reports.
\<close>

definition installedVerified :: "env \<Rightarrow> string \<Rightarrow> string \<Rightarrow> jsval \<Rightarrow> string \<Rightarrow> string \<Rightarrow> jsval \<Rightarrow> string \<times> props \<Rightarrow> bool" where
  "installedVerified E template dao ensName proxyArtifactName aragonApp fromBlock x \<longleftrightarrow>
     (\<exists>evts evt proxyArtifact ns. past_events E template ''TmplAppInstalled'' (defaultFromBlock fromBlock) = Inr evts \<and>
        evt \<in> set evts \<and> loadArtifact E proxyArtifactName (network_name E) = Inr proxyArtifact \<and>
        call_view E dao ''APP_BASES_NAMESPACE'' [] = Inr ns \<and>
        appChecked E dao ensName proxyArtifact aragonApp ns (evt_field evt ''args'') x)"

lemma checkInstalledApp_sound:
  assumes "checkInstalledApp E dao ensName proxyArtifact aragonApp ns args = Inr (name, d)"
  shows "appChecked E dao ensName proxyArtifact aragonApp ns args (name, d)"
    and "getp args ''appId'' = Inr (JStr (name_hash E (appFullName name ensName)))"
proof -
  from assms obtain appId proxy where id: "getp args ''appId'' = Inr appId"
    and pr: "bindR (getp args ''appProxy'') (checksum E) = Inr proxy" and r: "(case (case appId of JStr i \<Rightarrow> appNameByAppId E ensName i | _ \<Rightarrow> None) of
       None \<Rightarrow> Inl TypeError
     | Some appName \<Rightarrow>
         bindR (case map_of APP_ARTIFACTS appName of None \<Rightarrow> Inl TypeError | Some a \<Rightarrow> loadArtifact E a (network_name E)) (\<lambda>artifact.
         bindR (assertProxiedContractBytecode E (JStr proxy) proxyArtifact artifact) (\<lambda>implAddress.
         bindR (call_view E dao ''getApp'' [ns, appId]) (\<lambda>kernelBaseAddr.
         bindR (assert_addressEqual E kernelBaseAddr implAddress) (\<lambda>_.
         bindR (contract_at E aragonApp (JStr proxy)) (\<lambda>inst.
         bindR (assertInitializedAragonApp E inst dao) (\<lambda>_.
         Inr (appName, [(''name'', JStr appName), (''fullName'', JStr (appFullName appName ensName)), (''id'', appId),
                (''proxyAddress'', JStr proxy)]))))))) ) = Inr (name, d)"
    unfolding checkInstalledApp_def by (auto simp only: bindR_eq_Inr)
  then obtain appName where a: "(case appId of JStr i \<Rightarrow> appNameByAppId E ensName i | _ \<Rightarrow> None) = Some appName"
    by (cases "case appId of JStr i \<Rightarrow> appNameByAppId E ensName i | _ \<Rightarrow> None") auto
  from r [unfolded a option.case] obtain artifactName artifact impl base inst where
    n: "appName = name" and
    t: "map_of APP_ARTIFACTS appName = Some artifactName" "loadArtifact E artifactName (network_name E) = Inr artifact" and
    p: "assertProxiedContractBytecode E (JStr proxy) proxyArtifact artifact = Inr impl" and
    k: "call_view E dao ''getApp'' [ns, appId] = Inr base" "okR (assert_addressEqual E base impl)" and
    i: "contract_at E aragonApp (JStr proxy) = Inr inst" "okR (assertInitializedAragonApp E inst dao)" and
    d: "d = [(''name'', JStr name), (''fullName'', JStr (appFullName name ensName)), (''id'', appId), (''proxyAddress'', JStr proxy)]"
    by (auto simp: bindR_eq_Inr okR_unit split: option.splits)
  from a n obtain s where s: "appId = JStr s" "appNameByAppId E ensName s = Some name"
    by (auto split: jsval.splits)
  note v = appNameByAppId_Some [OF s(2)]
  show "getp args ''appId'' = Inr (JStr (name_hash E (appFullName name ensName)))" using id s v by simp
  show "appChecked E dao ensName proxyArtifact aragonApp ns args (name, d)"
    unfolding appChecked_def using p k i d s v t n id pr by auto
qed

lemma assertInstalledApps_Inr:
  assumes "assertInstalledApps E template dao ensName pan aan fb = Inr apps"
  obtains evts ids data pa ns args where
    "past_events E template ''TmplAppInstalled'' (defaultFromBlock fb) = Inr evts"
    "args = map (\<lambda>e. evt_field e ''args'') evts"
    "loadArtifact E pan (network_name E) = Inr pa" "call_view E dao ''APP_BASES_NAMESPACE'' [] = Inr ns"
    "mapR (\<lambda>a. getp a ''appId'') args = Inr ids"
    "mset ids = mset (map (\<lambda>name. JStr (name_hash E (appFullName name ensName))) VALID_APP_NAMES)"
    "mapR (checkInstalledApp E dao ensName pa aan ns) args = Inr data"
    "apps = fold (\<lambda>(name, d) acc. obj_set name d acc) data []"
proof -
  from assms obtain evts where evts: "past_events E template ''TmplAppInstalled'' (defaultFromBlock fb) = Inr evts"
    by (auto simp: assertInstalledApps_def bindR_eq_Inr)
  from assms [unfolded assertInstalledApps_def evts bindR_simps Let_def] show ?thesis
    by (auto simp only: bindR_eq_Inr assertR_eq_Inr same_members_mset sum.inject intro: that [OF evts refl])
qed

lemma installed_names:
  assumes "list_all2 (\<lambda>a i. getp a ''appId'' = Inr i) args ids"
    and "list_all2 (\<lambda>a x. checkInstalledApp E dao ensName pa aan ns a = Inr x) args data"
  shows "ids = map (\<lambda>x. JStr (name_hash E (appFullName (fst x) ensName))) data \<and>
    list_all (\<lambda>x. \<exists>a \<in> set args. appChecked E dao ensName pa aan ns a x) data"
  using assms
proof (induction args arbitrary: ids data)
  case (Cons a args)
  from Cons.prems obtain i ids' x data' where d: "ids = i # ids'" "data = x # data'"
    "getp a ''appId'' = Inr i" "checkInstalledApp E dao ensName pa aan ns a = Inr x"
    "list_all2 (\<lambda>a i. getp a ''appId'' = Inr i) args ids'"
    "list_all2 (\<lambda>a x. checkInstalledApp E dao ensName pa aan ns a = Inr x) args data'"
    by (auto simp: list_all2_Cons1)
  obtain n p where x: "x = (n, p)" by (cases x)
  note c = checkInstalledApp_sound [OF d(4) [unfolded x]]
  have "list_all (\<lambda>x. \<exists>b \<in> set (a # args). appChecked E dao ensName pa aan ns b x) data'"
    using Cons.IH [OF d(5,6)] by (auto simp: list_all_iff)
  with Cons.IH [OF d(5,6)] c d x show ?case by auto
qed auto

section \<open>Vesting\<close>

text \<open>What the settings say of a holder's vesting, field by field.\<close>

definition vestingMatches :: "jsval \<Rightarrow> jsval \<Rightarrow> jsval \<Rightarrow> bool" where
  "vestingMatches params vesting amount \<longleftrightarrow>
     not_nullish vesting \<and> (\<exists>a. getp vesting ''amount'' = Inr a \<and> to_str a = to_str amount) \<and>
     list_all (\<lambda>(field, param). \<exists>v p. getp vesting field = Inr v \<and> getp params param = Inr p \<and> to_str v = to_str p)
       [(''start'', ''start''), (''cliff'', ''cliff''), (''vesting'', ''end'')] \<and>
     (\<exists>v r. getp vesting ''revokable'' = Inr v \<and> getp params ''revokable'' = Inr r \<and> loose_eq v r)"

lemma okR_checkVesting:
  "okR (checkVesting tot params (v, b, amount)) \<Longrightarrow> vestingMatches params v amount \<and> to_str b = to_str amount"
  by (auto simp: checkVesting_def okR_bindR vestingMatches_def okR_unit assert_equal_def simp del: forR.simps)

section \<open>Properties\<close>

text \<open>
  C6: token issuance is complete and correctly batched: when the script succeeds, it has saved one
  transaction per batch, in order, no batch has more than thirty holders, the batches together are
  exactly the holders of the vesting settings in order with their amounts, each transaction claims as
  end supply the sum of all amounts up to and including its batch, only the first one has its gas
  estimated, and the network state is unchanged by the loop.
\<close>

theorem issueTokens_batches:
  assumes "issueTokens_10 E w = (Inr (), w')"
  shows "\<exists>st template vest holdersObj fs.
    state_of E w = Some st \<and> getp (obj_get st ''vestingParams'') ''holders'' = Inr holdersObj \<and>
    (let pairs = own_props holdersObj; k = min MAX_HOLDERS_IN_ONE_TX (length pairs); m = batchCount (length pairs);
         holders = map (\<lambda>p. JStr (fst p)) pairs; amounts = map snd pairs
     in tx_files w' = tx_files w @ zip (map batchFile [0..<m]) fs \<and>
        list_all2 (batchTx E template (obj_get st ''multisigAddress'') vest holders amounts k) [0..<m] fs \<and>
        k \<le> 30 \<and> concat (map (\<lambda>i. take k (drop (i * k) holders)) [0..<m]) = holders \<and>
        concat (map (\<lambda>i. take k (drop (i * k) amounts)) [0..<m]) = amounts \<and> net_files w' = net_files (after_read E w))"
proof -
  from assms obtain st template vest holdersObj pairs where st: "state_of E w = Some st"
    and h: "getp (obj_get st ''vestingParams'') ''holders'' = Inr holdersObj" "pairs = own_props holdersObj"
    and l: "issueLoop E template (obj_get st ''multisigAddress'') vest (map (\<lambda>p. JStr (fst p)) pairs) (map snd pairs)
          (min MAX_HOLDERS_IN_ONE_TX (length pairs)) (batchCount (length pairs)) 0 0 (after_read E w) = (Inr (), w')"
    unfolding issueTokens_10_def Let_def prog_ok by (auto split: if_splits)
  define k m where "k = min MAX_HOLDERS_IN_ONE_TX (length pairs)" and "m = batchCount (length pairs)"
  have le: "length pairs \<le> m * k" using batchCount_enough [OF k_def] by (simp add: m_def)
  then have all: "take (m * k) (map f pairs) = map f pairs" for f :: "string \<times> jsval \<Rightarrow> jsval" by simp
  from issueLoop_files [OF l] obtain fs where "tx_files w' = tx_files (after_read E w) @ zip (map batchFile [0..<m]) fs"
    "list_all2 (batchTx E template (obj_get st ''multisigAddress'') vest (map (\<lambda>p. JStr (fst p)) pairs) (map snd pairs) k) [0..<m] fs"
    "net_files w' = net_files (after_read E w)"
    by (auto simp: k_def m_def)
  moreover have "k \<le> 30" by (simp add: k_def MAX_HOLDERS_IN_ONE_TX_def)
  ultimately show ?thesis
    using st h(1) le
    by - (rule exI [of _ st], rule exI [of _ template], rule exI [of _ vest], rule exI [of _ holdersObj],
      rule exI [of _ fs], simp add: Let_def batches_cover all flip: h(2) k_def m_def)
qed

definition issue_env :: env where
  "issue_env = offline_env\<lparr>contract_at := \<lambda>_ v. Inr (to_str v), encode_call := \<lambda>_ m _. Inr m,
     past_events := \<lambda>_ _ _. Inr [JObj [(''event'', JStr ''TmplDAOAndTokenDeployed'')]], estimate_gas := \<lambda>_ _. Inr 21000,
     send_tx := \<lambda>_ _ _ _. Inr JNull\<rparr>"

definition issue_state :: props where
  "issue_state = [(''networkId'', JInt 1337), (''daoAddress'', JStr ''0xd''), (''daoTemplateAddress'', JStr ''0xe''),
     (''multisigAddress'', JStr ''0xf''),
     (''vestingParams'', JObj [(''holders'', JObj [(''0xa1'', JStr ''100''), (''0xa2'', JStr ''50'')]),
        (''unvestedTokensAmount'', JStr ''7''), (''start'', JInt 1), (''cliff'', JInt 2), (''end'', JInt 3),
        (''revokable'', JBool False)])]"

definition issue_world :: world where
  "issue_world = empty_world\<lparr>net_files := [state_file issue_env \<mapsto> JsonText (JObj issue_state)]\<rparr>"

lemma issue_state_of: "state_of issue_env issue_world = Some issue_state"
  by (simp add: state_of_def issue_world_def issue_state_def strict_eq_def issue_env_def offline_env_def)

lemma issue_numbers:
  "bn_new issue_env (JStr ''100'') = Inr 100" "bn_new issue_env (JStr ''50'') = Inr 50" "bn_new issue_env (JStr ''7'') = Inr 7"
  "batchCount 2 = 1"
  by (simp_all add: issue_env_def offline_env_def batchCount_def MAX_HOLDERS_IN_ONE_TX_def) code_simp+

lemma issue_run: "\<exists>w'. issueTokens_10 issue_env issue_world = (Inr (), w')"
proof -
  have ev: "assertLastEvent issue_env i ''TmplDAOAndTokenDeployed'' b =
      Inr (JObj [(''event'', JStr ''TmplDAOAndTokenDeployed'')])" for i b
    by (simp add: assertLastEvent_def issue_env_def evt_field_def assertR_def assert_equal_def)
  have call: "getCallTxData issue_env i m as True [(''from'', JStr ''0xf'')] = Inr [(''from'', JStr ''0xf''), (''gas'', JInt 31000),
      (''data'', JStr m), (''to'', JStr i)]" for i m as
    by (simp add: getCallTxData_def getTxData_def issue_env_def)
  show ?thesis
    unfolding issueTokens_10_def Let_def prog_ok
    by (auto simp: issue_state_of issue_state_def not_nullish_def issue_numbers prog_ok vestingTail_def propsOf_def call ev
        numeral_2_eq_2 [symmetric] MAX_HOLDERS_IN_ONE_TX_def Let_def) (auto simp: issue_env_def)
qed

theorem issueTokens_batches_witness:
  "\<exists>w' fs. issueTokens_10 issue_env issue_world = (Inr (), w') \<and> length fs = 1 \<and>
     tx_files w' = zip [''tx-06-1-issue-tokens.json''] fs"
proof -
  obtain w' where w': "issueTokens_10 issue_env issue_world = (Inr (), w')" using issue_run by blast
  from issueTokens_batches [OF w'] obtain fs where f: "tx_files w' = tx_files issue_world @ zip (map batchFile [0..<1]) fs"
    "length fs = 1"
    by (auto simp: issue_state_of issue_state_def Let_def issue_numbers list_all2_lengthD numeral_2_eq_2 [symmetric]
        dest!: list_all2_lengthD)
  have "batchFile 0 = ''tx-06-1-issue-tokens.json''" by code_simp
  with f w' show ?thesis by (simp add: issue_world_def empty_world_def) blast
qed

lemma installed_complete:
  assumes "mapR (\<lambda>a. getp a ''appId'') args = Inr ids"
    and "mset ids = mset (map (\<lambda>name. JStr (name_hash E (appFullName name ensName))) VALID_APP_NAMES)"
    and "mapR (checkInstalledApp E dao ensName pa aan ns) args = Inr data"
    and "distinct (map (\<lambda>name. name_hash E (appFullName name ensName)) VALID_APP_NAMES)"
  shows "fst ` set data = set VALID_APP_NAMES" "list_all (\<lambda>x. \<exists>a \<in> set args. appChecked E dao ensName pa aan ns a x) data"
proof -
  from installed_names [OF assms(1) [unfolded mapR_eq_Inr] assms(3) [unfolded mapR_eq_Inr]]
  have i: "ids = map (\<lambda>x. JStr (name_hash E (appFullName (fst x) ensName))) data"
    and c: "list_all (\<lambda>x. \<exists>a \<in> set args. appChecked E dao ensName pa aan ns a x) data" by simp_all
  show "list_all (\<lambda>x. \<exists>a \<in> set args. appChecked E dao ensName pa aan ns a x) data" by (rule c)
  have valid: "fst ` set data \<subseteq> set VALID_APP_NAMES"
    using c by (fastforce simp: list_all_iff appChecked_def)
  moreover have "set VALID_APP_NAMES \<subseteq> fst ` set data"
  proof
    fix n assume n: "n \<in> set VALID_APP_NAMES"
    have "JStr (name_hash E (appFullName n ensName)) \<in> set ids"
      using mset_eq_setD [OF assms(2)] n by auto
    then obtain x where x: "x \<in> set data" "name_hash E (appFullName n ensName) = name_hash E (appFullName (fst x) ensName)"
      using i by auto
    with valid have "fst x \<in> set VALID_APP_NAMES" by blast
    with x n assms(4) have "n = fst x" by (auto simp: distinct_map dest: inj_onD)
    with x show "n \<in> fst ` set data" by auto
  qed
  ultimately show "fst ` set data = set VALID_APP_NAMES" by blast
qed

lemma installed_keys:
  assumes "assertInstalledApps E template dao ensName pan aan fb = Inr apps"
    and "distinct (map (\<lambda>name. name_hash E (appFullName name ensName)) VALID_APP_NAMES)"
  shows "fst ` set apps = set VALID_APP_NAMES"
  by (rule assertInstalledApps_Inr [OF assms(1)]) (simp add: fold_obj_set_keys installed_complete(1) [OF _ _ _ assms(2)])


definition installed_env :: env where
  "installed_env = offline_env\<lparr>contract_at := \<lambda>_ v. Inr (to_str v), get_code := \<lambda>_. Inr ''0x60'',
     read_artifact := \<lambda>_. Inr (JObj [(''deployedBytecode'', JStr ''0x60'')]),
     read_json := \<lambda>_. Inr (JObj [(''deployedBytecode'', JStr ''0x60'')]),
     past_events := \<lambda>_ _ _. Inr (map (\<lambda>n. JObj [(''args'', JObj [(''appId'', JStr (n @ ''.eth'')), (''appProxy'', JStr ''0x1'')])])
        VALID_APP_NAMES),
     call_view := \<lambda>_ m _. Inr (if m = ''hasInitialized'' then JBool True else JStr ''0x2'')\<rparr>"


text \<open>
  C32: the vesting check leaves no token unaccounted for: when it passes, every holder of the settings
  has a balance equal to the settings' amount and a vesting of that amount with the start, cliff, end
  and revocability of the settings; a positive unvested amount is the balance of its manager; and the
  token's total supply is the unvested amount plus the sum of all holders' amounts.
\<close>

theorem assertVesting_sound:
  assumes "okR (assertVesting E tokenManager token params manager)"
  shows "\<exists>holdersObj unvested u acc supply. getp params ''holders'' = Inr holdersObj \<and>
    getp params ''unvestedTokensAmount'' = Inr unvested \<and> bn_new E unvested = Inr u \<and>
    bigSum E (map snd (own_props holdersObj)) u = Inr acc \<and>
    (u \<le> 0 \<or> (\<exists>m. call_view E token ''balanceOf'' [manager] = Inr m \<and> to_str m = dec_int u)) \<and>
    call_view E token ''totalSupply'' [] = Inr supply \<and> to_str supply = dec_int acc \<and>
    list_all (\<lambda>(addr, amount). \<exists>v b. getVestingOrNull E tokenManager addr = Inr v \<and> vestingMatches params v amount \<and>
        call_view E token ''balanceOf'' [JStr addr] = Inr b \<and> to_str b = to_str amount) (own_props holdersObj)"
proof -
  from assms obtain holdersObj pairs vestings balances unvested u acc where
    h: "getp params ''holders'' = Inr holdersObj" "pairs = own_props holdersObj" and
    v: "mapR (\<lambda>p. getVestingOrNull E tokenManager (fst p)) pairs = Inr vestings" and
    b: "mapR (\<lambda>p. call_view E token ''balanceOf'' [JStr (fst p)]) pairs = Inr balances" and
    u: "getp params ''unvestedTokensAmount'' = Inr unvested" "bn_new E unvested = Inr u"
      "bigSum E (map snd pairs) u = Inr acc" and
    c: "list_all (\<lambda>x. okR (checkVesting acc params x)) (zip vestings (zip balances (map snd pairs)))" and
    m: "u \<le> 0 \<or> (\<exists>m. call_view E token ''balanceOf'' [manager] = Inr m \<and> to_str m = dec_int u)" and
    s: "\<exists>supply. call_view E token ''totalSupply'' [] = Inr supply \<and> to_str supply = dec_int acc"
    unfolding assertVesting_def by (auto simp: okR_bindR okR_unit split: if_splits)
  have "list_all (\<lambda>(addr, amount). \<exists>v b. getVestingOrNull E tokenManager addr = Inr v \<and> vestingMatches params v amount \<and>
        call_view E token ''balanceOf'' [JStr addr] = Inr b \<and> to_str b = to_str amount) pairs"
    using v b c
  proof (induction pairs arbitrary: vestings balances)
    case (Cons p pairs)
    obtain addr amount where p: "p = (addr, amount)" by (cases p)
    from Cons.prems(1,2) p obtain v vs b bs where vb: "vestings = v # vs" "balances = b # bs"
      "getVestingOrNull E tokenManager addr = Inr v" "call_view E token ''balanceOf'' [JStr addr] = Inr b"
      "mapR (\<lambda>p. getVestingOrNull E tokenManager (fst p)) pairs = Inr vs"
      "mapR (\<lambda>p. call_view E token ''balanceOf'' [JStr (fst p)]) pairs = Inr bs"
      by (auto split: sum.splits)
    with Cons.prems(3) p have "okR (checkVesting acc params (v, b, amount))"
      "list_all (\<lambda>x. okR (checkVesting acc params x)) (zip vs (zip bs (map snd pairs)))" by simp_all
    with okR_checkVesting [of acc params v b amount] Cons.IH [OF vb(5,6)] vb p show ?case by auto
  qed simp
  with h u m s show ?thesis by auto
qed

definition vesting_env :: env where
  "vesting_env = offline_env\<lparr>call_view := \<lambda>i m args. Inr (if m = ''getVesting''
     then JObj [(''amount'', JBN 5), (''start'', JInt 1), (''cliff'', JInt 2), (''vesting'', JInt 3), (''revokable'', JBool False)]
     else if m = ''totalSupply'' then JBN 12 else if args = [JStr ''0xe''] then JBN 2 else JBN 5)\<rparr>"

definition vesting_params :: jsval where
  "vesting_params = JObj [(''holders'', JObj [(''0xa'', JStr ''5''), (''0xb'', JStr ''5'')]), (''unvestedTokensAmount'', JInt 2),
     (''start'', JInt 1), (''cliff'', JInt 2), (''end'', JInt 3), (''revokable'', JBool False)]"

theorem assertVesting_sound_witness:
  "\<exists>u acc. bn_new vesting_env (JInt 2) = Inr u \<and> bigSum vesting_env [JStr ''5'', JStr ''5''] u = Inr acc \<and>
     to_str (JBN 12) = dec_int acc"
proof -
  have "okR (assertVesting vesting_env ''0xc'' ''0xd'' (vesting_params) (JStr ''0xe''))" by code_simp
  from assertVesting_sound [OF this] show ?thesis
    by (auto simp: vesting_params_def vesting_env_def)
qed

end
