(* ===== verification/MultisigCheck.thy ===== *)
theory MultisigCheck
  imports MultisigDao
begin

text \<open>
  scripts/multisig/12-check-dao.js: the audit of a finished deployment.  It compares the chain's
  configuration with the settings of the network state and the permissions of every app with the
  expected grantees.
\<close>

record dao_apps =
  d_ens :: string
  d_dao :: string
  d_daoToken :: string
  d_lido :: string
  d_oracle :: string
  d_nopsRegistry :: string
  d_agent :: string
  d_finance :: string
  d_tokenManager :: string
  d_voting :: string
  d_compositeReceiver :: string
  d_burner :: string
  d_elRewardsVault :: string

section \<open>Permissions\<close>

record role_group =
  rg_roleNames :: "string list"
  rg_grantee :: string

definition roleCheck :: "string \<Rightarrow> string \<Rightarrow> string \<Rightarrow> string \<Rightarrow> string \<Rightarrow> jsval list \<Rightarrow> role_check" where
  "roleCheck acl app roleName manager grantee evts =
     \<lparr>rc_roleName = roleName, rc_acl = acl, rc_app = app, rc_manager = JStr manager, rc_grantee = JStr grantee,
      rc_onlyGrantee = True, rc_events = Some evts\<rparr>"

definition assertRoles ::
  "env \<Rightarrow> string \<Rightarrow> jsval list \<Rightarrow> jsval \<Rightarrow> string \<Rightarrow> string \<Rightarrow> role_group list \<Rightarrow> string list \<Rightarrow> unit res" where
  "assertRoles E acl evts fromBlock manager app groups missingRoleNames =
     bindR (forR (\<lambda>g. forR (\<lambda>roleName. assertRole E (roleCheck acl app roleName manager (rg_grantee g) evts) fromBlock)
                         (rg_roleNames g)) groups) (\<lambda>_.
     forR (\<lambda>roleName. assertMissingRole E roleName acl app (Some evts) fromBlock) missingRoleNames)"

definition burnPermissionParams :: "string \<Rightarrow> string" where
  "burnPermissionParams burner = ''0x000100000000000000000000'' @ drop 2 burner"

definition assertBurnRole :: "env \<Rightarrow> string \<Rightarrow> dao_apps \<Rightarrow> unit res" where
  "assertBurnRole E acl A =
     bindR (call_view E (d_lido A) ''BURN_ROLE'' []) (\<lambda>burnRoleHash.
     bindR (call_view E acl ''hasPermission(address,address,bytes32,uint256[])''
       [JStr (d_burner A), JStr (d_lido A), burnRoleHash, JArr [JStr (burnPermissionParams (d_burner A))]]) assert_isTrue)"

definition grp :: "string list \<Rightarrow> string \<Rightarrow> role_group" where
  "grp roleNames grantee = \<lparr>rg_roleNames = roleNames, rg_grantee = grantee\<rparr>"

text \<open>The groups of roles and the roles nobody may hold, per app, in the order they are checked.\<close>

definition rolesBeforeBurn :: "dao_apps \<Rightarrow> string \<Rightarrow> (string \<times> role_group list \<times> string list) list" where
  "rolesBeforeBurn A evmScriptRegistry =
     [(evmScriptRegistry, [grp [''REGISTRY_MANAGER_ROLE'', ''REGISTRY_ADD_EXECUTOR_ROLE''] (d_voting A)], []),
      (d_agent A, [grp [''EXECUTE_ROLE'', ''RUN_SCRIPT_ROLE''] (d_voting A)],
        [''SAFE_EXECUTE_ROLE'', ''ADD_PROTECTED_TOKEN_ROLE'', ''REMOVE_PROTECTED_TOKEN_ROLE'',
         ''ADD_PRESIGNED_HASH_ROLE'', ''DESIGNATE_SIGNER_ROLE'']),
      (d_finance A, [grp [''CREATE_PAYMENTS_ROLE'', ''EXECUTE_PAYMENTS_ROLE'', ''MANAGE_PAYMENTS_ROLE''] (d_voting A)],
        [''CHANGE_PERIOD_ROLE'', ''CHANGE_BUDGETS_ROLE'']),
      (d_tokenManager A, [grp [''ASSIGN_ROLE''] (d_voting A)],
        [''MINT_ROLE'', ''BURN_ROLE'', ''ISSUE_ROLE'', ''REVOKE_VESTINGS_ROLE'']),
      (d_voting A, [grp [''MODIFY_SUPPORT_ROLE'', ''MODIFY_QUORUM_ROLE''] (d_voting A),
        grp [''CREATE_VOTES_ROLE''] (d_tokenManager A)], []),
      (d_lido A, [grp [''PAUSE_ROLE'', ''RESUME_ROLE'', ''MANAGE_FEE'', ''MANAGE_PROTOCOL_CONTRACTS_ROLE'',
        ''MANAGE_WITHDRAWAL_KEY'', ''STAKING_PAUSE_ROLE'', ''STAKING_CONTROL_ROLE'', ''SET_EL_REWARDS_VAULT_ROLE'',
        ''SET_EL_REWARDS_WITHDRAWAL_LIMIT_ROLE''] (d_voting A)], [])]"

definition rolesAfterBurn :: "dao_apps \<Rightarrow> (string \<times> role_group list \<times> string list) list" where
  "rolesAfterBurn A =
     [(d_oracle A, [grp [''MANAGE_MEMBERS'', ''MANAGE_QUORUM'', ''SET_BEACON_SPEC''] (d_voting A)], []),
      (d_nopsRegistry A, [grp [''MANAGE_SIGNING_KEYS'', ''ADD_NODE_OPERATOR_ROLE'', ''SET_NODE_OPERATOR_ACTIVE_ROLE'',
        ''SET_NODE_OPERATOR_NAME_ROLE'', ''SET_NODE_OPERATOR_ADDRESS_ROLE'', ''SET_NODE_OPERATOR_LIMIT_ROLE'',
        ''REPORT_STOPPED_VALIDATORS_ROLE''] (d_voting A)], [])]"

definition assertDaoPermissions :: "env \<Rightarrow> dao_apps \<Rightarrow> jsval \<Rightarrow> unit res" where
  "assertDaoPermissions E A fromBlock =
     bindR (call_view E (d_dao A) ''acl'' []) (\<lambda>aclAddress.
     bindR (contract_at E ''ACL'' aclAddress) (\<lambda>acl.
     bindR (past_events E acl ''allEvents'' (defaultFromBlock fromBlock)) (\<lambda>evts.
     bindR (assertRole E (roleCheck acl acl ''CREATE_PERMISSIONS_ROLE'' (d_voting A) (d_voting A) evts) fromBlock) (\<lambda>_.
     bindR (assertRole E (roleCheck acl (d_dao A) ''APP_MANAGER_ROLE'' (d_voting A) (d_voting A) evts) fromBlock) (\<lambda>_.
     bindR (call_view E acl ''getEVMScriptRegistry'' []) (\<lambda>registryAddress.
     bindR (contract_at E ''EVMScriptRegistry'' registryAddress) (\<lambda>evmScriptRegistry.
     bindR (forR (\<lambda>(app, groups, missing). assertRoles E acl evts fromBlock (d_voting A) app groups missing)
              (rolesBeforeBurn A evmScriptRegistry)) (\<lambda>_.
     bindR (assertBurnRole E acl A) (\<lambda>_.
     forR (\<lambda>(app, groups, missing). assertRoles E acl evts fromBlock (d_voting A) app groups missing)
       (rolesAfterBurn A))))))))))"

section \<open>Configuration\<close>

text \<open>\<open>assert.log (assert.<kind>, await inst.method(), expected, ...)\<close>\<close>

definition addressIs :: "env \<Rightarrow> string \<Rightarrow> string \<Rightarrow> string \<Rightarrow> unit res" where
  "addressIs E inst methodName expected =
     bindR (call_view E inst methodName []) (\<lambda>v. assert_addressEqual E v (JStr expected))"

definition valueIs :: "env \<Rightarrow> string \<Rightarrow> string \<Rightarrow> jsval res \<Rightarrow> unit res" where
  "valueIs E inst methodName expected =
     bindR (call_view E inst methodName []) (\<lambda>v. bindR expected (assert_equal v))"

definition bnIs :: "env \<Rightarrow> string \<Rightarrow> string \<Rightarrow> jsval res \<Rightarrow> unit res" where
  "bnIs E inst methodName expected =
     bindR (call_view E inst methodName []) (\<lambda>v. bindR expected (assert_bnEqual v))"

definition field2 :: "jsval \<Rightarrow> string \<Rightarrow> string \<Rightarrow> jsval res" where
  "field2 settings section key = bindR (getp settings section) (\<lambda>g. getp g key)"

definition bpField :: "jsval \<Rightarrow> string \<Rightarrow> jsval res" where
  "bpField settings key = bindR (field2 settings ''fee'' key) (\<lambda>p. Inr (JNum (percentToBP (to_num p))))"

definition unlessLive :: "bool \<Rightarrow> unit res \<Rightarrow> unit res" where
  "unlessLive live m = (if live then Inr () else m)"

text \<open>\<open>/^true|1$/i.test(process.env.DAO_LIVE)\<close>: the alternatives are \<open>^true\<close> and \<open>1$\<close>.\<close>

definition DAO_LIVE :: "string option \<Rightarrow> bool" where
  "DAO_LIVE envVar =
     (let s = to_lower (case envVar of None \<Rightarrow> ''undefined'' | Some v \<Rightarrow> v)
      in starts_with ''true'' s \<or> ends_with ''1'' s)"

definition TOKEN_MAX_PER_ACCOUNT :: string where
  "TOKEN_MAX_PER_ACCOUNT = ''115792089237316195423570985008687907853269984665640564039457584007913129639935''"

definition ZERO_WITHDRAWAL_CREDENTIALS :: string where
  "ZERO_WITHDRAWAL_CREDENTIALS = ''0x0000000000000000000000000000000000000000000000000000000000000000''"

definition is_empty :: "jsval \<Rightarrow> bool" where
  "is_empty v = (case v of JArr xs \<Rightarrow> xs = [] | JStr s \<Rightarrow> s = [] | JObj ps \<Rightarrow> ps = [] | _ \<Rightarrow> False)"

definition tokenChecks :: "env \<Rightarrow> dao_apps \<Rightarrow> jsval \<Rightarrow> unit res list" where
  "tokenChecks E A settings =
     [valueIs E (d_daoToken A) ''name'' (field2 settings ''token'' ''name''),
      valueIs E (d_daoToken A) ''symbol'' (field2 settings ''token'' ''symbol''),
      bnIs E (d_daoToken A) ''decimals'' (Inr (JInt 18)),
      addressIs E (d_daoToken A) ''controller'' (d_tokenManager A),
      valueIs E (d_daoToken A) ''transfersEnabled'' (Inr (JBool True))]"

definition governanceChecks :: "env \<Rightarrow> bool \<Rightarrow> dao_apps \<Rightarrow> jsval \<Rightarrow> unit res list" where
  "governanceChecks E live A settings =
     [addressIs E (d_agent A) ''kernel'' (d_dao A),
      addressIs E (d_voting A) ''kernel'' (d_dao A),
      addressIs E (d_voting A) ''token'' (d_daoToken A),
      bnIs E (d_voting A) ''supportRequiredPct'' (field2 settings ''voting'' ''minSupportRequired''),
      bnIs E (d_voting A) ''minAcceptQuorumPct'' (field2 settings ''voting'' ''minAcceptanceQuorum''),
      bnIs E (d_voting A) ''voteTime'' (field2 settings ''voting'' ''voteDuration''),
      unlessLive live (bnIs E (d_voting A) ''votesLength'' (Inr (JInt 2))),
      addressIs E (d_tokenManager A) ''kernel'' (d_dao A),
      addressIs E (d_tokenManager A) ''token'' (d_daoToken A),
      bnIs E (d_tokenManager A) ''maxAccountTokens'' (Inr (JStr TOKEN_MAX_PER_ACCOUNT)),
      addressIs E (d_finance A) ''kernel'' (d_dao A),
      bnIs E (d_finance A) ''getPeriodDuration'' (Inr (JInt (60 * 60 * 24 * 30))),
      addressIs E (d_finance A) ''vault'' (d_agent A)]"

definition feeChecks :: "env \<Rightarrow> dao_apps \<Rightarrow> jsval \<Rightarrow> unit res" where
  "feeChecks E A settings =
     bindR (bpField settings ''totalPercent'') (\<lambda>expectedTotalFee.
     bindR (bnIs E (d_lido A) ''getFee'' (Inr expectedTotalFee)) (\<lambda>_.
     bindR (call_view E (d_lido A) ''getFeeDistribution'' []) (\<lambda>feeDistr.
     bindR (mapR (bpField settings) [''treasuryPercent'', ''insurancePercent'', ''nodeOperatorsPercent'']) (\<lambda>expected.
     forR (\<lambda>(field, e). bindR (getp feeDistr field) (\<lambda>v. assert_bnEqual v e))
       (zip [''treasuryFeeBasisPoints'', ''insuranceFeeBasisPoints'', ''operatorsFeeBasisPoints''] expected)))))"

definition lidoChecks :: "env \<Rightarrow> bool \<Rightarrow> dao_apps \<Rightarrow> jsval \<Rightarrow> unit res list" where
  "lidoChecks E live A settings =
     [addressIs E (d_lido A) ''kernel'' (d_dao A),
      valueIs E (d_lido A) ''name'' (Inr (JStr ''Liquid staked Ether 2.0'')),
      valueIs E (d_lido A) ''symbol'' (Inr (JStr ''stETH'')),
      bnIs E (d_lido A) ''decimals'' (Inr (JInt 18)),
      unlessLive live (bnIs E (d_lido A) ''totalSupply'' (Inr (JInt 0))),
      unlessLive live (valueIs E (d_lido A) ''isStopped'' (Inr (JBool True))),
      unlessLive live (bnIs E (d_lido A) ''getWithdrawalCredentials'' (Inr (JStr ZERO_WITHDRAWAL_CREDENTIALS))),
      feeChecks E A settings,
      bindR (call_view E (d_lido A) ''getDepositContract'' []) (\<lambda>v.
        bindR (field2 settings ''beaconSpec'' ''depositContractAddress'') (assert_addressEqual E v)),
      addressIs E (d_lido A) ''getOracle'' (d_oracle A),
      addressIs E (d_lido A) ''getOperators'' (d_nopsRegistry A),
      addressIs E (d_lido A) ''getTreasury'' (d_agent A),
      addressIs E (d_lido A) ''getInsuranceFund'' (d_agent A),
      addressIs E (d_lido A) ''getELRewardsVault'' (d_elRewardsVault A)]"

definition beaconSpecChecks :: "env \<Rightarrow> dao_apps \<Rightarrow> jsval \<Rightarrow> unit res" where
  "beaconSpecChecks E A settings =
     bindR (call_view E (d_oracle A) ''getBeaconSpec'' []) (\<lambda>beaconSpec.
     forR (\<lambda>k. bindR (getp beaconSpec k) (\<lambda>v. bindR (field2 settings ''beaconSpec'' k) (assert_bnEqual v)))
       [''epochsPerFrame'', ''slotsPerEpoch'', ''secondsPerSlot'', ''genesisTime''])"

definition oracleChecks :: "env \<Rightarrow> bool \<Rightarrow> dao_apps \<Rightarrow> jsval \<Rightarrow> unit res list" where
  "oracleChecks E live A settings =
     [addressIs E (d_oracle A) ''kernel'' (d_dao A),
      addressIs E (d_oracle A) ''getLido'' (d_lido A),
      unlessLive live (bindR (call_view E (d_oracle A) ''getOracleMembers'' []) (\<lambda>v. assertR (is_empty v))),
      addressIs E (d_oracle A) ''getBeaconReportReceiver'' (d_compositeReceiver A),
      beaconSpecChecks E A settings,
      unlessLive live (bnIs E (d_oracle A) ''getQuorum'' (Inr (JInt 1))),
      addressIs E (d_nopsRegistry A) ''kernel'' (d_dao A),
      unlessLive live (bnIs E (d_nopsRegistry A) ''getNodeOperatorsCount'' (Inr (JInt 0))),
      unlessLive live (bnIs E (d_nopsRegistry A) ''getActiveNodeOperatorsCount'' (Inr (JInt 0)))]"

definition assertDAOConfig :: "env \<Rightarrow> bool \<Rightarrow> dao_apps \<Rightarrow> jsval \<Rightarrow> jsval \<Rightarrow> unit res" where
  "assertDAOConfig E live A daoAragonId settings =
     seqR ([bindR (resolveEnsAddress E (d_ens A) (name_hash E (to_str daoAragonId @ ''.aragonid.eth'')))
              (\<lambda>v. assert_addressEqual E v (JStr (d_dao A))),
            addressIs E (d_dao A) ''getRecoveryVault'' (d_agent A)] @
           tokenChecks E A settings @ governanceChecks E live A settings @ lidoChecks E live A settings @
           oracleChecks E live A settings)"

section \<open>The whole check\<close>

definition assertLidoAPMPermissions :: "env \<Rightarrow> string \<Rightarrow> string \<Rightarrow> jsval \<Rightarrow> string res" where
  "assertLidoAPMPermissions E registry votingAddress fromBlock =
     bindR (call_view E registry ''kernel'' []) (\<lambda>kernelAddress.
     bindR (call_view E registry ''registrar'' []) (\<lambda>registrarAddress.
     bindR (contract_at E ''Kernel'' kernelAddress) (\<lambda>registryKernel.
     bindR (contract_at E ''ENSSubdomainRegistrar'' registrarAddress) (\<lambda>registrar.
     bindR (call_view E registryKernel ''acl'' []) (\<lambda>registryACLAddress.
     bindR (contract_at E ''ACL'' registryACLAddress) (\<lambda>registryACL.
     bindR (assertAPMRegistryPermissions E registry registrar registryACL registryKernel (JStr votingAddress) fromBlock) (\<lambda>_.
     Inr registryACL)))))))"

definition assertReposPermissions :: "env \<Rightarrow> string \<Rightarrow> string \<Rightarrow> string \<Rightarrow> jsval \<Rightarrow> unit res" where
  "assertReposPermissions E registry registryACL votingAddress fromBlock =
     bindR (past_events E registry ''NewRepo'' (defaultFromBlock fromBlock)) (\<lambda>newRepoEvents.
     forR (\<lambda>evt. bindR (contract_at E ''Repo'' (evt_arg evt ''repo'')) (\<lambda>repo.
        assertRole E \<lparr>rc_roleName = ''CREATE_VERSION_ROLE'', rc_acl = registryACL, rc_app = repo,
          rc_manager = JStr votingAddress, rc_grantee = JStr votingAddress, rc_onlyGrantee = False,
          rc_events = None\<rparr> fromBlock)) newRepoEvents)"

text \<open>The proxy of an app among the ones the installed-apps check returned.\<close>

definition appProxy :: "env \<Rightarrow> (string \<times> props) list \<Rightarrow> app_name \<Rightarrow> string \<Rightarrow> string res" where
  "appProxy E apps name artifactName =
     (case map_of apps (APP_NAMES name) of
        None \<Rightarrow> Inl TypeError
      | Some app \<Rightarrow> contract_at E artifactName (obj_get app ''proxyAddress''))"

definition daoInstances :: "env \<Rightarrow> string \<Rightarrow> string \<Rightarrow> string \<Rightarrow> (string \<times> props) list \<Rightarrow> props \<Rightarrow> dao_apps res" where
  "daoInstances E ens dao daoToken apps state =
     bindR (appProxy E apps LIDO ''Lido'') (\<lambda>lido.
     bindR (appProxy E apps ORACLE ''LidoOracle'') (\<lambda>oracle.
     bindR (appProxy E apps NODE_OPERATORS_REGISTRY ''NodeOperatorsRegistry'') (\<lambda>nops.
     bindR (appProxy E apps ARAGON_AGENT ''Agent'') (\<lambda>agent.
     bindR (appProxy E apps ARAGON_FINANCE ''Finance'') (\<lambda>finance.
     bindR (appProxy E apps ARAGON_TOKEN_MANAGER ''TokenManager'') (\<lambda>tokenManager.
     bindR (appProxy E apps ARAGON_VOTING ''Voting'') (\<lambda>voting.
     bindR (contract_at E ''CompositePostRebaseBeaconReceiver'' (obj_get state ''compositePostRebaseBeaconReceiverAddress'')) (\<lambda>receiver.
     bindR (contract_at E ''SelfOwnedStETHBurner'' (obj_get state ''selfOwnedStETHBurnerAddress'')) (\<lambda>burner.
     bindR (contract_at E ''LidoExecutionLayerRewardsVault'' (obj_get state ''executionLayerRewardsVaultAddress'')) (\<lambda>elVault.
     Inr \<lparr>d_ens = ens, d_dao = dao, d_daoToken = daoToken, d_lido = lido, d_oracle = oracle, d_nopsRegistry = nops,
          d_agent = agent, d_finance = finance, d_tokenManager = tokenManager, d_voting = voting,
          d_compositeReceiver = receiver, d_burner = burner, d_elRewardsVault = elVault\<rparr>))))))))))"

definition checkDAO_12 :: "env \<Rightarrow> bool \<Rightarrow> unit prog" where
  "checkDAO_12 E live =
     bindP (requireState E [''ensAddress'', ''lidoApmEnsName'', ''daoAragonId'', ''vestingParams'', ''daoInitialSettings'',
       ''daoTemplateAddress'']) (\<lambda>state.
     let block = obj_get state ''daoTemplateDeployBlock''
     in bindP (at_addr E ''ENS'' (obj_get state ''ensAddress'')) (\<lambda>ens.
        bindP (at_addr E ''LidoTemplate'' (obj_get state ''daoTemplateAddress'')) (\<lambda>template.
        bindP (liftP (assertLastEvent E template ''TmplDaoFinalized'' block)) (\<lambda>_.
        bindP (liftP (assertSingleEvent E template ''TmplAPMDeployed'' block)) (\<lambda>apmEvt.
        bindP (liftP (assertSingleEvent E template ''TmplDAOAndTokenDeployed'' block)) (\<lambda>daoEvt.
        bindP (at_addr E ''APMRegistry'' (evt_arg apmEvt ''apm'')) (\<lambda>registry.
        bindP (at_addr E ''Kernel'' (evt_arg daoEvt ''dao'')) (\<lambda>dao.
        bindP (at_addr E ''MiniMeToken'' (evt_arg daoEvt ''token'')) (\<lambda>daoToken.
        bindP (liftP (assertInstalledApps E template dao (obj_get state ''lidoApmEnsName'')
                 ''external:AppProxyUpgradeable_DAO'' ''AragonApp'' block)) (\<lambda>apps.
        bindP (liftP (daoInstances E ens dao daoToken apps state)) (\<lambda>A.
        bindP (liftP (assertDAOConfig E live A (obj_get state ''daoAragonId'') (obj_get state ''daoInitialSettings''))) (\<lambda>_.
        bindP (liftP (assertDaoPermissions E A block)) (\<lambda>_.
        bindP (liftP (assertLidoAPMPermissions E registry (d_voting A) block)) (\<lambda>registryACL.
        bindP (liftP (assertReposPermissions E registry registryACL (d_voting A) block)) (\<lambda>_.
        liftP (assertVesting E (d_tokenManager A) daoToken (obj_get state ''vestingParams'') (JStr (d_agent A))))))))))))))))))"

section \<open>What a passing check proves\<close>

text \<open>The roles of one table entry: each with the only address that may hold it.\<close>

definition tableRoles :: "(string \<times> role_group list \<times> string list) list \<Rightarrow> (string \<times> string \<times> string) list" where
  "tableRoles tab = concat (map (\<lambda>(app, groups, _). concat (map (\<lambda>g. map (\<lambda>r. (app, r, rg_grantee g)) (rg_roleNames g)) groups)) tab)"

definition tableMissing :: "(string \<times> role_group list \<times> string list) list \<Rightarrow> (string \<times> string) list" where
  "tableMissing tab = concat (map (\<lambda>(app, _, missing). map (Pair app) missing) tab)"

definition soleHolder :: "env \<Rightarrow> jsval list \<Rightarrow> string \<times> string \<times> string \<Rightarrow> bool" where
  "soleHolder E evts x = (case x of (app, roleName, grantee) \<Rightarrow> holdersAre E evts app roleName [to_lower grantee])"

definition noHolder :: "env \<Rightarrow> jsval list \<Rightarrow> string \<times> string \<Rightarrow> bool" where
  "noHolder E evts x = (case x of (app, roleName) \<Rightarrow> holdersAre E evts app roleName [])"

lemma okR_roleCheck:
  "okR (assertRole E (roleCheck acl app r m g evts) fb) \<Longrightarrow> soleHolder E evts (app, r, g)"
  by (auto simp: roleCheck_def soleHolder_def granteeList_def dest: assertRole_holders)

lemma okR_missing: "okR (assertMissingRole E r acl app (Some evts) fb) \<Longrightarrow> noHolder E evts (app, r)"
  by (simp add: noHolder_def assertMissingRole_holders)

lemma okR_assertRoles:
  assumes "okR (assertRoles E acl evts fb m app groups missing)"
  shows "list_all (soleHolder E evts) (tableRoles [(app, groups, missing)])"
    and "list_all (noHolder E evts) (tableMissing [(app, groups, missing)])"
  using assms okR_roleCheck okR_missing
  by (fastforce simp: assertRoles_def tableRoles_def tableMissing_def list_all_iff)+

lemma okR_table:
  assumes "okR (forR (\<lambda>(app, groups, missing). assertRoles E acl evts fb m app groups missing) tab)"
  shows "list_all (soleHolder E evts) (tableRoles tab) \<and> list_all (noHolder E evts) (tableMissing tab)"
  using assms
proof (induction tab)
  case Nil
  then show ?case by (simp add: tableRoles_def tableMissing_def)
next
  case (Cons x tab)
  obtain app groups missing where x: "x = (app, groups, missing)" by (cases x)
  with Cons.prems have r: "okR (assertRoles E acl evts fb m app groups missing)"
    and t: "okR (forR (\<lambda>(app, groups, missing). assertRoles E acl evts fb m app groups missing) tab)"
    unfolding okR_forR by simp_all
  from okR_assertRoles [OF r] Cons.IH [OF t] x show ?case
    by (simp add: tableRoles_def tableMissing_def)
qed

section \<open>A DAO that passes\<close>

text \<open>A DAO whose apps live at \<open>0xa\<close>, with voting at \<open>0xb\<close> and the token manager at \<open>0xc\<close>.\<close>

definition sampleApps :: dao_apps where
  "sampleApps = \<lparr>d_ens = ''0xa'', d_dao = ''0xa'', d_daoToken = ''0xa'', d_lido = ''0xa'', d_oracle = ''0xa'',
     d_nopsRegistry = ''0xa'', d_agent = ''0xa'', d_finance = ''0xa'', d_tokenManager = ''0xc'', d_voting = ''0xb'',
     d_compositeReceiver = ''0xa'', d_burner = ''0xa'', d_elRewardsVault = ''0xa''\<rparr>"

definition unheldRoles :: "string list" where
  "unheldRoles = [''SAFE_EXECUTE_ROLE'', ''ADD_PROTECTED_TOKEN_ROLE'', ''REMOVE_PROTECTED_TOKEN_ROLE'',
     ''ADD_PRESIGNED_HASH_ROLE'', ''DESIGNATE_SIGNER_ROLE'', ''CHANGE_PERIOD_ROLE'', ''CHANGE_BUDGETS_ROLE'',
     ''MINT_ROLE'', ''BURN_ROLE'', ''ISSUE_ROLE'', ''REVOKE_VESTINGS_ROLE'']"

definition sampleRole :: "string \<Rightarrow> jsval" where
  "sampleRole m = JStr (if m \<in> set unheldRoles then ''n'' else if m = ''CREATE_VOTES_ROLE'' then ''v''
     else if m = ''acl'' then ''0xd'' else ''h'')"

definition sampleEvents :: "jsval list" where
  "sampleEvents = [set_permission ''0xa'' ''h'' ''0xE'' True, set_permission ''0xA'' ''h'' ''0xB'' True,
     set_permission ''0xa'' ''h'' ''0xe'' False, set_permission ''0xb'' ''h'' ''0xb'' True,
     set_permission ''0xc'' ''h'' ''0xb'' True, set_permission ''0xd'' ''h'' ''0xb'' True,
     set_permission ''h'' ''h'' ''0xb'' True, set_permission ''0xb'' ''v'' ''0xc'' True]"

definition sampleEnv :: env where
  "sampleEnv = offline_env\<lparr>contract_at := \<lambda>_ v. Inr (to_str v), past_events := \<lambda>_ _ _. Inr sampleEvents,
     call_view := \<lambda>_ m args. Inr (if m = ''getPermissionManager''
       then JStr (if JStr ''n'' \<in> set args then ZERO_ADDR else ''0xb'')
       else if m = ''hasPermission'' \<or> m = ''hasPermission(address,address,bytes32,uint256[])'' then JBool True
       else sampleRole m)\<rparr>"

lemma sample_grantees:
  "list_all (\<lambda>app. getAllGrantees app ''h'' sampleEvents = [''0xb'']) [''0xa'', ''0xb'', ''0xc'', ''0xd'', ''h''] \<and>
   getAllGrantees ''0xb'' ''v'' sampleEvents = [''0xc''] \<and>
   list_all (\<lambda>app. getAllGrantees app ''n'' sampleEvents = []) [''0xa'', ''0xb'', ''0xc'', ''0xd'', ''h'']"
  by code_simp

lemma sample_lower: "to_lower ''n'' = ''n''" "to_lower ''v'' = ''v''" "to_lower ''h'' = ''h''"
  "to_lower ''0xb'' = ''0xb''" "to_lower ''0xc'' = ''0xc''" "to_lower ''0xd'' = ''0xd''"
  by code_simp+

lemma sampleEnv_view: "m \<noteq> ''getPermissionManager'' \<Longrightarrow> m \<noteq> ''hasPermission'' \<Longrightarrow>
    m \<noteq> ''hasPermission(address,address,bytes32,uint256[])'' \<Longrightarrow> call_view sampleEnv i m args = Inr (sampleRole m)"
  "call_view sampleEnv i ''getPermissionManager'' args = Inr (JStr (if JStr ''n'' \<in> set args then ZERO_ADDR else ''0xb''))"
  "call_view sampleEnv i ''hasPermission'' args = Inr (JBool True)"
  "call_view sampleEnv i ''hasPermission(address,address,bytes32,uint256[])'' args = Inr (JBool True)"
  "contract_at sampleEnv n v = Inr (to_str v)" "past_events sampleEnv i n b = Inr sampleEvents"
  "checksum sampleEnv (JStr s) = Inr (to_lower s)"
  by (simp_all add: sampleEnv_def offline_env_def)

lemma sample_held:
  assumes "sampleRole r = JStr ''h''" "app \<in> set [''0xa'', ''0xb'', ''0xc'', ''0xd'', ''h'']"
    and "r \<noteq> ''getPermissionManager''" "r \<noteq> ''hasPermission''" "r \<noteq> ''hasPermission(address,address,bytes32,uint256[])''"
  shows "okR (assertRole sampleEnv (roleCheck acl app r ''0xb'' ''0xb'' sampleEvents) fb)"
proof -
  have "getAllGrantees app ''h'' sampleEvents = [''0xb'']"
    using sample_grantees assms(2) by (auto simp: list_all_iff)
  then show ?thesis
    using assms by (auto simp: okR_assertRole roleHolds_def roleCheck_def granteeList_def aclEventsOr_def sampleEnv_view
        sample_lower same_address_def)
qed

lemma sample_unheld:
  assumes "sampleRole r = JStr ''n''" "app \<in> set [''0xa'', ''0xb'', ''0xc'', ''0xd'', ''h'']"
    and "r \<noteq> ''getPermissionManager''" "r \<noteq> ''hasPermission''" "r \<noteq> ''hasPermission(address,address,bytes32,uint256[])''"
  shows "okR (assertMissingRole sampleEnv r acl app (Some sampleEvents) fb)"
proof -
  have "getAllGrantees app ''n'' sampleEvents = []"
    using sample_grantees assms(2) by (auto simp: list_all_iff)
  then show ?thesis
    using assms by (simp add: okR_assertMissingRole aclEventsOr_def sampleEnv_view sample_lower)
qed

lemma sample_create_votes:
  "okR (assertRole sampleEnv (roleCheck acl ''0xb'' ''CREATE_VOTES_ROLE'' ''0xb'' ''0xc'' sampleEvents) fb)"
  using sample_grantees
  by (simp add: okR_assertRole roleHolds_def roleCheck_def granteeList_def aclEventsOr_def sampleEnv_view
      sample_lower same_address_def sampleRole_def unheldRoles_def)

lemma sample_permissions_ok: "okR (assertDaoPermissions sampleEnv sampleApps JUndef)"
proof -
  have h: "sampleRole r = JStr ''h''" if "r \<notin> set unheldRoles" "r \<noteq> ''CREATE_VOTES_ROLE''" "r \<noteq> ''acl''" for r
    using that by (simp add: sampleRole_def)
  have n: "sampleRole r = JStr ''n''" if "r \<in> set unheldRoles" for r using that by (simp add: sampleRole_def)
  have views: "call_view sampleEnv i ''acl'' [] = Inr (JStr ''0xd'')"
    "call_view sampleEnv i ''getEVMScriptRegistry'' [] = Inr (JStr ''h'')"
    "call_view sampleEnv i ''BURN_ROLE'' [] = Inr (JStr ''n'')" for i
    by (simp_all add: sampleEnv_view sampleRole_def unheldRoles_def)
  have burn: "okR (assertBurnRole sampleEnv acl sampleApps)" for acl
    by (simp add: assertBurnRole_def views sampleEnv_view)
  have before: "okR (forR (\<lambda>(app, groups, missing). assertRoles sampleEnv ''0xd'' sampleEvents JUndef ''0xb'' app groups missing)
      (rolesBeforeBurn sampleApps ''h''))"
    by (simp add: rolesBeforeBurn_def sampleApps_def assertRoles_def grp_def sample_held sample_unheld h n unheldRoles_def
        sample_create_votes del: forR.simps)
  have after: "okR (forR (\<lambda>(app, groups, missing). assertRoles sampleEnv ''0xd'' sampleEvents JUndef ''0xb'' app groups missing)
      (rolesAfterBurn sampleApps))"
    by (simp add: rolesAfterBurn_def sampleApps_def assertRoles_def grp_def sample_held h unheldRoles_def
        del: forR.simps)
  show ?thesis
    using before after burn
    by (simp add: assertDaoPermissions_def views sampleEnv_view sampleApps_def sample_held h unheldRoles_def del: okR_forR)
qed

section \<open>Properties\<close>

text \<open>
  C2: when the permission audit passes, one event log of the DAO's access-control list shows that
  the voting app, and nobody else, may create permissions, manage apps, run the agent's scripts, pay
  from the finance app, assign tokens, pause and resume Lido, set its fee, its withdrawal key and its
  protocol contracts, manage oracle members and node operators; that only the token manager may
  create votes; that nobody may mint, burn, issue or revoke tokens or use the agent's other powers; and that
  the burner contract holds the parametrized burn permission.
\<close>

theorem dao_permissions_sound:
  assumes "okR (assertDaoPermissions E A fromBlock)"
  shows "\<exists>aclAddress acl regAddress reg burnHash evts.
    call_view E (d_dao A) ''acl'' [] = Inr aclAddress \<and> contract_at E ''ACL'' aclAddress = Inr acl \<and>
    call_view E acl ''getEVMScriptRegistry'' [] = Inr regAddress \<and>
    contract_at E ''EVMScriptRegistry'' regAddress = Inr reg \<and>
    past_events E acl ''allEvents'' (defaultFromBlock fromBlock) = Inr evts \<and>
    list_all (\<lambda>(app, r). soleHolder E evts (app, r, d_voting A))
      [(acl, ''CREATE_PERMISSIONS_ROLE''), (d_dao A, ''APP_MANAGER_ROLE''),
       (d_agent A, ''EXECUTE_ROLE''), (d_agent A, ''RUN_SCRIPT_ROLE''),
       (d_finance A, ''CREATE_PAYMENTS_ROLE''), (d_finance A, ''EXECUTE_PAYMENTS_ROLE''),
       (d_finance A, ''MANAGE_PAYMENTS_ROLE''), (d_tokenManager A, ''ASSIGN_ROLE''),
       (d_voting A, ''MODIFY_SUPPORT_ROLE''), (d_voting A, ''MODIFY_QUORUM_ROLE''),
       (d_lido A, ''PAUSE_ROLE''), (d_lido A, ''RESUME_ROLE''), (d_lido A, ''MANAGE_FEE''),
       (d_lido A, ''MANAGE_PROTOCOL_CONTRACTS_ROLE''), (d_lido A, ''MANAGE_WITHDRAWAL_KEY''),
       (d_lido A, ''STAKING_PAUSE_ROLE''), (d_lido A, ''STAKING_CONTROL_ROLE''),
       (d_lido A, ''SET_EL_REWARDS_VAULT_ROLE''), (d_lido A, ''SET_EL_REWARDS_WITHDRAWAL_LIMIT_ROLE''),
       (d_oracle A, ''MANAGE_MEMBERS''), (d_oracle A, ''MANAGE_QUORUM''), (d_oracle A, ''SET_BEACON_SPEC''),
       (d_nopsRegistry A, ''MANAGE_SIGNING_KEYS''), (d_nopsRegistry A, ''ADD_NODE_OPERATOR_ROLE''),
       (d_nopsRegistry A, ''SET_NODE_OPERATOR_ACTIVE_ROLE''), (d_nopsRegistry A, ''SET_NODE_OPERATOR_NAME_ROLE''),
       (d_nopsRegistry A, ''SET_NODE_OPERATOR_ADDRESS_ROLE''), (d_nopsRegistry A, ''SET_NODE_OPERATOR_LIMIT_ROLE''),
       (d_nopsRegistry A, ''REPORT_STOPPED_VALIDATORS_ROLE''),
       (reg, ''REGISTRY_MANAGER_ROLE''), (reg, ''REGISTRY_ADD_EXECUTOR_ROLE'')] \<and>
    soleHolder E evts (d_voting A, ''CREATE_VOTES_ROLE'', d_tokenManager A) \<and>
    list_all (noHolder E evts)
      [(d_tokenManager A, ''MINT_ROLE''), (d_tokenManager A, ''BURN_ROLE''), (d_tokenManager A, ''ISSUE_ROLE''),
       (d_tokenManager A, ''REVOKE_VESTINGS_ROLE''), (d_finance A, ''CHANGE_PERIOD_ROLE''),
       (d_finance A, ''CHANGE_BUDGETS_ROLE''), (d_agent A, ''SAFE_EXECUTE_ROLE''),
       (d_agent A, ''ADD_PROTECTED_TOKEN_ROLE''), (d_agent A, ''REMOVE_PROTECTED_TOKEN_ROLE''),
       (d_agent A, ''ADD_PRESIGNED_HASH_ROLE''), (d_agent A, ''DESIGNATE_SIGNER_ROLE'')] \<and>
    call_view E (d_lido A) ''BURN_ROLE'' [] = Inr burnHash \<and>
    call_view E acl ''hasPermission(address,address,bytes32,uint256[])''
      [JStr (d_burner A), JStr (d_lido A), burnHash, JArr [JStr (burnPermissionParams (d_burner A))]] = Inr (JBool True)"
proof -
  from assms obtain aclAddress acl regAddress evts reg burnHash
    where at: "call_view E (d_dao A) ''acl'' [] = Inr aclAddress" "contract_at E ''ACL'' aclAddress = Inr acl"
      "call_view E acl ''getEVMScriptRegistry'' [] = Inr regAddress"
      "contract_at E ''EVMScriptRegistry'' regAddress = Inr reg"
    and evts: "past_events E acl ''allEvents'' (defaultFromBlock fromBlock) = Inr evts"
    and burn: "call_view E (d_lido A) ''BURN_ROLE'' [] = Inr burnHash"
      "call_view E acl ''hasPermission(address,address,bytes32,uint256[])''
        [JStr (d_burner A), JStr (d_lido A), burnHash, JArr [JStr (burnPermissionParams (d_burner A))]] = Inr (JBool True)"
    and c1: "okR (assertRole E (roleCheck acl acl ''CREATE_PERMISSIONS_ROLE'' (d_voting A) (d_voting A) evts) fromBlock)"
    and c2: "okR (assertRole E (roleCheck acl (d_dao A) ''APP_MANAGER_ROLE'' (d_voting A) (d_voting A) evts) fromBlock)"
    and t1: "okR (forR (\<lambda>(app, groups, missing). assertRoles E acl evts fromBlock (d_voting A) app groups missing)
              (rolesBeforeBurn A reg))"
    and t2: "okR (forR (\<lambda>(app, groups, missing). assertRoles E acl evts fromBlock (d_voting A) app groups missing)
              (rolesAfterBurn A))"
    unfolding assertDaoPermissions_def assertBurnRole_def
    by (auto simp: okR_bindR okR_unit assert_isTrue_def simp del: okR_forR)
  note r = okR_roleCheck [OF c1] okR_roleCheck [OF c2] okR_table [OF t1] okR_table [OF t2]
  show ?thesis
    by (rule exI [of _ aclAddress], rule exI [of _ acl], rule exI [of _ regAddress], rule exI [of _ reg],
        rule exI [of _ burnHash], rule exI [of _ evts])
       (use at burn evts r in \<open>simp add: tableRoles_def tableMissing_def rolesBeforeBurn_def rolesAfterBurn_def grp_def\<close>)
qed

theorem dao_permissions_sound_witness:
  "\<exists>evts. soleHolder sampleEnv evts (''0xb'', ''CREATE_VOTES_ROLE'', ''0xc'') \<and>
     soleHolder sampleEnv evts (''0xa'', ''MANAGE_FEE'', ''0xb'') \<and> noHolder sampleEnv evts (''0xc'', ''MINT_ROLE'')"
  using dao_permissions_sound [OF sample_permissions_ok] by (auto simp: sampleApps_def)

text \<open>
  \<open>DAO_LIVE\<close> is also set by any text that merely begins with \<open>true\<close> or ends in \<open>1\<close>: the
  anchors of the expression bind to one alternative each.
\<close>

theorem DAO_LIVE_loose:
  "DAO_LIVE (Some (''true'' @ s)) \<and> DAO_LIVE (Some (s @ ''1'')) \<and> \<not> DAO_LIVE None \<and> \<not> DAO_LIVE (Some ''false'')"
proof -
  have "to_lower ''true'' = ''true''" "to_lower ''1'' = ''1''" by code_simp+
  then have "DAO_LIVE (Some (''true'' @ s))" "DAO_LIVE (Some (s @ ''1''))"
    by (simp_all add: DAO_LIVE_def Let_def starts_with_def ends_with_def del: append_Cons)
  moreover have "\<not> DAO_LIVE None" "\<not> DAO_LIVE (Some ''false'')" by code_simp+
  ultimately show ?thesis by blast
qed

text \<open>
  the audit changes nothing: whatever its result, it writes no transaction file, sends no
  transaction, and changes no file, except that reading the state of a network without a file
  creates it.
\<close>

theorem checkDAO_read_only:
  "tx_files (snd (checkDAO_12 E live w)) = tx_files w \<and> sent (snd (checkDAO_12 E live w)) = sent w \<and>
   net_files (snd (checkDAO_12 E live w)) f =
     (if f = state_file E \<and> net_files w f = None then Some (JsonText (JObj [(''networkId'', JInt (network_id E))]))
      else net_files w f)"
proof -
  have "snd (checkDAO_12 E live w) = after_read E w"
    unfolding checkDAO_12_def Let_def
    by (rule snd_bindP_requireState) (intro read_only_bindP read_only_frame read_only_liftP)
  then have w: "snd (checkDAO_12 E live w) = after_read E w" .
  show ?thesis unfolding w by (auto simp: after_read_def)
qed

end
