(* ===== verification/MultisigVotes.thy ===== *)
theory MultisigVotes
  imports MultisigCheck
begin

text \<open>
  scripts/multisig/13 to 31, upgrade-app.js, verify-vote-tx.js and vote-and-enact.js: the upgrades
  after launch.  Each deploys a contract, obtains a deployed one, or saves the transaction that makes
  the token manager forward a vote whose script is a list of calls.
\<close>

section \<open>What these scripts share\<close>

text \<open>
  The process environment and the libraries only these scripts use: Aragon's call-script encoder,
  content URIs, ether units, and the node's transactions and event signatures.
\<close>

record vote_env =
  ve_APP :: string
  ve_BUMP :: string
  ve_DEPLOYER :: string
  ve_HOLDER :: string
  ve_CONTENT_CID :: jsval
  ve_VOTE_ID :: string
  ve_encodeCallScript :: "(jsval \<times> string) list \<Rightarrow> string res"
  ve_toContentUri :: "string \<Rightarrow> jsval \<Rightarrow> string res"
  ve_toWei :: "string \<Rightarrow> string"
  ve_getTransaction :: "jsval \<Rightarrow> jsval res"
  ve_startVoteSignature :: jsval
  ve_decodeLog :: "jsval \<Rightarrow> jsval res"

definition sender :: "string \<Rightarrow> props \<Rightarrow> jsval" where
  "sender fromEnv state = (if fromEnv \<noteq> [] then JStr fromEnv else obj_get state ''multisigAddress'')"

definition appField :: "props \<Rightarrow> string \<Rightarrow> string \<Rightarrow> jsval prog" where
  "appField state name field = liftP (getp (obj_get state (appKey name)) field)"

text \<open>\<open>{ to, calldata: await inst.contract.methods.method(...args).encodeABI() }\<close>\<close>

definition scriptCall :: "env \<Rightarrow> jsval \<Rightarrow> string \<Rightarrow> string \<Rightarrow> jsval list \<Rightarrow> (jsval \<times> string) res" where
  "scriptCall E target inst methodName args = bindR (encode_call E inst methodName args) (\<lambda>d. Inr (target, d))"

text \<open>The calls, wrapped in a \<open>forward\<close> of the voting app, wrapped in a \<open>forward\<close> of the token manager.\<close>

definition saveVote ::
  "env \<Rightarrow> vote_env \<Rightarrow> string \<Rightarrow> jsval \<Rightarrow> string \<Rightarrow> string \<Rightarrow> jsval \<Rightarrow> (jsval \<times> string) list \<Rightarrow> unit prog" where
  "saveVote E V voting votingAddress tokenManager txName from calls =
     bindP (liftP (ve_encodeCallScript V calls)) (\<lambda>script.
     bindP (liftP (scriptCall E votingAddress voting ''forward'' [JStr script])) (\<lambda>call.
     bindP (liftP (ve_encodeCallScript V [call])) (\<lambda>votingCallData.
     saveTx E tokenManager ''forward'' txName [JStr votingCallData] from)))"

definition bnToNumber :: "jsval \<Rightarrow> jsval res" where
  "bnToNumber v = (case v of
     JBN i \<Rightarrow> if \<bar>i\<bar> < 2 ^ 53 then Inr (JInt i) else Inl (External ''Number can only safely store up to 53 bits'')
   | _ \<Rightarrow> Inl TypeError)"

definition addn1 :: "jsval \<Rightarrow> jsval res" where
  "addn1 v = (case v of JBN i \<Rightarrow> Inr (JBN (i + 1)) | _ \<Rightarrow> Inl TypeError)"

definition bumpIndex :: "string \<Rightarrow> nat" where
  "bumpIndex bump = (if bump = ''patch'' then 2 else if bump = ''minor'' then 1 else 0)"

text \<open>\<open>versionTo\<close>: the semantic version with one part raised, as numbers.\<close>

definition bumpVersion :: "string \<Rightarrow> jsval list \<Rightarrow> jsval list res" where
  "bumpVersion bump version =
     (let i = bumpIndex bump
      in bindR (mapR bnToNumber version) (\<lambda>_.
         bindR (if i < length version then addn1 (version ! i) else Inl TypeError) (\<lambda>v.
         mapR bnToNumber (version[i := v]))))"

definition arrOf :: "jsval \<Rightarrow> jsval list res" where
  "arrOf v = (case v of JArr xs \<Rightarrow> Inr xs | _ \<Rightarrow> Inl TypeError)"

definition wrongApp :: "string \<Rightarrow> unit res" where
  "wrongApp appName = (if appName = [] \<or> appName \<notin> set VALID_APP_NAMES then Inl (Error ''Wrong app name'') else Inr ())"

definition artifactFor :: "string \<Rightarrow> string" where
  "artifactFor appName = (case map_of APP_ARTIFACTS appName of None \<Rightarrow> ''undefined'' | Some a \<Rightarrow> a)"

section \<open>13, 14 and 15: a new implementation of an app\<close>

definition deployAppInstance_13 :: "env \<Rightarrow> vote_env \<Rightarrow> string \<Rightarrow> unit prog" where
  "deployAppInstance_13 E V appName =
     bindP (liftP (wrongApp appName)) (\<lambda>_.
     bindP (requireState E [''lidoApmEnsName'', ''lidoApmAddress'', appKey appName]) (\<lambda>state.
     bindP (saveDeployTx E (artifactFor appName) (''tx-13-1-deploy-'' @ appName @ ''-base.json'') []
              [(''from'', sender (ve_DEPLOYER V) state)]) (\<lambda>_. returnP ())))"

fun camelCase :: "string \<Rightarrow> string" where
  "camelCase [] = []"
| "camelCase [c] = [c]"
| "camelCase (c # d # s) =
     (if c = CHR ''-'' \<and> d \<noteq> CHR 0x0A then upper_char d # camelCase s else c # camelCase (d # s))"

definition obtainAppInstance_14 :: "env \<Rightarrow> string \<Rightarrow> unit prog" where
  "obtainAppInstance_14 E appName =
     bindP (liftP (wrongApp appName)) (\<lambda>_.
     let appArtifact = artifactFor appName; txKey = camelCase (to_lower appName) @ ''BaseDeployTx''
     in bindP (requireState E ([''ensAddress'', ''multisigAddress'', ''lidoBaseDeployTx'', ''oracleBaseDeployTx'',
          ''nodeOperatorsRegistryBaseDeployTx''] @ [txKey, appKey appName])) (\<lambda>state.
        bindP (liftP (useOrGetDeployed E appArtifact JNull (obj_get state txKey))) (\<lambda>appBase.
        bindP (appField state appName ''baseAddress'') (\<lambda>oldBase.
        bindP (liftP (assertR (\<not> loose_eq oldBase (JStr appBase)))) (\<lambda>_.
        bindP (liftP (assertDeployedBytecode E (JStr appBase) (JStr appArtifact))) (\<lambda>_.
        bindP (liftP (bindR (call_view E appBase ''hasInitialized'' []) (\<lambda>i. assert_equal i (JBool False)))) (\<lambda>_.
        bindP (liftP (bindR (call_view E appBase ''isPetrified'' []) (\<lambda>p. assert_equal p (JBool True)))) (\<lambda>_.
        bindP (persistState E state [(appKey appName,
          JObj (obj_set ''baseAddress'' (JStr appBase) (own_props (obj_get state (appKey appName)))))]) (\<lambda>_.
        returnP ())))))))))"

definition SET_REPORT_BOUNDARIES :: string where
  "SET_REPORT_BOUNDARIES = ''0x44adaee26c92733e57241cb0b26ffaa2d182ed7120ba3ecd7e0dce3635c01dc1''"

definition SET_BEACON_REPORT_RECEIVER :: string where
  "SET_BEACON_REPORT_RECEIVER = ''0xe22a455f1bfbaf705ac3e891a64e156da92cb0b42cfc389158e6e82bd57f37be''"

text \<open>The proxy of the oracle is read from \<open>app:${APP}\<close>, the process variable, not from \<open>appName\<close>.\<close>

definition voteNewImpl_15 :: "env \<Rightarrow> vote_env \<Rightarrow> string \<Rightarrow> unit prog" where
  "voteNewImpl_15 E V appName =
     bindP (liftP (wrongApp appName)) (\<lambda>_.
     bindP (requireState E [''lidoApmEnsName'', ''ensAddress'', ''daoAddress'', appKey (APP_NAMES ARAGON_VOTING),
       appKey (APP_NAMES ARAGON_TOKEN_MANAGER), appKey appName]) (\<lambda>state.
     bindP (at_addr E ''ENS'' (obj_get state ''ensAddress'')) (\<lambda>ens.
     let appId = name_hash E (appFullName appName (obj_get state ''lidoApmEnsName'')); daoAddress = obj_get state ''daoAddress''
     in bindP (liftP (resolveEnsAddress E ens appId)) (\<lambda>repoAddress.
        bindP (appField state (APP_NAMES ARAGON_VOTING) ''proxyAddress'') (\<lambda>votingAddress.
        bindP (appField state (APP_NAMES ARAGON_TOKEN_MANAGER) ''proxyAddress'') (\<lambda>tokenManagerAddress.
        bindP (appField state appName ''baseAddress'') (\<lambda>appBaseAddress.
        bindP (appField state (ve_APP V) ''proxyAddress'') (\<lambda>oracleAddress.
        bindP (at_addr E ''LidoOracle'' oracleAddress) (\<lambda>oracle.
        bindP (at_addr E ''Kernel'' daoAddress) (\<lambda>dao.
        bindP (at_addr E ''Repo'' repoAddress) (\<lambda>repo.
        bindP (at_addr E ''Voting'' votingAddress) (\<lambda>voting.
        bindP (at_addr E ''TokenManager'' tokenManagerAddress) (\<lambda>tokenManager.
        bindP (liftP (ve_toContentUri V ''ipfs'' (ve_CONTENT_CID V))) (\<lambda>newContentURI.
        bindP (view E dao ''acl'' []) (\<lambda>aclAddress.
        bindP (view E dao ''APP_BASES_NAMESPACE'' []) (\<lambda>ns.
        bindP (at_addr E ''ACL'' aclAddress) (\<lambda>acl.
        bindP (view E repo ''getLatest'' []) (\<lambda>latest.
        bindP (liftP (bindR (getp latest ''semanticVersion'') arrOf)) (\<lambda>semanticVersion.
        bindP (prop_of latest ''contractAddress'') (\<lambda>contractAddress.
        bindP (liftP (bumpVersion (ve_BUMP V) semanticVersion)) (\<lambda>versionTo.
        if strict_eq contractAddress appBaseAddress then throwP (Error ''No new implementation found'')
        else bindP (liftP (mapR id
               [scriptCall E repoAddress repo ''newVersion'' [JArr versionTo, appBaseAddress, JStr newContentURI],
                scriptCall E daoAddress dao ''setApp'' [ns, JStr appId, appBaseAddress],
                scriptCall E aclAddress acl ''createPermission'' [votingAddress, oracleAddress, JStr SET_REPORT_BOUNDARIES, votingAddress],
                scriptCall E aclAddress acl ''createPermission'' [votingAddress, oracleAddress, JStr SET_BEACON_REPORT_RECEIVER, votingAddress],
                scriptCall E oracleAddress oracle ''initialize_v2'' [JInt 1000, JInt 500]])) (\<lambda>calls.
             saveVote E V voting votingAddress tokenManager (''tx-15-1-create-vote-new-'' @ appName @ ''-version.json'')
               (JStr (ve_DEPLOYER V)) calls))))))))))))))))))))))"

section \<open>16 to 19: the depositor\<close>

definition REQUIRED_16 :: "string list" where
  "REQUIRED_16 = [''daoInitialSettings'', ''depositorParams'', appKey (APP_NAMES LIDO), appKey (APP_NAMES NODE_OPERATORS_REGISTRY)]"

definition depositContractOf :: "props \<Rightarrow> jsval prog" where
  "depositContractOf state =
     liftP (bindR (getp (obj_get state ''daoInitialSettings'') ''beaconSpec'') (\<lambda>s. getp s ''depositContractAddress''))"

definition depositorArgs :: "env \<Rightarrow> props \<Rightarrow> jsval list prog" where
  "depositorArgs E state =
     bindP (appField state (APP_NAMES LIDO) ''proxyAddress'') (\<lambda>lidoAddress.
     bindP (appField state (APP_NAMES NODE_OPERATORS_REGISTRY) ''proxyAddress'') (\<lambda>nosAddress.
     bindP (depositContractOf state) (\<lambda>depositContractAddress.
     bindP (liftP (propsOf (obj_get state ''depositorParams'')
       [''maxDepositsPerBlock'', ''minDepositBlockDistance'', ''pauseIntentValidityPeriodBlocks''])) (\<lambda>params.
     returnP ([lidoAddress, depositContractAddress, nosAddress, JInt (network_id E)] @ params)))))"

definition deployDepositor_16 :: "env \<Rightarrow> vote_env \<Rightarrow> unit prog" where
  "deployDepositor_16 E V =
     bindP (requireState E REQUIRED_16) (\<lambda>state.
     bindP (depositorArgs E state) (\<lambda>args.
     bindP (saveDeployTx E ''DepositSecurityModule'' ''tx-16-deploy-depositor.json'' args [(''from'', sender (ve_DEPLOYER V) state)]) (\<lambda>_.
     bindP (persistState E state [(''depositorConstructorArgs'', JArr args)]) (\<lambda>_. returnP ()))))"

text \<open>\<open>assert.equal (await instance.method(), expected)\<close> for a list of methods.\<close>

definition viewsEqual :: "env \<Rightarrow> string \<Rightarrow> (string \<times> jsval) list \<Rightarrow> unit res" where
  "viewsEqual E inst xs = forR (\<lambda>(m, expected). bindR (call_view E inst m []) (\<lambda>v. assert_equal v expected)) xs"

definition newDepositorState :: "props \<Rightarrow> string \<Rightarrow> props" where
  "newDepositorState state address =
     (let current = obj_get state ''depositorAddress''
      in [(''depositorAddress'', JStr address)] @
         (if current \<noteq> JUndef \<and> \<not> strict_eq (JStr address) current then [(''depositorPreviousAddress'', current)] else []))"

definition obtainDepositor_17 :: "env \<Rightarrow> unit prog" where
  "obtainDepositor_17 E =
     bindP (requireState E ([''depositorDeployTx''] @ REQUIRED_16)) (\<lambda>state.
     bindP (liftP (useOrGetDeployed E ''DepositSecurityModule'' JNull (obj_get state ''depositorDeployTx''))) (\<lambda>depositor.
     bindP (appField state (APP_NAMES LIDO) ''proxyAddress'') (\<lambda>lidoAddress.
     bindP (appField state (APP_NAMES NODE_OPERATORS_REGISTRY) ''proxyAddress'') (\<lambda>nosAddress.
     bindP (depositContractOf state) (\<lambda>depositContractAddress.
     let params = own_props (obj_get state ''depositorParams'')
     in bindP (liftP (viewsEqual E depositor
          [(''getPauseIntentValidityPeriodBlocks'', obj_get params ''pauseIntentValidityPeriodBlocks''),
           (''getMaxDeposits'', obj_get params ''maxDepositsPerBlock''),
           (''getMinDepositBlockDistance'', obj_get params ''minDepositBlockDistance'')])) (\<lambda>_.
        bindP (liftP (viewsEqual E depositor [(''getNodeOperatorsRegistry'', nosAddress), (''LIDO'', lidoAddress),
          (''DEPOSIT_CONTRACT'', depositContractAddress)])) (\<lambda>_.
        bindP (persistState E state (newDepositorState state depositor)) (\<lambda>_. returnP ()))))))))"

definition withDefault :: "jsval \<Rightarrow> jsval \<Rightarrow> jsval" where
  "withDefault v d = (if v = JUndef then d else v)"

definition addGuardians_18 :: "env \<Rightarrow> vote_env \<Rightarrow> unit prog" where
  "addGuardians_18 E V =
     bindP (requireState E [''depositorAddress'', ''depositorParams'']) (\<lambda>state.
     let params = own_props (obj_get state ''depositorParams'')
     in bindP (at_addr E ''DepositSecurityModule'' (obj_get state ''depositorAddress'')) (\<lambda>depositor.
        saveTx E depositor ''addGuardians'' ''tx-18-depositor-add-guardians.json''
          [withDefault (obj_get params ''guardians'') (JArr []), withDefault (obj_get params ''quorum'') (JInt 1)]
          (sender (ve_DEPLOYER V) state)))"

definition transferOwnership_19 :: "env \<Rightarrow> vote_env \<Rightarrow> unit prog" where
  "transferOwnership_19 E V =
     bindP (requireState E [''depositorAddress'', ''depositorParams'', appKey (APP_NAMES ARAGON_AGENT)]) (\<lambda>state.
     bindP (at_addr E ''DepositSecurityModule'' (obj_get state ''depositorAddress'')) (\<lambda>depositor.
     bindP (appField state (APP_NAMES ARAGON_AGENT) ''proxyAddress'') (\<lambda>agentAddress.
     saveTx E depositor ''setOwner'' ''tx-19-transfer-depositor-ownership.json'' [agentAddress] (sender (ve_DEPLOYER V) state))))"

section \<open>20-mitigating-deposit-front-running.js\<close>

definition DEPOSIT_ROLE :: string where
  "DEPOSIT_ROLE = ''0x2561bf26f818282a3be40719542054d2173eb0d38539e8a8d3cff22f29fd2384''"

definition buildUpgradeTransaction :: "env \<Rightarrow> string \<Rightarrow> props \<Rightarrow> string \<Rightarrow> string \<Rightarrow> (jsval \<times> string) list res" where
  "buildUpgradeTransaction E appName state ens dao =
     (let appId = name_hash E (appFullName appName (obj_get state ''lidoApmEnsName''))
      in bindR (resolveEnsAddress E ens appId) (\<lambda>repoAddress.
         bindR (getp (obj_get state (appKey appName)) ''baseAddress'') (\<lambda>newContractAddress.
         bindR (getp (obj_get state (appKey appName)) ''contentURI'') (\<lambda>newContentURI.
         bindR (contract_at E ''Repo'' repoAddress) (\<lambda>repo.
         bindR (call_view E dao ''APP_BASES_NAMESPACE'' []) (\<lambda>ns.
         bindR (call_view E repo ''getLatest'' []) (\<lambda>latest.
         bindR (bindR (getp latest ''semanticVersion'') arrOf) (\<lambda>currentVersion.
         bindR (bumpVersion ''major'' currentVersion) (\<lambda>versionTo.
         mapR id [scriptCall E repoAddress repo ''newVersion'' [JArr versionTo, newContractAddress, newContentURI],
                  scriptCall E (obj_get state ''daoAddress'') dao ''setApp'' [ns, JStr appId, newContractAddress]])))))))))"

text \<open>One operator: its limit is raised to its number of keys when it is active and below it.\<close>

definition limitCall :: "env \<Rightarrow> string \<Rightarrow> jsval \<Rightarrow> nat \<Rightarrow> (jsval \<times> string) list res" where
  "limitCall E nosRegistry nosRegistryAddress i =
     bindR (call_view E nosRegistry ''getNodeOperator'' [JInt (int i), JBool True]) (\<lambda>op.
     bindR (bindR (getp op ''totalSigningKeys'') bnToNumber) (\<lambda>totalSigningKeys.
     bindR (bindR (getp op ''stakingLimit'') bnToNumber) (\<lambda>stakingLimit.
     bindR (getp op ''active'') (\<lambda>active.
     case (stakingLimit, totalSigningKeys) of
       (JNum (Fin l), JNum (Fin t)) \<Rightarrow>
         (if truthy active \<and> l < t
          then bindR (scriptCall E nosRegistryAddress nosRegistry ''setNodeOperatorStakingLimit'' [JInt (int i), totalSigningKeys])
                 (\<lambda>c. Inr [c])
          else Inr [])
     | _ \<Rightarrow> Inl TypeError))))"

definition limitCalls :: "env \<Rightarrow> string \<Rightarrow> jsval \<Rightarrow> (jsval \<times> string) list res" where
  "limitCalls E nosRegistry nosRegistryAddress =
     bindR (call_view E nosRegistry ''getNodeOperatorsCount'' []) (\<lambda>count.
     bindR (bnToNumber count) (\<lambda>_.
     bindR (mapR (limitCall E nosRegistry nosRegistryAddress) [0..<(case count of JBN n \<Rightarrow> nat n | _ \<Rightarrow> 0)]) (\<lambda>css.
     Inr (concat css))))"

definition mitigateFrontRunning_20 :: "env \<Rightarrow> vote_env \<Rightarrow> unit prog" where
  "mitigateFrontRunning_20 E V =
     bindP (requireState E [''lidoApmEnsName'', ''ensAddress'', ''daoAddress'', ''depositorAddress'',
       appKey (APP_NAMES ARAGON_VOTING), appKey (APP_NAMES ARAGON_TOKEN_MANAGER), ''app:lido'', ''app:node-operators-registry'']) (\<lambda>state.
     bindP (at_addr E ''ENS'' (obj_get state ''ensAddress'')) (\<lambda>ens.
     bindP (appField state (APP_NAMES ARAGON_VOTING) ''proxyAddress'') (\<lambda>votingAddress.
     bindP (appField state (APP_NAMES ARAGON_TOKEN_MANAGER) ''proxyAddress'') (\<lambda>tokenManagerAddress.
     bindP (appField state (APP_NAMES NODE_OPERATORS_REGISTRY) ''proxyAddress'') (\<lambda>nosRegistryAddress.
     bindP (at_addr E ''Voting'' votingAddress) (\<lambda>voting.
     bindP (at_addr E ''TokenManager'' tokenManagerAddress) (\<lambda>tokenManager.
     bindP (at_addr E ''NodeOperatorsRegistry'' nosRegistryAddress) (\<lambda>nosRegistry.
     bindP (at_addr E ''Kernel'' (obj_get state ''daoAddress'')) (\<lambda>dao.
     bindP (view E dao ''acl'' []) (\<lambda>aclAddress.
     bindP (at_addr E ''ACL'' aclAddress) (\<lambda>acl.
     bindP (liftP (buildUpgradeTransaction E ''lido'' state ens dao)) (\<lambda>lidoUpgrade.
     bindP (liftP (buildUpgradeTransaction E ''node-operators-registry'' state ens dao)) (\<lambda>nosUpgrade.
     bindP (appField state ''lido'' ''proxyAddress'') (\<lambda>lidoProxy.
     bindP (liftP (scriptCall E aclAddress acl ''createPermission''
       [obj_get state ''depositorAddress'', lidoProxy, JStr DEPOSIT_ROLE, votingAddress])) (\<lambda>grantRole.
     bindP (liftP (limitCalls E nosRegistry nosRegistryAddress)) (\<lambda>limits.
     saveVote E V voting votingAddress tokenManager ''tx-20-mitigating-deposit-front-running.json''
       (sender (ve_DEPLOYER V) state) (lidoUpgrade @ nosUpgrade @ [grantRole] @ limits)))))))))))))))))"

section \<open>Scripts that only save one transaction\<close>

text \<open>
  \<open>saves name m\<close>: \<open>m\<close> touches neither the network state nor the chain, saves exactly one
  transaction file, called \<open>name\<close>, when it succeeds, and none when it fails.
\<close>

definition saves :: "string \<Rightarrow> unit prog \<Rightarrow> bool" where
  "saves name m \<longleftrightarrow> (\<forall>w. net_files (snd (m w)) = net_files w \<and> sent (snd (m w)) = sent w \<and>
     (if okR (fst (m w)) then (\<exists>v. tx_files (snd (m w)) = tx_files w @ [(name, v)])
      else tx_files (snd (m w)) = tx_files w))"

lemma saves_saveTx [intro]: "saves name (saveTx E inst m name args from)"
  by (auto simp: saves_def saveTx_def bindP_def tx_files_saveCallTxData prog_simps split: sum.splits)

lemma saves_bindP [intro]:
  assumes "read_only m" and "\<And>x. saves name (f x)"
  shows "saves name (bindP m f)"
  unfolding saves_def
proof
  fix w
  obtain r w' where m: "m w = (r, w')" by (cases "m w")
  with assms(1) have [simp]: "w' = w" by (metis read_only_def snd_conv)
  show "net_files (snd (bindP m f w)) = net_files w \<and> sent (snd (bindP m f w)) = sent w \<and>
     (if okR (fst (bindP m f w)) then \<exists>v. tx_files (snd (bindP m f w)) = tx_files w @ [(name, v)]
      else tx_files (snd (bindP m f w)) = tx_files w)"
  proof (cases r)
    case (Inl e)
    then show ?thesis by (simp add: bindP_def m)
  next
    case (Inr x)
    then have "bindP m f w = f x w" by (simp add: bindP_def m)
    with assms(2) [of x] show ?thesis by (simp add: saves_def)
  qed
qed

lemma saves_throwP [intro]: "saves name (throwP e)"
  by (simp add: saves_def throwP_def)

lemma if_saves [intro]: "saves name a \<Longrightarrow> saves name b \<Longrightarrow> saves name (if c then a else b)"
  by simp

lemma saves_saveVote [intro]: "saves name (saveVote E V voting va tm name from calls)"
  unfolding saveVote_def by (intro saves_bindP saves_saveTx read_only_liftP)

lemma appField_ok [prog_ok]:
  "appField st n f w = (Inr v, w') \<longleftrightarrow> getp (obj_get st (appKey n)) f = Inr v \<and> w' = w"
  "depositContractOf st w = (Inr v, w') \<longleftrightarrow>
     bindR (getp (obj_get st ''daoInitialSettings'') ''beaconSpec'') (\<lambda>s. getp s ''depositContractAddress'') = Inr v \<and> w' = w"
  by (auto simp: appField_def depositContractOf_def prog_ok)

lemma read_only_appField [intro, simp]: "read_only (appField st n f)" "read_only (depositContractOf st)"
  by (simp_all add: appField_def depositContractOf_def)

text \<open>A whole vote script: reading the state may create the file of a network that has none.\<close>

definition vote_script :: "env \<Rightarrow> string \<Rightarrow> unit prog \<Rightarrow> bool" where
  "vote_script E name m \<longleftrightarrow> (\<forall>w. net_files (snd (m w)) \<in> {net_files w, net_files (after_read E w)} \<and>
     sent (snd (m w)) = sent w \<and>
     (if okR (fst (m w)) then (\<exists>v. tx_files (snd (m w)) = tx_files w @ [(name, v)])
      else tx_files (snd (m w)) = tx_files w))"

lemma vote_script_requireState:
  assumes "\<And>st. saves name (f st)"
  shows "vote_script E name (bindP (requireState E ks) f)"
  unfolding vote_script_def
proof
  fix w
  show "net_files (snd (bindP (requireState E ks) f w)) \<in> {net_files w, net_files (after_read E w)} \<and>
     sent (snd (bindP (requireState E ks) f w)) = sent w \<and>
     (if okR (fst (bindP (requireState E ks) f w))
      then (\<exists>v. tx_files (snd (bindP (requireState E ks) f w)) = tx_files w @ [(name, v)])
      else tx_files (snd (bindP (requireState E ks) f w)) = tx_files w)"
  proof (cases "requireState E ks w")
    case (Pair r w')
    then have w': "w' = after_read E w" using requireState_world [of E ks w] by simp
    show ?thesis
    proof (cases r)
      case (Inl e)
      with Pair w' show ?thesis by (simp add: bindP_def)
    next
      case (Inr st)
      with Pair w' have "bindP (requireState E ks) f w = f st (after_read E w)" by (simp add: bindP_def)
      moreover from assms [of st] have "net_files (snd (f st (after_read E w))) = net_files (after_read E w) \<and>
          sent (snd (f st (after_read E w))) = sent (after_read E w) \<and>
          (if okR (fst (f st (after_read E w))) then (\<exists>v. tx_files (snd (f st (after_read E w))) = tx_files (after_read E w) @ [(name, v)])
           else tx_files (snd (f st (after_read E w))) = tx_files (after_read E w))"
        unfolding saves_def by blast
      ultimately show ?thesis by (auto split: if_splits)
    qed
  qed
qed

lemma vote_script_liftP:
  assumes "vote_script E name m"
  shows "vote_script E name (bindP (liftP r) (\<lambda>_. m))"
  using assms by (cases r) (simp_all add: vote_script_def bindP_def liftP_def)

section \<open>Properties\<close>

text \<open>
  C8: the vote against deposit front-running raises the staking limits of exactly the operators that
  need it: for each active operator whose limit is below its number of keys, in order, one call that
  sets the limit to that number, and no call for any other operator.
\<close>

theorem limitCalls_exact:
  assumes "call_view E reg ''getNodeOperatorsCount'' [] = Inr (JBN (int (length ops)))"
    and "\<And>i. i < length ops \<Longrightarrow> call_view E reg ''getNodeOperator'' [JInt (int i), JBool True] =
      Inr (JObj [(''active'', JBool (active (ops ! i))), (''stakingLimit'', JBN (limit (ops ! i))),
                 (''totalSigningKeys'', JBN (keys (ops ! i)))])"
    and "\<And>i k. encode_call E reg ''setNodeOperatorStakingLimit'' [JInt (int i), JInt k] = Inr (enc i k)"
    and "length ops < 2 ^ 53" and "list_all (\<lambda>op. \<bar>limit op\<bar> < 2 ^ 53 \<and> \<bar>keys op\<bar> < 2 ^ 53) ops"
  shows "limitCalls E reg target = Inr (map (\<lambda>i. (target, enc i (keys (ops ! i))))
    (filter (\<lambda>i. active (ops ! i) \<and> limit (ops ! i) < keys (ops ! i)) [0..<length ops]))"
proof -
  define out where "out = (\<lambda>i. if active (ops ! i) \<and> limit (ops ! i) < keys (ops ! i)
    then [(target, enc i (keys (ops ! i)))] else [])"
  have one: "limitCall E reg target i = Inr (out i)" if i: "i < length ops" for i
  proof -
    have "\<bar>limit (ops ! i)\<bar> < 2 ^ 53" "\<bar>keys (ops ! i)\<bar> < 2 ^ 53" using assms(5) i by (auto simp: list_all_length)
    then show ?thesis
      using assms(3) by (simp add: limitCall_def assms(2) [OF i] bnToNumber_def scriptCall_def out_def
          del: of_int_of_nat_eq)
  qed
  have "mapR (limitCall E reg target) [0..<length ops] = Inr (map out [0..<length ops])"
    by (rule mapR_total) (simp add: one)
  moreover have "bnToNumber (JBN (int (length ops))) = Inr (JInt (int (length ops)))"
    using assms(4) by (simp add: bnToNumber_def)
  moreover have "concat (map out xs) = map (\<lambda>i. (target, enc i (keys (ops ! i))))
    (filter (\<lambda>i. active (ops ! i) \<and> limit (ops ! i) < keys (ops ! i)) xs)" for xs
    by (induction xs) (simp_all add: out_def)
  ultimately show ?thesis by (simp add: limitCalls_def assms(1) del: of_int_of_nat_eq)
qed

definition operators_env :: env where
  "operators_env = offline_env\<lparr>encode_call := \<lambda>_ _ args. Inr (to_str (JArr args)),
     call_view := \<lambda>_ m args. Inr (if m = ''getNodeOperatorsCount'' then JBN 2
       else JObj [(''active'', JBool True), (''stakingLimit'', JBN (if args = [JInt 0, JBool True] then 3 else 9)),
                  (''totalSigningKeys'', JBN (if args = [JInt 0, JBool True] then 3 else 10))])\<rparr>"

theorem limitCalls_exact_witness:
  "limitCalls operators_env ''0xa'' (JStr ''0xb'') = Inr [(JStr ''0xb'', to_str (JArr [JInt 1, JInt 10]))]"
proof -
  define ops :: "(int \<times> int) list" where "ops = [(3, 3), (9, 10)]"
  have "limitCalls operators_env ''0xa'' (JStr ''0xb'') = Inr (map (\<lambda>i. (JStr ''0xb'', to_str (JArr [JInt (int i), JInt (snd (ops ! i))])))
    (filter (\<lambda>i. True \<and> fst (ops ! i) < snd (ops ! i)) [0..<length ops]))"
    by (rule limitCalls_exact [where active = "\<lambda>_. True" and limit = fst and keys = snd and
          enc = "\<lambda>i k. to_str (JArr [JInt (int i), JInt k])"])
       (auto simp: operators_env_def less_Suc_eq ops_def)
  moreover have "[0..<length ops] = [0, 1]" by (simp add: upt_rec ops_def)
  ultimately show ?thesis by (simp add: ops_def)
qed

text \<open>
  \<open>bumpVersion\<close> raises one part and keeps the others: a major bump of version \<open>a.b.c\<close> is
  \<open>(a+1).b.c\<close>, the minor and patch parts are not set back to zero.
\<close>

theorem bumpVersion_keeps_parts:
  assumes "0 \<le> a" "a < 2 ^ 52" "0 \<le> b" "b < 2 ^ 52" "0 \<le> c" "c < 2 ^ 52"
  shows "bumpVersion bump [JBN a, JBN b, JBN c] = Inr
    (if bump = ''patch'' then [JInt a, JInt b, JInt (c + 1)]
     else if bump = ''minor'' then [JInt a, JInt (b + 1), JInt c] else [JInt (a + 1), JInt b, JInt c])"
  using assms by (simp add: bumpVersion_def bumpIndex_def bnToNumber_def addn1_def Let_def)

theorem bumpVersion_keeps_parts_witness:
  "bumpVersion ''major'' [JBN 1, JBN 2, JBN 3] = Inr [JInt 2, JInt 2, JInt 3]"
  using bumpVersion_keeps_parts [of 1 2 3 "''major''"] by simp

text \<open>
  the vote script for a new implementation needs the process variable \<open>APP\<close> even when it is
  called with an app name: without an entry for \<open>APP\<close> in the network state it never succeeds,
  whatever the name it was given, and saves nothing.
\<close>

theorem voteNewImpl_needs_APP:
  assumes "state_of E w = Some st" and "\<not> not_nullish (obj_get st (appKey (ve_APP V)))"
  shows "\<not> okR (fst (voteNewImpl_15 E V appName w)) \<and> tx_files (snd (voteNewImpl_15 E V appName w)) = tx_files w"
proof -
  have no: "\<not> okR (fst (voteNewImpl_15 E V appName w))"
  proof
    assume "okR (fst (voteNewImpl_15 E V appName w))"
    then obtain u w' where "voteNewImpl_15 E V appName w = (Inr u, w')"
      by (cases "voteNewImpl_15 E V appName w") (auto simp: okR_iff)
    then obtain v where "getp (obj_get st (appKey (ve_APP V))) ''proxyAddress'' = Inr v"
      using assms(1) unfolding voteNewImpl_15_def Let_def appField_def by (auto simp only: prog_ok option.inject)
    with getp_Inr [OF this] assms(2) show False
      by (cases "obj_get st (appKey (ve_APP V))") (auto simp: not_nullish_def)
  qed
  have "vote_script E (''tx-15-1-create-vote-new-'' @ appName @ ''-version.json'') (voteNewImpl_15 E V appName)"
    unfolding voteNewImpl_15_def Let_def
    by (rule vote_script_liftP, rule vote_script_requireState)
       (intro saves_bindP saves_saveVote read_only_liftP read_only_frame read_only_appField saves_throwP if_saves)
  with no show ?thesis unfolding vote_script_def by metis
qed

definition votes_env :: vote_env where
  "votes_env = \<lparr>ve_APP = [], ve_BUMP = ''major'', ve_DEPLOYER = ''0xde'', ve_HOLDER = [], ve_CONTENT_CID = JUndef,
     ve_VOTE_ID = [], ve_encodeCallScript = \<lambda>cs. Inr (concat (map snd cs)), ve_toContentUri = \<lambda>a b. Inr a,
     ve_toWei = \<lambda>s. s @ replicate 18 (CHR ''0''), ve_getTransaction = \<lambda>_. Inl (External ''offline''),
     ve_startVoteSignature = JStr ''0x4d'', ve_decodeLog = \<lambda>_. Inr JUndef\<rparr>"

theorem voteNewImpl_needs_APP_witness:
  "\<not> okR (fst (voteNewImpl_15 offline_env votes_env ''oracle''
     (empty_world\<lparr>net_files := [state_file offline_env \<mapsto> JsonText (JObj [(''networkId'', JInt 1337),
        (appKey ''oracle'', JObj [(''proxyAddress'', JStr ''0xa'')])])]\<rparr>)))"
  using voteNewImpl_needs_APP [of offline_env "empty_world\<lparr>net_files := [state_file offline_env \<mapsto>
      JsonText (JObj [(''networkId'', JInt 1337), (appKey ''oracle'', JObj [(''proxyAddress'', JStr ''0xa'')])])]\<rparr>"
      "[(''networkId'', JInt 1337), (appKey ''oracle'', JObj [(''proxyAddress'', JStr ''0xa'')])]" votes_env "''oracle''"]
  by (simp add: state_of_def strict_eq_def not_nullish_def appKey_def votes_env_def) (simp add: offline_env_def)

text \<open>
  replacing the depositor keeps a trail: when step 17 succeeds, the state it persists names the
  contract created by the recorded transaction as the depositor, and if another depositor was recorded
  before, its address is stored as the previous one.
\<close>

theorem obtainDepositor_trail:
  assumes "obtainDepositor_17 E w = (Inr (), w')" and "state_of E w = Some st"
  shows "\<exists>addr st'. getDeployed E ''DepositSecurityModule'' (obj_get st ''depositorDeployTx'') = Inr addr \<and>
    state_of E w' = Some st' \<and> obj_get st' ''depositorAddress'' = JStr addr \<and>
    (case obj_get st ''depositorAddress'' of
       JStr old \<Rightarrow> old = addr \<or> obj_get st' ''depositorPreviousAddress'' = JStr old
     | _ \<Rightarrow> True)"
proof -
  from assms obtain addr where a: "useOrGetDeployed E ''DepositSecurityModule'' JNull (obj_get st ''depositorDeployTx'') = Inr addr"
    and w': "w' = snd (persistState E st (newDepositorState st addr) (after_read E w))"
    unfolding obtainDepositor_17_def Let_def prog_ok by (auto simp: persistState_eq Let_def)
  define st1 where "st1 = updateNetworkState (obj_set ''networkId'' (JInt (network_id E)) st) (newDepositorState st addr)"
  have s: "state_of E w' = Some (json_props (bn_json E) st1)"
    unfolding w' st1_def by (rule state_of_persistState) (auto simp: newDepositorState_def Let_def)
  have d: "obj_get st1 ''depositorAddress'' = JStr addr"
    by (auto simp: st1_def newDepositorState_def Let_def updateNetworkState_def updateKey_def not_nullish_def)
  show ?thesis
  proof (intro exI conjI)
    show "getDeployed E ''DepositSecurityModule'' (obj_get st ''depositorDeployTx'') = Inr addr"
      using a by (simp add: useOrGetDeployed_def)
    show "state_of E w' = Some (json_props (bn_json E) st1)" by (rule s)
    show "obj_get (json_props (bn_json E) st1) ''depositorAddress'' = JStr addr"
      using d by (simp add: json_props_get)
    show "case obj_get st ''depositorAddress'' of
       JStr old \<Rightarrow> old = addr \<or> obj_get (json_props (bn_json E) st1) ''depositorPreviousAddress'' = JStr old
     | _ \<Rightarrow> True"
      by (auto simp: st1_def newDepositorState_def Let_def updateNetworkState_def updateKey_def strict_eq_def
           not_nullish_def json_props_get split: jsval.splits)
  qed
qed

definition depositor_env :: env where
  "depositor_env = offline_env\<lparr>contract_at := \<lambda>_ v. Inr (to_str v),
     get_receipt := \<lambda>_. Inr (JObj [(''contractAddress'', JStr ''0x22'')]),
     call_view := \<lambda>_ m _. Inr (if m = ''LIDO'' then JStr ''0xa'' else if m = ''getNodeOperatorsRegistry'' then JStr ''0xb''
       else if m = ''DEPOSIT_CONTRACT'' then JStr ''0xc'' else JBN 5)\<rparr>"

definition depositor_state :: props where
  "depositor_state = [(''networkId'', JInt 1337), (''depositorDeployTx'', JStr ''0x1''), (''depositorAddress'', JStr ''0x11''),
     (''daoInitialSettings'', JObj [(''beaconSpec'', JObj [(''depositContractAddress'', JStr ''0xc'')])]),
     (''depositorParams'', JObj [(''maxDepositsPerBlock'', JInt 5), (''minDepositBlockDistance'', JInt 5),
        (''pauseIntentValidityPeriodBlocks'', JInt 5)]),
     (''app:lido'', JObj [(''proxyAddress'', JStr ''0xa'')]),
     (''app:node-operators-registry'', JObj [(''proxyAddress'', JStr ''0xb'')])]"

definition depositor_world :: world where
  "depositor_world = empty_world\<lparr>net_files := [state_file depositor_env \<mapsto> JsonText (JObj depositor_state)]\<rparr>"

theorem obtainDepositor_trail_witness:
  "\<exists>w' st'. obtainDepositor_17 depositor_env depositor_world = (Inr (), w') \<and> state_of depositor_env w' = Some st' \<and>
     obj_get st' ''depositorAddress'' = JStr ''0x22'' \<and> obj_get st' ''depositorPreviousAddress'' = JStr ''0x11''"
proof -
  have st: "state_of depositor_env depositor_world = Some depositor_state"
    by (simp add: state_of_def depositor_world_def depositor_state_def strict_eq_def depositor_env_def offline_env_def)
  have g: "getDeployed depositor_env a h = Inr ''0x22''" for a h
    by (simp add: getDeployed_def depositor_env_def)
  have five: "loose_eq (JBN 5) (JInt 5)" "loose_eq (JBN 5) (JNum (Fin 5))" by code_simp+
  have v: "okR (viewsEqual depositor_env i [(''getPauseIntentValidityPeriodBlocks'', JInt 5), (''getMaxDeposits'', JInt 5),
      (''getMinDepositBlockDistance'', JInt 5)])"
    "okR (viewsEqual depositor_env i [(''getNodeOperatorsRegistry'', JStr ''0xb''), (''LIDO'', JStr ''0xa''),
      (''DEPOSIT_CONTRACT'', JStr ''0xc'')])" for i
    by (simp_all add: viewsEqual_def depositor_env_def five del: forR.simps)
  obtain w' where w': "obtainDepositor_17 depositor_env depositor_world = (Inr (), w')"
    unfolding obtainDepositor_17_def Let_def prog_ok
    by (auto simp: st depositor_state_def REQUIRED_16_def appKey_def useOrGetDeployed_def g okR_unit v [simplified])
  from obtainDepositor_trail [OF w' st] obtain st' where "state_of depositor_env w' = Some st'"
    "obj_get st' ''depositorAddress'' = JStr ''0x22''" "obj_get st' ''depositorPreviousAddress'' = JStr ''0x11''"
    by (auto simp: g depositor_state_def)
  with w' show ?thesis by blast
qed

end
