(* ===== verification/MultisigUpgrades.thy ===== *)
theory MultisigUpgrades
  imports MultisigVotes
begin

text \<open>
  scripts/multisig/21 to 31: the composite receiver, the self-owned burner and its vote, the
  execution-layer rewards vault and its vote, the depositor's second deployment, the protocol start;
  then upgrade-app.js, verify-vote-tx.js and vote-and-enact.js.
\<close>

section \<open>21 to 24: composite receiver and burner\<close>

definition deployComposite_21 :: "env \<Rightarrow> vote_env \<Rightarrow> unit prog" where
  "deployComposite_21 E V =
     bindP (requireState E [''lidoApmEnsName'', ''ensAddress'', ''daoAddress'', appKey (APP_NAMES ARAGON_VOTING),
       appKey (APP_NAMES ORACLE)]) (\<lambda>state.
     bindP (appField state (APP_NAMES ARAGON_VOTING) ''proxyAddress'') (\<lambda>votingAddress.
     bindP (appField state (APP_NAMES ORACLE) ''proxyAddress'') (\<lambda>lidoOracleAddress.
     bindP (saveDeployTx E ''CompositePostRebaseBeaconReceiver'' ''tx-21-deploy-composite-post-rebase-beacon-receiver.json''
       [votingAddress, lidoOracleAddress] [(''from'', sender (ve_DEPLOYER V) state)]) (\<lambda>_.
     bindP (persistState E state [(''compositePostRebaseBeaconReceiverConstructorArgs'', JArr [votingAddress, lidoOracleAddress]),
       (''compositePostRebaseBeaconReceiverDeployTx'', JStr [])]) (\<lambda>_. returnP ())))))"

definition viewsAddress :: "env \<Rightarrow> string \<Rightarrow> (string \<times> jsval) list \<Rightarrow> unit res" where
  "viewsAddress E inst xs = forR (\<lambda>(m, expected). bindR (call_view E inst m []) (\<lambda>v. assert_addressEqual E v expected)) xs"

definition viewsBn :: "env \<Rightarrow> string \<Rightarrow> (string \<times> jsval) list \<Rightarrow> unit res" where
  "viewsBn E inst xs = forR (\<lambda>(m, expected). bindR (call_view E inst m []) (\<lambda>v. assert_bnEqual v expected)) xs"

definition obtainComposite_22 :: "env \<Rightarrow> unit prog" where
  "obtainComposite_22 E =
     bindP (requireState E [''compositePostRebaseBeaconReceiverDeployTx'', ''lidoApmEnsName'', ''ensAddress'', ''daoAddress'',
       appKey (APP_NAMES ARAGON_VOTING), appKey (APP_NAMES ORACLE)]) (\<lambda>state.
     bindP (liftP (useOrGetDeployed E ''CompositePostRebaseBeaconReceiver'' JNull
       (obj_get state ''compositePostRebaseBeaconReceiverDeployTx''))) (\<lambda>receiver.
     bindP (appField state (APP_NAMES ARAGON_VOTING) ''proxyAddress'') (\<lambda>votingAddress.
     bindP (appField state (APP_NAMES ORACLE) ''proxyAddress'') (\<lambda>lidoOracleAddress.
     bindP (liftP (viewsAddress E receiver [(''VOTING'', votingAddress), (''ORACLE'', lidoOracleAddress)])) (\<lambda>_.
     bindP (persistState E state [(''compositePostRebaseBeaconReceiverAddress'', JStr receiver)]) (\<lambda>_. returnP ()))))))"

definition REQUIRED_23 :: "string list" where
  "REQUIRED_23 = [''lidoApmEnsName'', ''ensAddress'', ''daoAddress'', ''compositePostRebaseBeaconReceiverAddress'',
     ''selfOwnedStETHBurnerParams'', appKey (APP_NAMES ARAGON_VOTING), appKey (APP_NAMES ORACLE), appKey (APP_NAMES ARAGON_AGENT)]"

definition burnerParams :: "props \<Rightarrow> jsval list" where
  "burnerParams state = map (obj_get (own_props (obj_get state ''selfOwnedStETHBurnerParams'')))
     [''totalCoverSharesBurnt'', ''totalNonCoverSharesBurnt'', ''maxBurnAmountPerRunBasisPoints'']"

definition deployBurner_23 :: "env \<Rightarrow> vote_env \<Rightarrow> unit prog" where
  "deployBurner_23 E V =
     bindP (requireState E REQUIRED_23) (\<lambda>state.
     bindP (appField state (APP_NAMES ARAGON_VOTING) ''proxyAddress'') (\<lambda>votingAddress.
     bindP (appField state (APP_NAMES ORACLE) ''proxyAddress'') (\<lambda>lidoOracleAddress.
     bindP (appField state (APP_NAMES LIDO) ''proxyAddress'') (\<lambda>lidoAddress.
     bindP (appField state (APP_NAMES ARAGON_AGENT) ''proxyAddress'') (\<lambda>treasuryAddress.
     bindP (at_addr E (artifactOf LIDO) lidoAddress) (\<lambda>lido.
     bindP (liftP (viewsAddress E lido [(''getOracle'', lidoOracleAddress), (''getInsuranceFund'', treasuryAddress)])) (\<lambda>_.
     let args = [treasuryAddress, lidoAddress, votingAddress] @ burnerParams state
     in bindP (saveDeployTx E ''SelfOwnedStETHBurner'' ''tx-23-deploy-self-owned-steth-burner.json'' args
                 [(''from'', sender (ve_DEPLOYER V) state)]) (\<lambda>_.
        bindP (persistState E state [(''selfOwnedStETHBurnerConstructorArgs'', JArr args),
          (''selfOwnedStETHBurnerDeployTx'', JStr [])]) (\<lambda>_. returnP ())))))))))"

definition obtainBurner_24 :: "env \<Rightarrow> unit prog" where
  "obtainBurner_24 E =
     bindP (requireState E ([''selfOwnedStETHBurnerDeployTx''] @ REQUIRED_23)) (\<lambda>state.
     bindP (liftP (useOrGetDeployed E ''SelfOwnedStETHBurner'' JNull (obj_get state ''selfOwnedStETHBurnerDeployTx''))) (\<lambda>burner.
     bindP (appField state (APP_NAMES LIDO) ''proxyAddress'') (\<lambda>lidoAddress.
     bindP (appField state (APP_NAMES ARAGON_VOTING) ''proxyAddress'') (\<lambda>votingAddress.
     bindP (appField state (APP_NAMES ARAGON_AGENT) ''proxyAddress'') (\<lambda>treasuryAddress.
     bindP (liftP (viewsBn E burner (zip [''getCoverSharesBurnt'', ''getNonCoverSharesBurnt'', ''getBurnAmountPerRunQuota'']
       (burnerParams state)))) (\<lambda>_.
     bindP (liftP (viewsAddress E burner [(''LIDO'', lidoAddress), (''TREASURY'', treasuryAddress), (''VOTING'', votingAddress)])) (\<lambda>_.
     bindP (persistState E state [(''selfOwnedStETHBurnerAddress'', JStr burner)]) (\<lambda>_. returnP ()))))))))"

section \<open>25-vote-self-owned-steth-burner.js\<close>

definition padWithoutPrefix :: "string \<Rightarrow> nat \<Rightarrow> string" where
  "padWithoutPrefix hex bytesLength =
     (let absentZeroes = int (bytesLength * 2 + 2) - int (length hex)
      in if 0 < absentZeroes then replicate (nat absentZeroes) (CHR ''0'') @ drop 2 hex else hex)"

definition composePermissionParam :: "string \<Rightarrow> string res" where
  "composePermissionParam addr =
     (let value = padWithoutPrefix addr 30
      in bindR (assertR (length value = 60)) (\<lambda>_.
         let paramStr = ''0x00'' @ ''01'' @ value
         in bindR (assertR (length paramStr = 66)) (\<lambda>_. Inr paramStr)))"

definition voteBurner_25 :: "env \<Rightarrow> vote_env \<Rightarrow> unit prog" where
  "voteBurner_25 E V =
     bindP (requireState E [''lidoApmEnsName'', ''ensAddress'', ''daoAddress'', ''compositePostRebaseBeaconReceiverAddress'',
       ''selfOwnedStETHBurnerAddress'', appKey (APP_NAMES ARAGON_VOTING), appKey (APP_NAMES ORACLE), appKey (APP_NAMES LIDO),
       appKey (APP_NAMES ARAGON_TOKEN_MANAGER)]) (\<lambda>state.
     bindP (bindP (appField state (APP_NAMES ARAGON_VOTING) ''proxyAddress'') (at_addr E ''Voting'')) (\<lambda>voting.
     bindP (bindP (appField state (APP_NAMES ARAGON_TOKEN_MANAGER) ''proxyAddress'') (at_addr E ''TokenManager'')) (\<lambda>tokenManager.
     bindP (at_addr E ''Kernel'' (obj_get state ''daoAddress'')) (\<lambda>dao.
     bindP (bindP (view E dao ''acl'' []) (at_addr E ''ACL'')) (\<lambda>acl.
     bindP (at_addr E ''CompositePostRebaseBeaconReceiver'' (obj_get state ''compositePostRebaseBeaconReceiverAddress'')) (\<lambda>receiver.
     bindP (at_addr E ''SelfOwnedStETHBurner'' (obj_get state ''selfOwnedStETHBurnerAddress'')) (\<lambda>burner.
     bindP (bindP (appField state (APP_NAMES ORACLE) ''proxyAddress'') (at_addr E (artifactOf ORACLE))) (\<lambda>lidoOracle.
     bindP (bindP (appField state (APP_NAMES LIDO) ''proxyAddress'') (at_addr E (artifactOf LIDO))) (\<lambda>lido.
     bindP (liftP (scriptCall E (JStr receiver) receiver ''addCallback'' [JStr burner])) (\<lambda>addCallback.
     bindP (liftP (scriptCall E (JStr lidoOracle) lidoOracle ''setBeaconReportReceiver'' [JStr receiver])) (\<lambda>setReceiver.
     bindP (view E lido ''BURN_ROLE'' []) (\<lambda>burnRoleHash.
     bindP (liftP (scriptCall E (JStr acl) acl ''revokePermission'' [JStr voting, JStr lido, burnRoleHash])) (\<lambda>revokeBurn.
     bindP (liftP (composePermissionParam burner)) (\<lambda>permParam.
     bindP (liftP (scriptCall E (JStr acl) acl ''grantPermissionP'' [JStr burner, JStr lido, burnRoleHash, JArr [JStr permParam]])) (\<lambda>grantBurn.
     saveVote E V voting (JStr voting) tokenManager ''tx-25-vote-self-owned-steth-burner.json'' (sender (ve_DEPLOYER V) state)
       [addCallback, setReceiver, revokeBurn, grantBurn])))))))))))))))"

section \<open>26 to 28: the execution-layer rewards vault\<close>

text \<open>Unlike the other deployment scripts, this one persists before it saves the transaction.\<close>

definition deployVault_26 :: "env \<Rightarrow> vote_env \<Rightarrow> unit prog" where
  "deployVault_26 E V =
     bindP (requireState E [''daoInitialSettings'', appKey (APP_NAMES LIDO)]) (\<lambda>state.
     bindP (appField state (APP_NAMES LIDO) ''proxyAddress'') (\<lambda>lidoAddress.
     bindP (at_addr E ''Lido'' lidoAddress) (\<lambda>lido.
     bindP (view E lido ''getTreasury'' []) (\<lambda>treasuryAddr.
     bindP (persistState E state [(''executionLayerRewardsVaultDeployTx'', JStr [])]) (\<lambda>st1.
     bindP (saveDeployTx E ''LidoExecutionLayerRewardsVault'' ''tx-26-deploy-execution-layer-rewards-vault.json''
       [lidoAddress, treasuryAddr] [(''from'', sender (ve_DEPLOYER V) st1)]) (\<lambda>_. returnP ()))))))"

definition obtainVault_27 :: "env \<Rightarrow> unit prog" where
  "obtainVault_27 E =
     bindP (requireState E [''executionLayerRewardsVaultDeployTx'', appKey (APP_NAMES LIDO)]) (\<lambda>state.
     bindP (liftP (useOrGetDeployed E ''LidoExecutionLayerRewardsVault'' JNull
       (obj_get state ''executionLayerRewardsVaultDeployTx''))) (\<lambda>vault.
     bindP (appField state (APP_NAMES LIDO) ''proxyAddress'') (\<lambda>lidoAddress.
     bindP (liftP (viewsEqual E vault [(''LIDO'', lidoAddress)])) (\<lambda>_.
     bindP (persistState E state [(''executionLayerRewardsVaultAddress'', JStr vault)]) (\<lambda>_. returnP ())))))"

definition voteELRewards_28 :: "env \<Rightarrow> vote_env \<Rightarrow> unit prog" where
  "voteELRewards_28 E V =
     bindP (requireState E [''lidoApmEnsName'', ''ensAddress'', ''daoAddress'', appKey (APP_NAMES ARAGON_VOTING),
       appKey (APP_NAMES ARAGON_TOKEN_MANAGER), ''app:lido'', ''app:node-operators-registry'', ''app:oracle'',
       ''executionLayerRewardsVaultAddress'']) (\<lambda>state.
     bindP (at_addr E ''ENS'' (obj_get state ''ensAddress'')) (\<lambda>ens.
     bindP (appField state (APP_NAMES ARAGON_VOTING) ''proxyAddress'') (\<lambda>votingAddress.
     bindP (appField state (APP_NAMES ARAGON_TOKEN_MANAGER) ''proxyAddress'') (\<lambda>tokenManagerAddress.
     bindP (at_addr E ''Voting'' votingAddress) (\<lambda>voting.
     bindP (at_addr E ''TokenManager'' tokenManagerAddress) (\<lambda>tokenManager.
     bindP (at_addr E ''Kernel'' (obj_get state ''daoAddress'')) (\<lambda>dao.
     bindP (bindP (view E dao ''acl'' []) (at_addr E ''ACL'')) (\<lambda>acl.
     bindP (appField state ''lido'' ''proxyAddress'') (\<lambda>lidoAddress.
     bindP (at_addr E ''Lido'' lidoAddress) (\<lambda>lido.
     bindP (liftP (scriptCall E lidoAddress lido ''setELRewardsVault'' [obj_get state ''executionLayerRewardsVaultAddress''])) (\<lambda>setVault.
     bindP (liftP (scriptCall E lidoAddress lido ''setELRewardsWithdrawalLimit'' [JInt 2])) (\<lambda>setLimit.
     saveVote E V voting votingAddress tokenManager ''tx-28-vote-el-rewards.json'' (sender (ve_DEPLOYER V) state)
       [setVault, setLimit]))))))))))))"

section \<open>29 and 30: the second depositor\<close>

definition unBN :: "jsval \<Rightarrow> jsval res" where
  "unBN v = (if \<not> not_nullish v then Inl TypeError
     else Inr (case v of JBN i \<Rightarrow> JNum (str_num (dec_int i)) | _ \<Rightarrow> v))"

definition assertEqualParam :: "jsval \<Rightarrow> jsval \<Rightarrow> unit res" where
  "assertEqualParam contractValue stateValue = bindR (unBN contractValue) (\<lambda>v. assert_equal v stateValue)"

definition assertEqualParamArrayOfAddresses :: "env \<Rightarrow> jsval \<Rightarrow> jsval \<Rightarrow> unit res" where
  "assertEqualParamArrayOfAddresses E contractValue stateValue =
     bindR (unBN contractValue) (\<lambda>v.
     case (v, stateValue) of
       (JArr cs, JArr ss) \<Rightarrow>
         bindR (assertR (length cs = length ss)) (\<lambda>_. forR (\<lambda>(c, s). assert_addressEqual E c s) (zip cs ss))
     | _ \<Rightarrow> Inl AssertionError)"

definition deployDepositor_29 :: "env \<Rightarrow> vote_env \<Rightarrow> unit prog" where
  "deployDepositor_29 E V =
     bindP (requireState E [''daoInitialSettings'', ''depositorParams'', ''depositorAddress'', appKey (APP_NAMES LIDO),
       appKey (APP_NAMES NODE_OPERATORS_REGISTRY)]) (\<lambda>state.
     bindP (depositorArgs E state) (\<lambda>args.
     bindP (at_addr E ''DepositSecurityModule'' (obj_get state ''depositorAddress'')) (\<lambda>depositor.
     let params = own_props (obj_get state ''depositorParams'')
     in bindP (liftP (forR (\<lambda>(m, expected). bindR (call_view E depositor m []) (\<lambda>v. assertEqualParam v expected))
          [(''LIDO'', args ! 0), (''DEPOSIT_CONTRACT'', args ! 1),
           (''getMaxDeposits'', obj_get params ''maxDepositsPerBlock''),
           (''getMinDepositBlockDistance'', obj_get params ''minDepositBlockDistance''),
           (''getPauseIntentValidityPeriodBlocks'', obj_get params ''pauseIntentValidityPeriodBlocks''),
           (''getGuardianQuorum'', obj_get params ''quorum'')])) (\<lambda>_.
        bindP (liftP (bindR (call_view E depositor ''getGuardians'' [])
          (\<lambda>v. assertEqualParamArrayOfAddresses E v (obj_get params ''guardians'')))) (\<lambda>_.
        bindP (saveDeployTx E ''DepositSecurityModule'' ''tx-29-deploy-new-depositor-instance.json'' args
                 [(''from'', sender (ve_DEPLOYER V) state)]) (\<lambda>_.
        bindP (persistState E state [(''depositorConstructorArgs'', JArr args)]) (\<lambda>_. returnP ())))))))"

text \<open>
  The guard \<open>assert.notEqual(depositor.getGuardians(), guardians)\<close> compares a promise with an array:
  the call is made, but the comparison always passes.
\<close>

definition initializeDepositor_30 :: "env \<Rightarrow> vote_env \<Rightarrow> unit prog" where
  "initializeDepositor_30 E V =
     bindP (requireState E [''depositorAddress'', ''depositorPreviousAddress'']) (\<lambda>state.
     bindP (at_addr E ''DepositSecurityModule'' (obj_get state ''depositorPreviousAddress'')) (\<lambda>oldDepositor.
     bindP (view E oldDepositor ''getGuardians'' []) (\<lambda>guardians.
     bindP (view E oldDepositor ''getGuardianQuorum'' []) (\<lambda>quorum.
     bindP (at_addr E ''DepositSecurityModule'' (obj_get state ''depositorAddress'')) (\<lambda>depositor.
     saveTx E depositor ''addGuardians'' ''tx-30-initialize-updated-depositor.json''
       [guardians, JNum (str_num (to_str quorum))] (sender (ve_DEPLOYER V) state))))))"

section \<open>31-start-protocol.js\<close>

definition calcStakeLimitIncreasePerBlock :: "string \<Rightarrow> string" where
  "calcStakeLimitIncreasePerBlock dailyLimit =
     (let blocksPerDay = js_div (Fin (24 * 60 * 60)) (Fin 12)
      in num_str (math_floor (js_div (str_num dailyLimit) blocksPerDay)))"

definition startProtocol_31 :: "env \<Rightarrow> vote_env \<Rightarrow> unit prog" where
  "startProtocol_31 E V =
     bindP (requireState E [''daoAddress'', appKey (APP_NAMES ARAGON_VOTING), appKey (APP_NAMES ARAGON_TOKEN_MANAGER),
       appKey (APP_NAMES LIDO)]) (\<lambda>state.
     bindP (appField state (APP_NAMES ARAGON_VOTING) ''proxyAddress'') (\<lambda>votingAddress.
     bindP (at_addr E ''Voting'' votingAddress) (\<lambda>voting.
     bindP (bindP (appField state (APP_NAMES ARAGON_TOKEN_MANAGER) ''proxyAddress'') (at_addr E ''TokenManager'')) (\<lambda>tokenManager.
     bindP (appField state ''lido'' ''proxyAddress'') (\<lambda>lidoAddress.
     bindP (at_addr E ''Lido'' lidoAddress) (\<lambda>lido.
     let dailyStakingLimit = ve_toWei V ''150000'';
         increasePerBlock = calcStakeLimitIncreasePerBlock dailyStakingLimit
     in bindP (liftP (mapR id
          [scriptCall E lidoAddress lido ''resume'' [],
           scriptCall E lidoAddress lido ''resumeStaking'' [],
           scriptCall E lidoAddress lido ''setStakingLimit'' [JStr dailyStakingLimit, JStr increasePerBlock]])) (\<lambda>calls.
        saveVote E V voting votingAddress tokenManager ''tx-31-start-protocol.json'' (sender (ve_DEPLOYER V) state) calls)))))))"

section \<open>upgrade-app.js, verify-vote-tx.js, vote-and-enact.js\<close>

definition upgradeApp :: "env \<Rightarrow> vote_env \<Rightarrow> string \<Rightarrow> unit prog" where
  "upgradeApp E V appName =
     bindP (liftP (wrongApp appName)) (\<lambda>_.
     bindP (requireState E [''lidoApmEnsName'', ''ensAddress'', ''daoAddress'', appKey (APP_NAMES ARAGON_VOTING),
       appKey (APP_NAMES ARAGON_TOKEN_MANAGER), appKey (ve_APP V), appKey appName]) (\<lambda>state.
     bindP (at_addr E ''ENS'' (obj_get state ''ensAddress'')) (\<lambda>ens.
     bindP (liftP (resolveEnsAddress E ens (name_hash E (appFullName appName (obj_get state ''lidoApmEnsName''))))) (\<lambda>repoAddress.
     bindP (appField state (APP_NAMES ARAGON_VOTING) ''proxyAddress'') (\<lambda>votingAddress.
     bindP (appField state (APP_NAMES ARAGON_TOKEN_MANAGER) ''proxyAddress'') (\<lambda>tokenManagerAddress.
     bindP (appField state appName ''baseAddress'') (\<lambda>newContractAddress.
     bindP (appField state (ve_APP V) ''contentURI'') (\<lambda>newContentURI.
     bindP (at_addr E ''Repo'' repoAddress) (\<lambda>repo.
     bindP (at_addr E ''Voting'' votingAddress) (\<lambda>voting.
     bindP (at_addr E ''TokenManager'' tokenManagerAddress) (\<lambda>tokenManager.
     bindP (view E repo ''getLatest'' []) (\<lambda>latest.
     bindP (liftP (bindR (bindR (getp latest ''semanticVersion'') arrOf) (bumpVersion (ve_BUMP V)))) (\<lambda>versionTo.
     bindP (liftP (scriptCall E repoAddress repo ''newVersion'' [JArr versionTo, newContractAddress, newContentURI])) (\<lambda>call.
     saveVote E V voting votingAddress tokenManager
       (''tx-upgrade-app-'' @ appName @ ''-to-'' @ join_with ''.'' (map to_str versionTo) @ ''.json'')
       (sender (ve_HOLDER V) state) [call]))))))))))))))"

text \<open>The transaction file a previous script wrote, as this one reads it back.\<close>

definition readTxFile :: "string \<Rightarrow> jsval prog" where
  "readTxFile name w =
     (case map_of (rev (tx_files w)) name of None \<Rightarrow> (Inl (External ''ENOENT''), w) | Some v \<Rightarrow> (Inr v, w))"

definition verifyVoteTx :: "env \<Rightarrow> vote_env \<Rightarrow> jsval \<Rightarrow> unit prog" where
  "verifyVoteTx E V TX =
     bindP (liftP (assertR (not_nullish TX))) (\<lambda>_.
     bindP (requireState E [''ensAddress'', ''multisigAddress'', ''lidoBaseDeployTx'', ''oracleBaseDeployTx'',
       ''nodeOperatorsRegistryBaseDeployTx'', ''app:aragon-voting'']) (\<lambda>state.
     bindP (readTxFile ''tx-15-1-create-vote-new-oracle-version.json'') (\<lambda>expected_data.
     bindP (liftP (ve_getTransaction V TX)) (\<lambda>tx_data.
     bindP (prop_of tx_data ''input'') (\<lambda>input.
     bindP (prop_of expected_data ''data'') (\<lambda>data.
     bindP (liftP (assert_equal input data)) (\<lambda>_.
     bindP (liftP (get_receipt E TX)) (\<lambda>receipt.
     bindP (liftP (bindR (getp receipt ''logs'') arrOf)) (\<lambda>logs.
     bindP (liftP (mapR (\<lambda>l. bindR (bindR (getp l ''topics'') arrOf) (\<lambda>ts. Inr (l, case ts of [] \<Rightarrow> JUndef | t # _ \<Rightarrow> t))) logs)) (\<lambda>tagged.
     bindP (liftP (case filter (\<lambda>(l, t). strict_eq t (ve_startVoteSignature V)) tagged of
                     [] \<Rightarrow> Inl AssertionError | (l, _) # _ \<Rightarrow> Inr l)) (\<lambda>event.
     bindP (liftP (ve_decodeLog V event)) (\<lambda>_.
     bindP (prop_of event ''address'') (\<lambda>address.
     bindP (appField state ''aragon-voting'' ''proxyAddress'') (\<lambda>votingAddress.
     liftP (assert_equal address votingAddress)))))))))))))))"

definition minusOne :: "jnum \<Rightarrow> jnum" where
  "minusOne x = (case x of Fin q \<Rightarrow> dbl (q - 1) | _ \<Rightarrow> x)"

definition voteAndEnact :: "env \<Rightarrow> vote_env \<Rightarrow> unit prog" where
  "voteAndEnact E V =
     bindP (requireState E [''daoInitialSettings'', appKey (APP_NAMES ARAGON_VOTING), ''owner'']) (\<lambda>state.
     bindP (appField state (APP_NAMES ARAGON_VOTING) ''proxyAddress'') (\<lambda>votingAddress.
     bindP (at_addr E ''Voting'' votingAddress) (\<lambda>voting.
     bindP (if ve_VOTE_ID V = []
            then bindP (view E voting ''votesLength'' []) (\<lambda>n. returnP (num_str (minusOne (str_num (to_str n)))))
            else returnP (ve_VOTE_ID V)) (\<lambda>voteId.
     let opts = [(''from'', obj_get state ''owner'')]
     in bindP (sendTx E voting ''vote'' [JStr voteId, JBool True, JBool False] opts) (\<lambda>_.
        bindP (sendTx E voting ''executeVote'' [JStr voteId] opts) (\<lambda>_. returnP ()))))))"

section \<open>Properties\<close>

text \<open>
  every vote script saves exactly one transaction file when it succeeds and none when it fails,
  sends nothing, and never changes the network state it read.
\<close>

theorem vote_scripts_save_one:
  "vote_script E (''tx-15-1-create-vote-new-'' @ appName @ ''-version.json'') (voteNewImpl_15 E V appName) \<and>
   vote_script E ''tx-18-depositor-add-guardians.json'' (addGuardians_18 E V) \<and>
   vote_script E ''tx-19-transfer-depositor-ownership.json'' (transferOwnership_19 E V) \<and>
   vote_script E ''tx-20-mitigating-deposit-front-running.json'' (mitigateFrontRunning_20 E V) \<and>
   vote_script E ''tx-25-vote-self-owned-steth-burner.json'' (voteBurner_25 E V) \<and>
   vote_script E ''tx-28-vote-el-rewards.json'' (voteELRewards_28 E V) \<and>
   vote_script E ''tx-30-initialize-updated-depositor.json'' (initializeDepositor_30 E V) \<and>
   vote_script E ''tx-31-start-protocol.json'' (startProtocol_31 E V)"
proof (intro conjI)
  note ro = read_only_liftP read_only_frame read_only_appField read_only_bindP
  show "vote_script E (''tx-15-1-create-vote-new-'' @ appName @ ''-version.json'') (voteNewImpl_15 E V appName)"
    unfolding voteNewImpl_15_def Let_def
    by (rule vote_script_liftP, rule vote_script_requireState)
       (intro saves_bindP saves_saveVote ro saves_throwP if_saves)
  show "vote_script E ''tx-18-depositor-add-guardians.json'' (addGuardians_18 E V)"
    unfolding addGuardians_18_def Let_def
    by (rule vote_script_requireState) (intro saves_bindP saves_saveTx ro)
  show "vote_script E ''tx-19-transfer-depositor-ownership.json'' (transferOwnership_19 E V)"
    unfolding transferOwnership_19_def Let_def
    by (rule vote_script_requireState) (intro saves_bindP saves_saveTx ro)
  show "vote_script E ''tx-20-mitigating-deposit-front-running.json'' (mitigateFrontRunning_20 E V)"
    unfolding mitigateFrontRunning_20_def Let_def
    by (rule vote_script_requireState) (intro saves_bindP saves_saveVote ro)
  show "vote_script E ''tx-25-vote-self-owned-steth-burner.json'' (voteBurner_25 E V)"
    unfolding voteBurner_25_def Let_def
    by (rule vote_script_requireState) (intro saves_bindP saves_saveVote ro)
  show "vote_script E ''tx-28-vote-el-rewards.json'' (voteELRewards_28 E V)"
    unfolding voteELRewards_28_def Let_def
    by (rule vote_script_requireState) (intro saves_bindP saves_saveVote ro)
  show "vote_script E ''tx-30-initialize-updated-depositor.json'' (initializeDepositor_30 E V)"
    unfolding initializeDepositor_30_def Let_def
    by (rule vote_script_requireState) (intro saves_bindP saves_saveTx ro)
  show "vote_script E ''tx-31-start-protocol.json'' (startProtocol_31 E V)"
    unfolding startProtocol_31_def Let_def
    by (rule vote_script_requireState) (intro saves_bindP saves_saveVote ro)
qed

text \<open>
  the parameter of the burn permission the vote grants is the one the audit checks: for every
  address of 42 characters, \<open>composePermissionParam\<close> of the vote script and the string that step 12
  builds are the same, 66 characters long.
\<close>

theorem burn_params_agree:
  assumes "length addr = 42"
  shows "composePermissionParam addr = Inr (burnPermissionParams addr) \<and> length (burnPermissionParams addr) = 66"
proof -
  have z: "''0x00'' @ ''01'' @ replicate 20 (CHR ''0'') = ''0x000100000000000000000000''"
    by (simp add: eval_nat_numeral)
  have "padWithoutPrefix addr 30 = replicate 20 (CHR ''0'') @ drop 2 addr"
    using assms by (simp add: padWithoutPrefix_def)
  then show ?thesis
    using assms z by (simp add: composePermissionParam_def burnPermissionParams_def Let_def assertR_def)
qed

theorem burn_params_agree_witness:
  "composePermissionParam ZERO_ADDR = Inr (burnPermissionParams ZERO_ADDR)"
  using burn_params_agree [of ZERO_ADDR] by (simp add: ZERO_ADDR_def)

text \<open>
  the stake limit increase is computed in double arithmetic: for the daily limit of 150000 ether
  the script proposes 20833333333333330000 wei per block, where the exact quotient by the 7200 blocks
  of a day is 20833333333333333333.
\<close>

theorem stake_limit_increase_rounds:
  "calcStakeLimitIncreasePerBlock ''150000000000000000000000'' = ''20833333333333330000'' \<and>
   (150000000000000000000000 :: int) div 7200 = 20833333333333333333"
proof
  show "calcStakeLimitIncreasePerBlock ''150000000000000000000000'' = ''20833333333333330000''" by code_simp
qed simp

text \<open>
  step 26 forgets the vault before it has saved its replacement: once the state and the chain
  answer, the persisted deployment transaction is empty whatever becomes of the transaction file, so
  step 27 cannot find an already deployed vault any more.
\<close>

theorem deployVault_resets_first:
  assumes "state_of E w = Some st" and "truthy (obj_get st ''daoInitialSettings'')"
    and "getp (obj_get st ''app:lido'') ''proxyAddress'' = Inr lidoAddress" and "truthy (obj_get st ''app:lido'')"
    and "contract_at E ''Lido'' lidoAddress = Inr lido" and "call_view E lido ''getTreasury'' [] = Inr treasury"
  shows "\<exists>st'. state_of E (snd (deployVault_26 E V w)) = Some st' \<and>
    obj_get st' ''executionLayerRewardsVaultDeployTx'' = JStr [] \<and>
    \<not> okR (fst (obtainVault_27 E (snd (deployVault_26 E V w))))"
proof -
  have req: "requireState E [''daoInitialSettings'', appKey (APP_NAMES LIDO)] w = (Inr st, after_read E w)"
    using assms(1,2,4) by (simp add: requireState_ok appKey_def)
  let ?ups = "[(''executionLayerRewardsVaultDeployTx'', JStr [])]"
  obtain st1 w1 where p: "persistState E st ?ups (after_read E w) = (Inr st1, w1)"
    by (simp add: persistState_eq Let_def)
  have s: "state_of E w1 = Some (json_props (bn_json E) (updateNetworkState (obj_set ''networkId'' (JInt (network_id E)) st) ?ups))"
    using state_of_persistState [of ?ups E st "after_read E w"] p by simp
  have run: "deployVault_26 E V w = bindP (saveDeployTx E ''LidoExecutionLayerRewardsVault''
      ''tx-26-deploy-execution-layer-rewards-vault.json'' [lidoAddress, treasury] [(''from'', sender (ve_DEPLOYER V) st1)])
      (\<lambda>_. returnP ()) w1"
    using assms(3,5,6) unfolding deployVault_26_def bindP_Inr [of "requireState E _", OF req]
    by (simp add: appField_def appKey_def at_addr_def view_def bindP_liftP bindP_Inr [of "persistState E st ?ups", OF p])
  have "net_files (snd (deployVault_26 E V w)) = net_files w1"
    unfolding run by (simp add: bindP_def tx_files_saveDeployTx returnP_def split: sum.splits)
  then have s': "state_of E (snd (deployVault_26 E V w)) = Some (json_props (bn_json E)
      (updateNetworkState (obj_set ''networkId'' (JInt (network_id E)) st) ?ups))"
    using s by (simp add: state_of_def)
  have e: "obj_get (json_props (bn_json E) (updateNetworkState (obj_set ''networkId'' (JInt (network_id E)) st) ?ups))
      ''executionLayerRewardsVaultDeployTx'' = JStr []"
    by (simp add: json_props_get updateNetworkState_def)
  have "\<not> okR (fst (obtainVault_27 E (snd (deployVault_26 E V w))))"
  proof
    assume "okR (fst (obtainVault_27 E (snd (deployVault_26 E V w))))"
    then obtain u w2 where "obtainVault_27 E (snd (deployVault_26 E V w)) = (Inr u, w2)"
      by (cases "obtainVault_27 E (snd (deployVault_26 E V w))") (auto simp: okR_iff)
    then show False unfolding obtainVault_27_def by (auto simp only: prog_ok s' e list.pred_inject truthy.simps option.inject)
  qed
  with s' e show ?thesis by blast
qed

definition vault_env :: env where
  "vault_env = offline_env\<lparr>contract_at := \<lambda>_ v. Inr (to_str v), call_view := \<lambda>_ _ _. Inr (JStr ''0xt'')\<rparr>"

theorem deployVault_resets_first_witness:
  "\<exists>w st'. getDeployTx vault_env ''LidoExecutionLayerRewardsVault'' [JStr ''0xa'', JStr ''0xt''] [] = Inl (External ''offline'') \<and>
     state_of vault_env (snd (deployVault_26 vault_env votes_env w)) = Some st' \<and>
     obj_get st' ''executionLayerRewardsVaultDeployTx'' = JStr []"
proof -
  define st where "st = [(''networkId'', JInt 1337), (''daoInitialSettings'', JObj []),
     (''executionLayerRewardsVaultDeployTx'', JStr ''0x9''), (''app:lido'', JObj [(''proxyAddress'', JStr ''0xa'')])]"
  define w where "w = empty_world\<lparr>net_files := [state_file vault_env \<mapsto> JsonText (JObj st)]\<rparr>"
  have s: "state_of vault_env w = Some st"
    by (simp add: state_of_def w_def st_def strict_eq_def vault_env_def offline_env_def)
  have "\<exists>st'. state_of vault_env (snd (deployVault_26 vault_env votes_env w)) = Some st' \<and>
     obj_get st' ''executionLayerRewardsVaultDeployTx'' = JStr [] \<and>
     \<not> okR (fst (obtainVault_27 vault_env (snd (deployVault_26 vault_env votes_env w))))"
    by (rule deployVault_resets_first [OF s, of "JStr ''0xa''" "''0xa''" "JStr ''0xt''"]) (simp_all add: st_def vault_env_def)
  moreover have "getDeployTx vault_env ''LidoExecutionLayerRewardsVault'' [JStr ''0xa'', JStr ''0xt''] [] = Inl (External ''offline'')"
    by (simp add: getDeployTx_def vault_env_def offline_env_def)
  ultimately show ?thesis by blast
qed

text \<open>The same environment with another answer for one contract's guardians.\<close>

definition withGuardians :: "env \<Rightarrow> string \<Rightarrow> jsval res \<Rightarrow> env" where
  "withGuardians E depositor answer = E\<lparr>call_view := \<lambda>i m args.
     if i = depositor \<and> m = ''getGuardians'' then answer else call_view E i m args\<rparr>"

lemma withGuardians_fields:
  "encode_call (withGuardians E d a) = encode_call E" "estimate_gas (withGuardians E d a) = estimate_gas E"
  "get_accounts (withGuardians E d a) = get_accounts E" "bn_json (withGuardians E d a) = bn_json E"
  "contract_at (withGuardians E d a) = contract_at E" "network_name (withGuardians E d a) = network_name E"
  "network_id (withGuardians E d a) = network_id E" "file_base (withGuardians E d a) = file_base E"
  "file_dir (withGuardians E d a) = file_dir E" "path_resolve (withGuardians E d a) = path_resolve E"
  by (simp_all add: withGuardians_def)

lemma withGuardians_read: "readState (withGuardians E d a) = readState E"
proof -
  have "readNetworkStateFile (withGuardians E d a) f n = readNetworkStateFile E f n" for f n
    by (rule ext) (simp add: readNetworkStateFile_def writeNetworkStateFile_def bindP_def withGuardians_fields
        split: option.splits fcontent.splits)
  then show ?thesis
    by (simp add: readState_def readNetworkState_def getFileName_def withGuardians_fields)
qed

lemma withGuardians_frame [simp]:
  "requireState (withGuardians E d a) ks = requireState E ks"
  "at_addr (withGuardians E d a) n v = at_addr E n v"
  "saveTx (withGuardians E d a) i m f args from = saveTx E i m f args from"
proof -
  show "requireState (withGuardians E d a) ks = requireState E ks"
    by (simp add: requireState_def withGuardians_read)
  show "at_addr (withGuardians E d a) n v = at_addr E n v" by (simp add: at_addr_def withGuardians_fields)
  have "getTxData (withGuardians E d a) x y = getTxData E x y" for x y
    by (simp add: getTxData_def withGuardians_fields)
  moreover have "writeTxFile (withGuardians E d a) x y = writeTxFile E x y" for x y
    by (rule ext) (simp add: writeTxFile_def withGuardians_fields)
  ultimately show "saveTx (withGuardians E d a) i m f args from = saveTx E i m f args from"
    by (simp add: saveTx_def saveCallTxData_def getCallTxData_def withGuardians_fields)
qed

text \<open>
  the guard of step 30 is vacuous: it is meant to refuse a depositor that already has guardians,
  but the script does the same whatever the new depositor's \<open>getGuardians\<close> answers.
\<close>

theorem initializeDepositor_unguarded:
  assumes "state_of E w = Some st"
    and "contract_at E ''DepositSecurityModule'' (obj_get st ''depositorPreviousAddress'') = Inr oldDepositor"
    and "contract_at E ''DepositSecurityModule'' (obj_get st ''depositorAddress'') = Inr depositor"
    and "oldDepositor \<noteq> depositor"
  shows "initializeDepositor_30 (withGuardians E depositor answer) V w = initializeDepositor_30 E V w"
proof -
  have v: "view (withGuardians E depositor answer) oldDepositor m args = view E oldDepositor m args" for m args
    using assms(4) by (simp add: view_def withGuardians_def)
  show ?thesis
  proof (cases "requireState E [''depositorAddress'', ''depositorPreviousAddress''] w")
    case (Pair r w')
    show ?thesis
    proof (cases r)
      case (Inl e)
      with Pair show ?thesis by (simp add: initializeDepositor_30_def bindP_def)
    next
      case (Inr s)
      with Pair assms(1) have "s = st" by (simp add: requireState_ok)
      then have r: "requireState E [''depositorAddress'', ''depositorPreviousAddress''] w = (Inr st, w')"
        using Pair Inr by simp
      show ?thesis
        unfolding initializeDepositor_30_def withGuardians_frame bindP_Inr [of "requireState E _", OF r]
        using assms(2) by (simp add: at_addr_def bindP_liftP v)
    qed
  qed
qed

theorem initializeDepositor_unguarded_witness:
  "\<exists>E w. okR (fst (initializeDepositor_30 E votes_env w)) \<and>
     initializeDepositor_30 (withGuardians E ''0x22'' (Inr (JArr [JStr ''0x9'']))) votes_env w = initializeDepositor_30 E votes_env w"
proof -
  define E where "E = offline_env\<lparr>contract_at := \<lambda>_ v. Inr (to_str v), encode_call := \<lambda>_ m _. Inr m,
     estimate_gas := \<lambda>_ _. Inr 1, call_view := \<lambda>_ m _. Inr (if m = ''getGuardians'' then JArr [JStr ''0x9''] else JBN 1)\<rparr>"
  define st where "st = [(''networkId'', JInt 1337), (''depositorAddress'', JStr ''0x22''), (''depositorPreviousAddress'', JStr ''0x11'')]"
  define w where "w = empty_world\<lparr>net_files := [state_file E \<mapsto> JsonText (JObj st)]\<rparr>"
  have s: "state_of E w = Some st"
    by (simp add: state_of_def w_def st_def strict_eq_def E_def offline_env_def)
  have "\<exists>w'. initializeDepositor_30 E votes_env w = (Inr (), w')"
    unfolding initializeDepositor_30_def prog_ok
    by (auto simp: s st_def) (auto simp: E_def getCallTxData_def getTxData_def sender_def votes_env_def)
  then have "okR (fst (initializeDepositor_30 E votes_env w))" by auto
  moreover have "initializeDepositor_30 (withGuardians E ''0x22'' (Inr (JArr [JStr ''0x9'']))) votes_env w = initializeDepositor_30 E votes_env w"
    by (rule initializeDepositor_unguarded [OF s, of "''0x11''"]) (simp_all add: st_def E_def)
  ultimately show ?thesis by blast
qed

end
