(* ===== verification/StateGrowth.thy ===== *)
theory StateGrowth
  imports MultisigVotes
begin

text \<open>
  What a script may do to the files around it: \<open>grows\<close> is the contract of one run (nothing sent, nothing
  saved is dropped, no other network's state file is touched, what passed the check for missing fields
  still passes it), \<open>careful\<close> is the contract of the code between two reads or writes of the state, and there is
  one rule for each kind of statement and of update of the state.
\<close>

section \<open>What a file records\<close>

text \<open>
  A deployment script empties the hash of the transaction it saves, for the operator to fill in, and
  replacing the depositor moves the value of its address, whatever it is, to the previous
  address.  The two IPFS fields of an app's entry are what the publishing tools answer.  All other
  values stay filled once they are.
\<close>

definition LOOSE_KEYS :: "string list" where
  "LOOSE_KEYS = [''daoTemplateDeployTx'', ''lidoBaseDeployTx'', ''oracleBaseDeployTx'', ''nodeOperatorsRegistryBaseDeployTx'',
     ''lidoApmDeployTx'', ''compositePostRebaseBeaconReceiverDeployTx'', ''selfOwnedStETHBurnerDeployTx'',
     ''executionLayerRewardsVaultDeployTx'', ''depositorPreviousAddress'']"

definition IPFS_FIELDS :: "string list" where
  "IPFS_FIELDS = [''ipfsCid'', ''contentURI'']"

definition app_keys :: "string list" where
  "app_keys = map appKey VALID_APP_NAMES"

definition entry_field :: "props \<Rightarrow> string \<Rightarrow> string \<Rightarrow> jsval" where
  "entry_field st k f = obj_get (own_props (obj_get st k)) f"

text \<open>
  A recorded value stays recorded, and one that passes the check for missing fields (\<open>!state[key]\<close>)
  still passes it, unless the field is a loose one.
\<close>

definition survives :: "bool \<Rightarrow> jsval \<Rightarrow> jsval \<Rightarrow> bool" where
  "survives loose v v' \<longleftrightarrow> (v = JUndef \<or> v' \<noteq> JUndef) \<and> (loose \<or> \<not> truthy v \<or> truthy v')"

definition keeps :: "props \<Rightarrow> props \<Rightarrow> bool" where
  "keeps st st' \<longleftrightarrow> (\<forall>k. survives (k \<in> set LOOSE_KEYS) (obj_get st k) (obj_get st' k)) \<and>
     (\<forall>k f. k \<notin> set app_keys \<or> survives (f \<in> set IPFS_FIELDS) (entry_field st k f) (entry_field st' k f))"

lemma survives_refl [simp]: "survives loose v v" "survives loose JUndef v"
  by (simp_all add: survives_def)

lemma survives_filled: "truthy v' \<Longrightarrow> survives loose v v'"
  by (auto simp: survives_def)

lemma survives_trans: "survives loose u v \<Longrightarrow> survives loose v w \<Longrightarrow> survives loose u w"
  by (auto simp: survives_def)

lemma keeps_refl [simp]: "keeps st st"
  by (simp add: keeps_def)

lemma keeps_trans [trans]: "keeps st st1 \<Longrightarrow> keeps st1 st2 \<Longrightarrow> keeps st st2"
  unfolding keeps_def using survives_trans by blast

lemma keeps_Nil [simp]: "keeps [] st"
  by (simp add: keeps_def entry_field_def)

text \<open>A key that no update of it can confuse with an app's entry.\<close>

definition plain_key :: "string \<Rightarrow> bool" where
  "plain_key k \<longleftrightarrow> take 4 k \<noteq> take (length k) ''app:''"

lemma plain_key_append: "plain_key k \<Longrightarrow> take 4 (k @ s) \<noteq> take (length k + n) ''app:''"
proof
  assume "plain_key k" and "take 4 (k @ s) = take (length k + n) ''app:''"
  then have "take (length k) (take 4 (k @ s)) = take (length k) (take (length k + n) ''app:'')" by simp
  with \<open>plain_key k\<close> show False by (simp add: plain_key_def min_def take_append del: take_Cons_numeral split: if_splits)
qed

lemma plain_not_app:
  assumes "plain_key k"
  shows "k @ s \<notin> set app_keys"
proof
  assume "k @ s \<in> set app_keys"
  moreover have "list_all (\<lambda>x. take 4 x = ''app:'') app_keys" by code_simp
  ultimately have "take 4 (k @ s) = take (length k + 4) ''app:''" unfolding list_all_iff by auto
  with plain_key_append [OF assms] show False by blast
qed

lemma plain_key_suffix: "plain_key k \<Longrightarrow> plain_key (k @ s)"
  unfolding plain_key_def [of "k @ s"] length_append by (rule plain_key_append)

text \<open>
  A state file as the scripts leave it: keys are not repeated, numbers are finite as JSON has them, a
  value that has an address or constructor arguments has them as a string or an array, and an app's entry
  is an object.
\<close>

definition finite_val :: "jsval \<Rightarrow> bool" where
  "finite_val v \<longleftrightarrow> v \<noteq> JNum PosInf \<and> v \<noteq> JNum NegInf"

definition plain_val :: "jsval \<Rightarrow> bool" where
  "plain_val v = (case v of JStr s \<Rightarrow> True | JArr xs \<Rightarrow> True | _ \<Rightarrow> \<not> truthy v)"

definition storable :: "jsval \<Rightarrow> bool" where
  "storable v \<longleftrightarrow> finite_val v \<and>
     (case v of JObj ps \<Rightarrow> distinct (map fst ps) \<and> plain_val (obj_get ps ''address'') \<and> plain_val (obj_get ps ''constructorArgs'')
      | _ \<Rightarrow> True)"

fun tidy_entry :: "jsval \<Rightarrow> bool" where
  "tidy_entry JUndef = True"
| "tidy_entry (JObj ps) = (distinct (map fst ps) \<and> list_all (\<lambda>(k, v). finite_val v) ps)"
| "tidy_entry _ = False"

definition tidy :: "props \<Rightarrow> bool" where
  "tidy st \<longleftrightarrow> distinct (map fst st) \<and> list_all (\<lambda>(k, v). storable v) st \<and>
     list_all (\<lambda>k. tidy_entry (obj_get st k)) app_keys"

lemma finite_val_simps [simp]:
  "finite_val JUndef" "finite_val JNull" "finite_val (JBool b)" "finite_val (JStr s)" "finite_val (JArr xs)"
  "finite_val (JObj ps)" "finite_val (JBN n)" "finite_val (JNum (Fin q))" "finite_val (JNum NaN)"
  "\<not> finite_val (JNum PosInf)" "\<not> finite_val (JNum NegInf)"
  by (simp_all add: finite_val_def)

lemma plain_val_simps [simp]: "plain_val JUndef" "plain_val (JStr s)" "plain_val (JArr xs)"
  by (simp_all add: plain_val_def)

lemma storable_simps [simp]:
  "storable JUndef" "storable JNull" "storable (JBool b)" "storable (JStr s)" "storable (JArr xs)" "storable (JBN n)"
  "storable (JNum x) = finite_val (JNum x)"
  "storable (JObj ps) =
     (distinct (map fst ps) \<and> plain_val (obj_get ps ''address'') \<and> plain_val (obj_get ps ''constructorArgs''))"
  by (simp_all add: storable_def)

lemma plain_storable: "plain_val v \<Longrightarrow> truthy v \<Longrightarrow> storable v"
  by (cases v) (auto simp: plain_val_def)

lemma storable_finite: "storable v \<Longrightarrow> finite_val v"
  by (simp add: storable_def)

lemma obj_get_all: "list_all (\<lambda>(k, v). P v) ps \<Longrightarrow> P JUndef \<Longrightarrow> P (obj_get ps k)"
  by (induction ps) auto

lemma obj_set_all: "list_all (\<lambda>(k, v). P v) ps \<Longrightarrow> P v \<Longrightarrow> list_all (\<lambda>(k, v). P v) (obj_set k v ps)"
  using set_obj_set [of k v ps] by (fastforce simp: list_all_iff)

lemma tidy_get: "tidy st \<Longrightarrow> storable (obj_get st k)"
  by (auto simp: tidy_def intro: obj_get_all [of storable])

lemma tidy_entry_own:
  assumes "tidy st" and "k \<in> set app_keys"
  shows "distinct (map fst (own_props (obj_get st k)))" and "list_all (\<lambda>(k, v). finite_val v) (own_props (obj_get st k))"
    and "obj_get st k = JUndef \<or> (\<exists>ps. obj_get st k = JObj ps)"
proof -
  from assms have "tidy_entry (obj_get st k)" by (simp add: tidy_def list_all_iff)
  then show "distinct (map fst (own_props (obj_get st k)))" "list_all (\<lambda>(k, v). finite_val v) (own_props (obj_get st k))"
    "obj_get st k = JUndef \<or> (\<exists>ps. obj_get st k = JObj ps)"
    by (cases "obj_get st k"; simp)+
qed

definition extends :: "props \<Rightarrow> props \<Rightarrow> bool" where
  "extends st st' \<longleftrightarrow> (tidy st \<longrightarrow> keeps st st' \<and> tidy st')"

lemma extendsI: "(tidy st \<Longrightarrow> keeps st st') \<Longrightarrow> (tidy st \<Longrightarrow> tidy st') \<Longrightarrow> extends st st'"
  by (simp add: extends_def)

lemma extends_refl [simp]: "extends st st"
  by (simp add: extends_def)

lemma extends_trans [trans]: "extends st st1 \<Longrightarrow> extends st1 st2 \<Longrightarrow> extends st st2"
  unfolding extends_def by (blast intro: keeps_trans)

lemma extends_tidy: "extends st st1 \<Longrightarrow> (tidy st1 \<Longrightarrow> extends st1 st2) \<Longrightarrow> extends st st2"
  unfolding extends_def by (blast intro: keeps_trans)

lemma extends_set:
  assumes "v \<noteq> JUndef" and "k \<in> set LOOSE_KEYS \<or> truthy v \<or> \<not> truthy (obj_get st k)" and "tidy st \<Longrightarrow> storable v"
    and "k \<notin> set app_keys"
  shows "extends st (obj_set k v st)"
proof (rule extendsI)
  show "keeps st (obj_set k v st)" using assms(1,2,4) by (auto simp: keeps_def entry_field_def survives_def)
next
  assume t: "tidy st"
  have "obj_get (obj_set k v st) j = obj_get st j" if "j \<in> set app_keys" for j using assms(4) that by auto
  then have "list_all (\<lambda>k'. tidy_entry (obj_get (obj_set k v st) k')) app_keys"
    using t by (simp add: tidy_def list_all_iff)
  then show "tidy (obj_set k v st)" using t assms(3) by (simp add: tidy_def distinct_obj_set obj_set_all [of storable])
qed

text \<open>An entry with new fields, all of them texts that are not empty, or texts of the two IPFS fields.\<close>

definition field_update :: "string \<times> jsval \<Rightarrow> bool" where
  "field_update = (\<lambda>(f, v). \<exists>s. v = JStr s \<and> (f \<in> set IPFS_FIELDS \<or> s \<noteq> []))"

lemma field_update_simps [simp]: "field_update (f, JStr s) \<longleftrightarrow> f \<in> set IPFS_FIELDS \<or> s \<noteq> []"
  by (simp add: field_update_def)

lemma entry_survives:
  "list_all field_update d \<Longrightarrow> survives (f \<in> set IPFS_FIELDS) (obj_get ps f) (obj_get (obj_assign ps d) f)"
proof (induction d arbitrary: ps)
  case (Cons q d)
  then obtain g s where q: "q = (g, JStr s)" "g \<in> set IPFS_FIELDS \<or> s \<noteq> []" by (auto simp: field_update_def)
  have "survives (f \<in> set IPFS_FIELDS) (obj_get ps f) (obj_get (obj_set g (JStr s) ps) f)"
    using q(2) by (auto simp: survives_def)
  moreover have "survives (f \<in> set IPFS_FIELDS) (obj_get (obj_set g (JStr s) ps) f)
      (obj_get (obj_assign (obj_set g (JStr s) ps) d) f)"
    using Cons by (simp del: obj_get_set)
  ultimately have "survives (f \<in> set IPFS_FIELDS) (obj_get ps f) (obj_get (obj_assign (obj_set g (JStr s) ps) d) f)"
    by (rule survives_trans)
  then show ?case by (simp add: obj_assign_def q(1))
qed (simp add: obj_assign_def)

lemma entry_tidy:
  "list_all field_update d \<Longrightarrow> list_all (\<lambda>(k, v). finite_val v) ps \<Longrightarrow> list_all (\<lambda>(k, v). finite_val v) (obj_assign ps d)"
  "list_all field_update d \<Longrightarrow> plain_val (obj_get ps f) \<Longrightarrow> plain_val (obj_get (obj_assign ps d) f)"
  by (induction d arbitrary: ps) (auto simp: obj_assign_def field_update_def obj_set_all [of finite_val])

lemma distinct_assign: "distinct (map fst ps) \<Longrightarrow> distinct (map fst (obj_assign ps qs))"
  by (induction qs arbitrary: ps) (auto simp: obj_assign_def distinct_obj_set)

lemma entry_storable:
  assumes "tidy st" and "k \<in> set app_keys" and "list_all field_update d"
  shows "storable (JObj (obj_assign (own_props (obj_get st k)) d))"
proof -
  have "plain_val (obj_get (own_props (obj_get st k)) f)" if "f = ''address'' \<or> f = ''constructorArgs''" for f
    using tidy_entry_own(3) [OF assms(1,2)] tidy_get [OF assms(1), of k] that by auto
  then show ?thesis using entry_tidy(2) [OF assms(3)] tidy_entry_own(1) [OF assms(1,2)] by (simp add: distinct_assign)
qed

lemma extends_entry:
  assumes "k \<in> set app_keys" and "list_all field_update d"
  shows "extends st (obj_set k (JObj (obj_assign (own_props (obj_get st k)) d)) st)"
proof (rule extendsI)
  show "keeps st (obj_set k (JObj (obj_assign (own_props (obj_get st k)) d)) st)"
    using entry_survives [OF assms(2)] by (auto simp: keeps_def entry_field_def survives_filled)
next
  assume t: "tidy st"
  have "tidy_entry (JObj (obj_assign (own_props (obj_get st k)) d))"
    using tidy_entry_own [OF t assms(1)] by (simp add: distinct_assign entry_tidy(1) [OF assms(2)])
  moreover have "list_all (\<lambda>(k, v). storable v) (obj_set k (JObj (obj_assign (own_props (obj_get st k)) d)) st)"
    using t entry_storable [OF t assms] by (intro obj_set_all) (simp_all add: tidy_def)
  ultimately show "tidy (obj_set k (JObj (obj_assign (own_props (obj_get st k)) d)) st)"
    using t by (auto simp: tidy_def distinct_obj_set list_all_iff)
qed

text \<open>Writing the file keeps what is in it, provided integers are written as some text.\<close>

lemma json_props_keys: "k \<in> fst ` set (json_props b ps) \<Longrightarrow> k \<in> fst ` set ps"
proof (induction ps)
  case (Cons p ps)
  obtain k' v where "p = (k', v)" by (cases p)
  with Cons show ?case by (cases "v = JUndef") auto
qed simp

lemma distinct_json: "distinct (map fst ps) \<Longrightarrow> distinct (map fst (json_props b ps))"
proof (induction ps)
  case (Cons p ps)
  obtain k v where p: "p = (k, v)" by (cases p)
  with Cons.prems have "k \<notin> fst ` set (json_props b ps)" using json_props_keys [of k b ps] by auto
  with Cons p show ?case by simp
qed simp

lemma json_props_get_distinct:
  assumes "distinct (map fst ps)"
  shows "obj_get (json_props b ps) k = (if obj_get ps k = JUndef then JUndef else json_val b (obj_get ps k))"
  using assms
proof (induction ps)
  case (Cons p ps)
  obtain k' v where p: "p = (k', v)" by (cases p)
  with Cons.prems have "k' \<notin> fst ` set (json_props b ps)" using json_props_keys [of k' b ps] by auto
  then have none: "obj_get (json_props b ps) k' = JUndef" by (metis obj_get_def map_of_eq_None_iff option.case(1))
  from Cons p have "obj_get (json_props b ps) k = (if obj_get ps k = JUndef then JUndef else json_val b (obj_get ps k))" by simp
  with none p show ?case by simp
qed simp

definition jsoned :: "(int \<Rightarrow> string) \<Rightarrow> jsval \<Rightarrow> jsval" where
  "jsoned b v = (if v = JUndef then JUndef else json_val b v)"

lemma jsoned_survives: "finite_val v \<Longrightarrow> (\<And>i. b i \<noteq> []) \<Longrightarrow> survives loose v (jsoned b v)"
  by (cases v) (auto simp: survives_def jsoned_def split: jnum.splits)

lemma jsoned_back: "survives loose (jsoned b v) v"
  by (cases v) (auto simp: survives_def jsoned_def split: jnum.splits)

lemma json_finite [simp]: "finite_val (json_val b v)"
  by (cases v) (auto split: jnum.splits)

lemma json_plain: "plain_val v \<Longrightarrow> plain_val (jsoned b v)"
  by (cases v) (auto simp: plain_val_def jsoned_def split: jnum.splits)

lemma json_all: "(\<And>v. v \<noteq> JUndef \<Longrightarrow> P v \<Longrightarrow> Q (json_val b v)) \<Longrightarrow> list_all (\<lambda>(k, v). P v) ps \<Longrightarrow>
    list_all (\<lambda>(k, v). Q v) (json_props b ps)"
  by (induction ps) auto

lemma json_get: "tidy st \<Longrightarrow> obj_get (json_props b st) k = jsoned b (obj_get st k)"
  by (simp add: tidy_def json_props_get_distinct jsoned_def)

lemma json_entry_get:
  assumes "tidy st" and "k \<in> set app_keys"
  shows "entry_field (json_props b st) k f = jsoned b (entry_field st k f)"
  using tidy_entry_own [OF assms] by (auto simp: entry_field_def json_get [OF assms(1)] jsoned_def json_props_get_distinct)

lemma keeps_json:
  assumes t: "tidy st" and b: "\<And>i. b i \<noteq> []"
  shows "keeps st (json_props b st)"
proof -
  have "survives loose (obj_get st k) (obj_get (json_props b st) k)" for loose k
    using jsoned_survives [OF storable_finite [OF tidy_get [OF t]] b] by (simp add: json_get [OF t])
  moreover have "survives loose (entry_field st k f) (entry_field (json_props b st) k f)" if k: "k \<in> set app_keys" for loose k f
  proof -
    have "finite_val (entry_field st k f)"
      unfolding entry_field_def by (rule obj_get_all [OF tidy_entry_own(2) [OF t k]]) simp
    from jsoned_survives [OF this b] show ?thesis by (simp add: json_entry_get [OF t k])
  qed
  ultimately show ?thesis by (auto simp: keeps_def)
qed

lemma keeps_back: "tidy st \<Longrightarrow> keeps (json_props b st) st"
  by (auto simp: keeps_def json_get json_entry_get jsoned_back)

lemma json_storable:
  assumes "storable v" "v \<noteq> JUndef"
  shows "storable (json_val b v)"
proof (cases v)
  case (JObj ps)
  with assms(1) have "plain_val (jsoned b (obj_get ps ''address''))" "plain_val (jsoned b (obj_get ps ''constructorArgs''))"
    by (simp_all add: json_plain)
  with JObj assms(1) show ?thesis by (simp add: json_props_get_distinct distinct_json jsoned_def)
qed (use assms in \<open>auto split: jnum.splits\<close>)

lemma tidy_json:
  assumes t: "tidy st"
  shows "tidy (json_props b st)"
proof -
  have "tidy_entry (obj_get (json_props b st) k)" if k: "k \<in> set app_keys" for k
    using tidy_entry_own [OF t k]
    by (auto simp: json_get [OF t] jsoned_def distinct_json intro: json_all [of finite_val finite_val, OF json_finite])
  moreover have "list_all (\<lambda>(k, v). storable v) (json_props b st)"
    using t by (intro json_all [of storable]) (simp_all add: json_storable tidy_def)
  ultimately show ?thesis using t by (simp add: tidy_def distinct_json list_all_iff)
qed

section \<open>The contract of a run\<close>

text \<open>
  What the outside world is relied on for, as web3 and truffle document it: the network has an id, big
  integers are written as digits, hashes and checksummed addresses are texts, a contract is taken only
  at an address and has one, mined events name their transaction and receipts their block, and a node that
  answers at all has a first account.
\<close>

definition reliable :: "env \<Rightarrow> bool" where
  "reliable E \<longleftrightarrow> network_id E \<noteq> 0 \<and> (\<forall>i. bn_json E i \<noteq> []) \<and> (\<forall>s. name_hash E s \<noteq> []) \<and>
     (\<forall>v a. checksum E v = Inr a \<longrightarrow> a \<noteq> []) \<and>
     (\<forall>n v a. contract_at E n v = Inr a \<longrightarrow> a \<noteq> [] \<and> (\<exists>s. v = JStr s \<and> s \<noteq> [])) \<and>
     (\<forall>i n b evts. past_events E i n b = Inr evts \<longrightarrow>
        list_all (\<lambda>e. \<exists>s. evt_field e ''transactionHash'' = JStr s \<and> s \<noteq> []) evts) \<and>
     (\<forall>h r b. get_receipt E h = Inr r \<longrightarrow> getp r ''blockNumber'' = Inr b \<longrightarrow> storable b) \<and>
     (\<forall>as. get_accounts E = Inr as \<longrightarrow> (\<exists>s as'. as = JStr s # as' \<and> s \<noteq> []))"

lemma reliable_at: "reliable E \<Longrightarrow> contract_at E n v = Inr a \<Longrightarrow> a \<noteq> [] \<and> (\<exists>s. v = JStr s \<and> s \<noteq> [])"
  by (simp add: reliable_def)

lemma reliable_deployed: "reliable E \<Longrightarrow> useOrGetDeployed E n v h = Inr a \<Longrightarrow> a \<noteq> []"
  using reliable_at by (auto simp: useOrGetDeployed_def getDeployed_def bindR_eq_Inr split: if_splits)

lemma reliable_block: "reliable E \<Longrightarrow> getTxBlock E h = Inr b \<Longrightarrow> truthy b \<and> storable b"
  by (auto simp: getTxBlock_def bindR_eq_Inr reliable_def split: if_splits)

lemma reliable_event:
  assumes "reliable E" and "assertLastEvent E i n b = Inr e"
  shows "\<exists>s. evt_field e ''transactionHash'' = JStr s \<and> s \<noteq> []"
proof -
  from assms(2) obtain evts where "past_events E i ''allEvents'' (defaultFromBlock b) = Inr evts" "e = last evts" "evts \<noteq> []"
    by (auto simp: assertLastEvent_def bindR_eq_Inr)
  with assms(1) show ?thesis by (auto simp: reliable_def list_all_iff)
qed

definition file_props :: "string \<Rightarrow> world \<Rightarrow> props" where
  "file_props F w = (case net_files w F of Some (JsonText v) \<Rightarrow> own_props v | _ \<Rightarrow> [])"

text \<open>The state a script finds in the file of a network.\<close>

definition state_at :: "string \<Rightarrow> int \<Rightarrow> world \<Rightarrow> props option" where
  "state_at F netId w =
     (case net_files w F of
        None \<Rightarrow> Some [(''networkId'', JInt netId)]
      | Some (JsonText v) \<Rightarrow>
          (case getp v ''networkId'' of Inr i \<Rightarrow> if strict_eq i (JInt netId) then Some (own_props v) else None | Inl _ \<Rightarrow> None)
      | Some (BadText _) \<Rightarrow> None)"

lemma state_of_at: "state_of E w = state_at (state_file E) (network_id E) w"
  by (simp add: state_of_def state_at_def split: option.splits)

text \<open>What one run may do to a world with a tidy state file; only a \<open>loud\<close> one sends.\<close>

definition grows :: "bool \<Rightarrow> env \<Rightarrow> world \<Rightarrow> world \<Rightarrow> bool" where
  "grows loud E w w' \<longleftrightarrow> (tidy (file_props (state_file E) w) \<longrightarrow>
     (\<exists>ts. sent w' = sent w @ ts \<and> (loud \<or> ts = [])) \<and> (\<exists>fs. tx_files w' = tx_files w @ fs) \<and>
     (\<forall>f. f \<noteq> state_file E \<longrightarrow> net_files w' f = net_files w f) \<and>
     extends (file_props (state_file E) w) (file_props (state_file E) w') \<and>
     (state_of E w \<noteq> None \<longrightarrow> state_of E w' \<noteq> None))"

lemma grows_refl [simp]: "grows loud E w w"
  by (simp add: grows_def)

lemma grows_trans:
  assumes "grows loud E w w1" and "grows loud E w1 w2"
  shows "grows loud E w w2"
proof -
  let ?F = "state_file E"
  show ?thesis
  proof (cases "tidy (file_props ?F w)")
    case True
    with assms(1) have "tidy (file_props ?F w1)" by (simp add: grows_def extends_def)
    with True assms have 1: "\<exists>ts. sent w1 = sent w @ ts \<and> (loud \<or> ts = [])" "\<exists>fs. tx_files w1 = tx_files w @ fs"
        "\<forall>f. f \<noteq> ?F \<longrightarrow> net_files w1 f = net_files w f" "extends (file_props ?F w) (file_props ?F w1)"
        "state_of E w \<noteq> None \<longrightarrow> state_of E w1 \<noteq> None"
      and 2: "\<exists>ts. sent w2 = sent w1 @ ts \<and> (loud \<or> ts = [])" "\<exists>fs. tx_files w2 = tx_files w1 @ fs"
        "\<forall>f. f \<noteq> ?F \<longrightarrow> net_files w2 f = net_files w1 f" "extends (file_props ?F w1) (file_props ?F w2)"
        "state_of E w1 \<noteq> None \<longrightarrow> state_of E w2 \<noteq> None"
      unfolding grows_def by simp_all
    have "\<exists>ts. sent w2 = sent w @ ts \<and> (loud \<or> ts = [])" using 1(1) 2(1) by force
    moreover have "\<exists>fs. tx_files w2 = tx_files w @ fs" using 1(2) 2(2) by force
    moreover have "extends (file_props ?F w) (file_props ?F w2)" using 1(4) 2(4) by (rule extends_trans)
    ultimately show ?thesis using 1(3,5) 2(3,5) by (simp add: grows_def)
  qed (simp add: grows_def)
qed

lemma after_read_grows: "grows loud E w (after_read E w)"
proof (cases "net_files w (state_file E)")
  case None
  then show ?thesis
    by (simp add: grows_def file_props_def after_read_def state_of_def strict_eq_def extends_def tidy_def
        app_keys_def VALID_APP_NAMES_def all_apps_def appKey_def)
qed (simp add: after_read_id)

text \<open>Code that does not write the state file.\<close>

definition steady :: "bool \<Rightarrow> 'a prog \<Rightarrow> bool" where
  "steady loud m \<longleftrightarrow> (\<forall>w. net_files (snd (m w)) = net_files w \<and>
     (\<exists>ts. sent (snd (m w)) = sent w @ ts \<and> (loud \<or> ts = [])) \<and> (\<exists>fs. tx_files (snd (m w)) = tx_files w @ fs))"

lemma steady_read_only [intro]: "read_only m \<Longrightarrow> steady loud m"
  by (simp add: steady_def read_only_def)

lemma steady_bindP [intro]:
  assumes "steady loud m" and "\<And>x. steady loud (f x)"
  shows "steady loud (bindP m f)"
  unfolding steady_def
proof
  fix w
  obtain r w1 where m: "m w = (r, w1)" by (cases "m w")
  show "net_files (snd (bindP m f w)) = net_files w \<and>
     (\<exists>ts. sent (snd (bindP m f w)) = sent w @ ts \<and> (loud \<or> ts = [])) \<and> (\<exists>fs. tx_files (snd (bindP m f w)) = tx_files w @ fs)"
  proof (cases r)
    case (Inl e)
    then show ?thesis using assms(1) [unfolded steady_def, rule_format, of w] by (simp add: bindP_def m)
  next
    case (Inr x)
    then show ?thesis
      using assms(1) [unfolded steady_def, rule_format, of w] assms(2) [unfolded steady_def, rule_format, of x w1]
      by (auto simp: bindP_def m)
  qed
qed

lemma steady_saves [intro]:
  "steady loud (saveDeployTx E a f args opts)" "steady loud (saveCallTxData E i m f args est opts)"
  by (auto simp: steady_def tx_files_saveDeployTx tx_files_saveCallTxData split: sum.splits)

lemma steady_throwP [intro]: "steady loud (throwP e)"
  by (auto simp: throwP_def read_only_def)

lemma steady_if [intro]: "steady loud a \<Longrightarrow> steady loud b \<Longrightarrow> steady loud (if c then a else b)"
  by simp

lemma steady_saveTx [intro]: "steady loud (saveTx E i m f args from)"
  unfolding saveTx_def by (intro steady_bindP steady_saves steady_read_only read_only_returnP)

lemma steady_saveVote [intro]: "steady loud (saveVote E V voting va tm name from calls)"
  unfolding saveVote_def by (intro steady_bindP steady_saveTx steady_read_only read_only_liftP)

lemma steady_sendTx [intro]: "steady True (sendTx E a m args opts)"
  by (auto simp: steady_def sendTx_def split: sum.splits)

lemma steady_grows:
  assumes "steady loud m"
  shows "grows loud E w (snd (m w))"
proof -
  from assms have "net_files (snd (m w)) = net_files w" by (simp add: steady_def)
  then have "file_props (state_file E) (snd (m w)) = file_props (state_file E) w" "state_of E (snd (m w)) = state_of E w"
    by (simp_all add: file_props_def state_of_def)
  then show ?thesis using assms by (auto simp: grows_def steady_def)
qed

text \<open>
  A script holds a state object \<open>st\<close> that has at least what the file has: what it writes on top of it
  loses nothing.
\<close>

definition holds :: "env \<Rightarrow> props \<Rightarrow> world \<Rightarrow> bool" where
  "holds E st w \<longleftrightarrow> keeps (file_props (state_file E) w) st \<and> tidy st"

definition careful :: "bool \<Rightarrow> env \<Rightarrow> props \<Rightarrow> 'a prog \<Rightarrow> bool" where
  "careful loud E st m \<longleftrightarrow> (\<forall>w. holds E st w \<longrightarrow> grows loud E w (snd (m w)))"

definition carries :: "bool \<Rightarrow> env \<Rightarrow> props \<Rightarrow> props prog \<Rightarrow> bool" where
  "carries loud E st m \<longleftrightarrow> careful loud E st m \<and>
     (\<forall>w st1 w1. holds E st w \<longrightarrow> m w = (Inr st1, w1) \<longrightarrow> holds E st1 w1 \<and> extends st st1)"

lemma steady_holds:
  assumes "steady loud m"
  shows "holds E st (snd (m w)) = holds E st w"
proof -
  from assms have "net_files (snd (m w)) = net_files w" by (simp add: steady_def)
  then show ?thesis by (simp add: holds_def file_props_def)
qed

lemma careful_steady: "steady loud m \<Longrightarrow> careful loud E st m"
  by (simp add: careful_def steady_grows)

lemma careful_result:
  assumes "steady loud m" and "\<And>x w w1. m w = (Inr x, w1) \<Longrightarrow> careful loud E st (f x)"
  shows "careful loud E st (bindP m f)"
  unfolding careful_def
proof
  fix w
  obtain r w1 where m: "m w = (r, w1)" by (cases "m w")
  have g: "grows loud E w w1" and h: "holds E st w1 = holds E st w"
    using steady_grows [OF assms(1), of E w] steady_holds [OF assms(1), of E st w] by (simp_all add: m)
  show "holds E st w \<longrightarrow> grows loud E w (snd (bindP m f w))"
  proof (cases r)
    case (Inl e)
    with g show ?thesis by (simp add: bindP_def m)
  next
    case (Inr x)
    have "holds E st w \<Longrightarrow> grows loud E w1 (snd (f x w1))" using assms(2) [of w x w1] m Inr h by (simp add: careful_def)
    with g Inr show ?thesis by (auto simp: bindP_def m intro: grows_trans)
  qed
qed

lemma careful_bindP: "steady loud m \<Longrightarrow> (\<And>x. careful loud E st (f x)) \<Longrightarrow> careful loud E st (bindP m f)"
  by (rule careful_result)

lemma holds_extends: "extends st st1 \<Longrightarrow> holds E st w \<Longrightarrow> holds E st1 w"
  unfolding holds_def extends_def by (blast intro: keeps_trans)

lemma careful_extends: "extends st st1 \<Longrightarrow> careful loud E st1 m \<Longrightarrow> careful loud E st m"
  unfolding careful_def by (blast intro: holds_extends)

lemma careful_liftP:
  assumes "\<And>x. r = Inr x \<Longrightarrow> careful loud E st (f x)"
  shows "careful loud E st (bindP (liftP r) f)"
  using assms by (auto simp: careful_def bindP_liftP split: sum.splits)

lemma careful_carry:
  assumes "carries loud E st m" and "\<And>st1. extends st st1 \<Longrightarrow> careful loud E st1 (f st1)"
  shows "careful loud E st (bindP m f)"
  unfolding careful_def
proof
  fix w
  obtain r w1 where m: "m w = (r, w1)" by (cases "m w")
  show "holds E st w \<longrightarrow> grows loud E w (snd (bindP m f w))"
  proof (cases "holds E st w")
    case True
    with assms(1) have g: "grows loud E w w1" unfolding carries_def careful_def by (metis m snd_conv)
    show ?thesis
    proof (cases r)
      case (Inl e)
      with g show ?thesis by (simp add: bindP_def m)
    next
      case (Inr st1)
      with assms(1) True m have "holds E st1 w1" "extends st st1" unfolding carries_def by blast+
      with assms(2) have "grows loud E w1 (snd (f st1 w1))" by (auto simp: careful_def)
      with g Inr show ?thesis by (auto simp: bindP_def m intro: grows_trans)
    qed
  qed simp
qed

lemma careful_case [intro]: "(\<And>a b. careful loud E st (f a b)) \<Longrightarrow> careful loud E st (case p of (a, b) \<Rightarrow> f a b)"
  by (cases p) simp

lemma careful_if: "careful loud E st a \<Longrightarrow> careful loud E st b \<Longrightarrow> careful loud E st (if c then a else b)"
  by simp

lemma persist_carries:
  assumes "reliable E" and "extends st (updateNetworkState (obj_set ''networkId'' (JInt (network_id E)) st1) ups)"
    and "''networkId'' \<notin> fst ` set ups"
  shows "carries loud E st (persistState E st1 ups)"
proof -
  let ?new = "updateNetworkState (obj_set ''networkId'' (JInt (network_id E)) st1) ups"
  have written: "file_props (state_file E) (snd (persistState E st1 ups w)) = json_props (bn_json E) ?new" for w
    by (simp add: file_props_def persistState_eq Let_def)
  have texts: "bn_json E i \<noteq> []" for i using assms(1) by (simp add: reliable_def)
  have "grows loud E w (snd (persistState E st1 ups w)) \<and> holds E ?new (snd (persistState E st1 ups w))"
    if "holds E st w" for w
  proof -
    have t: "tidy ?new" and k: "keeps (file_props (state_file E) w) ?new"
      using that assms(2) by (auto simp: holds_def extends_def intro: keeps_trans)
    from keeps_trans [OF k keeps_json [OF t texts]]
    have "keeps (file_props (state_file E) w) (json_props (bn_json E) ?new)" .
    moreover have "state_of E (snd (persistState E st1 ups w)) \<noteq> None"
      using state_of_persistState [OF assms(3), of E st1 w] by simp
    ultimately show ?thesis using t
      unfolding grows_def holds_def written by (simp add: persistState_eq Let_def extends_def tidy_json keeps_back)
  qed
  with assms(2) show ?thesis by (auto simp: carries_def careful_def persistState_eq Let_def)
qed

text \<open>Every script but the few that check their argument first starts by reading the state.\<close>

lemma read_grows:
  assumes "\<And>st. careful loud E st (f st)"
  shows "grows loud E w (snd (bindP (readState E) f w))"
proof (cases "readState E w")
  case (Pair r w1)
  then have w1: "w1 = after_read E w" using readState_world [of E w] by simp
  show ?thesis
  proof (cases r)
    case (Inl e)
    then show ?thesis by (simp add: bindP_def Pair w1 after_read_grows)
  next
    case (Inr st)
    then have "state_of E w = Some st" using Pair readState_ok [of E w st] by simp
    then have read: "file_props (state_file E) (after_read E w) = st"
      by (auto simp: file_props_def state_of_def after_read_def split: option.splits fcontent.splits sum.splits if_splits)
    show ?thesis
    proof (cases "tidy st")
      case True
      then have "holds E st (after_read E w)" by (simp add: holds_def read)
      with assms [of st] have "grows loud E (after_read E w) (snd (f st (after_read E w)))" by (simp add: careful_def)
      moreover have "bindP (readState E) f w = f st (after_read E w)" using Pair Inr w1 by (simp add: bindP_def)
      ultimately show ?thesis using after_read_grows grows_trans by metis
    next
      case False
      then have "\<not> tidy (file_props (state_file E) w)"
        using read after_read_grows [of loud E w] by (auto simp: grows_def extends_def)
      then show ?thesis by (simp add: grows_def)
    qed
  qed
qed

lemma require_grows:
  assumes "\<And>st. careful loud E st (f st)"
  shows "grows loud E w (snd (bindP (requireState E ks) f w))"
proof -
  have "bindP (requireState E ks) f =
      bindP (readState E) (\<lambda>st. bindP (liftP (assertRequiredNetworkState st ks)) (\<lambda>_. f st))"
    by (rule ext) (auto simp: requireState_def bindP_def liftP_def returnP_def split: prod.splits sum.splits)
  then show ?thesis using read_grows [of loud E "\<lambda>st. bindP (liftP (assertRequiredNetworkState st ks)) (\<lambda>_. f st)"] assms
    by (simp add: careful_liftP)
qed

lemma liftP_grows:
  assumes "\<And>x. r = Inr x \<Longrightarrow> grows loud E w (snd (f x w))"
  shows "grows loud E w (snd (bindP (liftP r) f w))"
  using assms by (auto simp: bindP_liftP split: sum.splits)

section \<open>The updates\<close>

lemma extends_plain:
  "plain_key k \<Longrightarrow> v \<noteq> JUndef \<Longrightarrow> k \<in> set LOOSE_KEYS \<or> truthy v \<or> \<not> truthy (obj_get st k) \<Longrightarrow>
     (tidy st \<Longrightarrow> storable v) \<Longrightarrow> extends st (obj_set k v st)"
  using plain_not_app [of k "[]"] by (intro extends_set) auto

text \<open>An update of a plain key: it fills the field, leaves it alone, or empties a loose one.\<close>

definition fills :: "string \<Rightarrow> jsval \<Rightarrow> bool" where
  "fills k v \<longleftrightarrow> plain_key k \<and> k \<noteq> ''networkId'' \<and> (k \<in> set LOOSE_KEYS \<or> \<not> not_nullish v \<or> truthy v)"

lemma fills_simps [simp]:
  "fills k (JStr s) \<longleftrightarrow> plain_key k \<and> k \<noteq> ''networkId'' \<and> (k \<in> set LOOSE_KEYS \<or> s \<noteq> [])"
  "fills k (JArr xs) \<longleftrightarrow> plain_key k \<and> k \<noteq> ''networkId''" "fills k (JObj ps) \<longleftrightarrow> plain_key k \<and> k \<noteq> ''networkId''"
  "fills k JUndef \<longleftrightarrow> plain_key k \<and> k \<noteq> ''networkId''"
  by (auto simp: fills_def not_nullish_def)

lemma storable_instance: "storable v \<Longrightarrow> f = ''address'' \<or> f = ''constructorArgs'' \<Longrightarrow>
    truthy (obj_get (own_props v) ''address'') \<Longrightarrow> truthy (obj_get (own_props v) f) \<Longrightarrow> storable (obj_get (own_props v) f)"
  by (cases v) (auto intro: plain_storable)

lemma extends_updateKey:
  assumes "fills k v" and "tidy st \<Longrightarrow> storable v"
  shows "extends st (updateKey (k, v) st)"
proof (cases "not_nullish v")
  case True
  let ?a = "obj_get (own_props v) ''address''" and ?c = "obj_get (own_props v) ''constructorArgs''"
  from assms(1) have k: "plain_key k" by (simp add: fills_def)
  have def: "truthy x \<Longrightarrow> x \<noteq> JUndef" for x by auto
  note p = plain_key_suffix [OF k]
  show ?thesis
  proof (cases "truthy ?a")
    case address: True
    have 1: "extends st (obj_set (k @ ''Address'') ?a st)"
      using address assms(2) by (intro extends_plain [OF p def]) (auto intro: storable_instance)
    have "extends st (obj_set (k @ ''ConstructorArgs'') ?c (obj_set (k @ ''Address'') ?a st))" if c: "truthy ?c"
    proof (rule extendsI)
      assume t: "tidy st"
      then have "extends (obj_set (k @ ''Address'') ?a st) (obj_set (k @ ''ConstructorArgs'') ?c (obj_set (k @ ''Address'') ?a st))"
        using address c assms(2) by (intro extends_plain [OF p def]) (auto intro: storable_instance)
      from extends_trans [OF 1 this] t show "keeps st (obj_set (k @ ''ConstructorArgs'') ?c (obj_set (k @ ''Address'') ?a st))"
        "tidy (obj_set (k @ ''ConstructorArgs'') ?c (obj_set (k @ ''Address'') ?a st))" by (simp_all add: extends_def)
    qed
    with 1 show ?thesis using address by (simp add: updateKey_def Let_def)
  next
    case False
    have "v \<noteq> JUndef" using True by (auto simp: not_nullish_def)
    with False True assms show ?thesis by (auto simp: updateKey_def Let_def fills_def intro!: extends_plain)
  qed
qed (simp add: updateKey_def)

lemma extends_updates:
  assumes "list_all (\<lambda>(k, v). fills k v) ups" and "tidy st \<Longrightarrow> list_all (\<lambda>(k, v). storable v) ups"
  shows "extends st (updateNetworkState st ups)"
proof (rule extendsI)
  assume t: "tidy st"
  have "list_all (\<lambda>(k, v). fills k v \<and> storable v) ups" using assms t by (auto simp: list_all_iff)
  then have "extends st (updateNetworkState st ups)"
  proof (induction ups arbitrary: st)
    case (Cons u ups)
    obtain k v where u: "u = (k, v)" by (cases u)
    with Cons.prems have "extends st (updateKey u st)" by (simp add: extends_updateKey)
    also from Cons have "extends (updateKey u st) (updateNetworkState (updateKey u st) ups)" by simp
    finally show ?case by simp
  qed simp
  with t show "keeps st (updateNetworkState st ups)" "tidy (updateNetworkState st ups)" by (simp_all add: extends_def)
qed

lemma extends_networkId: "reliable E \<Longrightarrow> extends st (obj_set ''networkId'' (JInt (network_id E)) st)"
  by (intro extends_plain) (simp_all add: plain_key_def reliable_def)

lemma persist_plain:
  assumes "reliable E" and "extends st st1" and "list_all (\<lambda>(k, v). fills k v) ups"
    and "tidy st \<Longrightarrow> list_all (\<lambda>(k, v). storable v) ups"
  shows "carries loud E st (persistState E st1 ups)"
proof (rule persist_carries [OF assms(1)])
  let ?st2 = "obj_set ''networkId'' (JInt (network_id E)) st1"
  show "extends st (updateNetworkState ?st2 ups)"
  proof (rule extendsI)
    assume t: "tidy st"
    have "extends st ?st2" using assms(2) extends_networkId [OF assms(1)] by (rule extends_trans)
    also have "extends ?st2 (updateNetworkState ?st2 ups)" using assms(3) assms(4) [OF t] by (rule extends_updates)
    finally show "keeps st (updateNetworkState ?st2 ups)" "tidy (updateNetworkState ?st2 ups)" using t by (simp_all add: extends_def)
  qed
  show "''networkId'' \<notin> fst ` set ups" using assms(3) by (auto simp: list_all_iff fills_def)
qed

text \<open>The entry of an app, merged with new fields.\<close>

lemma appKey_not_networkId [simp]: "appKey name \<noteq> ''networkId''"
  by (simp add: appKey_def)

lemma updated_key_not_app:
  assumes "name \<in> set VALID_APP_NAMES"
  shows "appKey name @ ''Address'' \<notin> set app_keys" "appKey name @ ''ConstructorArgs'' \<notin> set app_keys"
proof -
  have "list_all (\<lambda>n. appKey n @ ''Address'' \<notin> set app_keys \<and> appKey n @ ''ConstructorArgs'' \<notin> set app_keys) VALID_APP_NAMES"
    by code_simp
  with assms show "appKey name @ ''Address'' \<notin> set app_keys" "appKey name @ ''ConstructorArgs'' \<notin> set app_keys"
    by (simp_all add: list_all_iff)
qed

lemma app_key_in: "name \<in> set VALID_APP_NAMES \<Longrightarrow> appKey name \<in> set app_keys"
  by (simp add: app_keys_def)

lemma extends_entry_update:
  assumes "name \<in> set VALID_APP_NAMES" and "list_all field_update d"
  shows "extends st (updateKey (appKey name, JObj (obj_assign (own_props (obj_get st (appKey name))) d)) st)"
proof (rule extendsI)
  let ?k = "appKey name" and ?v = "JObj (obj_assign (own_props (obj_get st (appKey name))) d)"
  let ?a = "obj_get (own_props ?v) ''address''" and ?c = "obj_get (own_props ?v) ''constructorArgs''"
  let ?st1 = "obj_set (?k @ ''Address'') ?a st"
  assume t: "tidy st"
  note n = updated_key_not_app [OF assms(1)]
  note s = entry_storable [OF t app_key_in [OF assms(1)] assms(2)]
  have def: "truthy x \<Longrightarrow> x \<noteq> JUndef" for x by auto
  have "extends st ?st1" if "truthy ?a"
    using that storable_instance [OF s, of "''address''"] n(1) by (intro extends_set [OF def]) auto
  moreover have "extends ?st1 (obj_set (?k @ ''ConstructorArgs'') ?c ?st1)" if "truthy ?a" "truthy ?c"
    using that storable_instance [OF s, of "''constructorArgs''"] n(2) by (intro extends_set [OF def]) auto
  moreover have "extends st (obj_set ?k ?v st)" using app_key_in [OF assms(1)] assms(2) by (rule extends_entry)
  ultimately have "extends st (updateKey (?k, ?v) st)"
    by (auto simp: updateKey_def Let_def not_nullish_def intro: extends_trans)
  with t show "keeps st (updateKey (?k, ?v) st)" "tidy (updateKey (?k, ?v) st)" by (simp_all add: extends_def)
qed

lemma persist_entry:
  assumes "reliable E" and "extends st st1" and "name \<in> set VALID_APP_NAMES" and "list_all field_update d"
  shows "carries loud E st (persistState E st1 [(appKey name, JObj (obj_assign (own_props (obj_get st1 (appKey name))) d))])"
proof (rule persist_carries [OF assms(1)])
  let ?st2 = "obj_set ''networkId'' (JInt (network_id E)) st1"
  have same: "obj_get ?st2 (appKey name) = obj_get st1 (appKey name)" by (simp add: appKey_def)
  have "extends st ?st2" using assms(2) extends_networkId [OF assms(1)] by (rule extends_trans)
  also have "extends ?st2 (updateKey (appKey name, JObj (obj_assign (own_props (obj_get st1 (appKey name))) d)) ?st2)"
    using extends_entry_update [OF assms(3,4), of ?st2] by (simp only: same)
  finally show "extends st (updateNetworkState ?st2 [(appKey name, JObj (obj_assign (own_props (obj_get st1 (appKey name))) d))])"
    by (simp add: updateNetworkState_def)
qed (simp add: appKey_def)

lemma persist_base:
  assumes "reliable E" and "extends st st1" and "name \<in> set VALID_APP_NAMES" and "s \<noteq> []"
  shows "carries loud E st (persistState E st1 [(appKey name, JObj (obj_set f (JStr s) (own_props (obj_get st1 (appKey name)))))])"
  using persist_entry [OF assms(1-3), of "[(f, JStr s)]"] assms(4) by (simp add: obj_assign_def)

end
