(* ===== verification/Campaign.thy ===== *)
theory Campaign
  imports StateGrowth MultisigSetup MultisigUpgrades
begin

text \<open>
  The scripts of scripts/multisig as one deployment: any number of them, in any order, each run in an
  environment of its own (the chain and the process variables change between two runs), with the
  operator filling in fields of the state file in between.  What every run keeps: nothing is sent (only
  vote-and-enact sends), the saved transactions stay, the state files of other networks are not touched, and what is
  recorded in this network's file, a field or a field of an app's entry, stays recorded and, if it was
  filled, stays filled.
\<close>

section \<open>The scripts\<close>

text \<open>Stepping through a script: one rule for each kind of statement.\<close>

lemma careful_persist:
  assumes "reliable E" and "extends st st1" and "list_all (\<lambda>(k, v). fills k v) ups"
    and "tidy st \<Longrightarrow> list_all (\<lambda>(k, v). storable v) ups"
    and "\<And>s. extends st s \<Longrightarrow> careful loud E s (f s)"
  shows "careful loud E st (bindP (persistState E st1 ups) f)"
  using persist_plain [OF assms(1-4)] assms(5) by (rule careful_carry)

lemma careful_base:
  assumes "reliable E" and "name \<in> set VALID_APP_NAMES" and "s \<noteq> []" and "\<And>s. extends st s \<Longrightarrow> careful loud E s (g s)"
  shows "careful loud E st
    (bindP (persistState E st [(appKey name, JObj (obj_set f (JStr s) (own_props (obj_get st (appKey name)))))]) g)"
  using persist_base [OF assms(1) extends_refl assms(2,3)] assms(4) by (rule careful_carry)

text \<open>What the outside world is relied on for, where a script asks it.\<close>

lemma careful_at:
  assumes "reliable E" and "\<And>a. a \<noteq> [] \<Longrightarrow> \<exists>s. v = JStr s \<and> s \<noteq> [] \<Longrightarrow> careful loud E st (f a)"
  shows "careful loud E st (bindP (at_addr E n v) f)"
  unfolding at_addr_def by (rule careful_liftP) (use reliable_at [OF assms(1)] assms(2) in blast)

lemma careful_deployed:
  assumes "reliable E" and "\<And>a. a \<noteq> [] \<Longrightarrow> careful loud E st (f a)"
  shows "careful loud E st (bindP (liftP (useOrGetDeployed E n v h)) f)"
  by (rule careful_liftP) (use reliable_deployed [OF assms(1)] assms(2) in blast)

lemma careful_event:
  assumes "reliable E" and "\<And>e. \<exists>s. evt_field e ''transactionHash'' = JStr s \<and> s \<noteq> [] \<Longrightarrow> careful loud E st (f e)"
  shows "careful loud E st (bindP (liftP (assertLastEvent E i n b)) f)"
  by (rule careful_liftP) (use reliable_event [OF assms(1)] assms(2) in blast)

lemma careful_template:
  assumes "reliable E" and "\<And>t b. t \<noteq> [] \<Longrightarrow> truthy b \<Longrightarrow> storable b \<Longrightarrow> careful loud E st (f t b)"
  shows "careful loud E st (bindP (liftP (obtainTemplate E state)) (\<lambda>(t, b). f t b))"
proof (rule careful_liftP)
  fix x
  assume "obtainTemplate E state = Inr x"
  then show "careful loud E st (case x of (t, b) \<Rightarrow> f t b)"
    using reliable_deployed [OF assms(1)] reliable_block [OF assms(1)] assms(2)
    by (auto simp: obtainTemplate_def bindR_eq_Inr)
qed

lemmas careful_reliable = careful_at careful_deployed careful_event careful_template

lemmas careful_steps =
  careful_bindP [OF steady_read_only [OF read_only_frame(1)]]
  careful_bindP [OF steady_read_only [OF read_only_frame(2)]]
  careful_bindP [OF steady_read_only [OF read_only_frame(3)]]
  careful_bindP [OF steady_read_only [OF read_only_appField(1)]]
  careful_bindP [OF steady_saves(1)] careful_bindP [OF steady_saves(2)] careful_bindP [OF steady_saveTx]
  careful_liftP careful_case careful_if careful_persist
  careful_steady [OF steady_saveTx] careful_steady [OF steady_saveVote] careful_steady [OF steady_throwP]
  careful_steady [OF steady_read_only [OF read_only_returnP]] careful_steady [OF steady_read_only [OF read_only_liftP]]
  careful_bindP [OF steady_read_only [OF read_only_appField(2)]]

lemma grows_01: "reliable E \<Longrightarrow> grows False E w (snd (deployTemplate_01 E w))"
  unfolding deployTemplate_01_def Let_def
  by (intro require_grows careful_reliable careful_steps) (simp_all add: plain_key_def LOOSE_KEYS_def)

lemma carries_obtainBase:
  assumes "reliable E" and "name \<in> set VALID_APP_NAMES"
  shows "carries loud E st (obtainBase E a ak tk name st)"
proof -
  have c: "carries loud E st (bindP (liftP r) f)" if "\<And>x. r = Inr x \<Longrightarrow> carries loud E st (f x)" for r :: "'b res" and f
    using that by (auto simp: carries_def careful_def bindP_liftP split: sum.splits)
  show ?thesis unfolding obtainBase_def
    by (intro c persist_base extends_refl assms) (rule reliable_deployed [OF assms(1)])
qed

lemma app_valid [simp]: "APP_NAMES a \<in> set VALID_APP_NAMES"
  by (cases a) (simp_all add: VALID_APP_NAMES_def all_apps_def)

lemma grows_02: "reliable E \<Longrightarrow> grows False E w (snd (obtainInstances_02 E w))"
  unfolding obtainInstances_02_def Let_def
  by (intro require_grows careful_reliable careful_steps careful_carry [OF carries_obtainBase [OF _ app_valid]])
    (simp_all add: plain_key_def instanceVal_def fills_def)

lemma grows_03: "grows False E w (snd (registerEnsDomain_03 E w))"
  unfolding registerEnsDomain_03_def registerDomain_def Let_def
  by (intro require_grows careful_steps)

lemma grows_05: "reliable E \<Longrightarrow> grows False E w (snd (deployAPM_05 E w))"
  unfolding deployAPM_05_def Let_def
  by (intro require_grows careful_reliable careful_steps) (simp_all add: plain_key_def LOOSE_KEYS_def)

lemma grows_07: "reliable E \<Longrightarrow> grows False E w (snd (createAppRepos_07 E w))"
  unfolding createAppRepos_07_def Let_def
  by (intro require_grows careful_reliable careful_steps) simp_all

text \<open>Three scripts record the hash of an event's transaction before they check what it did.\<close>

lemma extends_event: "plain_key k \<Longrightarrow> \<exists>s. v = JStr s \<and> s \<noteq> [] \<Longrightarrow> extends st (obj_set k v st)"
  by (auto intro: extends_plain)

lemma grows_06: "reliable E \<Longrightarrow> grows False E w (snd (obtainDeployedAPM_06 E w))"
  unfolding obtainDeployedAPM_06_def Let_def
  by (intro require_grows careful_reliable careful_steps extends_event) (auto simp: plain_key_def)

lemma grows_08: "reliable E \<Longrightarrow> grows False E w (snd (deployDAO_08 E w))"
  unfolding deployDAO_08_def Let_def
  by (intro require_grows careful_reliable careful_steps extends_event) (auto simp: plain_key_def)

lemma published_entry:
  assumes "reliable E" and "publishAppFrontend E F dir ipfsAPI ensName = Inr (name, app)"
  shows "name \<in> set VALID_APP_NAMES \<and> list_all field_update app"
proof -
  from assms(2) obtain v path where v: "readArappJSON F dir (network_name E) = Inr (v, path)"
    by (auto simp: publishAppFrontend_def bindR_eq_Inr)
  with assms(2) obtain full where full: "v = JStr full" by (cases v) (simp_all add: publishAppFrontend_def)
  have "name_hash E full \<noteq> []" using assms(1) by (simp add: reliable_def)
  moreover have "ends_with (''.'' @ ensName) full" using assms(2) v full by (auto simp: publishAppFrontend_def split: if_splits)
  then have "full \<noteq> []" by (auto simp: ends_with_def)
  moreover have "[] \<notin> set VALID_APP_NAMES" by code_simp
  ultimately show ?thesis using assms(2) v full
    by (auto simp: publishAppFrontend_def bindR_eq_Inr Let_def IPFS_FIELDS_def split: if_splits)
qed

lemma careful_publishAll: "reliable E \<Longrightarrow> careful loud E st (publishAll E F dirs st)"
proof (induction dirs arbitrary: st)
  case Nil
  then show ?case by (simp add: careful_def)
next
  case (Cons d dirs)
  have step: "publishAll E F (d # dirs) st =
     bindP (liftP (publishAppFrontend E F d (obj_get st ''ipfsAPI'') (to_str (obj_get st ''lidoApmEnsName'')))) (\<lambda>(name, app).
     bindP (persistState E st
       [(appKey name, JObj (obj_assign (own_props (obj_get st (appKey name))) app))]) (\<lambda>st1. publishAll E F dirs st1))"
    by (rule ext) simp
  show ?case unfolding step
  proof (rule careful_liftP)
    fix x
    assume x: "publishAppFrontend E F d (obj_get st ''ipfsAPI'') (to_str (obj_get st ''lidoApmEnsName'')) = Inr x"
    obtain name app where n: "x = (name, app)" by (cases x)
    with x have "name \<in> set VALID_APP_NAMES" "list_all field_update app"
      using published_entry [OF Cons.prems] by blast+
    then have "carries loud E st (persistState E st
        [(appKey name, JObj (obj_assign (own_props (obj_get st (appKey name))) app))])"
      by (intro persist_entry extends_refl Cons.prems)
    then show "careful loud E st (case x of (name, app) \<Rightarrow> bindP (persistState E st
        [(appKey name, JObj (obj_assign (own_props (obj_get st (appKey name))) app))]) (publishAll E F dirs))"
      using Cons by (auto simp: n intro: careful_carry)
  qed
qed

lemma careful_end: "careful loud E st m \<Longrightarrow> careful loud E st (bindP m (\<lambda>x. returnP y))"
  by (auto simp: careful_def bindP_def prog_simps split: prod.splits sum.splits)

lemma grows_04: "reliable E \<Longrightarrow> grows False E w (snd (publishAppFrontends_04 E F dirs w))"
  unfolding publishAppFrontends_04_def by (intro require_grows careful_end careful_publishAll)

text \<open>The apps the template reports as installed, each with the data recorded for it.\<close>

definition installed_entry :: "string \<times> props \<Rightarrow> bool" where
  "installed_entry x \<longleftrightarrow> fst x \<in> set VALID_APP_NAMES \<and> list_all field_update (snd x)"

lemma installed_app_entry:
  assumes "reliable E" and x: "checkInstalledApp E dao ensName pa aa ns args = Inr x"
  shows "installed_entry x"
proof -
  from x obtain v where v: "getp args ''appId'' = Inr v" by (auto simp: checkInstalledApp_def bindR_eq_Inr)
  with x obtain i where i: "v = JStr i" by (cases v) (auto simp: checkInstalledApp_def bindR_eq_Inr)
  with x v obtain n where n: "appNameByAppId E ensName i = Some n"
    by (cases "appNameByAppId E ensName i") (auto simp: checkInstalledApp_def bindR_eq_Inr)
  from x v i n obtain pv p where p: "checksum E pv = Inr p" "x = (n, [(''name'', JStr n), (''fullName'', JStr (appFullName n ensName)),
      (''id'', JStr i), (''proxyAddress'', JStr p)])"
    by (cases "map_of APP_ARTIFACTS n") (auto simp: checkInstalledApp_def bindR_eq_Inr)
  then have "p \<noteq> []" using assms(1) by (auto simp: reliable_def)
  moreover have "[] \<notin> set VALID_APP_NAMES" by code_simp
  moreover have "i \<noteq> []" "n \<in> set VALID_APP_NAMES" using appNameByAppId_Some [OF n] assms(1) by (auto simp: reliable_def)
  ultimately show ?thesis using p(2) by (auto simp: installed_entry_def appFullName_def)
qed

lemma mapR_all: "mapR f xs = Inr ys \<Longrightarrow> (\<And>x y. f x = Inr y \<Longrightarrow> P y) \<Longrightarrow> list_all P ys"
proof (induction xs arbitrary: ys)
  case (Cons x xs)
  then obtain z zs where "f x = Inr z" "mapR f xs = Inr zs" "ys = z # zs" by (auto split: sum.splits)
  with Cons show ?case by simp
qed simp

lemma installed_entries:
  assumes "reliable E" and "assertInstalledApps E template dao ensName p a block = Inr apps"
  shows "list_all installed_entry apps"
proof -
  have "list_all installed_entry (fold (\<lambda>(name, d) acc. obj_set name d acc) ys acc)"
    if "list_all installed_entry ys" "list_all installed_entry acc" for ys acc
    using that
  proof (induction ys arbitrary: acc)
    case (Cons y ys)
    obtain k v where y: "y = (k, v)" by (cases y)
    with Cons.prems have "list_all installed_entry (obj_set k v acc)" using set_obj_set [of k v acc] by (auto simp: list_all_iff)
    with Cons y show ?case by simp
  qed simp
  then show ?thesis using assms(2) mapR_all [OF _ installed_app_entry [OF assms(1)]]
    by (fastforce simp: assertInstalledApps_def bindR_eq_Inr Let_def)
qed

lemma extends_mergeApps: "list_all installed_entry apps \<Longrightarrow> extends st (mergeApps apps st)"
proof (induction apps arbitrary: st)
  case (Cons x apps)
  obtain name d where x: "x = (name, d)" by (cases x)
  let ?st1 = "obj_set (appKey name) (JObj (obj_assign (own_props (obj_get st (appKey name))) d)) st"
  have "extends st ?st1" using Cons.prems by (intro extends_entry app_key_in) (simp_all add: x installed_entry_def)
  also from Cons have "extends ?st1 (mergeApps apps ?st1)" by simp
  finally show ?case by (simp add: mergeApps_def x)
qed (simp add: mergeApps_def)

lemma extends_obtainedDAO:
  assumes "reliable E" and "assertInstalledApps E tpl dao ensName p a block = Inr apps" and "d \<noteq> []" and "t \<noteq> []"
  shows "extends st (mergeApps apps (obj_set ''daoTokenAddress'' (JStr t) (obj_set ''daoAddress'' (JStr d) st)))"
proof -
  have "extends st (obj_set ''daoAddress'' (JStr d) st)" using assms(3) by (intro extends_plain) (simp_all add: plain_key_def)
  also have "extends (obj_set ''daoAddress'' (JStr d) st) (obj_set ''daoTokenAddress'' (JStr t) (obj_set ''daoAddress'' (JStr d) st))"
    using assms(4) by (intro extends_plain) (simp_all add: plain_key_def)
  also have "extends (obj_set ''daoTokenAddress'' (JStr t) (obj_set ''daoAddress'' (JStr d) st))
      (mergeApps apps (obj_set ''daoTokenAddress'' (JStr t) (obj_set ''daoAddress'' (JStr d) st)))"
    using installed_entries [OF assms(1,2)] by (rule extends_mergeApps)
  finally show ?thesis .
qed

lemma grows_09: "reliable E \<Longrightarrow> grows False E w (snd (obtainDeployedDAO_09 E w))"
  unfolding obtainDeployedDAO_09_def Let_def
  by (intro require_grows careful_reliable careful_steps extends_event extends_obtainedDAO) (auto simp: plain_key_def)

lemma steady_issueLoop: "steady loud (issueLoop E template from vest holders amounts k n i acc)"
proof (induction n arbitrary: i acc)
  case 0
  then show ?case by (simp add: steady_def)
next
  case (Suc n)
  have "issueLoop E template from vest holders amounts k (Suc n) i acc =
     bindP (liftP (bigSum E (take k (drop (i * k) amounts)) 0)) (\<lambda>s.
     bindP (saveCallTxData E template ''issueTokens'' (batchFile i)
       ([JArr (take k (drop (i * k) holders)), JArr (take k (drop (i * k) amounts))] @ vest @ [JStr (''0x'' @ to_hex E (acc + s))])
       (i = 0) [(''from'', from)]) (\<lambda>_.
     issueLoop E template from vest holders amounts k n (Suc i) (acc + s)))"
    by (rule ext) (simp add: Let_def)
  then show ?case using Suc by (auto intro!: steady_bindP steady_saves)
qed

lemma grows_10: "grows False E w (snd (issueTokens_10 E w))"
  unfolding issueTokens_10_def Let_def
  by (intro require_grows careful_steps careful_steady [OF steady_issueLoop])

lemma grows_11: "grows False E w (snd (finalizeDAO_11 E w))"
  unfolding finalizeDAO_11_def Let_def by (intro require_grows careful_steps)

lemma grows_12: "grows False E w (snd (checkDAO_12 E live w))"
  unfolding checkDAO_12_def Let_def by (intro require_grows careful_steps)

lemma valid_of_wrongApp: "wrongApp name = Inr u \<Longrightarrow> name \<in> set VALID_APP_NAMES"
  by (auto simp: wrongApp_def split: if_splits)

lemma grows_13: "grows False E w (snd (deployAppInstance_13 E V name w))"
  unfolding deployAppInstance_13_def by (intro liftP_grows require_grows careful_steps)

lemma grows_14: "reliable E \<Longrightarrow> grows False E w (snd (obtainAppInstance_14 E name w))"
  unfolding obtainAppInstance_14_def Let_def
  by (intro liftP_grows require_grows careful_reliable careful_base careful_steps) (simp_all add: valid_of_wrongApp)

lemma grows_votes:
  "grows False E w (snd (voteNewImpl_15 E V name w))"
  "grows False E w (snd (addGuardians_18 E V w))"
  "grows False E w (snd (transferOwnership_19 E V w))"
  "grows False E w (snd (mitigateFrontRunning_20 E V w))"
  "grows False E w (snd (voteELRewards_28 E V w))"
  "grows False E w (snd (initializeDepositor_30 E V w))"
  "grows False E w (snd (upgradeApp E V name w))"
  unfolding voteNewImpl_15_def addGuardians_18_def transferOwnership_19_def mitigateFrontRunning_20_def
    voteELRewards_28_def initializeDepositor_30_def upgradeApp_def Let_def
  by (intro liftP_grows require_grows careful_steps careful_bindP [OF steady_read_only] read_only_bindP read_only_frame; assumption?)+

lemma careful_depositorArgs: "(\<And>x. careful loud E st (f x)) \<Longrightarrow> careful loud E st (bindP (depositorArgs E state) f)"
  unfolding depositorArgs_def by (rule careful_bindP) (intro steady_bindP steady_read_only read_only_appField read_only_liftP read_only_returnP)

lemmas read_only_steps = read_only_bindP read_only_frame read_only_appField read_only_liftP read_only_returnP

lemma grows_deployments:
  assumes "reliable E"
  shows "grows False E w (snd (deployDepositor_16 E V w))"
    "grows False E w (snd (deployComposite_21 E V w))"
    "grows False E w (snd (deployBurner_23 E V w))"
    "grows False E w (snd (deployVault_26 E V w))"
    "grows False E w (snd (deployDepositor_29 E V w))"
  unfolding deployDepositor_16_def deployComposite_21_def deployBurner_23_def deployVault_26_def deployDepositor_29_def Let_def
  by (intro require_grows careful_depositorArgs careful_steps assms; simp add: plain_key_def LOOSE_KEYS_def)+

lemma newDepositorState_keys:
  "a \<noteq> [] \<Longrightarrow> list_all (\<lambda>(k, v). fills k v) (newDepositorState st a)"
  "tidy st \<Longrightarrow> list_all (\<lambda>(k, v). storable v) (newDepositorState st a)"
  by (simp_all add: newDepositorState_def Let_def plain_key_def LOOSE_KEYS_def fills_def tidy_get)

lemma grows_obtained:
  assumes "reliable E"
  shows "grows False E w (snd (obtainDepositor_17 E w))"
    "grows False E w (snd (obtainComposite_22 E w))"
    "grows False E w (snd (obtainBurner_24 E w))"
    "grows False E w (snd (obtainVault_27 E w))"
  unfolding obtainDepositor_17_def obtainComposite_22_def obtainBurner_24_def obtainVault_27_def Let_def
  by (intro require_grows careful_deployed careful_steps newDepositorState_keys assms; simp add: plain_key_def)+

lemma grows_votes_31:
  "grows False E w (snd (voteBurner_25 E V w))"
  "grows False E w (snd (startProtocol_31 E V w))"
  "grows False E w (snd (voteELRewards_28 E V w))"
  unfolding voteBurner_25_def startProtocol_31_def voteELRewards_28_def Let_def
  by (intro require_grows careful_steps(1-14) careful_steps(16-) careful_bindP [OF steady_read_only [OF read_only_bindP]] read_only_steps)+

lemma grows_verify: "grows False E w (snd (verifyVoteTx E V TX w))"
proof -
  have "read_only (readTxFile n)" for n by (simp add: read_only_def readTxFile_def split: option.splits)
  then show ?thesis unfolding verifyVoteTx_def
    by (intro liftP_grows require_grows careful_bindP [OF steady_read_only] careful_steps)
qed

lemma grows_enact: "grows True E w (snd (voteAndEnact E V w))"
  unfolding voteAndEnact_def Let_def
  by (intro require_grows careful_steady steady_bindP steady_sendTx steady_if steady_read_only read_only_steps)

section \<open>Any sequence of runs\<close>

datatype script =
    DeployTemplate | ObtainInstances | RegisterEnsDomain | PublishAppFrontends front_env string | DeployAPM | ObtainAPM
  | CreateAppRepos | DeployDAO | ObtainDAO | IssueTokens | FinalizeDAO | CheckDAO bool | DeployAppInstance vote_env string
  | ObtainAppInstance string | VoteNewImpl vote_env string | DeployDepositor vote_env | ObtainDepositor
  | AddGuardians vote_env | TransferOwnership vote_env | MitigateFrontRunning vote_env | DeployComposite vote_env
  | ObtainComposite | DeployBurner vote_env | ObtainBurner | VoteBurner vote_env | DeployVault vote_env | ObtainVault
  | VoteELRewards vote_env | RedeployDepositor vote_env | InitializeDepositor vote_env | StartProtocol vote_env
  | UpgradeApp vote_env string | VerifyVoteTx vote_env jsval | VoteAndEnact vote_env

fun multisig_script :: "script \<Rightarrow> env \<Rightarrow> unit prog" where
  "multisig_script DeployTemplate E = deployTemplate_01 E"
| "multisig_script ObtainInstances E = obtainInstances_02 E"
| "multisig_script RegisterEnsDomain E = registerEnsDomain_03 E"
| "multisig_script (PublishAppFrontends F dirs) E = publishAppFrontends_04 E F dirs"
| "multisig_script DeployAPM E = deployAPM_05 E"
| "multisig_script ObtainAPM E = obtainDeployedAPM_06 E"
| "multisig_script CreateAppRepos E = createAppRepos_07 E"
| "multisig_script DeployDAO E = deployDAO_08 E"
| "multisig_script ObtainDAO E = obtainDeployedDAO_09 E"
| "multisig_script IssueTokens E = issueTokens_10 E"
| "multisig_script FinalizeDAO E = finalizeDAO_11 E"
| "multisig_script (CheckDAO live) E = checkDAO_12 E live"
| "multisig_script (DeployAppInstance V app) E = deployAppInstance_13 E V app"
| "multisig_script (ObtainAppInstance app) E = obtainAppInstance_14 E app"
| "multisig_script (VoteNewImpl V app) E = voteNewImpl_15 E V app"
| "multisig_script (DeployDepositor V) E = deployDepositor_16 E V"
| "multisig_script ObtainDepositor E = obtainDepositor_17 E"
| "multisig_script (AddGuardians V) E = addGuardians_18 E V"
| "multisig_script (TransferOwnership V) E = transferOwnership_19 E V"
| "multisig_script (MitigateFrontRunning V) E = mitigateFrontRunning_20 E V"
| "multisig_script (DeployComposite V) E = deployComposite_21 E V"
| "multisig_script ObtainComposite E = obtainComposite_22 E"
| "multisig_script (DeployBurner V) E = deployBurner_23 E V"
| "multisig_script ObtainBurner E = obtainBurner_24 E"
| "multisig_script (VoteBurner V) E = voteBurner_25 E V"
| "multisig_script (DeployVault V) E = deployVault_26 E V"
| "multisig_script ObtainVault E = obtainVault_27 E"
| "multisig_script (VoteELRewards V) E = voteELRewards_28 E V"
| "multisig_script (RedeployDepositor V) E = deployDepositor_29 E V"
| "multisig_script (InitializeDepositor V) E = initializeDepositor_30 E V"
| "multisig_script (StartProtocol V) E = startProtocol_31 E V"
| "multisig_script (UpgradeApp V app) E = upgradeApp E V app"
| "multisig_script (VerifyVoteTx V TX) E = verifyVoteTx E V TX"
| "multisig_script (VoteAndEnact V) E = voteAndEnact E V"

text \<open>
  A campaign on one network: scripts are run, newest first in the trace, each in an environment that is
  \<open>fit\<close> for them, and the operator fills in a field of the state file, as the instructions the scripts
  print ask for.
\<close>

inductive campaign ::
  "('s \<Rightarrow> env \<Rightarrow> unit prog) \<Rightarrow> (env \<Rightarrow> bool) \<Rightarrow> string \<Rightarrow> int \<Rightarrow> world \<Rightarrow> 's list \<Rightarrow> world \<Rightarrow> bool" for run fit F netId w where
  started: "campaign run fit F netId w [] w"
| ran: "campaign run fit F netId w trace w1 \<Longrightarrow> state_file E = F \<Longrightarrow> network_id E = netId \<Longrightarrow> fit E \<Longrightarrow>
    campaign run fit F netId w (s # trace) (snd (run s E w1))"
| filled: "campaign run fit F netId w trace w1 \<Longrightarrow> state_at F netId w1 = Some st \<Longrightarrow>
    k \<noteq> ''networkId'' \<Longrightarrow> k \<notin> set app_keys \<Longrightarrow> truthy v \<Longrightarrow> storable v \<Longrightarrow>
    campaign run fit F netId w trace (w1\<lparr>net_files := (net_files w1)(F \<mapsto> JsonText (JObj (obj_set k v st)))\<rparr>)"

locale careful_family =
  fixes run :: "'s \<Rightarrow> env \<Rightarrow> unit prog" and fit :: "env \<Rightarrow> bool" and loud :: "'s \<Rightarrow> bool"
  assumes run_grows: "fit E \<Longrightarrow> grows (loud s) E w (snd (run s E w))"
begin

lemma campaign_keeps:
  assumes "campaign run fit F netId w trace w'" and "tidy (file_props F w)"
  shows "(\<exists>ts. sent w' = sent w @ ts \<and> (list_ex loud trace \<or> ts = [])) \<and> (\<exists>fs. tx_files w' = tx_files w @ fs) \<and>
    (\<forall>f. f \<noteq> F \<longrightarrow> net_files w' f = net_files w f) \<and> keeps (file_props F w) (file_props F w') \<and> tidy (file_props F w') \<and>
    (state_at F netId w \<noteq> None \<longrightarrow> state_at F netId w' \<noteq> None)"
  using assms(1)
proof induction
  case started
  then show ?case using assms(2) by simp
next
  case (ran trace w1 E s)
  let ?w2 = "snd (run s E w1)"
  have g: "grows (loud s) E w1 ?w2" using ran.hyps(4) by (rule run_grows)
  from ran.IH have t: "tidy (file_props (state_file E) w1)" by (simp add: ran.hyps)
  from g t have 1: "\<exists>ts. sent ?w2 = sent w1 @ ts \<and> (loud s \<or> ts = [])" "\<exists>fs. tx_files ?w2 = tx_files w1 @ fs"
    "\<forall>f. f \<noteq> F \<longrightarrow> net_files ?w2 f = net_files w1 f" "keeps (file_props F w1) (file_props F ?w2)" "tidy (file_props F ?w2)"
    "state_at F netId w1 \<noteq> None \<longrightarrow> state_at F netId ?w2 \<noteq> None"
    unfolding grows_def extends_def state_of_at ran.hyps(2,3) by simp_all
  have "\<exists>ts. sent ?w2 = sent w @ ts \<and> (list_ex loud (s # trace) \<or> ts = [])" using ran.IH 1(1) by force
  moreover have "\<exists>fs. tx_files ?w2 = tx_files w @ fs" using ran.IH 1(2) by force
  moreover have "keeps (file_props F w) (file_props F ?w2)" using ran.IH 1(4) by (blast intro: keeps_trans)
  ultimately show ?case using ran.IH 1(3,5,6) by simp
next
  case (filled trace w1 st k v)
  let ?w2 = "w1\<lparr>net_files := (net_files w1)(F \<mapsto> JsonText (JObj (obj_set k v st)))\<rparr>"
  have "file_props F w1 = st \<or> file_props F w1 = [] \<and> st = [(''networkId'', JInt netId)]"
    using filled.hyps(2) by (auto simp: file_props_def state_at_def split: option.splits fcontent.splits sum.splits if_splits)
  moreover have "tidy [(''networkId'', JInt netId)]" by (simp add: tidy_def list_all_iff app_keys_def)
  ultimately have "keeps (file_props F w1) st \<and> tidy st" using filled.IH by auto
  moreover have "extends st (obj_set k v st)" using filled.hyps by (intro extends_set) auto
  ultimately have "keeps (file_props F w1) (file_props F ?w2) \<and> tidy (file_props F ?w2)"
    by (auto simp: file_props_def extends_def intro: keeps_trans)
  moreover have "obj_get st ''networkId'' = JInt netId"
    using filled.hyps(2)
    by (auto simp: state_at_def strict_eq_def split: option.splits fcontent.splits sum.splits if_splits elim!: getp.elims)
  then have "state_at F netId ?w2 \<noteq> None" using filled.hyps by (simp add: state_at_def strict_eq_def)
  ultimately show ?case using filled.IH by (auto intro: keeps_trans)
qed

end

fun sends :: "script \<Rightarrow> bool" where
  "sends (VoteAndEnact V) = True"
| "sends _ = False"

lemmas grows_scripts = grows_01 grows_02 grows_03 grows_04 grows_05 grows_06 grows_07 grows_08 grows_09 grows_10 grows_11
  grows_12 grows_13 grows_14 grows_votes grows_deployments grows_obtained grows_votes_31 grows_verify grows_enact

interpretation multisig: careful_family multisig_script reliable sends
proof
  fix E s w
  assume "reliable E"
  then show "grows (sends s) E w (snd (multisig_script s E w))" by (cases s) (simp_all add: grows_scripts)
qed

section \<open>What a script needs\<close>

fun required :: "script \<Rightarrow> string list" where
  "required DeployTemplate = REQUIRED_01"
| "required ObtainInstances = REQUIRED_02"
| "required RegisterEnsDomain = REQUIRED_03"
| "required (PublishAppFrontends F dirs) = [''lidoApmEnsName'', ''ipfsAPI'']"
| "required DeployAPM = [''multisigAddress'', ''daoTemplateAddress'', ''ensAddress'', ''lidoApmEnsName'']"
| "required ObtainAPM = [''ensAddress'', ''lidoApmEnsName'', ''daoTemplateAddress'']"
| "required CreateAppRepos = [''multisigAddress'', ''daoTemplateAddress'', ''app:lido'', ''app:oracle'', ''app:node-operators-registry'']"
| "required DeployDAO = [''ensAddress'', ''multisigAddress'', ''daoTemplateAddress'', ''app:lido'', ''app:oracle'',
     ''app:node-operators-registry'', ''daoInitialSettings'']"
| "required ObtainDAO = [''lidoApmEnsName'', ''daoTemplateAddress'', ''app:lido'', ''app:oracle'', ''app:node-operators-registry'']"
| "required IssueTokens = [''daoAddress'', ''daoTemplateAddress'', ''vestingParams'']"
| "required FinalizeDAO = [''daoAddress'', ''daoTokenAddress'', ''daoAragonId'', ''daoInitialSettings'', ''vestingParams'',
     ''app:aragon-token-manager'']"
| "required (CheckDAO live) = [''ensAddress'', ''lidoApmEnsName'', ''daoAragonId'', ''vestingParams'', ''daoInitialSettings'',
     ''daoTemplateAddress'']"
| "required (DeployAppInstance V app) = [''lidoApmEnsName'', ''lidoApmAddress'', appKey app]"
| "required (ObtainAppInstance app) = [''ensAddress'', ''multisigAddress'', ''lidoBaseDeployTx'', ''oracleBaseDeployTx'',
     ''nodeOperatorsRegistryBaseDeployTx'', camelCase (to_lower app) @ ''BaseDeployTx'', appKey app]"
| "required (VoteNewImpl V app) = [''lidoApmEnsName'', ''ensAddress'', ''daoAddress'', ''app:aragon-voting'',
     ''app:aragon-token-manager'', appKey app]"
| "required (DeployDepositor V) = REQUIRED_16"
| "required ObtainDepositor = ''depositorDeployTx'' # REQUIRED_16"
| "required (AddGuardians V) = [''depositorAddress'', ''depositorParams'']"
| "required (TransferOwnership V) = [''depositorAddress'', ''depositorParams'', ''app:aragon-agent'']"
| "required (MitigateFrontRunning V) = [''lidoApmEnsName'', ''ensAddress'', ''daoAddress'', ''depositorAddress'',
     ''app:aragon-voting'', ''app:aragon-token-manager'', ''app:lido'', ''app:node-operators-registry'']"
| "required (DeployComposite V) = [''lidoApmEnsName'', ''ensAddress'', ''daoAddress'', ''app:aragon-voting'', ''app:oracle'']"
| "required ObtainComposite = [''compositePostRebaseBeaconReceiverDeployTx'', ''lidoApmEnsName'', ''ensAddress'', ''daoAddress'',
     ''app:aragon-voting'', ''app:oracle'']"
| "required (DeployBurner V) = REQUIRED_23"
| "required ObtainBurner = ''selfOwnedStETHBurnerDeployTx'' # REQUIRED_23"
| "required (VoteBurner V) = [''lidoApmEnsName'', ''ensAddress'', ''daoAddress'', ''compositePostRebaseBeaconReceiverAddress'',
     ''selfOwnedStETHBurnerAddress'', ''app:aragon-voting'', ''app:oracle'', ''app:lido'', ''app:aragon-token-manager'']"
| "required (DeployVault V) = [''daoInitialSettings'', ''app:lido'']"
| "required ObtainVault = [''executionLayerRewardsVaultDeployTx'', ''app:lido'']"
| "required (VoteELRewards V) = [''lidoApmEnsName'', ''ensAddress'', ''daoAddress'', ''app:aragon-voting'',
     ''app:aragon-token-manager'', ''app:lido'', ''app:node-operators-registry'', ''app:oracle'',
     ''executionLayerRewardsVaultAddress'']"
| "required (RedeployDepositor V) = [''daoInitialSettings'', ''depositorParams'', ''depositorAddress'', ''app:lido'',
     ''app:node-operators-registry'']"
| "required (InitializeDepositor V) = [''depositorAddress'', ''depositorPreviousAddress'']"
| "required (StartProtocol V) = [''daoAddress'', ''app:aragon-voting'', ''app:aragon-token-manager'', ''app:lido'']"
| "required (UpgradeApp V app) = [''lidoApmEnsName'', ''ensAddress'', ''daoAddress'', ''app:aragon-voting'',
     ''app:aragon-token-manager'', appKey (ve_APP V), appKey app]"
| "required (VerifyVoteTx V TX) = [''ensAddress'', ''multisigAddress'', ''lidoBaseDeployTx'', ''oracleBaseDeployTx'',
     ''nodeOperatorsRegistryBaseDeployTx'', ''app:aragon-voting'']"
| "required (VoteAndEnact V) = [''daoInitialSettings'', ''app:aragon-voting'', ''owner'']"

text \<open>Four scripts look at their argument before they read the state.\<close>

fun argument_ok :: "script \<Rightarrow> bool" where
  "argument_ok (DeployAppInstance V app) = (app \<in> set VALID_APP_NAMES)"
| "argument_ok (ObtainAppInstance app) = (app \<in> set VALID_APP_NAMES)"
| "argument_ok (VoteNewImpl V app) = (app \<in> set VALID_APP_NAMES)"
| "argument_ok (UpgradeApp V app) = (app \<in> set VALID_APP_NAMES)"
| "argument_ok (VerifyVoteTx V TX) = not_nullish TX"
| "argument_ok _ = True"

lemma wrongApp_valid: "app \<in> set VALID_APP_NAMES \<Longrightarrow> wrongApp app = Inr ()"
  by (auto simp: wrongApp_def VALID_APP_NAMES_def all_apps_def)

lemma required_missing:
  assumes "state_of E w = Some st" and "missingState st ks \<noteq> []"
  shows "bindP (requireState E ks) f w = (Inl (Error (''missing following fields from the network state file, make sure you've run previous deployment steps: '' @
           join_with '', '' (missingState st ks))), after_read E w)"
  using requireState_missing [OF assms] by (rule bindP_Inl)

lemmas script_frames =
  deployTemplate_01_def obtainInstances_02_def registerEnsDomain_03_def publishAppFrontends_04_def deployAPM_05_def
  obtainDeployedAPM_06_def createAppRepos_07_def deployDAO_08_def obtainDeployedDAO_09_def issueTokens_10_def
  finalizeDAO_11_def checkDAO_12_def deployAppInstance_13_def obtainAppInstance_14_def voteNewImpl_15_def deployDepositor_16_def
  obtainDepositor_17_def addGuardians_18_def transferOwnership_19_def mitigateFrontRunning_20_def deployComposite_21_def
  obtainComposite_22_def deployBurner_23_def obtainBurner_24_def voteBurner_25_def deployVault_26_def obtainVault_27_def
  voteELRewards_28_def deployDepositor_29_def initializeDepositor_30_def startProtocol_31_def upgradeApp_def verifyVoteTx_def
  voteAndEnact_def

lemma script_requires:
  assumes "argument_ok s"
  shows "\<exists>f. multisig_script s E w = bindP (requireState E (required s)) f w"
  using assms
  by (cases s)
    (simp_all only: multisig_script.simps required.simps argument_ok.simps script_frames Let_def wrongApp_valid
      bindP_liftP assertR_def if_True sum.case APP_NAMES.simps appKey_def append.simps, (rule exI, rule refl)+)

section \<open>Properties\<close>

text \<open>
  C14: a script run too early stops at once: when one of the fields it needs is missing or empty in the
  state file, it fails with the list of them and has saved, written and sent nothing.
\<close>

theorem early_script_stops:
  assumes "argument_ok s" and "state_of E w = Some st" and "missingState st (required s) \<noteq> []"
  shows "multisig_script s E w =
    (Inl (Error (''missing following fields from the network state file, make sure you've run previous deployment steps: '' @
       join_with '', '' (missingState st (required s)))), after_read E w)"
proof -
  from assms(1) obtain f where "multisig_script s E w = bindP (requireState E (required s)) f w"
    using script_requires by blast
  then show ?thesis using required_missing [OF assms(2,3), of f] by simp
qed

theorem early_script_stops_witness:
  "\<exists>e. multisig_script IssueTokens deployer_env initial_world = (Inl e, initial_world)"
proof -
  let ?st = "(''networkId'', JInt 1337) # map (\<lambda>k. (k, JStr ''0x1'')) REQUIRED_01"
  have fn: "state_file deployer_env = ''./deployed-dev.json''"
    by (simp add: state_file_def getFileName_def deployer_env_def offline_env_def)
  have nid: "network_id deployer_env = 1337" by (simp add: deployer_env_def offline_env_def)
  have st: "state_of deployer_env initial_world = Some ?st"
    by (simp add: state_of_def fn nid initial_world_def strict_eq_def)
  have "missingState ?st (required IssueTokens) \<noteq> []" by code_simp
  from early_script_stops [OF _ st this] have "\<exists>e. multisig_script IssueTokens deployer_env initial_world =
      (Inl e, after_read deployer_env initial_world)" by simp
  moreover have "after_read deployer_env initial_world = initial_world"
    by (rule after_read_id) (simp add: fn initial_world_def)
  ultimately show ?thesis by simp
qed

end
