(* ===== verification/DeployDao.thy ===== *)
theory DeployDao
  imports DeployEnv MultisigDao
begin

text \<open>
  scripts/deploy-lido-dao.js, which creates the DAO from its template in one run, and
  scripts/deploy-repo-permissions.js, which hands the permissions over the package registries to
  the voting app.
\<close>

section \<open>deploy-lido-dao.js: settings and apps\<close>

definition DEFAULT_DAO_SETTINGS :: props where
  "DEFAULT_DAO_SETTINGS =
     [(''holders'', JArr []),
      (''stakes'', JArr (replicate 3 (JStr ''100000000000000000000''))),
      (''tokenName'', JStr ''Lido DAO Token''), (''tokenSymbol'', JStr ''LDO''),
      (''voting'', JObj [(''minSupportRequired'', JStr ''500000000000000000''),
         (''minAcceptanceQuorum'', JStr ''50000000000000000''), (''voteDuration'', JInt 180)]),
      (''beaconSpec'', JObj [(''epochsPerFrame'', JInt 225), (''slotsPerEpoch'', JInt 32),
         (''secondsPerSlot'', JInt 12), (''genesisTime'', JInt 1606824000)]),
      (''fee'', JObj [(''totalPercent'', JInt 10), (''treasuryPercent'', JInt 0), (''insurancePercent'', JInt 50),
         (''nodeOperatorsPercent'', JInt 50)])]"

definition REQUIRED_LIDO_DAO :: "string list" where
  "REQUIRED_LIDO_DAO = [''owner'', ''ensAddress'', ''aragonIDEnsNodeName'', ''lidoEnsNodeName'', ''lidoApmAddress'',
     ''daoTemplateNode'', ''vestingParams'', ''daoInitialSettings'']"

definition isPublicNet :: "env \<Rightarrow> bool" where
  "isPublicNet E \<longleftrightarrow> network_id E \<le> 1000"

definition chooseSettings :: "env \<Rightarrow> string \<Rightarrow> props \<Rightarrow> props \<Rightarrow> props res" where
  "chooseSettings E networkStateFile defaultDaoSettings state =
     (let given = obj_get state ''daoInitialSettings''
      in if truthy given
         then Inr (obj_set ''daoInitialSettings'' (JObj (obj_assign defaultDaoSettings (own_props given))) state)
         else if isPublicNet E
         then Inl (Error (''please specify initial DAO settings in state file '' @ networkStateFile))
         else bindR (get_accounts E) (\<lambda>_. Inr (obj_set ''daoInitialSettings'' (JObj defaultDaoSettings) state)))"

text \<open>\<open>state.depositContractAddress || state.daoInitialSettings.beaconSpec.depositContractAddress\<close>\<close>

definition depositAddress :: "props \<Rightarrow> jsval res" where
  "depositAddress state =
     (if truthy (obj_get state ''depositContractAddress'') then Inr (obj_get state ''depositContractAddress'')
      else bindR (getp (obj_get state ''daoInitialSettings'') ''beaconSpec'') (\<lambda>spec. getp spec ''depositContractAddress''))"

text \<open>
  The apps of the state, each under the key made from its own name.  The entry that might already be
  there is looked up under the bare name.
\<close>

fun collectApps :: "props \<Rightarrow> props \<Rightarrow> props res" where
  "collectApps [] apps = Inr apps"
| "collectApps ((key, app) # state) apps =
     (if contains ''app:'' key
      then bindR (getp app ''name'') (\<lambda>name.
           let get = obj_get (own_props app); old = obj_get apps (to_str name)
           in collectApps state (obj_set (appKey (to_str name))
                (if truthy old then old
                 else JObj [(''name'', name), (''fullName'', get ''fullName''), (''id'', get ''id'')]) apps))
      else collectApps state apps)"

fun resolveImpls :: "env \<Rightarrow> string \<Rightarrow> props \<Rightarrow> props \<Rightarrow> props res" where
  "resolveImpls E ens [] apps = Inr apps"
| "resolveImpls E ens ((key, app) # entries) apps =
     (let get = obj_get (own_props app); name = to_str (get ''name'')
      in bindR (str_of (get ''id'')) (\<lambda>node.
         bindR (resolveLatestVersion E node ens) (\<lambda>latest.
         if \<not> truthy latest
         then Inl (Error (''failed to resolve an impl for app '' @ [CHR 0x27] @ name @ [CHR 0x27] @ '' ('' @
                to_str (get ''fullName'') @ '')''))
         else (let entry = obj_get apps (appKey name)
               in bindR (getp entry ''baseAddress'') (\<lambda>base.
                  bindR (if truthy base then Inr entry
                         else bindR (getp latest ''contractAddress'') (set_prop entry ''baseAddress'')) (\<lambda>entry'.
                  resolveImpls E ens entries (obj_set (appKey name) entry' apps)))))))"

section \<open>deploy-lido-dao.js: the DAO\<close>

definition entryById :: "string \<times> jsval \<Rightarrow> string \<times> jsval" where
  "entryById kv = (let app = own_props (snd kv) in (to_str (obj_get app ''id''), obj_get app ''name''))"

definition getAppProxies :: "jsval list \<Rightarrow> props \<Rightarrow> props" where
  "getAppProxies installedApps knownApps =
     (let nameById = map_of (obj_assign [] (map entryById knownApps))
      in fold (\<lambda>app proxies.
             let appId = to_str (obj_get (own_props app) ''appId''); proxy = obj_get (own_props app) ''appProxy''
             in case nameById appId of
                  Some name \<Rightarrow> obj_set (appKey (to_str name)) proxy proxies
                | None \<Rightarrow> obj_set appId proxy proxies) installedApps [])"

definition noteProxy :: "string \<times> jsval \<Rightarrow> props \<Rightarrow> props" where
  "noteProxy kp knownApps =
     (case obj_get knownApps (fst kp) of
        JObj ps \<Rightarrow> obj_set (fst kp) (JObj (obj_set ''proxyAddress'' (snd kp) ps)) knownApps
      | _ \<Rightarrow> knownApps)"

text \<open>The batches of \<open>issueTokens\<close>: one transaction each, with the running total.\<close>

fun sendBatches ::
  "env \<Rightarrow> string \<Rightarrow> jsval \<Rightarrow> jsval list \<Rightarrow> jsval list \<Rightarrow> jsval list \<Rightarrow> nat \<Rightarrow> nat \<Rightarrow> nat \<Rightarrow> int \<Rightarrow> unit prog" where
  "sendBatches E template owner vest holders amounts k 0 i endTotalSupply w = (Inr (), w)"
| "sendBatches E template owner vest holders amounts k (Suc n) i endTotalSupply w =
     (let startIndex = i * k;
          iHolders = take k (drop startIndex holders);
          iAmounts = take k (drop startIndex amounts)
      in bindP (liftP (bigSum E iAmounts 0)) (\<lambda>s.
         bindP (sendTx E template ''issueTokens''
                  ([JArr iHolders, JArr iAmounts] @ vest @ [JStr (''0x'' @ to_hex E (endTotalSupply + s))])
                  [(''from'', owner)]) (\<lambda>_.
         sendBatches E template owner vest holders amounts k n (Suc i) (endTotalSupply + s))) w)"

definition issueTokens :: "env \<Rightarrow> jsval \<Rightarrow> string \<Rightarrow> jsval \<Rightarrow> unit prog" where
  "issueTokens E owner template vestingParams =
     bindP (prop_of vestingParams ''holders'') (\<lambda>holdersObj.
     bindP (liftP (if not_nullish holdersObj then Inr (own_props holdersObj) else Inl TypeError)) (\<lambda>pairs.
     bindP (prop_of vestingParams ''unvestedTokensAmount'') (\<lambda>unvested.
     bindP (liftP (bindR (bn_new E unvested) (bigSum E (map snd pairs)))) (\<lambda>totalSupply.
     bindP (liftP (if totalSupply = 0 \<and> pairs \<noteq> [] then Inl (External ''division by zero'') else Inr ())) (\<lambda>_.
     bindP (liftP (vestingTail vestingParams)) (\<lambda>vest.
     sendBatches E template owner vest (map (\<lambda>p. JStr (fst p)) pairs) (map snd pairs)
       (min MAX_HOLDERS_IN_ONE_TX (length pairs)) (batchCount (length pairs)) 0 0))))))"

record dao_step =
  ds_owner :: jsval
  ds_ens :: string
  ds_daoTemplateNode :: jsval
  ds_depositContractAddress :: jsval
  ds_daoAragonId :: jsval
  ds_settings :: jsval
  ds_daoAddress :: jsval
  ds_vestingParams :: jsval
  ds_knownApps :: props

definition newDaoArgs :: "dao_step \<Rightarrow> jsval list res" where
  "newDaoArgs d =
     bindR (getp (ds_settings d) ''voting'') (\<lambda>voting.
     bindR (propsOf voting [''minSupportRequired'', ''minAcceptanceQuorum'', ''voteDuration'']) (\<lambda>votingSettings.
     bindR (getp (ds_settings d) ''beaconSpec'') (\<lambda>spec.
     bindR (propsOf spec [''epochsPerFrame'', ''slotsPerEpoch'', ''secondsPerSlot'', ''genesisTime'']) (\<lambda>beaconSpec.
     bindR (getp (ds_settings d) ''fee'') (\<lambda>fee.
     bindR (propsOf fee [''totalPercent'', ''treasuryPercent'', ''insurancePercent'', ''nodeOperatorsPercent'']) (\<lambda>feeSettings.
     bindR (getp (ds_settings d) ''token'') (\<lambda>token.
     bindR (propsOf token [''name'', ''symbol'']) (\<lambda>tokenArgs.
     Inr ([ds_daoAragonId d] @ tokenArgs @
          [JArr votingSettings, ds_depositContractAddress d, JArr beaconSpec, JArr feeSettings])))))))))"

text \<open>
  The result: the fields for the network state and the known apps with their proxies.  The app
  objects are shared with the state, so the proxies appear there too.
\<close>

definition deployDAO :: "env \<Rightarrow> dao_step \<Rightarrow> (props \<times> props) prog" where
  "deployDAO E d =
     (if truthy (ds_daoAddress d)
      then bindP (at_addr E ''Kernel'' (ds_daoAddress d)) (\<lambda>dao.
           returnP ([(''dao'', instanceVal dao)], ds_knownApps d))
      else bindP (liftP (str_of (ds_daoTemplateNode d))) (\<lambda>node.
           bindP (liftP (resolveLatestVersion E node (ds_ens d))) (\<lambda>latest.
           if \<not> truthy latest then throwP (Error ''DAO template is not published to APM'')
           else bindP (prop_of latest ''contractAddress'') (\<lambda>templateAddress.
                bindP (at_addr E ''LidoTemplate'' templateAddress) (\<lambda>template.
                bindP (liftP (newDaoArgs d)) (\<lambda>args.
                bindP (sendTx E template ''newDAO'' args [(''from'', ds_owner d)]) (\<lambda>result.
                bindP (liftP (logsOf result)) (\<lambda>ls.
                bindP (liftP (fstLogArg ''DeployDao'' ''dao'' ls)) (\<lambda>daoAddress.
                bindP (at_addr E ''Kernel'' daoAddress) (\<lambda>dao.
                bindP (liftP (fstLogArg ''DeployToken'' ''token'' ls)) (\<lambda>tokenAddress.
                bindP (at_addr E ''@aragon/os/contracts/lib/token/ERC20.sol:ERC20'' tokenAddress) (\<lambda>token.
                let installedApps = map (\<lambda>l. evt_field l ''args'') (logsNamed ''InstalledApp'' ls);
                    knownApps = fold noteProxy (getAppProxies installedApps (ds_knownApps d)) (ds_knownApps d)
                in bindP (issueTokens E (ds_owner d) template (ds_vestingParams d)) (\<lambda>_.
                   bindP (prop_of (ds_vestingParams d) ''unvestedTokensAmount'') (\<lambda>unvested.
                   bindP (sendTx E template ''finalizeDAO'' [unvested] [(''from'', ds_owner d)]) (\<lambda>_.
                   returnP ([(''dao'', instanceVal dao), (''token'', instanceVal token), (''knownApps'', JObj knownApps)],
                            knownApps))))))))))))))))"

definition lidoDaoSteps :: "env \<Rightarrow> string \<Rightarrow> props \<Rightarrow> unit prog" where
  "lidoDaoSteps E ens state0 =
     bindP (liftP (depositAddress state0)) (\<lambda>given.
     bindP (useOrDeployDepositContract E ''contracts/0.4.24/interfaces/IDepositContract.sol:IDepositContract''
              (obj_get state0 ''owner'') given) (\<lambda>depositContract.
     bindP (saveResults E state0 [(''depositContract'', instanceOf depositContract)]) (\<lambda>state1.
     bindP (liftP (bindR (collectApps state1 []) (\<lambda>apps. resolveImpls E ens apps apps))) (\<lambda>apps.
     bindP (saveResults E state1 apps) (\<lambda>state2.
     bindP (liftP (depositAddress state2)) (\<lambda>deposit.
     bindP (deployDAO E \<lparr>ds_owner = obj_get state2 ''owner'', ds_ens = ens, ds_daoTemplateNode = obj_get state2 ''daoTemplateNode'',
              ds_depositContractAddress = deposit, ds_daoAragonId = obj_get state2 ''daoAragonId'',
              ds_settings = obj_get state2 ''daoInitialSettings'', ds_daoAddress = obj_get state2 ''daoAddress'',
              ds_vestingParams = obj_get state2 ''vestingParams'', ds_knownApps = apps\<rparr>) (\<lambda>(results, knownApps).
     bindP (saveResults E (obj_assign state2 knownApps) results) (\<lambda>_. returnP ()))))))))"

definition deployDao :: "env \<Rightarrow> string list \<Rightarrow> string \<Rightarrow> string \<Rightarrow> props \<Rightarrow> unit prog" where
  "deployDao E LIDO_APP_NAMES networkStateFile defaultDaoAragonId defaultDaoSettings =
     bindP (requireFields E REQUIRED_LIDO_DAO) (\<lambda>read.
     let missingApps = filter (\<lambda>name. \<not> truthy (obj_get read (appKey name))) LIDO_APP_NAMES
     in if missingApps \<noteq> []
        then throwP (Error (''missing following apps from network state file, make sure you've deployed them: '' @
               join_with '', '' missingApps))
        else bindP (at_addr E ''ENS'' (obj_get read ''ensAddress'')) (\<lambda>ens.
             bindP (liftP (chooseSettings E networkStateFile defaultDaoSettings
                      (defaultTo ''daoAragonId'' defaultDaoAragonId read))) (\<lambda>state0.
             bindP (liftP (depositAddress state0)) (\<lambda>given.
             if \<not> truthy given \<and> isPublicNet E
             then throwP (Error (''please specify deposit contract address in state file '' @ networkStateFile))
             else lidoDaoSteps E ens state0))))"

section \<open>deploy-repo-permissions.js\<close>

definition REQUIRED_REPO_PERMISSIONS :: "string list" where
  "REQUIRED_REPO_PERMISSIONS = [''owner'', ''ensAddress'', ''lidoEnsNodeName'', ''aragonEnsNodeName'', ''app:voiting'']"

definition CREATE_VERSION_ROLE :: string where
  "CREATE_VERSION_ROLE = ''0x1f56cfecd3595a2e6cc1a7e6cb0b20df84cdbd92eff2fee554e70e4e45a9a7d8''"

definition CREATE_REPO_ROLE :: string where
  "CREATE_REPO_ROLE = ''0x2a9494d64846c9fdbf0158785aa330d8bc9caf45af27fa0e8898eb4d55adcea6''"

definition APP_MANAGER_ROLE :: string where
  "APP_MANAGER_ROLE = ''0xb6d92708f3d4817afc106147d969e229ced5c46e65e0a5002a0d391287762bd0''"

definition CREATE_PERMISSIONS_ROLE :: string where
  "CREATE_PERMISSIONS_ROLE = ''0x0b719b33c83b8e5d300c521cb8b54ae9bd933996a14bef8c2f4e0285d2d2400a''"

definition CREATE_NAME_ROLE :: string where
  "CREATE_NAME_ROLE = ''0xf86bc2abe0919ab91ef714b2bec7c148d94f61fdb069b91a6cfe9ecdee1799ba''"

definition DELETE_NAME_ROLE :: string where
  "DELETE_NAME_ROLE = ''0x03d74c8724218ad4a99859bcb2d846d39999449fd18013dd8d69096627e68622''"

definition POINT_ROOTNODE_ROLE :: string where
  "POINT_ROOTNODE_ROLE = ''0x9ecd0e7bddb2e241c41b595a436c4ea4fd33c9fa0caa8056acf084fc3aa3bfbe''"

definition transferPerm :: "env \<Rightarrow> string \<Rightarrow> jsval \<Rightarrow> string \<Rightarrow> jsval \<Rightarrow> jsval \<Rightarrow> unit prog" where
  "transferPerm E acl app perm owner receiver =
     bindP (sendTx E acl ''grantPermission'' [receiver, app, JStr perm] [(''from'', owner)]) (\<lambda>_.
     bindP (sendTx E acl ''revokePermission'' [owner, app, JStr perm] [(''from'', owner)]) (\<lambda>_.
     bindP (sendTx E acl ''setPermissionManager'' [receiver, app, JStr perm] [(''from'', owner)]) (\<lambda>_. returnP ())))"

definition setManager :: "env \<Rightarrow> string \<Rightarrow> jsval \<Rightarrow> string \<Rightarrow> jsval \<Rightarrow> unit prog" where
  "setManager E acl app perm receiver =
     bindP (sendTx E acl ''setPermissionManager'' [receiver, app, JStr perm] []) (\<lambda>_. returnP ())"

text \<open>\<open>if ((await acl.getPermissionManager(app, role)) === owner) { ... }\<close>\<close>

definition ifManager :: "env \<Rightarrow> string \<Rightarrow> jsval \<Rightarrow> jsval \<Rightarrow> string \<Rightarrow> unit prog \<Rightarrow> unit prog" where
  "ifManager E acl owner app role act =
     bindP (view E acl ''getPermissionManager'' [app, JStr role]) (\<lambda>manager.
     if strict_eq manager owner then act else returnP ())"

definition transferRepo :: "env \<Rightarrow> string \<Rightarrow> string \<Rightarrow> jsval \<Rightarrow> jsval \<Rightarrow> string \<Rightarrow> string \<Rightarrow> unit prog" where
  "transferRepo E resolver acl owner votingAddress ensNodeName app =
     bindP (view E resolver ''addr'' [JStr (name_hash E (app @ ''.'' @ ensNodeName))]) (\<lambda>repoAddress.
     ifManager E acl owner repoAddress CREATE_VERSION_ROLE (transferPerm E acl repoAddress CREATE_VERSION_ROLE owner votingAddress))"

definition setPermissions :: "env \<Rightarrow> jsval \<Rightarrow> string \<Rightarrow> string \<Rightarrow> jsval \<Rightarrow> string list \<Rightarrow> unit prog" where
  "setPermissions E owner ens ensNodeName votingAddress apps =
     (let apmId = JStr (name_hash E ensNodeName)
      in bindP (view E ens ''resolver'' [apmId]) (\<lambda>resolverAddress.
         bindP (at_addr E ''PublicResolver'' resolverAddress) (\<lambda>resolver.
         bindP (view E resolver ''addr'' [apmId]) (\<lambda>apmAddress.
         bindP (at_addr E ''APMRegistry'' apmAddress) (\<lambda>apm.
         bindP (view E apm ''registrar'' []) (\<lambda>registrarAddress.
         bindP (view E apm ''kernel'' []) (\<lambda>kernelAddress.
         bindP (at_addr E ''Kernel'' kernelAddress) (\<lambda>dao.
         bindP (view E dao ''acl'' []) (\<lambda>aclAddress.
         bindP (at_addr E ''ACL'' aclAddress) (\<lambda>acl.
         bindP (ifManager E acl owner apmAddress CREATE_REPO_ROLE (transferPerm E acl apmAddress CREATE_REPO_ROLE owner votingAddress)) (\<lambda>_.
         bindP (ifManager E acl owner kernelAddress APP_MANAGER_ROLE (setManager E acl kernelAddress APP_MANAGER_ROLE votingAddress)) (\<lambda>_.
         bindP (ifManager E acl owner aclAddress CREATE_PERMISSIONS_ROLE
                  (transferPerm E acl aclAddress CREATE_PERMISSIONS_ROLE owner votingAddress)) (\<lambda>_.
         bindP (ifManager E acl owner registrarAddress CREATE_NAME_ROLE (setManager E acl registrarAddress CREATE_NAME_ROLE votingAddress)) (\<lambda>_.
         bindP (ifManager E acl owner registrarAddress DELETE_NAME_ROLE (setManager E acl registrarAddress DELETE_NAME_ROLE votingAddress)) (\<lambda>_.
         bindP (ifManager E acl owner registrarAddress POINT_ROOTNODE_ROLE
                  (setManager E acl registrarAddress POINT_ROOTNODE_ROLE votingAddress)) (\<lambda>_.
         forP (transferRepo E resolver acl owner votingAddress ensNodeName)
           ([''apm-registry'', ''apm-repo'', ''apm-enssub''] @ apps)))))))))))))))))"

definition repoPermissions :: "env \<Rightarrow> unit prog" where
  "repoPermissions E =
     bindP (requireFields E REQUIRED_REPO_PERMISSIONS) (\<lambda>state.
     bindP (at_addr E ''ENS'' (obj_get state ''ensAddress'')) (\<lambda>ens.
     bindP (prop_of (obj_get state ''app:voting'') ''proxyAddress'') (\<lambda>votingAddress.
     bindP (setPermissions E (obj_get state ''owner'') ens (to_str (obj_get state ''lidoEnsNodeName'')) votingAddress
              [''lido'', ''oracle'', ''node-operators-registry'']) (\<lambda>_.
     setPermissions E (obj_get state ''owner'') ens (to_str (obj_get state ''aragonEnsNodeName'')) votingAddress
       [''agent'', ''finance'', ''token-manager'', ''vault'', ''voting'']))))"

section \<open>The transactions of the token issuance\<close>

definition batchSent ::
  "env \<Rightarrow> string \<Rightarrow> jsval \<Rightarrow> jsval list \<Rightarrow> jsval list \<Rightarrow> jsval list \<Rightarrow> nat \<Rightarrow> nat \<Rightarrow> sent_tx \<Rightarrow> bool" where
  "batchSent E template owner vest holders amounts k i tx \<longleftrightarrow>
     (\<exists>supply. bigSum E (take ((i + 1) * k) amounts) 0 = Inr supply \<and>
        tx = \<lparr>tx_to = template, tx_method = ''issueTokens'',
              tx_args = [JArr (take k (drop (i * k) holders)), JArr (take k (drop (i * k) amounts))] @ vest @
                        [JStr (''0x'' @ to_hex E supply)],
              tx_opts = [(''from'', owner)]\<rparr>)"

lemma sendTx_eq [prog_ok]:
  "sendTx E a m args opts w = (Inr r, w') \<longleftrightarrow>
     send_tx E a m args opts = Inr r \<and>
     w' = w\<lparr>sent := sent w @ [\<lparr>tx_to = a, tx_method = m, tx_args = args, tx_opts = opts\<rparr>]\<rparr>"
  by (auto simp: sendTx_def split: sum.splits)

lemma next_supply:
  assumes "bigSum E (take (i * k) amounts) 0 = Inr acc" and "bigSum E (take k (drop (i * k) amounts)) 0 = Inr s"
  shows "bigSum E (take (Suc i * k) amounts) 0 = Inr (acc + s)"
proof -
  have "Suc i * k = i * k + k" by simp
  then have "take (Suc i * k) amounts = take (i * k) amounts @ take k (drop (i * k) amounts)" by (simp only: take_add)
  moreover have "bigSum E (take k (drop (i * k) amounts)) acc = Inr (acc + s)"
    using bigSum_acc [of E "take k (drop (i * k) amounts)" 0 acc] assms(2) by (simp add: ac_simps)
  ultimately show ?thesis using assms(1) by (simp add: bigSum_append)
qed

lemma sendBatches_sent:
  assumes "sendBatches E template owner vest holders amounts k n i acc w = (Inr (), w')"
    and "bigSum E (take (i * k) amounts) 0 = Inr acc"
  shows "\<exists>txs. sent w' = sent w @ txs \<and>
    list_all2 (batchSent E template owner vest holders amounts k) [i..<i + n] txs \<and> net_files w' = net_files w"
  using assms
proof (induction n arbitrary: i acc w)
  case 0
  then show ?case by (intro exI [of _ "[]"]) simp
next
  case (Suc n)
  let ?args = "\<lambda>supply. [JArr (take k (drop (i * k) holders)), JArr (take k (drop (i * k) amounts))] @ vest @
    [JStr (''0x'' @ to_hex E supply)]"
  from Suc.prems(1) obtain s w1 where s: "bigSum E (take k (drop (i * k) amounts)) 0 = Inr s"
    and w1: "w1 = w\<lparr>sent := sent w @ [\<lparr>tx_to = template, tx_method = ''issueTokens'', tx_args = ?args (acc + s),
        tx_opts = [(''from'', owner)]\<rparr>]\<rparr>"
    and r: "sendBatches E template owner vest holders amounts k n (Suc i) (acc + s) w1 = (Inr (), w')"
    unfolding sendBatches.simps Let_def prog_ok by auto
  note t = next_supply [OF Suc.prems(2) s]
  from Suc.IH [OF r t] obtain txs where "sent w' = sent w1 @ txs"
    "list_all2 (batchSent E template owner vest holders amounts k) [Suc i..<Suc i + n] txs" "net_files w' = net_files w1"
    by auto
  moreover have "[i..<i + Suc n] = i # [Suc i..<Suc i + n]" by (simp add: upt_rec)
  moreover have "batchSent E template owner vest holders amounts k i
      \<lparr>tx_to = template, tx_method = ''issueTokens'', tx_args = ?args (acc + s), tx_opts = [(''from'', owner)]\<rparr>"
    using t by (simp add: batchSent_def)
  ultimately show ?case
    by (intro exI [of _ "\<lparr>tx_to = template, tx_method = ''issueTokens'', tx_args = ?args (acc + s), tx_opts = [(''from'', owner)]\<rparr> # txs"])
      (simp add: w1)
qed

text \<open>What a successful issuance has sent.\<close>

definition issued :: "env \<Rightarrow> jsval \<Rightarrow> string \<Rightarrow> jsval \<Rightarrow> sent_tx list \<Rightarrow> bool" where
  "issued E owner template vestingParams txs \<longleftrightarrow>
     (\<exists>holdersObj vest. getp vestingParams ''holders'' = Inr holdersObj \<and> vestingTail vestingParams = Inr vest \<and>
        (let pairs = own_props holdersObj; k = min MAX_HOLDERS_IN_ONE_TX (length pairs); m = batchCount (length pairs);
             holders = map (\<lambda>p. JStr (fst p)) pairs; amounts = map snd pairs
         in list_all2 (batchSent E template owner vest holders amounts k) [0..<m] txs \<and>
            concat (map (\<lambda>i. take k (drop (i * k) holders)) [0..<m]) = holders \<and>
            concat (map (\<lambda>i. take k (drop (i * k) amounts)) [0..<m]) = amounts))"

lemma issueTokens_sent:
  assumes "issueTokens E owner template vestingParams w = (Inr (), w')"
  shows "\<exists>txs. sent w' = sent w @ txs \<and> issued E owner template vestingParams txs \<and> net_files w' = net_files w"
proof -
  from assms obtain holdersObj vest pairs where h: "getp vestingParams ''holders'' = Inr holdersObj"
    "pairs = own_props holdersObj" "vestingTail vestingParams = Inr vest"
    and l: "sendBatches E template owner vest (map (\<lambda>p. JStr (fst p)) pairs) (map snd pairs)
       (min MAX_HOLDERS_IN_ONE_TX (length pairs)) (batchCount (length pairs)) 0 0 w = (Inr (), w')"
    unfolding issueTokens_def prog_ok by (auto split: if_splits)
  define k m where "k = min MAX_HOLDERS_IN_ONE_TX (length pairs)" and "m = batchCount (length pairs)"
  have le: "length pairs \<le> m * k" using batchCount_enough [OF k_def] by (simp add: m_def)
  then have all: "take (m * k) (map f pairs) = map f pairs" for f :: "string \<times> jsval \<Rightarrow> jsval" by simp
  from sendBatches_sent [OF l] obtain txs where "sent w' = sent w @ txs" "net_files w' = net_files w"
    "list_all2 (batchSent E template owner vest (map (\<lambda>p. JStr (fst p)) pairs) (map snd pairs) k) [0..<m] txs"
    by (auto simp: k_def m_def)
  then show ?thesis
    using h(1,3) by (intro exI [of _ txs]) (simp add: issued_def Let_def batches_cover all le flip: h(2) k_def m_def)
qed

section \<open>Properties\<close>

text \<open>
  C18: creating the DAO in one run sends exactly one creation, the token batches and one
  finalisation, in this order and all from the owner: the batches are the holders of the vesting
  settings in order with their amounts, each claims the sum of the amounts so far as end supply, and
  the finalisation gets the unvested amount.
\<close>

theorem lido_dao_transactions:
  assumes "deployDAO E d w = (Inr r, w')" and "\<not> truthy (ds_daoAddress d)"
  shows "\<exists>template args txs unvested. newDaoArgs d = Inr args \<and>
    sent w' = sent w @ [\<lparr>tx_to = template, tx_method = ''newDAO'', tx_args = args, tx_opts = [(''from'', ds_owner d)]\<rparr>] @ txs @
      [\<lparr>tx_to = template, tx_method = ''finalizeDAO'', tx_args = [unvested], tx_opts = [(''from'', ds_owner d)]\<rparr>] \<and>
    issued E (ds_owner d) template (ds_vestingParams d) txs \<and>
    getp (ds_vestingParams d) ''unvestedTokensAmount'' = Inr unvested"
proof -
  from assms obtain template args unvested w1 w2 where a: "newDaoArgs d = Inr args"
    and w1: "w1 = w\<lparr>sent := sent w @ [\<lparr>tx_to = template, tx_method = ''newDAO'', tx_args = args, tx_opts = [(''from'', ds_owner d)]\<rparr>]\<rparr>"
    and i: "issueTokens E (ds_owner d) template (ds_vestingParams d) w1 = (Inr (), w2)"
    and u: "getp (ds_vestingParams d) ''unvestedTokensAmount'' = Inr unvested"
    and w': "w' = w2\<lparr>sent := sent w2 @ [\<lparr>tx_to = template, tx_method = ''finalizeDAO'', tx_args = [unvested], tx_opts = [(''from'', ds_owner d)]\<rparr>]\<rparr>"
    unfolding deployDAO_def Let_def by (auto simp: prog_ok split: if_splits)
  from issueTokens_sent [OF i] obtain txs where "sent w2 = sent w1 @ txs" "issued E (ds_owner d) template (ds_vestingParams d) txs"
    by blast
  with a u show ?thesis
    by (intro exI [of _ template] exI [of _ args] exI [of _ txs] exI [of _ unvested]) (simp add: w' w1)
qed

definition dao_net :: env where
  "dao_net = devnet\<lparr>send_tx := (\<lambda>_ _ _ _. Inr (JObj [(''logs'', JArr
     [JObj [(''event'', JStr ''DeployToken''), (''args'', JObj [(''token'', JStr ''0xc'')])],
      JObj [(''event'', JStr ''DeployDao''), (''args'', JObj [(''dao'', JStr ''0xd'')])]])]))\<rparr>"

definition sample_dao_step :: dao_step where
  "sample_dao_step = \<lparr>ds_owner = JStr ''0xaa'', ds_ens = ''0xe'', ds_daoTemplateNode = JStr ''node'',
     ds_depositContractAddress = JStr ''0xdc'', ds_daoAragonId = JStr ''lido-dao'',
     ds_settings = JObj (obj_set ''token'' (JObj []) DEFAULT_DAO_SETTINGS), ds_daoAddress = JUndef,
     ds_vestingParams = JObj [(''holders'', JObj [(''0xa1'', JStr ''100'')]), (''unvestedTokensAmount'', JStr ''7'')],
     ds_knownApps = []\<rparr>"

lemma bindP_assoc: "bindP (bindP m g) f = bindP m (\<lambda>x. bindP (g x) f)"
  by (rule ext) (rule run_bindP(1))

lemma run_sendBatches:
  "bindP (sendBatches E t owner vest hs as k 0 i acc) f w = f () w"
  "bindP (sendBatches E t owner vest hs as k (Suc n) i acc) f w =
     bindP (liftP (bigSum E (take k (drop (i * k) as)) 0)) (\<lambda>s.
     bindP (sendTx E t ''issueTokens''
        ([JArr (take k (drop (i * k) hs)), JArr (take k (drop (i * k) as))] @ vest @ [JStr (''0x'' @ to_hex E (acc + s))])
        [(''from'', owner)]) (\<lambda>_.
     bindP (sendBatches E t owner vest hs as k n (Suc i) (acc + s)) f)) w"
proof -
  show "bindP (sendBatches E t owner vest hs as k 0 i acc) f w = f () w" by (simp add: bindP_def)
  have "sendBatches E t owner vest hs as k (Suc n) i acc =
     bindP (liftP (bigSum E (take k (drop (i * k) as)) 0)) (\<lambda>s.
     bindP (sendTx E t ''issueTokens''
        ([JArr (take k (drop (i * k) hs)), JArr (take k (drop (i * k) as))] @ vest @ [JStr (''0x'' @ to_hex E (acc + s))])
        [(''from'', owner)]) (\<lambda>_. sendBatches E t owner vest hs as k n (Suc i) (acc + s)))"
    by (simp add: fun_eq_iff Let_def)
  then show "bindP (sendBatches E t owner vest hs as k (Suc n) i acc) f w =
     bindP (liftP (bigSum E (take k (drop (i * k) as)) 0)) (\<lambda>s.
     bindP (sendTx E t ''issueTokens''
        ([JArr (take k (drop (i * k) hs)), JArr (take k (drop (i * k) as))] @ vest @ [JStr (''0x'' @ to_hex E (acc + s))])
        [(''from'', owner)]) (\<lambda>_.
     bindP (sendBatches E t owner vest hs as k n (Suc i) (acc + s)) f)) w"
    by (simp add: bindP_assoc)
qed

lemma sample_dao_run: "\<exists>r w'. deployDAO dao_net sample_dao_step empty_world = (Inr r, w')"
proof -
  have net: "contract_at dao_net n v = Inr (''@'' @ n)" "call_view dao_net a m args = Inr (JStr ''0xaa'')"
    "send_tx dao_net a m args opts = Inr (JObj [(''logs'', JArr
     [JObj [(''event'', JStr ''DeployToken''), (''args'', JObj [(''token'', JStr ''0xc'')])],
      JObj [(''event'', JStr ''DeployDao''), (''args'', JObj [(''dao'', JStr ''0xd'')])]])])" for n v a m args opts
    by (simp_all add: dao_net_def)
  have bn: "bn_new dao_net (JStr ''100'') = Inr 100" "bn_new dao_net (JStr ''7'') = Inr 7"
    by (simp_all add: dao_net_def devnet_def offline_env_def) code_simp+
  have b: "batchCount (Suc 0) = Suc 0" by (simp add: batchCount_def MAX_HOLDERS_IN_ONE_TX_def)
  show ?thesis
    by (simp cong: run_cong add: deployDAO_def sample_dao_step_def net bn b run_bindP run_send str_of_def resolveLatestVersion_def
        resolveEnsAddress_def isZeroAddress_def ZERO_ADDR_def prop_of_def at_addr_def newDaoArgs_def propsOf_def DEFAULT_DAO_SETTINGS_def
        logsOf_def fstLogArg_def logsNamed_def evt_field_def evt_arg_def Let_def issueTokens_def not_nullish_def vestingTail_def
        MAX_HOLDERS_IN_ONE_TX_def bindP_liftP returnP_apply getAppProxies_def obj_assign_def run_sendBatches)
qed

theorem lido_dao_transactions_witness:
  "\<exists>w'. snd (deployDAO dao_net sample_dao_step empty_world) = w' \<and> sent w' \<noteq> []"
proof -
  from sample_dao_run obtain r w' where r: "deployDAO dao_net sample_dao_step empty_world = (Inr r, w')" by blast
  have "\<not> truthy (ds_daoAddress sample_dao_step)" by (simp add: sample_dao_step_def)
  from lido_dao_transactions [OF r this] r show ?thesis by auto
qed

text \<open>What the one-run script sends and what the multisig script saves, batch by batch.\<close>

lemma batch_corresponds:
  assumes "batchSent E template owner vest holders amounts k i tx" and "batchTx E template owner vest holders amounts k i file"
  shows "tx_to tx = template \<and> (\<exists>txd. getCallTxData E template (tx_method tx) (tx_args tx) (i = 0) (tx_opts tx) = Inr txd \<and>
      file = JObj (json_props (bn_json E) txd))"
  using assms by (auto simp: batchSent_def batchTx_def)

lemma issueTokens_10_loop:
  assumes "issueTokens_10 E w = (Inr (), w1)" and "state_of E w = Some st"
    and "contract_at E ''LidoTemplate'' (obj_get st ''daoTemplateAddress'') = Inr template"
  obtains holdersObj vest where "getp (obj_get st ''vestingParams'') ''holders'' = Inr holdersObj"
    and "vestingTail (obj_get st ''vestingParams'') = Inr vest"
    and "issueLoop E template (obj_get st ''multisigAddress'') vest (map (\<lambda>p. JStr (fst p)) (own_props holdersObj))
       (map snd (own_props holdersObj)) (min MAX_HOLDERS_IN_ONE_TX (length (own_props holdersObj)))
       (batchCount (length (own_props holdersObj))) 0 0 (after_read E w) = (Inr (), w1)"
  using assms unfolding issueTokens_10_def Let_def prog_ok by (auto split: if_splits)

text \<open>
  C7: the one-run deployment issues tokens exactly as the multisig deployment does: whenever both
  succeed on the same vesting settings, template and sender, there are as many transactions sent as
  files saved, and the i-th file holds the transaction data of the i-th transaction sent, made from
  the same template, method, arguments and sender (the multisig script estimates the gas of the
  first one only).
\<close>

theorem issuance_matches_multisig:
  assumes "issueTokens_10 E w = (Inr (), w1)" and "state_of E w = Some st"
    and "contract_at E ''LidoTemplate'' (obj_get st ''daoTemplateAddress'') = Inr template"
    and "issueTokens E (obj_get st ''multisigAddress'') template (obj_get st ''vestingParams'') w2 = (Inr (), w3)"
  shows "\<exists>txs files. sent w3 = sent w2 @ txs \<and> length files = length txs \<and>
    tx_files w1 = tx_files w @ zip (map batchFile [0..<length txs]) files \<and>
    (\<forall>i < length txs. tx_to (txs ! i) = template \<and>
       (\<exists>txd. getCallTxData E template (tx_method (txs ! i)) (tx_args (txs ! i)) (i = 0) (tx_opts (txs ! i)) = Inr txd \<and>
          files ! i = JObj (json_props (bn_json E) txd)))"
proof -
  let ?vp = "obj_get st ''vestingParams''" and ?from = "obj_get st ''multisigAddress''"
  obtain hs vest where h: "getp ?vp ''holders'' = Inr hs" and v: "vestingTail ?vp = Inr vest"
    and l: "issueLoop E template ?from vest (map (\<lambda>p. JStr (fst p)) (own_props hs)) (map snd (own_props hs))
       (min MAX_HOLDERS_IN_ONE_TX (length (own_props hs))) (batchCount (length (own_props hs))) 0 0 (after_read E w) = (Inr (), w1)"
    by (rule issueTokens_10_loop [OF assms(1-3)])
  define k m where "k = min MAX_HOLDERS_IN_ONE_TX (length (own_props hs))" and "m = batchCount (length (own_props hs))"
  from issueLoop_files [OF l] obtain files where f: "tx_files w1 = tx_files w @ zip (map batchFile [0..<m]) files"
    "list_all2 (batchTx E template ?from vest (map (\<lambda>p. JStr (fst p)) (own_props hs)) (map snd (own_props hs)) k) [0..<m] files"
    by (auto simp: k_def m_def)
  from issueTokens_sent [OF assms(4)] obtain txs where t: "sent w3 = sent w2 @ txs"
    and "issued E ?from template ?vp txs" by blast
  then have "list_all2 (batchSent E template ?from vest (map (\<lambda>p. JStr (fst p)) (own_props hs)) (map snd (own_props hs)) k) [0..<m] txs"
    using h v by (auto simp: issued_def Let_def k_def m_def)
  with f t show ?thesis
    by (intro exI [of _ txs] exI [of _ files]) (auto simp: list_all2_conv_all_nth dest!: batch_corresponds)
qed

theorem issuance_matches_multisig_witness:
  "\<exists>w1 w3. issueTokens_10 issue_env issue_world = (Inr (), w1) \<and> length (tx_files w1) = length (sent w3) \<and>
     issueTokens issue_env (JStr ''0xf'') ''0xe'' (obj_get issue_state ''vestingParams'') issue_world = (Inr (), w3)"
proof -
  obtain w1 where w1: "issueTokens_10 issue_env issue_world = (Inr (), w1)" using issue_run by blast
  have t: "contract_at issue_env ''LidoTemplate'' (obj_get issue_state ''daoTemplateAddress'') = Inr ''0xe''"
    by (simp add: issue_env_def issue_state_def)
  have m: "obj_get issue_state ''multisigAddress'' = JStr ''0xf''" by (simp add: issue_state_def)
  have s: "send_tx issue_env a b c d = Inr JNull" for a b c d by (simp add: issue_env_def)
  obtain w3 where w3: "issueTokens issue_env (JStr ''0xf'') ''0xe'' (obj_get issue_state ''vestingParams'') issue_world = (Inr (), w3)"
    by (simp add: issueTokens_def prog_ok issue_state_def not_nullish_def issue_numbers vestingTail_def propsOf_def s
        numeral_2_eq_2 [symmetric] MAX_HOLDERS_IN_ONE_TX_def Let_def)
  from issuance_matches_multisig [OF w1 issue_state_of t, unfolded m, OF w3] w1 w3
  show ?thesis by (auto simp: issue_world_def empty_world_def)
qed

section \<open>The permissions over the repositories\<close>

lemma requireFields_missing:
  assumes "state_of E w = Some st" and "missingState st ks \<noteq> []"
  shows "bindP (requireFields E ks) f w =
    (Inl (Error (''missing following fields from network state file, make sure you've run previous deployment steps: '' @
       join_with '', '' (missingState st ks))), after_read E w)"
  using assms(2) by (simp add: requireFields_def run_bindP run_read [OF assms(1)] Let_def) (simp add: bindP_def throwP_apply)

text \<open>
  the permission script never gets past its first check: it asks the state for the misspelt key
  'app:voiting', so with a state of the earlier scripts, which has no such key, it fails naming that
  field among the missing ones and sends nothing.
\<close>

theorem repo_permissions_blocked:
  assumes "state_of E w = Some st" and "\<not> truthy (obj_get st ''app:voiting'')"
  shows "sent (snd (repoPermissions E w)) = sent w \<and>
    (\<exists>missing. ''app:voiting'' \<in> set missing \<and> fst (repoPermissions E w) =
       Inl (Error (''missing following fields from network state file, make sure you've run previous deployment steps: '' @
         join_with '', '' missing)))"
proof -
  have m: "''app:voiting'' \<in> set (missingState st REQUIRED_REPO_PERMISSIONS)"
    using assms(2) by (simp add: missingState_def REQUIRED_REPO_PERMISSIONS_def)
  then have "missingState st REQUIRED_REPO_PERMISSIONS \<noteq> []" by auto
  note run = requireFields_missing [OF assms(1) this]
  from m show ?thesis
    unfolding repoPermissions_def run fst_conv snd_conv
    by (intro conjI exI [of _ "missingState st REQUIRED_REPO_PERMISSIONS"]) simp_all
qed

theorem repo_permissions_blocked_witness:
  "sent (snd (repoPermissions devnet (empty_world\<lparr>net_files := (\<lambda>_. Some (JsonText (JObj [(''networkId'', JInt 1337),
      (''owner'', JStr ''0xaa''), (''ensAddress'', JStr ''0xe''), (''lidoEnsNodeName'', JStr ''lidopm.eth''),
      (''aragonEnsNodeName'', JStr ''aragonpm.eth''), (''app:voting'', JObj [(''proxyAddress'', JStr ''0x5'')])])))\<rparr>))) = []"
proof -
  let ?st = "[(''networkId'', JInt 1337), (''owner'', JStr ''0xaa''), (''ensAddress'', JStr ''0xe''), (''lidoEnsNodeName'', JStr ''lidopm.eth''),
      (''aragonEnsNodeName'', JStr ''aragonpm.eth''), (''app:voting'', JObj [(''proxyAddress'', JStr ''0x5'')])]"
  let ?w = "empty_world\<lparr>net_files := (\<lambda>_. Some (JsonText (JObj ?st)))\<rparr>"
  have st: "state_of devnet ?w = Some ?st" by (simp add: state_of_def strict_eq_def)
  have "\<not> truthy (obj_get ?st ''app:voiting'')" by simp
  from repo_permissions_blocked [OF st this] show ?thesis by (simp add: empty_world_def)
qed

text \<open>What is sent for one role: nothing unless the owner manages it.\<close>

definition handover :: "env \<Rightarrow> string \<Rightarrow> jsval \<Rightarrow> jsval \<Rightarrow> jsval \<times> string \<times> bool \<Rightarrow> sent_tx list" where
  "handover E acl owner voting x =
     (case x of (app, role, full) \<Rightarrow>
        let tx = \<lambda>m who opts. \<lparr>tx_to = acl, tx_method = m, tx_args = [who, app, JStr role], tx_opts = opts\<rparr>
        in if \<exists>manager. call_view E acl ''getPermissionManager'' [app, JStr role] = Inr manager \<and> strict_eq manager owner
           then if full
                then [tx ''grantPermission'' voting [(''from'', owner)], tx ''revokePermission'' owner [(''from'', owner)],
                      tx ''setPermissionManager'' voting [(''from'', owner)]]
                else [tx ''setPermissionManager'' voting []]
           else [])"

lemma ifManager_sent:
  assumes "ifManager E acl owner app role act w = (Inr u, w')"
    and "\<And>u w'. act w = (Inr u, w') \<Longrightarrow> sent w' = sent w @ txs"
  shows "sent w' = sent w @
    (if \<exists>manager. call_view E acl ''getPermissionManager'' [app, JStr role] = Inr manager \<and> strict_eq manager owner then txs else [])"
proof -
  from assms(1) obtain manager where m: "call_view E acl ''getPermissionManager'' [app, JStr role] = Inr manager"
    and r: "(if strict_eq manager owner then act else returnP ()) w = (Inr u, w')"
    unfolding ifManager_def bindP_eq_Inr frame_ok by blast
  show ?thesis
  proof (cases "strict_eq manager owner")
    case True
    with m r assms(2) show ?thesis by auto
  next
    case False
    with m r show ?thesis by (simp add: returnP_apply)
  qed
qed

lemma transferPerm_sent:
  assumes "ifManager E acl owner app role (transferPerm E acl app role owner voting) w = (Inr u, w')"
  shows "sent w' = sent w @ handover E acl owner voting (app, role, True)"
  unfolding handover_def Let_def prod.case if_True
  by (rule ifManager_sent [OF assms]) (auto simp: transferPerm_def prog_ok)

lemma setManager_sent:
  assumes "ifManager E acl owner app role (setManager E acl app role voting) w = (Inr u, w')"
  shows "sent w' = sent w @ handover E acl owner voting (app, role, False)"
  unfolding handover_def Let_def prod.case if_False
  by (rule ifManager_sent [OF assms]) (auto simp: setManager_def prog_ok)

lemma transferRepos_sent:
  assumes "forP (transferRepo E resolver acl owner voting ensNodeName) apps w = (Inr u, w')"
  shows "\<exists>repos. list_all2 (\<lambda>app repo. call_view E resolver ''addr'' [JStr (name_hash E (app @ ''.'' @ ensNodeName))] = Inr repo) apps repos \<and>
    sent w' = sent w @ concat (map (\<lambda>repo. handover E acl owner voting (repo, CREATE_VERSION_ROLE, True)) repos)"
  using assms
proof (induction apps arbitrary: w)
  case Nil
  then show ?case by simp
next
  case (Cons app apps)
  from Cons.prems obtain w1 where t: "transferRepo E resolver acl owner voting ensNodeName app w = (Inr (), w1)"
    and rest: "forP (transferRepo E resolver acl owner voting ensNodeName) apps w1 = (Inr u, w')"
    by (auto split: prod.splits sum.splits)
  from t obtain repo where "call_view E resolver ''addr'' [JStr (name_hash E (app @ ''.'' @ ensNodeName))] = Inr repo"
    and "sent w1 = sent w @ handover E acl owner voting (repo, CREATE_VERSION_ROLE, True)"
    unfolding transferRepo_def bindP_eq_Inr frame_ok by (auto dest!: transferPerm_sent)
  moreover from Cons.IH [OF rest] obtain repos where
    "list_all2 (\<lambda>app repo. call_view E resolver ''addr'' [JStr (name_hash E (app @ ''.'' @ ensNodeName))] = Inr repo) apps repos"
    "sent w' = sent w1 @ concat (map (\<lambda>repo. handover E acl owner voting (repo, CREATE_VERSION_ROLE, True)) repos)"
    by blast
  ultimately show ?case by (intro exI [of _ "repo # repos"]) simp
qed

text \<open>
  a successful handover of a package registry sends, for the six registry roles and the
  version role of every repository in order, the transactions of exactly those roles the owner
  manages: for a full transfer first the grant to the voting app, then the revocation of the owner's
  own permission, then the manager; a role with another manager is left alone.
\<close>

theorem repo_permissions_handover:
  assumes "setPermissions E owner ens ensNodeName voting apps w = (Inr (), w')"
  shows "\<exists>resolver acl apm registrar kern aclAddress repos.
    list_all2 (\<lambda>app repo. call_view E resolver ''addr'' [JStr (name_hash E (app @ ''.'' @ ensNodeName))] = Inr repo)
      ([''apm-registry'', ''apm-repo'', ''apm-enssub''] @ apps) repos \<and>
    call_view E resolver ''addr'' [JStr (name_hash E ensNodeName)] = Inr apm \<and> contract_at E ''ACL'' aclAddress = Inr acl \<and>
    sent w' = sent w @ concat (map (handover E acl owner voting)
      ([(apm, CREATE_REPO_ROLE, True), (kern, APP_MANAGER_ROLE, False), (aclAddress, CREATE_PERMISSIONS_ROLE, True),
        (registrar, CREATE_NAME_ROLE, False), (registrar, DELETE_NAME_ROLE, False), (registrar, POINT_ROOTNODE_ROLE, False)] @
       map (\<lambda>repo. (repo, CREATE_VERSION_ROLE, True)) repos))"
proof -
  from assms obtain resolver acl apm registrar kern aclAddress w1 w2 w3 w4 w5 w6 where
    a: "call_view E resolver ''addr'' [JStr (name_hash E ensNodeName)] = Inr apm" "contract_at E ''ACL'' aclAddress = Inr acl" and
    "ifManager E acl owner apm CREATE_REPO_ROLE (transferPerm E acl apm CREATE_REPO_ROLE owner voting) w = (Inr (), w1)" and
    "ifManager E acl owner kern APP_MANAGER_ROLE (setManager E acl kern APP_MANAGER_ROLE voting) w1 = (Inr (), w2)" and
    "ifManager E acl owner aclAddress CREATE_PERMISSIONS_ROLE (transferPerm E acl aclAddress CREATE_PERMISSIONS_ROLE owner voting) w2 = (Inr (), w3)" and
    "ifManager E acl owner registrar CREATE_NAME_ROLE (setManager E acl registrar CREATE_NAME_ROLE voting) w3 = (Inr (), w4)" and
    "ifManager E acl owner registrar DELETE_NAME_ROLE (setManager E acl registrar DELETE_NAME_ROLE voting) w4 = (Inr (), w5)" and
    "ifManager E acl owner registrar POINT_ROOTNODE_ROLE (setManager E acl registrar POINT_ROOTNODE_ROLE voting) w5 = (Inr (), w6)" and
    r: "forP (transferRepo E resolver acl owner voting ensNodeName) ([''apm-registry'', ''apm-repo'', ''apm-enssub''] @ apps) w6 = (Inr (), w')"
    unfolding setPermissions_def Let_def bindP_eq_Inr frame_ok by auto
  then have "sent w6 = sent w @ concat (map (handover E acl owner voting)
      [(apm, CREATE_REPO_ROLE, True), (kern, APP_MANAGER_ROLE, False), (aclAddress, CREATE_PERMISSIONS_ROLE, True),
        (registrar, CREATE_NAME_ROLE, False), (registrar, DELETE_NAME_ROLE, False), (registrar, POINT_ROOTNODE_ROLE, False)])"
    by (auto dest!: transferPerm_sent setManager_sent)
  moreover from transferRepos_sent [OF r] obtain repos where
    "list_all2 (\<lambda>app repo. call_view E resolver ''addr'' [JStr (name_hash E (app @ ''.'' @ ensNodeName))] = Inr repo)
      ([''apm-registry'', ''apm-repo'', ''apm-enssub''] @ apps) repos"
    "sent w' = sent w6 @ concat (map (\<lambda>repo. handover E acl owner voting (repo, CREATE_VERSION_ROLE, True)) repos)" by blast
  ultimately show ?thesis
    using a by (intro exI [of _ resolver] exI [of _ acl] exI [of _ apm] exI [of _ registrar] exI [of _ kern] exI [of _ aclAddress]
        exI [of _ repos]) (simp add: comp_def)
qed

lemma run_forP: "forP f [] w = returnP () w" "forP f (x # xs) w = bindP (f x) (\<lambda>_. forP f xs) w"
  by (simp_all add: bindP_def returnP_def)

theorem repo_permissions_handover_witness:
  "\<exists>w'. setPermissions devnet (JStr ''0xaa'') ''0xe'' ''lidopm.eth'' (JStr ''0x5'') [''lido''] empty_world = (Inr (), w') \<and>
    list_ex (\<lambda>tx. tx_method tx = ''revokePermission'') (sent w')"
proof -
  obtain w' where w': "setPermissions devnet (JStr ''0xaa'') ''0xe'' ''lidopm.eth'' (JStr ''0x5'') [''lido''] empty_world = (Inr (), w')"
    by (simp cong: run_cong add: setPermissions_def Let_def run_bindP run_send view_def at_addr_def ifManager_def strict_eq_def
        transferPerm_def setManager_def run_forP transferRepo_def returnP_apply del: forP.simps)
  from repo_permissions_handover [OF w'] obtain apm acl rest where
    "sent w' = handover devnet acl (JStr ''0xaa'') (JStr ''0x5'') (apm, CREATE_REPO_ROLE, True) @ rest"
    by (auto simp: empty_world_def)
  then have "list_ex (\<lambda>tx. tx_method tx = ''revokePermission'') (sent w')"
    by (simp add: handover_def strict_eq_def)
  with w' show ?thesis by blast
qed

section \<open>The guard of public networks\<close>

lemma obj_get_assign_defined:
  assumes "distinct (map fst qs)" and "obj_get qs k \<noteq> JUndef"
  shows "obj_get (obj_assign ps qs) k = obj_get qs k"
proof -
  have "k \<in> fst ` set qs"
    using assms(2) by (auto simp: obj_get_def map_of_eq_None_iff split: option.splits dest: map_of_SomeD)
      (metis imageI fst_conv map_of_SomeD)
  with assms(1) show ?thesis by (simp add: obj_get_assign)
qed

lemma run_requireFields:
  assumes "state_of E w = Some st" and "missingState st ks = []"
  shows "bindP (requireFields E ks) f w = f st (after_read E w)"
  using assms(2) by (simp add: requireFields_def run_bindP run_read [OF assms(1)] Let_def)

text \<open>
  on a public network the DAO script never makes up the deposit contract: when neither the state
  nor its DAO settings name one, the script fails with the message naming the state file before it
  sends anything or writes the state, whatever the defaults are.
\<close>

theorem lido_dao_public_guard:
  assumes "network_id E \<le> 1000" and "state_of E w = Some st" and "missingState st REQUIRED_LIDO_DAO = []"
    and "list_all (\<lambda>name. truthy (obj_get st (appKey name))) names"
    and "contract_at E ''ENS'' (obj_get st ''ensAddress'') = Inr ens"
    and "obj_get st ''daoInitialSettings'' = JObj settings" and "distinct (map fst settings)"
    and "obj_get settings ''beaconSpec'' = JObj spec"
    and "\<not> truthy (obj_get st ''depositContractAddress'')" and "\<not> truthy (obj_get spec ''depositContractAddress'')"
  shows "deployDao E names file aragonId defaults w =
    (Inl (Error (''please specify deposit contract address in state file '' @ file)), after_read E w)"
proof -
  have apps: "filter (\<lambda>name. \<not> truthy (obj_get st (appKey name))) names = []"
    using assms(4) by (simp add: filter_empty_conv list_all_iff)
  have spec: "obj_get (obj_assign defaults settings) ''beaconSpec'' = JObj spec"
    using assms(7,8) by (simp add: obj_get_assign_defined)
  have pub: "isPublicNet E" using assms(1) by (simp add: isPublicNet_def)
  show ?thesis
    by (simp add: deployDao_def run_requireFields [OF assms(2,3)] Let_def apps at_addr_def assms(5) run_bindP
        chooseSettings_def defaultTo_def assms(6) depositAddress_def assms(9,10) spec pub)
      (simp add: throwP_apply)
qed

theorem lido_dao_public_guard_witness:
  "fst (deployDao (devnet\<lparr>network_id := 1\<rparr>) [''lido''] ''deployed.json'' ''lido-dao'' DEFAULT_DAO_SETTINGS
     (empty_world\<lparr>net_files := (\<lambda>_. Some (JsonText (JObj ([(''networkId'', JInt 1), (''app:lido'', JObj []),
        (''daoInitialSettings'', JObj [(''beaconSpec'', JObj [])])] @
        map (\<lambda>k. (k, JStr ''0xaa'')) (butlast REQUIRED_LIDO_DAO)))))\<rparr>)) =
   Inl (Error ''please specify deposit contract address in state file deployed.json'')"
proof -
  let ?E = "devnet\<lparr>network_id := 1\<rparr>"
  let ?st = "[(''networkId'', JInt 1), (''app:lido'', JObj []), (''daoInitialSettings'', JObj [(''beaconSpec'', JObj [])])] @
    map (\<lambda>k. (k, JStr ''0xaa'')) (butlast REQUIRED_LIDO_DAO)"
  let ?w = "empty_world\<lparr>net_files := (\<lambda>_. Some (JsonText (JObj ?st)))\<rparr>"
  have st: "state_of ?E ?w = Some ?st" by (simp add: state_of_def strict_eq_def)
  have m: "missingState ?st REQUIRED_LIDO_DAO = []" by (simp add: missingState_def REQUIRED_LIDO_DAO_def)
  have c: "contract_at ?E ''ENS'' (obj_get ?st ''ensAddress'') = Inr ''@ENS''" by (simp add: devnet_def)
  have a: "list_all (\<lambda>name. truthy (obj_get ?st (appKey name))) [''lido'']" by (simp add: appKey_def)
  have "network_id ?E \<le> 1" "\<not> truthy (obj_get ?st ''depositContractAddress'')"
    by (simp_all add: REQUIRED_LIDO_DAO_def)
  then show ?thesis
    using lido_dao_public_guard [OF _ st m a c, of "[(''beaconSpec'', JObj [])]" "[]"] by simp
qed

end
