(* ===== verification/DaoRerun.thy ===== *)
theory DaoRerun
  imports DeployDao StateGrowth
begin

text \<open>
  What deploy-lido-dao.js does to the entries of the apps when it is run again on a DAO that exists.  The
  script rebuilds every entry from its name, full name and id, because it looks for the entry it
  already has under the wrong key, and records the proxies only in the run that creates the DAO.
\<close>

section \<open>Entries without a proxy\<close>

definition REBUILT_FIELDS :: "string list" where
  "REBUILT_FIELDS = [''name'', ''fullName'', ''id'', ''baseAddress'']"

fun rebuilt :: "jsval \<Rightarrow> bool" where
  "rebuilt (JObj ps) = (fst ` set ps \<subseteq> set REBUILT_FIELDS)"
| "rebuilt _ = False"

definition all_rebuilt :: "props \<Rightarrow> bool" where
  "all_rebuilt apps \<longleftrightarrow> (\<forall>k v. (k, v) \<in> set apps \<longrightarrow> rebuilt v \<and> (\<exists>n. k = appKey n))"

lemma members_obj_set: "set (obj_set k v ps) \<subseteq> insert (k, v) (set ps)"
  by (induction ps) (auto split: if_splits)

lemma all_rebuilt_set: "all_rebuilt apps \<Longrightarrow> rebuilt v \<Longrightarrow> all_rebuilt (obj_set (appKey n) v apps)"
  using members_obj_set [of "appKey n" v apps] unfolding all_rebuilt_def by blast

lemma obj_get_member: "obj_get ps k = JUndef \<or> (k, obj_get ps k) \<in> set ps"
  by (auto simp: obj_get_def split: option.splits dest: map_of_SomeD)

lemma all_rebuilt_get: "all_rebuilt apps \<Longrightarrow> obj_get apps k = JUndef \<or> rebuilt (obj_get apps k)"
  using obj_get_member [of apps k] unfolding all_rebuilt_def by blast

lemma all_rebuilt_key: "all_rebuilt apps \<Longrightarrow> k \<in> fst ` set apps \<Longrightarrow> rebuilt (obj_get apps k)"
proof -
  assume a: "all_rebuilt apps" and k: "k \<in> fst ` set apps"
  then obtain v where "map_of apps k = Some v" using weak_map_of_SomeI by (metis imageE prod.collapse)
  then have "(k, obj_get apps k) \<in> set apps" by (auto simp: obj_get_def dest: map_of_SomeD)
  with a show ?thesis unfolding all_rebuilt_def by blast
qed

lemma rebuilt_set_base: "rebuilt v \<Longrightarrow> set_prop v ''baseAddress'' x = Inr v' \<Longrightarrow> rebuilt v'"
  by (cases v) (auto simp: set_prop_def not_nullish_def keys_obj_set REBUILT_FIELDS_def)

section \<open>The script's steps\<close>

lemma collectApps_step:
  assumes "collectApps ((key, app) # state) apps = Inr apps'" and "contains ''app:'' key"
  obtains name v where "getp app ''name'' = Inr name" and "all_rebuilt apps \<Longrightarrow> rebuilt v"
    and "collectApps state (obj_set (appKey (to_str name)) v apps) = Inr apps'"
proof -
  from assms obtain name where n: "getp app ''name'' = Inr name" by (auto simp: bindR_eq_Inr)
  let ?old = "obj_get apps (to_str name)"
  let ?new = "JObj [(''name'', name), (''fullName'', obj_get (own_props app) ''fullName''), (''id'', obj_get (own_props app) ''id'')]"
  have "rebuilt (if truthy ?old then ?old else ?new)" if "all_rebuilt apps"
    using all_rebuilt_get [OF that, of "to_str name"] by (auto simp: REBUILT_FIELDS_def)
  moreover have "collectApps state (obj_set (appKey (to_str name)) (if truthy ?old then ?old else ?new) apps) = Inr apps'"
    using assms n by (simp add: Let_def)
  ultimately show thesis using n that by blast
qed

lemma collectApps_rebuilt:
  "collectApps st apps = Inr apps' \<Longrightarrow> all_rebuilt apps \<Longrightarrow> all_rebuilt apps'"
proof (induction st arbitrary: apps)
  case (Cons kv state)
  obtain key app where kv: "kv = (key, app)" by (cases kv)
  show ?case
  proof (cases "contains ''app:'' key")
    case False
    with Cons kv show ?thesis by auto
  next
    case True
    from Cons.prems(1) [unfolded kv] True show ?thesis
      by (rule collectApps_step) (use Cons.IH Cons.prems(2) all_rebuilt_set in blast)
  qed
qed simp

lemma collectApps_grows: "collectApps st apps = Inr apps' \<Longrightarrow> fst ` set apps \<subseteq> fst ` set apps'"
proof (induction st arbitrary: apps)
  case (Cons kv state)
  obtain key app where kv: "kv = (key, app)" by (cases kv)
  show ?case
  proof (cases "contains ''app:'' key")
    case False
    with Cons kv show ?thesis by auto
  next
    case True
    from Cons.prems(1) [unfolded kv] True show ?thesis
    proof (rule collectApps_step)
      fix name v
      assume "collectApps state (obj_set (appKey (to_str name)) v apps) = Inr apps'"
      from Cons.IH [OF this] show ?thesis by (auto simp: keys_obj_set)
    qed
  qed
qed simp

lemma collectApps_collects:
  assumes "collectApps st apps = Inr apps'" and "(key, app) \<in> set st" and "contains ''app:'' key"
    and "getp app ''name'' = Inr name"
  shows "appKey (to_str name) \<in> fst ` set apps'"
  using assms(1,2)
proof (induction st arbitrary: apps)
  case (Cons kv state)
  obtain k a where kv: "kv = (k, a)" by (cases kv)
  show ?case
  proof (cases "contains ''app:'' k")
    case False
    with Cons kv assms(3) show ?thesis by auto
  next
    case True
    from Cons.prems(1) [unfolded kv] True show ?thesis
    proof (rule collectApps_step)
      fix nm v
      assume nm: "getp a ''name'' = Inr nm" and rest: "collectApps state (obj_set (appKey (to_str nm)) v apps) = Inr apps'"
      have "appKey (to_str nm) \<in> fst ` set apps'" using collectApps_grows [OF rest] by (simp only: keys_obj_set) simp
      then show ?thesis using Cons.IH [OF rest] Cons.prems(2) nm assms(4) kv by (cases "(key, app) = (k, a)") auto
    qed
  qed
qed simp

lemma resolveImpls_rebuilt:
  "resolveImpls E ens entries apps = Inr apps' \<Longrightarrow> all_rebuilt apps \<Longrightarrow>
     all_rebuilt apps' \<and> fst ` set apps \<subseteq> fst ` set apps'"
proof (induction entries arbitrary: apps)
  case (Cons kv entries)
  obtain key app where kv: "kv = (key, app)" by (cases kv)
  let ?name = "to_str (obj_get (own_props app) ''name'')"
  let ?entry = "obj_get apps (appKey ?name)"
  have "\<exists>entry'. ?entry \<noteq> JUndef \<and> (entry' = ?entry \<or> (\<exists>x. set_prop ?entry ''baseAddress'' x = Inr entry')) \<and>
    resolveImpls E ens entries (obj_set (appKey ?name) entry' apps) = Inr apps'"
    using Cons.prems(1) by (auto simp: kv Let_def bindR_eq_Inr split: if_split_asm)
  then obtain entry' where ne: "?entry \<noteq> JUndef" and e: "entry' = ?entry \<or> (\<exists>x. set_prop ?entry ''baseAddress'' x = Inr entry')"
    and rest: "resolveImpls E ens entries (obj_set (appKey ?name) entry' apps) = Inr apps'" by blast
  have "rebuilt ?entry" using all_rebuilt_get [OF Cons.prems(2), of "appKey ?name"] ne by simp
  then have "rebuilt entry'" using e rebuilt_set_base by blast
  from Cons.IH [OF rest all_rebuilt_set [OF Cons.prems(2) this]] show ?case by (auto simp: keys_obj_set)
qed simp

text \<open>Rebuilt entries replace those of the state, whole.\<close>

lemma updateKey_rebuilt: "rebuilt v \<Longrightarrow> updateKey (k, v) st = obj_set k v st"
proof (cases v)
  case (JObj ps)
  assume "rebuilt v"
  with JObj have "''address'' \<notin> fst ` set ps" by (auto simp: REBUILT_FIELDS_def)
  then have "obj_get ps ''address'' = JUndef" by (metis obj_get_def map_of_eq_None_iff option.case(1))
  with JObj show ?thesis by (simp add: updateKey_def Let_def not_nullish_def)
qed simp_all

lemma updated_rebuilt:
  assumes "all_rebuilt apps" and "k \<in> fst ` set apps \<or> rebuilt (obj_get st k)"
  shows "rebuilt (obj_get (updateNetworkState st apps) k)" "rebuilt (obj_get (obj_assign st apps) k)"
proof -
  have "updateNetworkState st apps = obj_assign st apps"
    using assms(1)
  proof (induction apps arbitrary: st)
    case (Cons kv apps)
    obtain k v where kv: "kv = (k, v)" by (cases kv)
    with Cons.prems have "rebuilt v" "all_rebuilt apps" by (auto simp: all_rebuilt_def)
    with Cons.IH kv show ?case by (simp add: updateKey_rebuilt obj_assign_def)
  qed (simp add: obj_assign_def)
  moreover show "rebuilt (obj_get (obj_assign st apps) k)"
    using assms
  proof (induction apps arbitrary: st)
    case (Cons kv apps)
    obtain k' v where kv: "kv = (k', v)" by (cases kv)
    with Cons.prems have "rebuilt v" "all_rebuilt apps" by (auto simp: all_rebuilt_def)
    moreover have "k \<in> fst ` set apps \<or> rebuilt (obj_get (obj_set k' v st) k)" using Cons.prems(2) kv \<open>rebuilt v\<close> by auto
    ultimately have "rebuilt (obj_get (obj_assign (obj_set k' v st) apps) k)" by (intro Cons.IH)
    then show ?case by (simp add: kv obj_assign_def)
  qed (simp add: obj_assign_def)
  ultimately show "rebuilt (obj_get (updateNetworkState st apps) k)" by simp
qed

lemma rebuilt_other: "k \<notin> fst ` set apps \<Longrightarrow> all_rebuilt apps \<Longrightarrow> obj_get (updateNetworkState st apps) k = obj_get st k"
proof (induction apps arbitrary: st)
  case (Cons kv apps)
  obtain k' v where kv: "kv = (k', v)" by (cases kv)
  with Cons.prems have "rebuilt v" "all_rebuilt apps" by (auto simp: all_rebuilt_def)
  with Cons kv show ?case by (simp add: updateKey_rebuilt)
qed simp

lemma rebuilt_json: "rebuilt v \<Longrightarrow> rebuilt (json_val b v)"
proof (cases v)
  case (JObj ps)
  assume "rebuilt v"
  moreover have "fst ` set (json_props b ps) \<subseteq> fst ` set ps" using json_props_keys by blast
  ultimately show ?thesis using JObj by simp
qed simp_all

section \<open>A run on a DAO that exists\<close>

lemma member_obj_set: "(k, v) \<in> set ps \<Longrightarrow> k \<noteq> k' \<Longrightarrow> (k, v) \<in> set (obj_set k' v' ps)"
  by (induction ps) auto

lemma contains_appKey: "contains ''app:'' (appKey n)"
  unfolding contains_def appKey_def list_ex_iff by (rule bexI [of _ 0]) simp_all

lemma appKey_other [simp]:
  "appKey n \<noteq> ''daoAddress''" "appKey n \<noteq> ''daoInitialSettings''" "appKey n \<noteq> ''daoAragonId''" "appKey n \<noteq> ''depositContract''"
  "appKey n \<noteq> ''depositContractAddress''" "appKey n \<noteq> ''depositContractConstructorArgs''" "appKey n \<noteq> ''dao''"
  by (simp_all add: appKey_def)

lemma updateKey_preserves:
  assumes "\<And>k' v' st. k' \<in> {k, k @ ''Address'', k @ ''ConstructorArgs''} \<Longrightarrow> P st \<Longrightarrow> P (obj_set k' v' st)" and "P st"
  shows "P (updateKey (k, v) st)"
  using assms by (simp add: updateKey_def Let_def)

lemma settings_kept:
  assumes "chooseSettings E file defaults st = Inr st'"
  shows "\<exists>v. st' = obj_set ''daoInitialSettings'' v st"
  using assms by (auto simp: chooseSettings_def Let_def bindR_eq_Inr split: if_splits)

text \<open>What is there for the entries to be lost: a state whose entry has been kept so far.\<close>

definition has_entry :: "string \<Rightarrow> jsval \<Rightarrow> props \<Rightarrow> bool" where
  "has_entry n app st \<longleftrightarrow> (appKey n, app) \<in> set st \<and> truthy (obj_get st ''daoAddress'')"

lemma has_entry_set: "has_entry n app st \<Longrightarrow> k \<noteq> appKey n \<Longrightarrow> k \<noteq> ''daoAddress'' \<Longrightarrow> has_entry n app (obj_set k v st)"
  by (auto simp: has_entry_def intro: member_obj_set)

lemma has_entry_deposit: "has_entry n app st \<Longrightarrow> has_entry n app (updateKey (''depositContract'', v) st)"
  by (rule updateKey_preserves) (auto intro!: has_entry_set simp: appKey_def)

lemma bindP_elim:
  assumes "bindP m f w = (Inr r, w')"
  obtains x w1 where "m w = (Inr x, w1)" and "f x w1 = (Inr r, w')"
  using assms by (auto simp: bindP_def split: prod.splits sum.splits)

lemma liftP_elim:
  assumes "liftP x w = (Inr r, w')"
  obtains "x = Inr r" and "w' = w"
  using assms by (simp add: liftP_ok)

lemma rebuilt_saved:
  assumes "saveResults E st ups w = (Inr st1, w1)" and "rebuilt (obj_get st1 k)"
  shows "\<exists>st2. state_of E w1 = Some st2 \<and> rebuilt (obj_get st2 k)"
proof -
  from assms(1) have id: "obj_get st1 ''networkId'' = JInt (network_id E)"
    and w1: "w1 = w\<lparr>net_files := (net_files w)(state_file E \<mapsto> JsonText (JObj (json_props (bn_json E) st1)))\<rparr>"
    by (simp_all add: saveResults_ok)
  from assms(2) have "obj_get st1 k \<noteq> JUndef" by auto
  then have "rebuilt (obj_get (json_props (bn_json E) st1) k)" using assms(2) by (simp add: json_props_get rebuilt_json)
  then show ?thesis unfolding w1 using state_of_persisted [OF id, of w "bn_json E"] by blast
qed

lemma dao_kept:
  assumes "deployDAO E d w = (Inr (results, apps), w')" and "truthy (ds_daoAddress d)"
  shows "apps = ds_knownApps d \<and> (\<exists>a. results = [(''dao'', instanceVal a)])"
  using assms by (auto simp: deployDAO_def prog_ok)

lemma lidoDaoSteps_rebuilds:
  assumes run: "lidoDaoSteps E ens st w = (Inr (), w1)" and e: "has_entry n app st" and nm: "getp app ''name'' = Inr (JStr n)"
  shows "\<exists>st1. state_of E w1 = Some st1 \<and> rebuilt (obj_get st1 (appKey n))"
  using run unfolding lidoDaoSteps_def
proof (elim bindP_elim liftP_elim)
  fix given wa dc wb st1 wc apps wd st2 we deposit wf res wg
  assume 1: "saveResults E st [(''depositContract'', instanceOf dc)] wb = (Inr st1, wc)"
    and 2: "bindR (collectApps st1 []) (\<lambda>apps. resolveImpls E ens apps apps) = Inr apps"
    and 3: "saveResults E st1 apps wd = (Inr st2, we)"
    and 4: "deployDAO E \<lparr>ds_owner = obj_get st2 ''owner'', ds_ens = ens, ds_daoTemplateNode = obj_get st2 ''daoTemplateNode'',
              ds_depositContractAddress = deposit, ds_daoAragonId = obj_get st2 ''daoAragonId'',
              ds_settings = obj_get st2 ''daoInitialSettings'', ds_daoAddress = obj_get st2 ''daoAddress'',
              ds_vestingParams = obj_get st2 ''vestingParams'', ds_knownApps = apps\<rparr> wf = (Inr res, wg)"
    and 5: "(case res of (results, knownApps) \<Rightarrow> bindP (saveResults E (obj_assign st2 knownApps) results) (\<lambda>_. returnP ())) wg =
      (Inr (), w1)"
  have e1: "has_entry n app st1" using 1 e
    by (auto simp: saveResults_ok appKey_def intro!: has_entry_set has_entry_deposit)
  from 2 obtain apps0 where c: "collectApps st1 [] = Inr apps0" and i: "resolveImpls E ens apps0 apps0 = Inr apps"
    by (auto simp: bindR_eq_Inr)
  have r0: "all_rebuilt apps0" using collectApps_rebuilt [OF c] by (simp add: all_rebuilt_def)
  note r = resolveImpls_rebuilt [OF i r0]
  have k: "appKey n \<in> fst ` set apps"
  proof -
    from e1 have "(appKey n, app) \<in> set st1" by (simp add: has_entry_def)
    from collectApps_collects [OF c this contains_appKey nm] have "appKey n \<in> fst ` set apps0" by simp
    with r show ?thesis by blast
  qed
  have d: "''daoAddress'' \<notin> fst ` set apps"
  proof
    assume "''daoAddress'' \<in> fst ` set apps"
    then obtain v where "(''daoAddress'', v) \<in> set apps" by auto
    with r obtain m where "''daoAddress'' = appKey m" unfolding all_rebuilt_def by blast
    then show False by (simp add: appKey_def)
  qed
  have "obj_get st2 ''daoAddress'' = obj_get (updateNetworkState st1 apps) ''daoAddress''" using 3 by (simp add: saveResults_ok)
  also have "\<dots> = obj_get st1 ''daoAddress''" using r by (intro rebuilt_other d) simp
  finally have t: "truthy (obj_get st2 ''daoAddress'')" using e1 by (simp add: has_entry_def)
  obtain results known' where res: "res = (results, known')" by (cases res)
  from dao_kept [OF 4 [unfolded res]] t obtain a where a: "results = [(''dao'', instanceVal a)]" and ap: "known' = apps" by auto
  from 5 obtain st3 where s: "saveResults E (obj_assign st2 apps) [(''dao'', instanceVal a)] wg = (Inr st3, w1)"
    by (auto simp: res a ap prog_ok)
  have "rebuilt (obj_get (obj_assign st2 apps) (appKey n))" using updated_rebuilt(2) r k by blast
  then have "rebuilt (obj_get st3 (appKey n))"
    using s by (auto simp: saveResults_ok updateKey_def instanceVal_def Let_def updateNetworkState_def appKey_def split: if_splits)
  with s show ?thesis by (rule rebuilt_saved)
qed

section \<open>Properties\<close>

text \<open>
  C19: a second run of the one-run deployment forgets the proxies: when the script succeeds on a state that
  already has the DAO, the entry of every app is left with its name, full name, id and base address
  only, so the proxy address and whatever else was recorded there (the published version and content
  among it) is gone from the state file.
\<close>

theorem lido_dao_rerun_forgets:
  assumes "deployDao E names file aragonId defaults w = (Inr (), w1)" and "state_of E w = Some st"
    and "truthy (obj_get st ''daoAddress'')" and "(appKey n, app) \<in> set st" and "getp app ''name'' = Inr (JStr n)"
    and "f \<notin> set REBUILT_FIELDS"
  shows "\<exists>st1. state_of E w1 = Some st1 \<and> entry_field st1 (appKey n) f = JUndef"
proof -
  have e: "has_entry n app st" using assms(3,4) by (simp add: has_entry_def)
  from assms(1,2) obtain ens v wa where run: "lidoDaoSteps E ens (obj_set ''daoInitialSettings'' v (defaultTo ''daoAragonId'' aragonId st)) wa = (Inr (), w1)"
    by (auto simp: deployDao_def Let_def prog_ok throwP_apply dest!: settings_kept split: if_splits)
  have "has_entry n app (obj_set ''daoInitialSettings'' v (defaultTo ''daoAragonId'' aragonId st))"
    using e by (auto simp: defaultTo_def appKey_def intro!: has_entry_set)
  from lidoDaoSteps_rebuilds [OF run this assms(5)] obtain st1 where
    s: "state_of E w1 = Some st1" and b: "rebuilt (obj_get st1 (appKey n))" by blast
  from b obtain ps where ps: "obj_get st1 (appKey n) = JObj ps" "fst ` set ps \<subseteq> set REBUILT_FIELDS"
    by (cases "obj_get st1 (appKey n)") simp_all
  with assms(6) have "f \<notin> fst ` set ps" by blast
  then have "obj_get ps f = JUndef" by (metis obj_get_def map_of_eq_None_iff option.case(1))
  with s ps(1) show ?thesis by (simp add: entry_field_def)
qed

definition deployed_state :: props where
  "deployed_state =
     [(''networkId'', JInt 1337), (''daoAddress'', JStr ''0xd''),
      (''daoInitialSettings'', JObj [(''beaconSpec'', JObj [(''depositContractAddress'', JStr ''0xdc'')])]),
      (''app:lido'', JObj [(''name'', JStr ''lido''), (''fullName'', JStr ''lido.lido.eth''), (''id'', JStr ''0x1''),
         (''proxyAddress'', JStr ''0x11'')])] @
     map (\<lambda>k. (k, JStr ''0xaa'')) (butlast REQUIRED_LIDO_DAO)"

theorem lido_dao_rerun_forgets_witness:
  "\<exists>w1 st1. deployDao devnet [''lido''] ''deployed.json'' ''lido-dao'' DEFAULT_DAO_SETTINGS
       (empty_world\<lparr>net_files := (\<lambda>_. Some (JsonText (JObj deployed_state)))\<rparr>) = (Inr (), w1) \<and>
     state_of devnet w1 = Some st1 \<and> entry_field deployed_state ''app:lido'' ''proxyAddress'' = JStr ''0x11'' \<and>
     entry_field st1 ''app:lido'' ''proxyAddress'' = JUndef"
proof -
  let ?w = "empty_world\<lparr>net_files := (\<lambda>_. Some (JsonText (JObj deployed_state)))\<rparr>"
  let ?run = "deployDao devnet [''lido''] ''deployed.json'' ''lido-dao'' DEFAULT_DAO_SETTINGS ?w"
  have "fst ?run = Inr ()" by code_simp
  then obtain w1 where run: "?run = (Inr (), w1)" by (cases ?run) simp
  have st: "state_of devnet ?w = Some deployed_state"
    by (simp add: state_of_def deployed_state_def devnet_def offline_env_def strict_eq_def)
  have d: "truthy (obj_get deployed_state ''daoAddress'')" by (simp add: deployed_state_def)
  have m: "(appKey ''lido'', obj_get deployed_state ''app:lido'') \<in> set deployed_state"
    by (simp add: deployed_state_def appKey_def)
  have "getp (obj_get deployed_state ''app:lido'') ''name'' = Inr (JStr ''lido'')" by (simp add: deployed_state_def)
  moreover have "''proxyAddress'' \<notin> set REBUILT_FIELDS" by (simp add: REBUILT_FIELDS_def)
  ultimately obtain st1 where "state_of devnet w1 = Some st1" "entry_field st1 (appKey ''lido'') ''proxyAddress'' = JUndef"
    using lido_dao_rerun_forgets [OF run st d m] by blast
  moreover have "entry_field deployed_state ''app:lido'' ''proxyAddress'' = JStr ''0x11''"
    by (simp add: entry_field_def deployed_state_def)
  ultimately show ?thesis using run by (auto simp: appKey_def)
qed

end
