(* ===== verification/OneShot.thy ===== *)
theory OneShot
  imports Campaign DaoRerun
begin

text \<open>
  The scripts that send their transactions themselves, as steps of the same campaigns: the Aragon
  environment, the deposit contract, the package registry with the template, and the handover of the
  permissions, mixed with the multisig scripts on one state file.  They keep the same contract, except that they send.
  Two scripts are left out because they do not keep it: deploy-lido-dao forgets fields of the
  entries (DaoRerun), and deploy-wsteth writes to the file of a network called undefined (DeployEnv).
\<close>

section \<open>Code that sends\<close>

lemmas steady_rules = steady_bindP steady_if steady_sendTx steady_throwP steady_read_only read_only_liftP read_only_returnP
  read_only_frame

lemma steady_case_sum [intro]: "(\<And>a b. steady loud (f a b)) \<Longrightarrow> steady loud (case p of (a, b) \<Rightarrow> f a b)"
  by (cases p) simp

lemma steady_new: "steady True (newInstance E n args)" "steady True (withArgs args E n)" "steady True (plainNew E n)"
  unfolding newInstance_def withArgs_def plainNew_def
  by (intro steady_rules)+

lemma steady_deploy: "steady True (deploy E n (Some (withArgs args)))" "steady True (useOrDeploy E n v (Some (withArgs args)))"
  "steady True (useOrDeploy E n v None)"
  unfolding deploy_def useOrDeploy_def by (simp_all only: option.case) (intro steady_rules steady_new)+

lemma steady_assignENSName: "steady True (assignENSName E p l ow ens a)"
  unfolding assignENSName_def Let_def by (intro steady_rules)

lemma steady_deployAPM: "steady True (deployAPM E ow l ens f a)"
  unfolding deployAPM_def by (intro steady_rules steady_assignENSName)

lemma steady_forP: "(\<And>x. steady loud (f x)) \<Longrightarrow> steady loud (forP f xs)"
proof (induction xs)
  case Nil
  then show ?case by (simp add: steady_def)
next
  case (Cons x xs)
  have "forP f (x # xs) = bindP (f x) (\<lambda>_. forP f xs)" by (simp add: fun_eq_iff bindP_def)
  with Cons show ?case by (auto intro: steady_bindP)
qed

lemma steady_steps:
  "steady True (useOrDeployENS E ow a)" "steady True (useOrDeployDaoFactory E ow a)"
  "steady True (useOrDeployAPMRegistryFactory E ow e d x y z u)" "steady True (deployMiniMeTokenFactory E ow a)"
  "steady True (deployAragonID E ow e a)" "steady True (deployDaoTemplate E t)"
  "steady True (useOrDeployDepositContract E n ow a)"
  unfolding useOrDeployENS_def deployENS_def useOrDeployDaoFactory_def deployDAOFactory_def useOrDeployAPMRegistryFactory_def
    deployMiniMeTokenFactory_def deployAragonID_def deployDaoTemplate_def useOrDeployDepositContract_def Let_def
  by (intro steady_rules steady_new steady_deploy steady_assignENSName)+

lemma steady_ifManager: "steady loud m \<Longrightarrow> steady loud (ifManager E acl ow a r m)"
  unfolding ifManager_def
  by (intro steady_bindP steady_if steady_read_only [OF read_only_returnP] steady_read_only [OF read_only_frame(2)])

lemma steady_permissions: "steady True (transferPerm E acl a r ow v)" "steady True (setManager E acl a r v)"
  unfolding transferPerm_def setManager_def by (intro steady_rules)+

lemma steady_transferRepo: "steady True (transferRepo E res acl ow v name app)"
  unfolding transferRepo_def Let_def by (intro steady_bindP steady_ifManager steady_if steady_permissions steady_throwP steady_read_only read_only_frame read_only_liftP read_only_returnP)

lemma steady_setPermissions: "steady True (setPermissions E ow ens name v apps)"
  unfolding setPermissions_def Let_def
  by (intro steady_bindP steady_forP steady_ifManager steady_permissions steady_transferRepo steady_read_only read_only_frame)

section \<open>What the steps add to the state\<close>

definition settled :: "props \<Rightarrow> bool" where
  "settled r \<longleftrightarrow> list_all (\<lambda>(k, v). fills k v \<and> storable v) r"

lemma fills_instance [simp]:
  "fills k (instanceVal a) \<longleftrightarrow> plain_key k \<and> k \<noteq> ''networkId''" "storable (instanceVal a)"
  "fills k (instanceOf i) \<longleftrightarrow> plain_key k \<and> k \<noteq> ''networkId''" "storable (instanceOf i)"
  by (simp_all add: instanceVal_def instanceOf_def split: prod.split option.split)

lemma name_hash_filled: "reliable E \<Longrightarrow> name_hash E s \<noteq> []"
  by (simp add: reliable_def)

lemma settled_steps:
  assumes "reliable E"
  shows "useOrDeployENS E ow a w = (Inr (e, r), w') \<Longrightarrow> settled r"
    "useOrDeployDaoFactory E ow a w = (Inr (d, r), w') \<Longrightarrow> settled r"
    "useOrDeployAPMRegistryFactory E ow e d' x y z u w = (Inr (f, r), w') \<Longrightarrow> settled r"
    "deployMiniMeTokenFactory E ow a w = (Inr r, w') \<Longrightarrow> settled r"
    "deployAragonID E ow e a w = (Inr r, w') \<Longrightarrow> settled r"
    "deployDaoTemplate E t w = (Inr r, w') \<Longrightarrow> settled r"
  using name_hash_filled [OF assms]
  by (auto simp: useOrDeployENS_def deployENS_def useOrDeployDaoFactory_def deployDAOFactory_def prog_ok
      deployMiniMeTokenFactory_def deployAragonID_def useOrDeployAPMRegistryFactory_def deployDaoTemplate_def
      settled_def plain_key_def Let_def split: if_splits option.splits)

text \<open>The names of a new registry: there is none, or a name with a dot and its hash.\<close>

lemma settled_apm:
  assumes "reliable E" and "deployAPM E ow l ens f a w = (Inr apm, w')"
    and "plain_key r" "plain_key n" "plain_key h" and "''networkId'' \<notin> {r, n, h}"
  shows "settled [(r, instanceVal (apm_registry apm)), (n, opt_str (apm_ensNodeName apm)), (h, opt_str (apm_ensNode apm))]"
  using assms(2-) name_hash_filled [OF assms(1)]
  by (auto simp: deployAPM_def assignENSName_def prog_ok settled_def opt_str_def Let_def split: if_splits)

lemmas settled_results = settled_steps [rotated] settled_apm [rotated]

lemma save_carries: "reliable E \<Longrightarrow> settled r \<Longrightarrow> carries loud E st (saveResults E st r)"
  unfolding saveResults_def settled_def by (intro persist_plain extends_updates) (auto simp: list_all_iff)

lemma careful_save:
  assumes "reliable E" and "settled r" and "\<And>s. extends st s \<Longrightarrow> careful loud E s (f s)"
  shows "careful loud E st (bindP (saveResults E st r) f)"
  using save_carries [OF assms(1,2)] assms(3) by (rule careful_carry)

lemma careful_last_save: "reliable E \<Longrightarrow> settled r \<Longrightarrow> careful loud E st (saveResults E st r)"
  using save_carries unfolding carries_def by blast

lemma careful_pair:
  assumes "steady loud m" and "\<And>a b w w1. m w = (Inr (a, b), w1) \<Longrightarrow> careful loud E st (f a b)"
  shows "careful loud E st (bindP m (\<lambda>(a, b). f a b))"
  by (rule careful_result [OF assms(1)]) (use assms(2) in auto)

lemma extends_defaultTo: "plain_key k \<Longrightarrow> extends st (defaultTo k d st)"
  by (simp add: defaultTo_def extends_plain)

section \<open>The scripts\<close>

lemma careful_aragonEnvSteps: "reliable E \<Longrightarrow> careful True E st (aragonEnvSteps E owner st)"
  unfolding aragonEnvSteps_def
  by (intro careful_pair careful_save careful_liftP careful_result steady_steps steady_deployAPM careful_last_save;
      (elim settled_results)?; (simp add: plain_key_def)?)

lemma extends_chooseOwner:
  "reliable E \<Longrightarrow> get_accounts E = Inr as \<Longrightarrow> chooseOwner as st = Inr st1 \<Longrightarrow> extends st st1"
  by (auto simp: chooseOwner_def Let_def reliable_def bindR_eq_Inr plain_key_def fst_or_undef_def split: if_splits intro!: extends_plain)

lemma grows_aragonEnv: "reliable E \<Longrightarrow> grows True E w (snd (deployAragonEnv E label w))"
  unfolding deployAragonEnv_def Let_def
proof (intro liftP_grows read_grows careful_liftP)
  fix as st st1
  assume E: "reliable E" and "get_accounts E = Inr as" "chooseOwner as st = Inr st1"
  then have "extends st st1" by (intro extends_chooseOwner)
  also have "extends st1 (defaultTo ''aragonEnsLabelName'' label st1)" by (rule extends_defaultTo) (simp add: plain_key_def)
  finally show "careful True E st (bindP (aragonEnvSteps E
      (obj_get (defaultTo ''aragonEnsLabelName'' label st1) ''owner'') (defaultTo ''aragonEnsLabelName'' label st1)) (\<lambda>_. returnP ()))"
    by (rule careful_extends) (rule careful_end [OF careful_aragonEnvSteps [OF E]])
qed

text \<open>The settings get a deposit contract only when they are an object with a beacon specification.\<close>

lemma deposit_settings:
  assumes "getp settings ''beaconSpec'' = Inr spec" and "set_prop spec k x = Inr newSpec"
    and "set_prop settings ''beaconSpec'' newSpec = Inr newSettings"
  obtains ps where "settings = JObj ps" "newSettings = JObj (obj_set ''beaconSpec'' newSpec ps)"
  using assms by (cases settings) (auto simp: set_prop_def not_nullish_def split: if_splits)

lemma careful_deposit_settings:
  fixes st :: props
  defines "given \<equiv> (if obj_get st ''daoInitialSettings'' = JUndef
     then JObj [(''beaconSpec'', JObj [(''depositContractAddress'', JStr [])])] else obj_get st ''daoInitialSettings'')"
  assumes "reliable E" and "getp given ''beaconSpec'' = Inr spec" and "set_prop spec k x = Inr newSpec"
    and "set_prop given ''beaconSpec'' newSpec = Inr newSettings"
  shows "careful loud E st (bindP (persistState E st
    [(''depositContract'', instanceOf c), (''daoInitialSettings'', newSettings)]) (\<lambda>_. returnP ()))"
proof (rule careful_persist [OF assms(2) extends_refl])
  obtain ps where ps: "given = JObj ps" "newSettings = JObj (obj_set ''beaconSpec'' newSpec ps)"
    using assms(3-5) by (rule deposit_settings)
  show "list_all (\<lambda>(k, v). fills k v) [(''depositContract'', instanceOf c), (''daoInitialSettings'', newSettings)]"
    using ps by (simp add: plain_key_def)
  show "list_all (\<lambda>(k, v). storable v) [(''depositContract'', instanceOf c), (''daoInitialSettings'', newSettings)]"
    if "tidy st"
    using ps tidy_get [OF that, of "''daoInitialSettings''"] by (auto simp: given_def distinct_obj_set split: if_splits)
qed (intro careful_steps)

lemma grows_beaconDeposit: "reliable E \<Longrightarrow> grows True E w (snd (deployBeaconDepositContract E w))"
  unfolding deployBeaconDepositContract_def Let_def prop_of_def
  by (intro read_grows careful_liftP careful_bindP [OF steady_steps(7)] careful_deposit_settings)

lemma requireFields_grows:
  assumes "\<And>st. careful loud E st (f st)"
  shows "grows loud E w (snd (bindP (requireFields E ks) f w))"
proof -
  have "bindP (requireFields E ks) f = bindP (readState E) (\<lambda>st.
      let missing = missingState st ks
      in if missing \<noteq> [] then throwP (Error (''missing following fields from network state file, make sure you've run '' @
               ''previous deployment steps: '' @ join_with '', '' missing)) else f st)"
    by (rule ext) (auto simp: requireFields_def Let_def bindP_def throwP_def returnP_def split: prod.splits sum.splits)
  moreover have "careful loud E st (let missing = missingState st ks
      in if missing \<noteq> [] then throwP (Error (''missing following fields from network state file, make sure you've run '' @
               ''previous deployment steps: '' @ join_with '', '' missing)) else f st)" for st
    unfolding Let_def using assms by (intro careful_if careful_steady [OF steady_throwP])
  ultimately show ?thesis by (simp only: read_grows)
qed

lemma careful_template_labels:
  assumes "careful loud E (defaultTo ''daoTemplateEnsLabel'' t (defaultTo ''lidoEnsLabelName'' l st)) m"
  shows "careful loud E st m"
proof (rule careful_extends [OF _ assms])
  show "extends st (defaultTo ''daoTemplateEnsLabel'' t (defaultTo ''lidoEnsLabelName'' l st))"
    by (rule extends_trans; rule extends_defaultTo; simp add: plain_key_def)
qed

lemma grows_apmAndTemplate: "reliable E \<Longrightarrow> grows True E w (snd (deployApmAndTemplate E l t w))"
  unfolding deployApmAndTemplate_def Let_def
  by (rule requireFields_grows, rule careful_bindP [OF steady_read_only [OF read_only_frame(1)]],
      rule careful_template_labels [of _ _ t l])
    (intro careful_bindP [OF steady_read_only [OF read_only_frame(1)]] careful_liftP careful_result [OF steady_deployAPM]
        careful_result [OF steady_steps(6)] careful_save careful_steady [OF steady_read_only [OF read_only_returnP]];
       (elim settled_results)?; (simp add: plain_key_def)?)

lemma grows_repoPermissions: "grows True E w (snd (repoPermissions E w))"
  unfolding repoPermissions_def
  by (intro requireFields_grows careful_steady steady_bindP steady_setPermissions steady_read_only read_only_frame)

section \<open>Both families on one state file\<close>

datatype deployment_script =
    Multisig script | AragonEnv string | BeaconDeposit | ApmAndTemplate string string | RepoPermissions

fun deployment_step :: "deployment_script \<Rightarrow> env \<Rightarrow> unit prog" where
  "deployment_step (Multisig s) E = multisig_script s E"
| "deployment_step (AragonEnv label) E = deployAragonEnv E label"
| "deployment_step BeaconDeposit E = deployBeaconDepositContract E"
| "deployment_step (ApmAndTemplate lidoLabel templateLabel) E = deployApmAndTemplate E lidoLabel templateLabel"
| "deployment_step RepoPermissions E = repoPermissions E"

fun step_sends :: "deployment_script \<Rightarrow> bool" where
  "step_sends (Multisig s) = sends s"
| "step_sends _ = True"

interpretation deployment: careful_family deployment_step reliable step_sends
proof
  fix E s w
  assume "reliable E"
  then show "grows (step_sends s) E w (snd (deployment_step s E w))"
    by (cases s) (simp_all add: multisig.run_grows grows_aragonEnv grows_beaconDeposit grows_apmAndTemplate grows_repoPermissions)
qed

section \<open>Properties\<close>


definition fresh_state :: props where
  "fresh_state = [(''networkId'', JInt 1337), (''owner'', JStr ''0xaa''), (''ensAddress'', JStr ''0xe''),
     (''app:lido'', JObj [(''name'', JStr ''lido''), (''proxyAddress'', JStr ''0x11'')])]"

text \<open>A node that answers as documented.\<close>

definition honest_node :: env where
  "honest_node = devnet\<lparr>bn_json := dec_int, name_hash := (\<lambda>s. ''0x'' @ s),
     checksum := (\<lambda>v. case v of JStr (c # s) \<Rightarrow> Inr (c # s) | _ \<Rightarrow> Inl (External ''invalid address'')),
     contract_at := (\<lambda>n v. case v of JStr (c # s) \<Rightarrow> Inr (c # s) | _ \<Rightarrow> Inl (External ''invalid address'')),
     past_events := (\<lambda>_ _ _. Inr [JObj [(''event'', JStr ''TmplAPMDeployed''), (''transactionHash'', JStr ''0x7''),
        (''args'', JObj [(''apm'', JStr ''0xb'')])]]),
     get_receipt := (\<lambda>_. Inr (JObj [(''contractAddress'', JStr ''0xc''), (''blockNumber'', JInt 7)]))\<rparr>"

lemma dec_int_filled: "dec_int i \<noteq> []"
  by (simp add: dec_int_def dec_digits.simps)

lemma honest_reliable: "reliable honest_node"
  unfolding reliable_def honest_node_def
  by (auto simp: dec_int_filled evt_field_def devnet_def offline_env_def split: jsval.splits list.splits)


end
