(* ===== verification/Handoff.thy ===== *)
theory Handoff
  imports Campaign DeployDao
begin

text \<open>
  What the multisig scripts hand to each other through the state file: the fields a successful script leaves
  there, against the fields a later one needs.  Everything that no script leaves has to come from
  the operator: settings, addresses of existing contracts, and the hashes of the transactions sent.
\<close>

section \<open>What a program leaves in the state file\<close>

definition recorded :: "jsval \<Rightarrow> bool" where
  "recorded v \<longleftrightarrow> (\<exists>s. v = JStr s \<and> s \<noteq> []) \<or> (\<exists>ps. v = JObj ps)"

lemma recorded_simps [simp]: "recorded (JStr s) = (s \<noteq> [])" "recorded (JObj ps)"
  by (simp_all add: recorded_def)

lemma recorded_json: "obj_get st k = v \<Longrightarrow> recorded v \<Longrightarrow> truthy (obj_get (json_props b st) k)"
  by (auto simp: recorded_def json_props_get)

definition leaves :: "env \<Rightarrow> string list \<Rightarrow> 'a prog \<Rightarrow> bool" where
  "leaves E ks m \<longleftrightarrow> (\<forall>w r w1. m w = (Inr r, w1) \<longrightarrow>
     (\<exists>st. state_of E w1 = Some st \<and> list_all (\<lambda>k. truthy (obj_get st k)) ks))"

lemma leaves_bindP: "(\<And>x. leaves E ks (f x)) \<Longrightarrow> leaves E ks (bindP m f)"
  by (auto simp: leaves_def prog_ok)

lemma leaves_liftP: "(\<And>x. r = Inr x \<Longrightarrow> leaves E ks (f x)) \<Longrightarrow> leaves E ks (bindP (liftP r) f)"
  by (auto simp: leaves_def prog_ok)

lemma leaves_at: "(\<And>a. contract_at E n v = Inr a \<Longrightarrow> leaves E ks (f a)) \<Longrightarrow> leaves E ks (bindP (at_addr E n v) f)"
  by (auto simp: leaves_def prog_ok)

lemma leaves_case: "(\<And>a b. x = (a, b) \<Longrightarrow> leaves E ks (f a b)) \<Longrightarrow> leaves E ks (case x of (a, b) \<Rightarrow> f a b)"
  by (cases x) simp

lemma leaves_persist:
  "leaves E ks (f (updateNetworkState (obj_set ''networkId'' (JInt (network_id E)) st) ups)) \<Longrightarrow>
     leaves E ks (bindP (persistState E st ups) f)"
  by (auto simp: leaves_def prog_ok)

lemma leaves_last:
  assumes "''networkId'' \<notin> fst ` set ups"
    and "list_all (\<lambda>k. recorded (obj_get (updateNetworkState (obj_set ''networkId'' (JInt (network_id E)) st) ups) k)) ks"
  shows "leaves E ks (bindP (persistState E st ups) (\<lambda>_. returnP x))"
  unfolding leaves_def
proof (intro allI impI)
  fix w r w1
  assume "bindP (persistState E st ups) (\<lambda>_. returnP x) w = (Inr r, w1)"
  then have "w1 = snd (persistState E st ups w)" by (auto simp: bindP_def returnP_def split: prod.splits sum.splits)
  with state_of_persistState [OF assms(1), of E st w]
  show "\<exists>st. state_of E w1 = Some st \<and> list_all (\<lambda>k. truthy (obj_get st k)) ks"
    using assms(2) by (auto simp: list_all_iff intro: recorded_json)
qed

lemmas leaves_steps = leaves_liftP leaves_at leaves_case leaves_last leaves_bindP

text \<open>What truffle and the hash of names promise: a contract is only taken at a string that is not empty.\<close>

definition checked_env :: "env \<Rightarrow> bool" where
  "checked_env E \<longleftrightarrow> (\<forall>n v a. contract_at E n v = Inr a \<longrightarrow> a \<noteq> [] \<and> (\<exists>s. v = JStr s \<and> s \<noteq> [])) \<and>
     (\<forall>ens. distinct (map (\<lambda>name. name_hash E (appFullName name ens)) VALID_APP_NAMES))"

lemma checked_at: "checked_env E \<Longrightarrow> contract_at E n v = Inr a \<Longrightarrow> a \<noteq> [] \<and> recorded v"
  unfolding checked_env_def recorded_def by blast

lemma checked_deployed: "checked_env E \<Longrightarrow> useOrGetDeployed E n v h = Inr a \<Longrightarrow> a \<noteq> []"
  using checked_at by (auto simp: useOrGetDeployed_def getDeployed_def bindR_eq_Inr split: if_splits)

section \<open>The updates\<close>

lemma updateKey_elsewhere:
  "j \<noteq> k \<Longrightarrow> j \<noteq> k @ ''Address'' \<Longrightarrow> j \<noteq> k @ ''ConstructorArgs'' \<Longrightarrow> obj_get (updateKey (k, v) st) j = obj_get st j"
  by (simp add: updateKey_def Let_def)

lemma updateKey_recorded_str: "recorded v \<Longrightarrow> \<exists>s. v = JStr s \<Longrightarrow> recorded (obj_get (updateKey (k, v) st) k)"
  by auto

lemma updateKey_entry:
  assumes "f \<noteq> ''address''"
  shows "recorded (obj_get (updateKey (k, JObj (obj_set f v (own_props (obj_get st k)))) st) k)"
proof (cases "truthy (obj_get (own_props (obj_get st k)) ''address'')")
  case True
  then have "own_props (obj_get st k) \<noteq> []" by auto
  have "\<exists>ps. obj_get st k = JObj ps"
    using True by (cases "obj_get st k") auto
  with True assms show ?thesis by (auto simp: updateKey_def Let_def not_nullish_def)
next
  case False
  with assms show ?thesis by (simp add: updateKey_plain not_nullish_def)
qed

lemma saved_entry:
  "f \<noteq> ''address'' \<Longrightarrow> obj_get st k = entry \<Longrightarrow> recorded (obj_get (updateKey (k, JObj (obj_set f v (own_props entry))) st) k)"
  using updateKey_entry by blast

lemma saved_template: "a \<noteq> [] \<Longrightarrow> recorded (obj_get (updateKey (''daoTemplate'', instanceVal a) st) ''daoTemplateAddress'')"
  by (simp add: updateKey_def instanceVal_def not_nullish_def Let_def)

lemma mergeApps_recorded:
  "name \<in> fst ` set apps \<or> recorded (obj_get st (appKey name)) \<Longrightarrow> recorded (obj_get (mergeApps apps st) (appKey name))"
proof (induction apps arbitrary: st)
  case (Cons x apps)
  obtain n d where x: "x = (n, d)" by (cases x)
  let ?st = "obj_set (appKey n) (JObj (obj_assign (own_props (obj_get st (appKey n))) d)) st"
  have "name \<in> fst ` set apps \<or> recorded (obj_get ?st (appKey name))" using Cons.prems x by auto
  from Cons.IH [OF this] show ?case by (simp add: mergeApps_def x)
qed (simp add: mergeApps_def)

lemma mergeApps_elsewhere: "(\<And>n. k \<noteq> appKey n) \<Longrightarrow> obj_get (mergeApps apps st) k = obj_get st k"
  by (induction apps arbitrary: st) (auto simp: mergeApps_def)

section \<open>The scripts\<close>

lemma template_found:
  assumes "checked_env E" and "obtainTemplate E st = Inr (a, b)"
  shows "a \<noteq> []"
proof -
  from assms(2) have "useOrGetDeployed E ''LidoTemplate'' (obj_get st ''daoTemplateAddress'') (obj_get st ''daoTemplateDeployTx'') = Inr a"
    by (auto simp: obtainTemplate_def bindR_eq_Inr simp del: forR.simps)
  with assms(1) show ?thesis by (rule checked_deployed)
qed

lemma leaves_template:
  assumes "checked_env E" and "\<And>a b. a \<noteq> [] \<Longrightarrow> leaves E ks (f (a, b))"
  shows "leaves E ks (bindP (liftP (obtainTemplate E st)) f)"
  using assms template_found by (intro leaves_liftP) auto

lemma leaves_02:
  assumes "checked_env E"
  shows "leaves E [''daoTemplateAddress'', ''app:lido'', ''app:oracle'', ''app:node-operators-registry''] (obtainInstances_02 E)"
  unfolding obtainInstances_02_def obtainBase_def bindP_assoc Let_def
  apply (rule leaves_bindP, rule leaves_template [OF assms], simp only: prod.case, rule leaves_persist)
  apply (rule leaves_bindP, rule leaves_bindP, rule leaves_bindP, rule leaves_persist)
  apply (rule leaves_bindP, rule leaves_bindP, rule leaves_bindP, rule leaves_persist)
  apply (rule leaves_bindP, rule leaves_bindP, rule leaves_bindP, rule leaves_last)
   apply (simp add: appKey_def)
  apply (simp add: appKey_def updateKey_elsewhere saved_entry saved_template)
  done

lemma leaves_06:
  assumes "checked_env E"
  shows "leaves E [''lidoApmAddress''] (obtainDeployedAPM_06 E)"
proof -
  have s: "\<exists>s. evt_arg evt ''apm'' = JStr s \<and> s \<noteq> []" if "contract_at E n (evt_arg evt ''apm'') = Inr a" for evt a n
    using assms that unfolding checked_env_def by blast
  show ?thesis unfolding obtainDeployedAPM_06_def Let_def
    by (intro leaves_steps; (drule s)?; (auto simp: updateNetworkState_def)?)
qed

lemma leaves_09:
  assumes "checked_env E"
  shows "leaves E (''daoAddress'' # ''daoTokenAddress'' # map appKey VALID_APP_NAMES) (obtainDeployedDAO_09 E)"
  unfolding obtainDeployedDAO_09_def Let_def
proof (rule leaves_bindP, rule leaves_bindP, rule leaves_liftP, rule leaves_persist, rule leaves_at, rule leaves_at, rule leaves_liftP, rule leaves_last)
  fix state template evt dao token apps ensName block
  let ?st = "obj_set ''networkId'' (JInt (network_id E)) (mergeApps apps (obj_set ''daoTokenAddress'' (JStr token) (obj_set ''daoAddress'' (JStr dao) state)))"
  assume "contract_at E ''Kernel'' (evt_arg evt ''dao'') = Inr dao" "contract_at E ''MiniMeToken'' (evt_arg evt ''token'') = Inr token"
  then have a: "dao \<noteq> []" "token \<noteq> []" using checked_at [OF assms] by blast+
  assume "assertInstalledApps E template dao ensName ''external:AppProxyUpgradeable_DAO'' ''AragonApp'' block = Inr apps"
  moreover have "distinct (map (\<lambda>name. name_hash E (appFullName name ensName)) VALID_APP_NAMES)"
    using assms by (simp add: checked_env_def)
  ultimately have "fst ` set apps = set VALID_APP_NAMES" by (rule installed_keys)
  then have "recorded (obj_get ?st (appKey n))" if "n \<in> set VALID_APP_NAMES" for n
    using that mergeApps_recorded [of n apps] by (simp add: appKey_def)
  moreover have "recorded (obj_get ?st ''daoAddress'')" "recorded (obj_get ?st ''daoTokenAddress'')"
    using a by (simp_all add: mergeApps_elsewhere appKey_def)
  ultimately show "list_all (\<lambda>k. recorded (obj_get (updateNetworkState ?st []) k)) (''daoAddress'' # ''daoTokenAddress'' # map appKey VALID_APP_NAMES)"
    by (simp add: list_all_iff)
qed simp

lemma leaves_entry:
  assumes "k \<noteq> ''networkId''" "f \<noteq> ''address''"
  shows "leaves E [k] (bindP (persistState E st [(k, JObj (obj_set f v (own_props (obj_get st k))))]) (\<lambda>_. returnP x))"
  using assms by (intro leaves_last) (simp_all add: saved_entry)

lemma leaves_14: "leaves E [appKey app] (obtainAppInstance_14 E app)"
  unfolding obtainAppInstance_14_def Let_def
  by (intro leaves_entry leaves_bindP) simp_all

lemma leaves_obtained:
  assumes "checked_env E"
  shows "leaves E [''depositorAddress''] (obtainDepositor_17 E)"
    "leaves E [''compositePostRebaseBeaconReceiverAddress''] (obtainComposite_22 E)"
    "leaves E [''selfOwnedStETHBurnerAddress''] (obtainBurner_24 E)"
    "leaves E [''executionLayerRewardsVaultAddress''] (obtainVault_27 E)"
proof -
  have d: "leaves E ks (bindP (liftP (useOrGetDeployed E n v h)) f)" if "\<And>a. a \<noteq> [] \<Longrightarrow> leaves E ks (f a)" for n v h ks and f :: "string \<Rightarrow> unit prog"
    using that checked_deployed [OF assms] by (intro leaves_liftP) auto
  show "leaves E [''depositorAddress''] (obtainDepositor_17 E)"
    unfolding obtainDepositor_17_def Let_def
    apply (rule leaves_bindP, rule d)
    apply (rule leaves_bindP, rule leaves_bindP, rule leaves_bindP, rule leaves_bindP, rule leaves_bindP, rule leaves_last)
    apply (auto simp: newDepositorState_def Let_def updateKey_elsewhere)
    done
  show "leaves E [''compositePostRebaseBeaconReceiverAddress''] (obtainComposite_22 E)"
    unfolding obtainComposite_22_def
    by (rule leaves_bindP, rule d, rule leaves_bindP, rule leaves_bindP, rule leaves_bindP, rule leaves_last) simp_all
  show "leaves E [''selfOwnedStETHBurnerAddress''] (obtainBurner_24 E)"
    unfolding obtainBurner_24_def
    by (rule leaves_bindP, rule d, rule leaves_bindP, rule leaves_bindP, rule leaves_bindP, rule leaves_bindP, rule leaves_bindP,
        rule leaves_last) simp_all
  show "leaves E [''executionLayerRewardsVaultAddress''] (obtainVault_27 E)"
    unfolding obtainVault_27_def
    by (rule leaves_bindP, rule d, rule leaves_bindP, rule leaves_bindP, rule leaves_last) simp_all
qed

text \<open>The fields a successful script leaves in the state file.\<close>

fun provided :: "script \<Rightarrow> string list" where
  "provided ObtainInstances = [''daoTemplateAddress'', ''app:lido'', ''app:oracle'', ''app:node-operators-registry'']"
| "provided ObtainAPM = [''lidoApmAddress'']"
| "provided ObtainDAO = ''daoAddress'' # ''daoTokenAddress'' # map appKey VALID_APP_NAMES"
| "provided (ObtainAppInstance app) = [appKey app]"
| "provided ObtainDepositor = [''depositorAddress'']"
| "provided ObtainComposite = [''compositePostRebaseBeaconReceiverAddress'']"
| "provided ObtainBurner = [''selfOwnedStETHBurnerAddress'']"
| "provided ObtainVault = [''executionLayerRewardsVaultAddress'']"
| "provided _ = []"

lemma script_leaves: "checked_env E \<Longrightarrow> provided s = [] \<or> leaves E (provided s) (multisig_script s E)"
  by (cases s) (simp_all add: leaves_02 leaves_06 leaves_09 leaves_14 leaves_obtained del: list.map)

section \<open>The order of the scripts\<close>

text \<open>What the operator brings: the configuration, and the hashes of the transactions the operator has sent.\<close>

definition operator_fields :: "string list" where
  "operator_fields = REQUIRED_02 @
     [''lidoApmEnsName'', ''lidoApmEnsRegDurationSec'', ''ipfsAPI'', ''daoInitialSettings'', ''vestingParams'', ''daoAragonId'',
      ''depositorParams'', ''depositorDeployTx'', ''compositePostRebaseBeaconReceiverDeployTx'', ''selfOwnedStETHBurnerParams'',
      ''selfOwnedStETHBurnerDeployTx'', ''executionLayerRewardsVaultDeployTx'']"

text \<open>Each script finds what it needs among the fields there are and those the scripts before it have left.\<close>

fun ready :: "string list \<Rightarrow> script list \<Rightarrow> bool" where
  "ready ks [] = True"
| "ready ks (s # ss) = (list_all (\<lambda>k. k \<in> set ks) (required s) \<and> ready (provided s @ ks) ss)"

text \<open>
  The scripts in the order of their numbers, the upgrade of the oracle among them.  Script 30 is not
  there: it needs \<open>depositorPreviousAddress\<close>, which a second run of 17 leaves.
\<close>

definition deployment_order :: "front_env \<Rightarrow> string \<Rightarrow> vote_env \<Rightarrow> script list" where
  "deployment_order F dirs V =
     [DeployTemplate, ObtainInstances, RegisterEnsDomain, PublishAppFrontends F dirs, DeployAPM, ObtainAPM, CreateAppRepos,
      DeployDAO, ObtainDAO, IssueTokens, FinalizeDAO, CheckDAO False, DeployAppInstance V ''oracle'', ObtainAppInstance ''oracle'',
      VoteNewImpl V ''oracle'', DeployDepositor V, ObtainDepositor, AddGuardians V, TransferOwnership V, MitigateFrontRunning V,
      DeployComposite V, ObtainComposite, DeployBurner V, ObtainBurner, VoteBurner V, DeployVault V, ObtainVault, VoteELRewards V,
      RedeployDepositor V, StartProtocol V]"

lemma deployment_order_ready: "ready operator_fields (deployment_order F dirs V)"
  by code_simp

section \<open>Properties\<close>

text \<open>
  C15: a script that succeeds leaves in the state file what the scripts after it need: every field it is
  there to obtain is set to something that passes their check for missing fields, provided that a
  contract is only found at a non-empty address and that the names of the apps hash to different ids.
\<close>

theorem obtained_fields_recorded:
  assumes "multisig_script s E w = (Inr (), w1)" and "checked_env E"
  shows "list_all (\<lambda>k. \<exists>st. state_of E w1 = Some st \<and> missingState st [k] = []) (provided s)"
proof (cases "provided s = []")
  case False
  with script_leaves [OF assms(2), of s] have "leaves E (provided s) (multisig_script s E)" by blast
  with assms(1) show ?thesis unfolding leaves_def by (fastforce simp: list_all_iff missingState_def)
qed simp

definition vault_env :: env where
  "vault_env = offline_env\<lparr>
     contract_at := \<lambda>n v. (case v of JStr s \<Rightarrow> if s = [] then Inl (External ''no code'') else Inr s | _ \<Rightarrow> Inl (External ''no code'')),
     get_receipt := \<lambda>_. Inr (JObj [(''contractAddress'', JStr ''0x33'')]), call_view := \<lambda>_ _ _. Inr (JStr ''0x11'')\<rparr>"

definition vault_world :: world where
  "vault_world = empty_world\<lparr>net_files := (\<lambda>_. Some (JsonText (JObj [(''networkId'', JInt 1337),
     (''executionLayerRewardsVaultDeployTx'', JStr ''0x7''), (''app:lido'', JObj [(''proxyAddress'', JStr ''0x11'')])])))\<rparr>"

theorem obtained_fields_recorded_witness:
  "\<exists>w1 st. multisig_script ObtainVault vault_env vault_world = (Inr (), w1) \<and> state_of vault_env w1 = Some st \<and>
     missingState st [''executionLayerRewardsVaultAddress''] = []"
proof -
  let ?run = "multisig_script ObtainVault vault_env vault_world"
  have "fst ?run = Inr ()" by code_simp
  then obtain w1 where run: "?run = (Inr (), w1)" by (cases ?run) simp
  have "checked_env vault_env"
    by (auto simp: checked_env_def vault_env_def offline_env_def appFullName_def VALID_APP_NAMES_def all_apps_def
        split: jsval.splits if_splits)
  from obtained_fields_recorded [OF run this] run show ?thesis by auto
qed

end
