(* ===== verification/Console.thy ===== *)
theory Console
  imports ScriptHelpers GasMain
begin

text \<open>
  What the scripts print: scripts/helpers/log.js and log-deploy.js, \<open>printDeployTx\<close> of deploy.js,
  getContentUri.js and the \<open>list-accts\<close> task.  A line is the stream and the arguments of one call of
  \<open>console\<close>; the colours of chalk are a parameter.
\<close>

section \<open>log.js\<close>

datatype stream = Stdout | Stderr

type_synonym line = "stream \<times> string list"

record chalk =
  ck_yellow :: "string \<Rightarrow> string"
  ck_green :: "string \<Rightarrow> string"
  ck_tick :: string

definition logArgs :: "string list \<Rightarrow> line list" where
  "logArgs args = [(Stderr, args)]"

definition logStdout :: "string list \<Rightarrow> line list" where
  "logStdout args = [(Stdout, args)]"

definition logSuccess :: "chalk \<Rightarrow> string list \<Rightarrow> line list" where
  "logSuccess C args = [(Stderr, ck_green C (ck_tick C) # args)]"

definition logSplitter :: "string list \<Rightarrow> line list" where
  "logSplitter args = (Stderr, [''===================='']) # (if args \<noteq> [] then [(Stderr, args)] else [])"

definition logWideSplitter :: "string list \<Rightarrow> line list" where
  "logWideSplitter args =
     (Stderr, [''========================================'']) # (if args \<noteq> [] then [(Stderr, args)] else [])"

definition logHeader :: "string \<Rightarrow> line list" where
  "logHeader msg = logWideSplitter [msg] @ logWideSplitter []"

text \<open>A step that prints around a transaction: the lines, then the result and the world.\<close>

type_synonym 'a logged = "world \<Rightarrow> line list \<times> 'a res \<times> world"

text \<open>Lines whose texts are computed one after the other; a text that throws ends them.\<close>

fun linesUntil :: "line list res list \<Rightarrow> line list \<times> unit res" where
  "linesUntil [] = ([], Inr ())"
| "linesUntil (Inl e # ls) = ([], Inl e)"
| "linesUntil (Inr l # ls) = (case linesUntil ls of (ls', r) \<Rightarrow> (l @ ls', r))"

definition reporting :: "line list \<Rightarrow> (jsval \<Rightarrow> line list res list) \<Rightarrow> jsval prog \<Rightarrow> jsval logged" where
  "reporting before after m w =
     (case m w of
        (Inl e, w1) \<Rightarrow> (before, Inl e, w1)
      | (Inr result, w1) \<Rightarrow>
          (case linesUntil (after result) of (ls, r) \<Rightarrow> (before @ ls, bindR r (\<lambda>_. Inr result), w1)))"

definition logTx :: "string \<Rightarrow> jsval prog \<Rightarrow> jsval logged" where
  "logTx desc = reporting (logArgs [desc @ ''...''])
     (\<lambda>result.
       [bindR (getp result ''tx'') (\<lambda>tx. Inr (logArgs [''TX hash: '' @ to_str tx])),
        bindR (getp result ''receipt'') (\<lambda>receipt. bindR (getp receipt ''gasUsed'') (\<lambda>gas.
          Inr (logArgs [''Gas used: '' @ to_str gas])))])"

definition logDeploy :: "env \<Rightarrow> chalk \<Rightarrow> string \<Rightarrow> jsval prog \<Rightarrow> jsval logged" where
  "logDeploy E C name = reporting ((Stderr, [''===================='']) # logArgs [''Deploying '' @ name @ ''...''])
     (\<lambda>inst.
       let receipt = bindR (getp inst ''transactionHash'') (get_receipt E)
       in [bindR receipt (\<lambda>_. bindR (getp inst ''constructor'') (\<lambda>c. bindR (getp c ''_json'') (\<lambda>json.
             if not_nullish json then Inr [] else Inl TypeError))),
           bindR (getp inst ''address'') (\<lambda>a. Inr (logArgs [name @ '' address: '' @ ck_yellow C (to_str a)])),
           bindR (getp inst ''transactionHash'') (\<lambda>h. Inr (logArgs [''TX hash: '' @ to_str h])),
           bindR receipt (\<lambda>r. bindR (getp r ''gasUsed'') (\<lambda>gas. Inr (logArgs [''Gas used: '' @ to_str gas])))])"

definition txField :: "chalk \<Rightarrow> string \<Rightarrow> jsval \<Rightarrow> string \<Rightarrow> string" where
  "txField C name v comma = ''  \"'' @ name @ ''\": \"'' @ ck_yellow C (to_str v) @ ''\"'' @ comma"

definition logDeployTxData :: "chalk \<Rightarrow> string \<Rightarrow> props \<Rightarrow> line list" where
  "logDeployTxData C contractName txData =
     [(Stderr, [''====================''])] @
     logArgs [''To deploy '' @ ck_yellow C contractName @ '', send the following transaction:''] @
     logStdout [''{''] @
     (if truthy (obj_get txData ''from'') then logStdout [txField C ''from'' (obj_get txData ''from'') '','' ] else []) @
     (if truthy (obj_get txData ''gas'') then logStdout [txField C ''gas'' (obj_get txData ''gas'') '','' ] else []) @
     logStdout [txField C ''data'' (obj_get txData ''data'') []] @
     logStdout [''}'']"

text \<open>\<open>printDeployTx\<close> of deploy.js\<close>

definition printDeployTx :: "env \<Rightarrow> chalk \<Rightarrow> string \<Rightarrow> jsval list \<Rightarrow> props \<Rightarrow> (line list \<times> props) res" where
  "printDeployTx E C artifactName args opts =
     bindR (getDeployTx E artifactName args opts) (\<lambda>txData. Inr (logDeployTxData C artifactName txData, txData))"

section \<open>log-deploy.js\<close>

definition logDeployInstance :: "chalk \<Rightarrow> jsval \<Rightarrow> jsval \<Rightarrow> line list res" where
  "logDeployInstance C solc inst =
     bindR (getp inst ''constructor'') (\<lambda>c. bindR (getp c ''_json'') (\<lambda>json. bindR (getp json ''contractName'') (\<lambda>contractName.
     bindR (getp solc ''version'') (\<lambda>compilerVersion.
     bindR (getp solc ''optimizer'') (\<lambda>configured.
     let optimizer = (if truthy configured then configured else JNull);
         enabled = (if truthy optimizer then obj_get (own_props optimizer) ''enabled'' else optimizer);
         status = (if truthy enabled then to_str (obj_get (own_props optimizer) ''runs'') @ '' runs'' else ''disabled'')
     in bindR (getp inst ''address'') (\<lambda>address. bindR (getp inst ''transactionHash'') (\<lambda>hash.
        Inr (map (\<lambda>l. (Stdout, [l]))
          [''========='', ''# '' @ to_str contractName @ '':'', ''Address: '' @ ck_yellow C (to_str address),
           ''Transaction hash: '' @ ck_yellow C (to_str hash),
           ''Compiler: solc@'' @ to_str compilerVersion @ '' (optimizer: '' @ status @ '')'', ''========='']))))))))"

section \<open>getContentUri.js\<close>

definition utf8_bytes :: "char \<Rightarrow> nat list" where
  "utf8_bytes c = (let n = (of_char c :: nat) in if n < 128 then [n] else [192 + n div 64, 128 + n mod 64])"

definition hex_digit :: "nat \<Rightarrow> char" where
  "hex_digit d = (if d < 10 then char_of (48 + d) else char_of (87 + d))"

definition hex_byte :: "nat \<Rightarrow> string" where
  "hex_byte n = [hex_digit (n div 16), hex_digit (n mod 16)]"

text \<open>\<open>Buffer.from(s, 'utf8').toString('hex')\<close>\<close>

definition utf8_hex :: "string \<Rightarrow> string" where
  "utf8_hex s = concat (map hex_byte (concat (map utf8_bytes s)))"

definition getContentUri :: "chalk \<Rightarrow> string \<Rightarrow> line list res" where
  "getContentUri C IPFS_HASH =
     (if IPFS_HASH = [] then Inl (Error ''Missing `IPFS_HASH` environment variable!'')
      else Inr (logSuccess C [''0x'' @ utf8_hex (join_with '':'' [''ipfs'', IPFS_HASH])]))"

section \<open>The list-accts task\<close>

text \<open>\<open>xs.slice(0, max)\<close>\<close>

definition slice0 :: "jsval \<Rightarrow> 'a list \<Rightarrow> 'a list" where
  "slice0 m xs = (if m = JUndef then xs else
     (case to_num m of
        Fin q \<Rightarrow> (let n = (if 0 \<le> q then \<lfloor>q\<rfloor> else \<lceil>q\<rceil>) in if 0 \<le> n then take (nat n) xs else take (length xs - nat (- n)) xs)
      | PosInf \<Rightarrow> xs | _ \<Rightarrow> []))"

definition acctRow :: "chalk \<Rightarrow> (jsval \<Rightarrow> string \<Rightarrow> string res) \<Rightarrow> nat \<Rightarrow> nat \<times> jsval \<times> jsval \<Rightarrow> line list res" where
  "acctRow C fromWei padLen row = (case row of (i, acct, balance) \<Rightarrow>
     bindR (fromWei balance ''ether'') (\<lambda>eth.
     Inr (logArgs [padStart (dec_int (int i)) padLen (CHR '' '') @ '', '' @ ck_yellow C (to_str acct) @ '': '' @ eth])))"

definition listAccts ::
  "env \<Rightarrow> chalk \<Rightarrow> (jsval \<Rightarrow> jsval res) \<Rightarrow> (jsval \<Rightarrow> string \<Rightarrow> string res) \<Rightarrow> jsval \<Rightarrow> line list \<times> unit res" where
  "listAccts E C getBalance fromWei limit =
     (case bindR (get_accounts E) (\<lambda>all. bindR (mapR getBalance (slice0 limit all)) (\<lambda>balances.
        Inr (slice0 limit all, balances))) of
        Inl e \<Rightarrow> ([], Inl e)
      | Inr (accts, balances) \<Rightarrow>
          (let padLen = (if 100 < length accts then 3 else 2)
           in linesUntil (map (acctRow C fromWei padLen) (zip [0..<length accts] (zip accts balances)))))"

section \<open>Reading the URI back\<close>

fun unhex :: "string \<Rightarrow> nat list option" where
  "unhex [] = Some []"
| "unhex [c] = None"
| "unhex (c # d # s) =
     (case (hex_val c, hex_val d, unhex s) of
        (Some a, Some b, Some ns) \<Rightarrow> Some (nat (16 * a + b) # ns) | _ \<Rightarrow> None)"

text \<open>The characters of one and two bytes.\<close>

fun utf8_decode :: "nat list \<Rightarrow> string option" where
  "utf8_decode [] = Some []"
| "utf8_decode (n # ns) =
     (if n < 128 then map_option ((#) (char_of n)) (utf8_decode ns)
      else (case ns of
              m # ms \<Rightarrow> if 192 \<le> n \<and> n < 224 \<and> 128 \<le> m \<and> m < 192
                then map_option ((#) (char_of ((n - 192) * 64 + (m - 128)))) (utf8_decode ms) else None
            | [] \<Rightarrow> None))"

definition readUri :: "string \<Rightarrow> string option" where
  "readUri uri = (if take 2 uri = ''0x'' then Option.bind (unhex (drop 2 uri)) utf8_decode else None)"

lemma hex_val_digit: "d < 16 \<Longrightarrow> hex_val (hex_digit d) = Some (int d)"
proof -
  assume "d < 16"
  moreover have "list_all (\<lambda>d. hex_val (hex_digit d) = Some (int d)) [0..<16]" by code_simp
  ultimately show ?thesis by (simp add: list_all_iff)
qed

lemma unhex_bytes: "list_all (\<lambda>n. n < 256) ns \<Longrightarrow> unhex (concat (map hex_byte ns)) = Some ns"
proof (induction ns)
  case (Cons n ns)
  then have "n div 16 < 16" "n mod 16 < 16" by auto
  then have "hex_val (hex_digit (n div 16)) = Some (int (n div 16))" "hex_val (hex_digit (n mod 16)) = Some (int (n mod 16))"
    by (simp_all only: hex_val_digit)
  moreover have "nat (16 * int (n div 16) + int (n mod 16)) = n"
    by (metis mult_div_mod_eq nat_int of_nat_add of_nat_mult of_nat_numeral)
  ultimately show ?case using Cons by (simp add: hex_byte_def)
qed simp

lemma byte_split: "n < 256 \<Longrightarrow> n div 64 < 4 \<and> n mod 64 < 64 \<and> n div 64 * 64 + n mod 64 = (n :: nat)"
  using less_mult_imp_div_less [of n 4 64] by simp

lemmas char_split = byte_split [OF nat_of_char_less_256]

lemma utf8_bytes_small: "list_all (\<lambda>n. n < 256) (utf8_bytes c)"
proof -
  have "of_char c mod 64 < (128 :: nat)" by (rule less_trans [of _ 64]) simp_all
  with char_split [of c] show ?thesis by (simp add: utf8_bytes_def Let_def)
qed

lemma utf8_decode_char: "utf8_decode (utf8_bytes c @ ns) = map_option ((#) c) (utf8_decode ns)"
proof (cases "(of_char c :: nat) < 128")
  case True
  then show ?thesis by (simp add: utf8_bytes_def Let_def)
next
  case False
  with char_split [of c] show ?thesis by (simp add: utf8_bytes_def Let_def)
qed

lemma utf8_decode_bytes: "utf8_decode (concat (map utf8_bytes s)) = Some s"
  by (induction s) (simp_all add: utf8_decode_char)

section \<open>Rows\<close>

lemma linesUntil_rows:
  assumes "linesUntil (map f xs) = (ls, r)" and "\<And>x l. x \<in> set xs \<Longrightarrow> f x = Inr l \<Longrightarrow> list_all P l"
  shows "list_all P ls"
  using assms
proof (induction xs arbitrary: ls)
  case (Cons x xs)
  show ?case
  proof (cases "f x")
    case (Inl e)
    with Cons.prems show ?thesis by simp
  next
    case (Inr l)
    obtain ls1 r1 where rest: "linesUntil (map f xs) = (ls1, r1)" by (cases "linesUntil (map f xs)")
    with Cons.prems(1) Inr have "ls = l @ ls1" "r1 = r" by simp_all
    moreover have "list_all P l" using Cons.prems(2) [of x l] Inr by simp
    moreover have "list_all P ls1"
      by (rule Cons.IH) (use Cons.prems(2) rest calculation(2) in auto)
    ultimately show ?thesis by simp
  qed
qed simp

lemma length_dec_int_99: "i \<le> 99 \<Longrightarrow> length (dec_int (int i)) \<le> 2"
proof -
  assume "i \<le> 99"
  then have "length (dec_digits (int i)) \<le> length (dec_digits 99)" by (intro length_dec_digits_mono) simp_all
  moreover have "length (dec_digits 99) = 2" by code_simp
  ultimately show ?thesis by (simp add: dec_int_def)
qed

lemma length_dec_int_999: "i \<le> 999 \<Longrightarrow> length (dec_int (int i)) \<le> 3"
proof -
  assume "i \<le> 999"
  then have "length (dec_digits (int i)) \<le> length (dec_digits 999)" by (intro length_dec_digits_mono) simp_all
  moreover have "length (dec_digits 999) = 3" by code_simp
  ultimately show ?thesis by (simp add: dec_int_def)
qed

lemma acctRow_column:
  assumes "acctRow C fromWei k (i, a, b) = Inr l" and "length (dec_int (int i)) \<le> k"
  shows "list_all (\<lambda>(_, args). list_all (\<lambda>text. take 1 (drop k text) = '','') args) l"
proof -
  have "length (padStart (dec_int (int i)) k (CHR '' '')) = k" using assms(2) by (simp add: padStart_def)
  with assms(1) show ?thesis by (auto simp: acctRow_def bindR_eq_Inr logArgs_def)
qed

lemma length_slice0: "length (slice0 m xs) \<le> length xs"
  by (auto simp: slice0_def Let_def split: jnum.splits)

section \<open>Properties\<close>

text \<open>
  the content URI that is printed can be read back: its hexadecimal digits are the UTF-8 bytes of
  \<open>ipfs:\<close> followed by the hash, for every hash of characters below 256.
\<close>

theorem content_uri_reads_back:
  assumes "getContentUri C h = Inr ls"
  shows "\<exists>uri. ls = [(Stderr, [ck_green C (ck_tick C), uri])] \<and> readUri uri = Some (''ipfs:'' @ h)"
proof -
  have "unhex (utf8_hex (''ipfs:'' @ h)) = Some (concat (map utf8_bytes (''ipfs:'' @ h)))"
    unfolding utf8_hex_def
    by (rule unhex_bytes) (use utf8_bytes_small in \<open>auto simp: list_all_iff\<close>)
  then have "readUri (''0x'' @ utf8_hex (''ipfs:'' @ h)) = Some (''ipfs:'' @ h)"
    using utf8_decode_bytes [of "''ipfs:'' @ h"] by (simp add: readUri_def)
  moreover have "join_with '':'' [''ipfs'', h] = ''ipfs:'' @ h" by simp
  ultimately show ?thesis using assms by (auto simp: getContentUri_def logSuccess_def split: if_splits)
qed

definition plain_chalk :: chalk where
  "plain_chalk = \<lparr>ck_yellow = id, ck_green = id, ck_tick = ''ok''\<rparr>"

theorem content_uri_reads_back_witness:
  "readUri ''0x697066733a516d'' = Some ''ipfs:Qm''"
proof -
  have "getContentUri plain_chalk ''Qm'' = Inr [(Stderr, [''ok'', ''0x697066733a516d''])]" by code_simp
  from content_uri_reads_back [OF this] show ?thesis by (simp add: plain_chalk_def)
qed

text \<open>
  printing around a transaction never changes what the transaction did, nor its result: the world is
  the one the transaction left, and a result that can be printed is passed on as it is, an error as
  it is; only a result that cannot be printed becomes an error, after the transaction was sent.
\<close>

theorem logging_transparent:
  assumes "m w = (r, w1)"
  shows "(\<exists>ls r'. logTx desc m w = (ls, r', w1) \<and> (r' = r \<or> okR r \<and> \<not> okR r')) \<and>
    (\<exists>ls r'. logDeploy E C name m w = (ls, r', w1) \<and> (r' = r \<or> okR r \<and> \<not> okR r'))"
proof -
  have "\<exists>ls r'. reporting before after m w = (ls, r', w1) \<and> (r' = r \<or> okR r \<and> \<not> okR r')" for before after
    using assms by (cases r) (auto simp: reporting_def bindR_def split: prod.splits sum.splits)
  then show ?thesis unfolding logTx_def logDeploy_def by blast
qed

theorem logging_transparent_witness:
  "\<exists>ls. logTx ''vote'' (sendTx (offline_env\<lparr>send_tx := \<lambda>_ _ _ _. Inr (JObj [(''tx'', JStr ''0x1'')])\<rparr>) ''0xa'' ''vote'' [] []) empty_world =
     (ls, Inl TypeError, empty_world\<lparr>sent := [\<lparr>tx_to = ''0xa'', tx_method = ''vote'', tx_args = [], tx_opts = []\<rparr>]\<rparr>)"
proof -
  let ?E = "offline_env\<lparr>send_tx := \<lambda>_ _ _ _. Inr (JObj [(''tx'', JStr ''0x1'')])\<rparr>"
  let ?w1 = "empty_world\<lparr>sent := [\<lparr>tx_to = ''0xa'', tx_method = ''vote'', tx_args = [], tx_opts = []\<rparr>]\<rparr>"
  have m: "sendTx ?E ''0xa'' ''vote'' [] [] empty_world = (Inr (JObj [(''tx'', JStr ''0x1'')]), ?w1)"
    by (simp add: sendTx_def empty_world_def)
  from logging_transparent [where m = "sendTx ?E ''0xa'' ''vote'' [] []" and desc = "''vote''", OF m] obtain ls r' where
    l: "logTx ''vote'' (sendTx ?E ''0xa'' ''vote'' [] []) empty_world = (ls, r', ?w1)" by blast
  moreover have "fst (snd (logTx ''vote'' (sendTx ?E ''0xa'' ''vote'' [] []) empty_world)) = Inl TypeError"
    by (simp add: logTx_def reporting_def m bindR_def)
  ultimately show ?thesis by auto
qed

text \<open>
  the accounts are listed in columns: whenever the node has at most a thousand of them, the comma
  after the number stands in the same column of every row that is printed.
\<close>

theorem accounts_in_columns:
  assumes "get_accounts E = Inr accts" and "length accts \<le> 1000"
  shows "\<exists>col. list_all (\<lambda>(_, args). list_all (\<lambda>text. take 1 (drop col text) = '','') args)
    (fst (listAccts E C getBalance fromWei limit))"
proof (cases "mapR getBalance (slice0 limit accts)")
  case (Inl e)
  then show ?thesis using assms(1) by (simp add: listAccts_def)
next
  case (Inr balances)
  let ?as = "slice0 limit accts"
  let ?k = "if 100 < length ?as then 3 else (2 :: nat)"
  let ?rows = "zip [0..<length ?as] (zip ?as balances)"
  have n: "length ?as \<le> 1000" using assms(2) length_slice0 [of limit accts] by linarith
  have shown: "fst (listAccts E C getBalance fromWei limit) = fst (linesUntil (map (acctRow C fromWei ?k) ?rows))"
    using assms(1) Inr by (simp add: listAccts_def Let_def)
  have "list_all (\<lambda>(_, args). list_all (\<lambda>text. take 1 (drop ?k text) = '','') args) l"
    if "x \<in> set ?rows" "acctRow C fromWei ?k x = Inr l" for x l
  proof -
    obtain i a b where x: "x = (i, a, b)" by (cases x)
    with that(1) have "i < length ?as" by (auto dest: set_zip_leftD)
    with n have "length (dec_int (int i)) \<le> ?k"
      using length_dec_int_99 [of i] length_dec_int_999 [of i] by auto
    with that(2) x show ?thesis using acctRow_column by blast
  qed
  then show ?thesis unfolding shown
    by (intro exI [of _ ?k] linesUntil_rows [OF prod.collapse [symmetric]])
qed

theorem accounts_in_columns_witness:
  "\<exists>col. list_all (\<lambda>(_, args). list_all (\<lambda>text. take 1 (drop col text) = '','') args)
    (fst (listAccts (offline_env\<lparr>get_accounts := Inr [JStr ''0xa'', JStr ''0xb'']\<rparr>) plain_chalk (\<lambda>_. Inr (JStr ''1'')) (\<lambda>_ _. Inr ''1'') JUndef))"
  by (rule accounts_in_columns [of _ "[JStr ''0xa'', JStr ''0xb'']"]) simp_all

text \<open>The lines of \<open>JSON.stringify(obj, null, '  ')\<close> for an object of plain strings.\<close>

fun json_fields :: "(string \<times> string) list \<Rightarrow> string list" where
  "json_fields [] = []"
| "json_fields [(k, v)] = [''  \"'' @ k @ ''\": \"'' @ v @ ''\"'']"
| "json_fields ((k, v) # ps) = (''  \"'' @ k @ ''\": \"'' @ v @ ''\",'') # json_fields ps"

text \<open>
  what \<open>printDeployTx\<close> writes to the standard output, without colours, is the JSON text of the
  transaction: its sender and gas if it has them and its data, as strings, with a comma after every
  field but the last; everything else goes to the error stream.
\<close>

theorem printed_tx_is_json:
  "map snd (filter (\<lambda>l. fst l = Stdout) (logDeployTxData plain_chalk name txData)) =
     map (\<lambda>l. [l]) (''{'' # json_fields
       (map (\<lambda>k. (k, to_str (obj_get txData k)))
          (filter (\<lambda>k. k = ''data'' \<or> truthy (obj_get txData k)) [''from'', ''gas'', ''data''])) @ [''}''])"
  by (simp add: logDeployTxData_def logArgs_def logStdout_def txField_def plain_chalk_def)

end
