(* ===== verification/DevScenarios.thy ===== *)
theory DevScenarios
  imports Console DeployEnv
begin

text \<open>
  Small development scripts: the Buidler hooks of the Lido app (apps/lido/scripts/buidler-hooks.js) and
  the two scenarios gasprofile/tx-test.js and gasprofile/tx-set-fee.js, which send a few transactions
  for the profiler to look at.
\<close>

section \<open>buidler-hooks.js\<close>

text \<open>The module's three variables, unset until \<open>postDao\<close> assigns them.\<close>

record hooks =
  hk_token :: "string option"
  hk_depositContract :: "string option"
  hk_oracle :: "string option"

definition no_hooks :: hooks where
  "no_hooks = \<lparr>hk_token = None, hk_depositContract = None, hk_oracle = None\<rparr>"

type_synonym 'a hook = "hooks \<Rightarrow> world \<Rightarrow> 'a res \<times> hooks \<times> world"

definition bindH :: "'a hook \<Rightarrow> ('a \<Rightarrow> 'b hook) \<Rightarrow> 'b hook" where
  "bindH m f h w = (case m h w of (Inl e, h1, w1) \<Rightarrow> (Inl e, h1, w1) | (Inr x, h1, w1) \<Rightarrow> f x h1 w1)"

definition inH :: "'a prog \<Rightarrow> 'a hook" where
  "inH m h w = (case m w of (r, w1) \<Rightarrow> (r, h, w1))"

definition assignH :: "(hooks \<Rightarrow> hooks) \<Rightarrow> unit hook" where
  "assignH f h w = (Inr (), f h, w)"

definition proxyOf :: "jsval \<Rightarrow> jsval res" where
  "proxyOf receipt = bindR (logsOf receipt) (\<lambda>ls.
     case filter (\<lambda>l. evt_field l ''event'' = JStr ''NewAppProxy'') ls of [] \<Rightarrow> Inl TypeError | e # _ \<Rightarrow> Inr (evt_arg e ''proxy''))"

definition postDao :: "env \<Rightarrow> string \<Rightarrow> unit hook" where
  "postDao E dao =
     bindH (inH (newInstance E ''StETH'' [])) (\<lambda>tokenInstance.
     bindH (inH (sendTx E dao ''newAppInstance''
       [JStr (name_hash E ''steth.aragonpm.test''), JStr tokenInstance, JStr ''0x'', JBool False] [])) (\<lambda>receipt.
     bindH (inH (bindP (liftP (proxyOf receipt)) (at_addr E ''StETH''))) (\<lambda>token.
     bindH (assignH (\<lambda>h. h\<lparr>hk_token := Some token\<rparr>)) (\<lambda>_.
     bindH (inH (newInstance E ''DepositContractMock'' [])) (\<lambda>depositContract.
     bindH (assignH (\<lambda>h. h\<lparr>hk_depositContract := Some depositContract\<rparr>)) (\<lambda>_.
     bindH (inH (newInstance E ''OracleMock'' [])) (\<lambda>oracle.
     assignH (\<lambda>h. h\<lparr>hk_oracle := Some oracle\<rparr>))))))))"

definition emptyHook :: "unit hook" where
  "emptyHook h w = (Inr (), h, w)"

text \<open>The hooks of the oracle and the registry app do nothing and give no parameters.\<close>

definition oracleInitParams :: "jsval list res" where
  "oracleInitParams = Inr []"

definition registryInitParams :: "jsval list res" where
  "registryInitParams = Inr []"

definition addressOf :: "string option \<Rightarrow> jsval res" where
  "addressOf v = (case v of None \<Rightarrow> Inl TypeError | Some a \<Rightarrow> Inr (JStr a))"

definition getInitParams :: "hooks \<Rightarrow> jsval list res" where
  "getInitParams h =
     bindR (addressOf (hk_token h)) (\<lambda>token. bindR (addressOf (hk_depositContract h)) (\<lambda>depositContract.
     bindR (addressOf (hk_oracle h)) (\<lambda>oracle. Inr [token, depositContract, oracle, JInt 10])))"

section \<open>tx-test.js and tx-set-fee.js\<close>

text \<open>
  A scenario prints what it did; whatever happens the process ends with code 0.  The lines are those of
  \<open>console.log\<close>; the stack of an error, which goes to the error stream, is the result \<open>Inl\<close>.
\<close>

type_synonym scenario = "world \<Rightarrow> line list \<times> unit res \<times> world"

definition scenarioExit :: "unit res \<Rightarrow> nat" where
  "scenarioExit r = (case r of Inl e \<Rightarrow> 0 | Inr _ \<Rightarrow> 0)"

definition printTx :: "string \<Rightarrow> jsval prog \<Rightarrow> jsval logged" where
  "printTx name = reporting [] (\<lambda>result. [bindR (getp result ''tx'') (\<lambda>tx. Inr (logStdout [name @ '' tx:'', to_str tx]))])"

definition printTxHash :: "string \<Rightarrow> jsval prog \<Rightarrow> jsval logged" where
  "printTxHash name =
     reporting [] (\<lambda>result. [bindR (getp result ''tx'') (\<lambda>tx. Inr (logStdout [name @ '' tx hash:'', to_str tx]))])"

definition txTest :: "env \<Rightarrow> scenario" where
  "txTest E w =
     (case bindP (liftP (get_accounts E)) (\<lambda>addresses.
           bindP (sendTx E ''Bar.sol'' ''new'' [] [(''gas'', JInt 10000000)]) (\<lambda>bar.
           bindP (prop_of bar ''address'') (\<lambda>barAddress.
           bindP (sendTx E ''Foo.sol'' ''new'' [barAddress] [(''gas'', JInt 10000000)]) (\<lambda>foo.
           bindP (prop_of foo ''address'') (\<lambda>fooAddress.
           bindP (prop_of foo ''transactionHash'') (\<lambda>fooHash.
           bindP (prop_of bar ''transactionHash'') (\<lambda>barHash.
           returnP (addresses, fooAddress, barAddress, fooHash, barHash)))))))) w of
        (Inl e, w1) \<Rightarrow> ([], Inl e, w1)
      | (Inr (addresses, fooAddress, barAddress, fooHash, barHash), w1) \<Rightarrow>
          (let printed = logStdout [] @ logStdout [''Foo address:'', to_str fooAddress] @
                 logStdout [''Bar address:'', to_str barAddress] @ logStdout [] @
                 logStdout [''Foo deploy tx:'', to_str fooHash] @ logStdout [''Bar deploy tx:'', to_str barHash] @ logStdout []
           in case printTx ''foo.foo'' (sendTx E (to_str fooAddress) ''foo'' [JInt 3] [(''from'', fst_or_undef addresses)]) w1 of
                (ls, r, w2) \<Rightarrow> (printed @ ls, bindR r (\<lambda>_. Inr ()), w2)))"

text \<open>The DAO and its pool come from a helper of the tests.\<close>

definition txSetFee :: "env \<Rightarrow> (jsval \<Rightarrow> jsval \<Rightarrow> jsval \<Rightarrow> string prog) \<Rightarrow> scenario" where
  "txSetFee E deployDaoAndPool w =
     (case bindP (liftP (get_accounts E)) (\<lambda>addresses.
           let appManager = fst_or_undef addresses; voting = fst_or_undef (drop 1 addresses)
           in bindP (deployDaoAndPool appManager voting (JInt 100)) (\<lambda>pool. returnP (pool, voting))) w of
        (Inl e, w1) \<Rightarrow> ([], Inl e, w1)
      | (Inr (pool, voting), w1) \<Rightarrow>
          (case printTxHash ''pool.setFee''
                  (sendTx E pool ''setFee'' [JNum (js_mul (dbl (1 / 100)) (Fin 10000))] [(''from'', voting)]) w1 of
             (ls, r, w2) \<Rightarrow> (ls, bindR r (\<lambda>_. Inr ()), w2)))"

section \<open>Properties\<close>

text \<open>
  the app is initialised only after \<open>postDao\<close> has gone through: started from unset variables, the
  parameters are available exactly when it succeeded, and a failure after the proxy was found leaves the
  token set but still no parameters.
\<close>

theorem hooks_ready:
  assumes "postDao E dao no_hooks w = (r, h, w1)"
  shows "okR (getInitParams h) = okR r \<and> (okR r \<or> hk_oracle h = None)"
  using assms
  by (auto simp: postDao_def bindH_def inH_def assignH_def no_hooks_def getInitParams_def addressOf_def bindR_def
      split: prod.splits sum.splits)

definition hook_env :: env where
  "hook_env = offline_env\<lparr>send_tx := \<lambda>a m _ _.
     if m = ''new'' then Inr (JObj [(''address'', JStr (''0x'' @ a))])
     else Inr (JObj [(''logs'', JArr [JObj [(''event'', JStr ''NewAppProxy''), (''args'', JObj [(''proxy'', JStr ''0xp'')])]])]),
     contract_at := \<lambda>_ v. str_of v\<rparr>"

theorem hooks_ready_witness:
  "\<exists>h w1. postDao hook_env ''0xd'' no_hooks empty_world = (Inr (), h, w1) \<and> okR (getInitParams h) \<and> length (sent w1) = 4"
proof -
  let ?p = "postDao hook_env ''0xd'' no_hooks empty_world"
  have r: "fst ?p = Inr ()" "length (sent (snd (snd ?p))) = 4" by code_simp+
  obtain h w1 where p: "?p = (Inr (), h, w1)" using r(1) by (cases ?p) auto
  from hooks_ready [OF p] r(2) p show ?thesis by simp
qed

lemma setFee_is_exact: "js_mul (dbl (1 / 100)) (Fin 10000) = Fin 100"
  by code_simp

end
