(* ===== verification/AppLayout.thy ===== *)
theory AppLayout
  imports AppViews
begin

text \<open>
  The small components the pages of the front ends are built from: Split, ListItem, BytesBadge, Tooltip,
  TextField and the spacings of apps/lido/app/src/components/shared, InfoBox, MenuItem and LabelValue of
  the oracle app, MenuItem, CheckBox and TextField of the registry app.  An element is its tag, its
  properties, its style declarations and its children; \<open>GU\<close> is the grid unit of the user-interface
  library and \<open>theme\<close> its theme.  The badge is a state machine: it shows a check mark for three seconds
  after its bytes have been copied.
\<close>

section \<open>Elements\<close>

datatype element =
    El string "(string \<times> string) list" "(string \<times> string) list" "element list"
  | Tx string

definition px :: "nat \<Rightarrow> string" where
  "px n = dec_int (int n) @ ''px''"

record theme =
  th_name :: string
  th_surfaceContentSecondary :: string
  th_accent :: string

definition flag :: "string \<Rightarrow> bool \<Rightarrow> (string \<times> string) list" where
  "flag k b = (if b then [(k, ''true'')] else [])"

section \<open>shared/Split.js\<close>

definition oneColumn :: "string \<Rightarrow> bool" where
  "oneColumn layout \<longleftrightarrow> layout = ''small'' \<or> layout = ''medium''"

definition inverted :: "string \<Rightarrow> string \<Rightarrow> bool" where
  "inverted layout invert \<longleftrightarrow>
     (\<not> oneColumn layout \<and> invert = ''horizontal'') \<or> (oneColumn layout \<and> invert = ''vertical'')"

definition splitView :: "nat \<Rightarrow> string \<Rightarrow> string \<Rightarrow> element \<Rightarrow> element \<Rightarrow> element" where
  "splitView GU layout invert primary secondary =
     (let narrow = oneColumn layout; inv = inverted layout invert;
          primaryContent = El ''Inside'' [(''name'', ''Split:primary'')] []
            [El ''div'' [] [(''flex-grow'', ''1''), (''margin-left'', px (if \<not> narrow \<and> inv then 2 * GU else 0)),
               (''padding-top'', px (if narrow \<and> inv then 2 * GU else 0))] [primary]];
          secondaryContent = El ''Inside'' [(''name'', ''Split:secondary'')] []
            [El ''div'' [] [(''flex-shrink'', ''0''), (''flex-grow'', ''0''), (''width'', if narrow then ''100%'' else px (42 * GU)),
               (''margin-left'', px (if \<not> narrow \<and> \<not> inv then 2 * GU else 0)),
               (''padding-top'', px (if narrow \<and> \<not> inv then 2 * GU else 0))] [secondary]]
      in El ''Inside'' [(''name'', ''Split'')] []
           [El ''div'' [] [(''display'', if narrow then ''block'' else ''flex''), (''padding-bottom'', px (3 * GU)), (''width'', ''100%'')]
              [if inv then secondaryContent else primaryContent, if inv then primaryContent else secondaryContent]])"

section \<open>The other shared components\<close>

text \<open>\<open>themed\<close> is the style library's own theme, from which the colour of the label comes.\<close>

definition listItem :: "nat \<Rightarrow> theme option \<Rightarrow> theme \<Rightarrow> bool \<Rightarrow> element list \<Rightarrow> element list \<Rightarrow> element" where
  "listItem GU theme themed nested label children =
     El ''li'' [] [(''display'', ''flex''), (''justify-content'', ''space-between''), (''align-items'', ''center''),
         (''margin'', px (GU * 3) @ '' 0 0 '' @ px (if nested then GU * 4 else 0)), (''line-height'', ''40px''),
         (''& :first-of-type margin-top'', ''0'')]
       [El ''span'' [] [(''color'',
            if map_option th_name theme = Some ''dark'' then ''#7C99D6'' else th_surfaceContentSecondary themed)] label,
        El ''strong'' [] [(''text-align'', ''right'')] children]"

definition tooltipView :: "element list \<Rightarrow> element list \<Rightarrow> element" where
  "tooltipView tooltip children =
     El ''div'' [] [(''display'', ''flex''), (''justify-content'', ''flex-start''), (''align-items'', ''center'')]
       (El ''span'' [] [(''margin-right'', ''8px'')] children #
        (if tooltip \<noteq> [] then [El ''Help'' [] [] [El ''hint'' [] [] children, El ''children'' [] [] tooltip]] else []))"

definition textField :: "string \<Rightarrow> (string \<times> string) list \<Rightarrow> (string \<times> string) list \<Rightarrow> string option \<Rightarrow> element" where
  "textField label attrs props err =
     El ''Field'' [(''label'', label)] []
       (El ''TextInput'' (flag ''wide'' True @ attrs @ props) [] [] #
        (case err of
           Some e \<Rightarrow> if e \<noteq> [] then [El ''Info'' [(''mode'', ''error'')] [(''marginTop'', ''5'')] [Tx e]] else []
         | None \<Rightarrow> []))"

definition infoSpaced :: "nat \<Rightarrow> (string \<times> string) list" where
  "infoSpaced GU = [(''margin'', px (GU * 3) @ '' 0'')]"

definition formSpaced :: "nat \<Rightarrow> (string \<times> string) list" where
  "formSpaced GU = [(''margin-top'', px (3 * GU))]"

definition controlsStyle :: "nat \<Rightarrow> (string \<times> string) list" where
  "controlsStyle GU = [(''display'', ''inline-flex''), (''justify-content'', ''flex-start''), (''align-items'', ''center''),
     (''& > :first-child margin-right'', px (GU * 2))]"

section \<open>shared/BytesBadge.js\<close>

text \<open>
  The state of the badge and the moment its interval fires next, in milliseconds.  Copying again while
  the check mark is shown changes nothing, so it does not restart the interval.
\<close>

record badge =
  bd_now :: nat
  bd_copied :: bool
  bd_fires :: "nat option"

datatype badge_event = Copied | Passed nat

definition fresh_badge :: badge where
  "fresh_badge = \<lparr>bd_now = 0, bd_copied = False, bd_fires = None\<rparr>"

text \<open>The effect that runs after a render in which \<open>copied\<close> has changed.\<close>

definition badgeEffect :: "badge \<Rightarrow> badge" where
  "badgeEffect b = b\<lparr>bd_fires := (if bd_copied b then Some (bd_now b + 3000) else None)\<rparr>"

definition setCopied :: "bool \<Rightarrow> badge \<Rightarrow> badge" where
  "setCopied v b = (if bd_copied b = v then b else badgeEffect (b\<lparr>bd_copied := v\<rparr>))"

fun badge_step :: "badge_event \<Rightarrow> badge \<Rightarrow> badge" where
  "badge_step Copied b = setCopied True b"
| "badge_step (Passed d) b =
     (case bd_fires b of
        Some t \<Rightarrow>
          if t \<le> bd_now b + d then setCopied False (b\<lparr>bd_now := t\<rparr>)\<lparr>bd_now := bd_now b + d\<rparr>
          else b\<lparr>bd_now := bd_now b + d\<rparr>
      | None \<Rightarrow> b\<lparr>bd_now := bd_now b + d\<rparr>)"

definition half_px :: "nat \<Rightarrow> string" where
  "half_px n = dec_int (int (n div 2)) @ (if even n then [] else ''.5'') @ ''px''"

definition badgeView :: "string \<Rightarrow> jsval \<Rightarrow> nat \<Rightarrow> badge \<Rightarrow> element" where
  "badgeView ellipsis bytes GU b =
     El ''CopyToClipboard'' [(''text'', jsx_text bytes)] []
       [El ''BadgeBase'' [] []
          ((if bd_copied b then [El ''IconCheck'' [(''size'', ''small'')] [] []] else []) @
           [El ''span'' [] [(''margin-left'', half_px GU)] [Tx (shortenBytes ellipsis bytes)]])]"

section \<open>The oracle and registry apps\<close>

definition infoBoxView :: "string \<Rightarrow> element list \<Rightarrow> bool \<Rightarrow> string option \<Rightarrow> bool \<Rightarrow> element" where
  "infoBoxView heading value clickable label largeText =
     El ''Box'' [(''heading'', heading)] []
       (El ''div'' [] [(''font-size'', if largeText then ''1.5rem'' else ''1rem''),
          (''margin-bottom'', if clickable then ''20px'' else ''0px''), (''text-align'', ''center'')] value #
        (if clickable
         then [El ''Button'' (flag ''wide'' True @ [(''mode'', ''strong'')] @
                 (case label of Some l \<Rightarrow> [(''label'', l)] | None \<Rightarrow> [])) [] []]
         else []))"

definition registryInfoBox :: "string \<Rightarrow> element list \<Rightarrow> element" where
  "registryInfoBox heading value =
     El ''Box'' [(''heading'', heading)] [] [El ''p'' [] [(''font-size'', ''1.5rem''), (''text-align'', ''center'')] value]"

definition menuEntry :: "string \<Rightarrow> nat \<Rightarrow> theme \<Rightarrow> element \<Rightarrow> string \<Rightarrow> element" where
  "menuEntry iconColour GU theme icon label =
     El ''ContextMenuItem'' [] []
       [El ''span'' [] [(''position'', ''relative''), (''display'', ''flex''), (''align-items'', ''center''),
          (''justify-content'', ''center''), (''color'', th_surfaceContentSecondary theme), (''svg color'', iconColour)] [icon],
        El ''span'' [] [(''margin-left'', px (1 * GU))] [Tx label]]"

definition registryMenuItem :: "nat \<Rightarrow> theme \<Rightarrow> element \<Rightarrow> string \<Rightarrow> element" where
  "registryMenuItem GU theme icon label = menuEntry (th_accent theme) GU theme icon label"

definition oracleMenuItem :: "nat \<Rightarrow> theme \<Rightarrow> string option \<Rightarrow> element \<Rightarrow> string \<Rightarrow> element" where
  "oracleMenuItem GU theme iconColor icon label =
     menuEntry (case iconColor of Some c \<Rightarrow> if c \<noteq> [] then c else th_accent theme | None \<Rightarrow> th_accent theme) GU theme icon label"

definition labelValue :: "nat \<Rightarrow> (string \<times> string) list \<Rightarrow> string \<Rightarrow> string \<Rightarrow> element" where
  "labelValue GU body3 label value =
     El ''div'' [] [(''display'', ''flex''), (''align-items'', ''center''), (''justify-content'', ''space-between''), (''overflow'', ''hidden'')]
       [El ''p'' [] (body3 @ [(''margin-right'', px (2 * GU)), (''white-space'', ''nowrap'')]) [Tx label],
        El ''p'' [] (body3 @ [(''white-space'', ''nowrap''), (''text-overflow'', ''ellipsis''), (''overflow'', ''hidden'')]) [Tx value]]"

definition checkBoxChange :: "bool \<Rightarrow> form_action" where
  "checkBoxChange checked = Edit ''useAdvancedV8n'' (JBool checked)"

definition checkBoxView :: "nat \<Rightarrow> jsval \<Rightarrow> element" where
  "checkBoxView GU value =
     El ''div'' [] [(''margin-bottom'', px (GU * 3))]
       [El ''label'' [] [(''display'', ''flex''), (''align-items'', ''center'')]
          [El ''AragonCheckbox'' (flag ''checked'' (truthy value)) [(''margin-right'', px GU)] [], Tx ''Use advanced validation''],
        El ''Info'' [(''mode'', ''warning'')] [(''marginTop'', ''5'')]
          [Tx (''By checking this box, you agree to using an external api to check your signing keys for duplicates against '' @
               ''already submitted keys and to verify your signatures.'')]]"

definition iconButton :: "(string \<times> string) list \<Rightarrow> element" where
  "iconButton props = El ''Button'' ((''display'', ''icon'') # props) [] []"

section \<open>Properties\<close>

fun elapsed :: "badge_event list \<Rightarrow> nat" where
  "elapsed [] = 0"
| "elapsed (Copied # es) = elapsed es"
| "elapsed (Passed d # es) = d + elapsed es"

text \<open>The interval is set exactly while the check mark is shown, and lies in the next three seconds.\<close>

definition badge_ok :: "badge \<Rightarrow> bool" where
  "badge_ok b \<longleftrightarrow> (case bd_fires b of None \<Rightarrow> \<not> bd_copied b
     | Some t \<Rightarrow> bd_copied b \<and> bd_now b < t \<and> t \<le> bd_now b + 3000)"

lemma badge_ok_fresh: "badge_ok fresh_badge"
  by (simp add: badge_ok_def fresh_badge_def)

lemma badge_ok_step: "badge_ok b \<Longrightarrow> badge_ok (badge_step e b)"
  by (cases e) (auto simp: badge_ok_def setCopied_def badgeEffect_def split: option.splits)

lemma badge_ok_run: "badge_ok b \<Longrightarrow> badge_ok (fold badge_step es b)"
  by (induction es arbitrary: b) (auto intro: badge_ok_step)

lemma badge_counts_down:
  assumes "bd_fires b = Some t" "bd_copied b" "bd_now b + elapsed es < t"
  shows "bd_fires (fold badge_step es b) = Some t \<and> bd_copied (fold badge_step es b) \<and>
    bd_now (fold badge_step es b) = bd_now b + elapsed es"
  using assms
proof (induction es arbitrary: b)
  case (Cons e es)
  then show ?case by (cases e) (auto simp: setCopied_def)
qed simp

text \<open>
  C37: C1.  The badge that copies a public key: from the moment the key is copied the check mark stays for
  exactly three seconds, whatever else happens in between; copying again does not restart the interval.
  Before that moment the badge may have been used in any way.
\<close>

theorem badge_shows_three_seconds:
  assumes "\<not> bd_copied (fold badge_step before fresh_badge)" and "elapsed es < 3000" and "3000 \<le> elapsed es + d"
  shows "bd_copied (fold badge_step (before @ Copied # es) fresh_badge) \<and>
    \<not> bd_copied (fold badge_step (before @ Copied # es @ [Passed d]) fresh_badge)"
proof -
  let ?b = "fold badge_step before fresh_badge" let ?c = "badge_step Copied ?b"
  have "bd_fires ?c = Some (bd_now ?b + 3000) \<and> bd_copied ?c \<and> bd_now ?c = bd_now ?b"
    using assms(1) by (simp add: setCopied_def badgeEffect_def)
  with badge_counts_down [of ?c "bd_now ?b + 3000" es] assms(2,3) show ?thesis
    by (auto simp: setCopied_def badgeEffect_def)
qed

lemma badge_shows_three_seconds_witness:
  "bd_copied (fold badge_step ([Copied, Passed 3000, Passed 7] @ Copied # [Passed 2000, Copied]) fresh_badge) \<and>
   \<not> bd_copied (fold badge_step ([Copied, Passed 3000, Passed 7] @ Copied # [Passed 2000, Copied] @ [Passed 1000]) fresh_badge)"
  by (rule badge_shows_three_seconds) (simp_all add: fresh_badge_def setCopied_def badgeEffect_def)

text \<open>
  C2.  The two halves of a page: the secondary half is put before the primary one exactly when the
  inversion asked for is the one of the layout, and its width is fixed beside the other half and full below it.
\<close>

fun named_parts :: "element \<Rightarrow> string list" where
  "named_parts (Tx s) = []"
| "named_parts (El tag attrs css es) =
     (case map_of attrs ''name'' of Some n \<Rightarrow> [n] | None \<Rightarrow> []) @ concat (map named_parts es)"

theorem split_order:
  "named_parts (splitView GU layout invert (Tx p) (Tx s)) =
     ''Split'' # (if invert = ''horizontal'' \<and> layout \<notin> {''small'', ''medium''} \<or>
                    invert = ''vertical'' \<and> layout \<in> {''small'', ''medium''}
                 then [''Split:secondary'', ''Split:primary''] else [''Split:primary'', ''Split:secondary''])"
  by (auto simp: splitView_def Let_def inverted_def oneColumn_def)

end
