(* ===== verification/BytecodeCheck.thy ===== *)
theory BytecodeCheck
  imports ScriptHelpers GasSource
begin

text \<open>
  .github/assert-deployed-bytecode.js, the check of the mainnet deployment against the compiled
  contracts: the comparison of two bytecodes up to runs of 32 zero bytes (immutable variables) and
  the metadata solc appends, the check of one contract and the check of all of deployed-mainnet.json.
  The node's \<open>getTransaction\<close> is the argument \<open>getTx\<close>.
\<close>

section \<open>Comparing bytecodes\<close>

definition empty32bytes :: string where
  "empty32bytes = replicate 64 (CHR ''0'')"

definition isInsideEmpty32bytes :: "string \<Rightarrow> nat \<Rightarrow> bool" where
  "isInsideEmpty32bytes byteCode i =
     (let start = (if int i - 63 \<ge> 0 then i - 63 else 0);
          stop = (if i + 64 \<le> length byteCode then i + 64 else length byteCode)
      in contains empty32bytes (take (stop - start) (drop start byteCode)))"

text \<open>\<open>s.slice(-n)\<close>\<close>

definition slice_last :: "nat \<Rightarrow> string \<Rightarrow> string" where
  "slice_last n s = drop (length s - n) s"

definition stripMetadata :: "string \<Rightarrow> string" where
  "stripMetadata byteCode =
     (case parseInt16 (slice_last 4 byteCode) of
        None \<Rightarrow> byteCode
      | Some k \<Rightarrow>
          (let metaDataLength = k * 2; metaDataIndex = int (length byteCode) - metaDataLength - 4
           in if metaDataIndex > 0 then take (nat metaDataIndex) byteCode else byteCode))"

fun similarFrom :: "string \<Rightarrow> string \<Rightarrow> nat \<Rightarrow> nat \<Rightarrow> bool" where
  "similarFrom a b i 0 = True"
| "similarFrom a b i (Suc n) =
     (if a ! i \<noteq> b ! i \<and> \<not> isInsideEmpty32bytes a i \<and> \<not> isInsideEmpty32bytes b i then False
      else similarFrom a b (i + 1) n)"

definition isBytecodeSimilar :: "string \<Rightarrow> string \<Rightarrow> bool \<Rightarrow> bool" where
  "isBytecodeSimilar a b ignoreMetadata =
     (let a' = (if ignoreMetadata then stripMetadata a else a);
          b' = (if ignoreMetadata then stripMetadata b else b)
      in if length a' \<noteq> length b' then False else similarFrom a' b' 0 (length a'))"

section \<open>One contract\<close>

definition IGNORE_METADATA_CONTRACTS :: "string list" where
  "IGNORE_METADATA_CONTRACTS = [''WstETH'']"

definition as_str :: "jsval \<Rightarrow> string res" where
  "as_str v = (case v of JStr s \<Rightarrow> Inr s | _ \<Rightarrow> Inl TypeError)"

definition assertByteCodeByDeployTx ::
  "(jsval \<Rightarrow> jsval res) \<Rightarrow> jsval \<Rightarrow> jsval \<Rightarrow> bool \<Rightarrow> unit res" where
  "assertByteCodeByDeployTx getTx deployTx artifact ignoreMetadata =
     bindR (getTx deployTx) (\<lambda>tx.
     bindR (getp tx ''input'') (\<lambda>input.
     bindR (as_str input) (\<lambda>data.
     bindR (bindR (getp artifact ''bytecode'') as_str) (\<lambda>code.
     let txData = to_lower data; byteCode = (if ignoreMetadata then stripMetadata code else code)
     in if \<not> starts_with byteCode txData then Inl (External ''AssertionError: deploy TX'') else Inr ()))))"

definition assertByteCode ::
  "env \<Rightarrow> (jsval \<Rightarrow> jsval res) \<Rightarrow> jsval \<Rightarrow> string \<Rightarrow> jsval \<Rightarrow> unit res" where
  "assertByteCode E getTx address artifactName deployTx =
     bindR (read_artifact E artifactName) (\<lambda>artifact.
     bindR (bindR (getp artifact ''deployedBytecode'') as_str) (\<lambda>compiled.
     bindR (get_code E address) (\<lambda>onChain.
     let bytecodeFromArtifact = to_lower compiled; bytecodeFromRpc = to_lower onChain;
         ignoreMetadata = artifactName \<in> set IGNORE_METADATA_CONTRACTS
     in if bytecodeFromRpc = bytecodeFromArtifact then Inr ()
        else if isBytecodeSimilar bytecodeFromArtifact bytecodeFromRpc ignoreMetadata
        then if truthy deployTx then assertByteCodeByDeployTx getTx deployTx artifact ignoreMetadata
             else Inl (External ''AssertionError: no deployTx'')
        else Inl (External ''AssertionError: bytecode''))))"

section \<open>All contracts of deployed-mainnet.json\<close>

definition APPS_TO_NAMES :: "string \<rightharpoonup> string" where
  "APPS_TO_NAMES = map_of
     [(''lido'', ''Lido''), (''node-operators-registry'', ''NodeOperatorsRegistry''), (''oracle'', ''LidoOracle'')]"

definition CONTRACTS_TO_NAMES :: "string \<rightharpoonup> string" where
  "CONTRACTS_TO_NAMES = map_of
     [(''wstethContract'', ''WstETH''), (''executionLayerRewardsVault'', ''LidoExecutionLayerRewardsVault''),
      (''compositePostRebaseBeaconReceiver'', ''CompositePostRebaseBeaconReceiver''),
      (''selfOwnedStETHBurner'', ''SelfOwnedStETHBurner''), (''depositor'', ''DepositSecurityModule'')]"

text \<open>\<open>s.replace(pat, new)\<close> with a text pattern: its first occurrence.\<close>

fun replace_first :: "string \<Rightarrow> string \<Rightarrow> string \<Rightarrow> string" where
  "replace_first pat new [] = []"
| "replace_first pat new (c # s) =
     (if starts_with pat (c # s) then new @ drop (length pat) (c # s) else c # replace_first pat new s)"

definition checkApp :: "env \<Rightarrow> (jsval \<Rightarrow> jsval res) \<Rightarrow> string \<times> jsval \<Rightarrow> unit res" where
  "checkApp E getTx kv =
     (case kv of (key, v) \<Rightarrow>
        if starts_with ''app:'' key \<and> \<not> starts_with ''app:aragon'' key
        then (case APPS_TO_NAMES (split_on (CHR '':'') key ! 1) of
                None \<Rightarrow> Inl (Error (''Unknown APP '' @ key))
              | Some name \<Rightarrow>
                  bindR (getp v ''baseAddress'') (\<lambda>address.
                  if \<not> truthy address then Inl (Error (''APP '' @ key @ '' has no baseAddress''))
                  else assertByteCode E getTx address name JUndef))
        else Inr ())"

definition checkContract :: "env \<Rightarrow> (jsval \<Rightarrow> jsval res) \<Rightarrow> props \<Rightarrow> string \<times> jsval \<Rightarrow> unit res" where
  "checkContract E getTx deployInfo kv =
     (case kv of (key, address) \<Rightarrow>
        if \<not> starts_with ''app:'' key \<and> ends_with ''Address'' key
        then (case CONTRACTS_TO_NAMES (replace_first ''Address'' [] key) of
                None \<Rightarrow> Inr ()
              | Some name \<Rightarrow>
                  assertByteCode E getTx address name (obj_get deployInfo (replace_first ''Address'' ''DeployTx'' key)))
        else Inr ())"

text \<open>The reasons of the rejected checks, in order; the error thrown lists them.\<close>

fun rejected :: "unit res list \<Rightarrow> jserr list" where
  "rejected [] = []"
| "rejected (Inl e # rs) = e # rejected rs"
| "rejected (Inr _ # rs) = rejected rs"

definition assertDeployedByteCodeMain :: "env \<Rightarrow> (jsval \<Rightarrow> jsval res) \<Rightarrow> jserr list + unit" where
  "assertDeployedByteCodeMain E getTx =
     (case read_json E ''deployed-mainnet.json'' of
        Inl e \<Rightarrow> Inl [e]
      | Inr info \<Rightarrow>
          (let deployInfo = own_props info;
               resultsApps = map (checkApp E getTx) deployInfo;
               resultsContracts = map (checkContract E getTx deployInfo) deployInfo;
               errors = rejected (resultsApps @ resultsContracts)
           in if length errors > 0 then Inl errors else Inr ()))"

section \<open>Runs of zero bytes\<close>

text \<open>The window around a position holds 64 zeros exactly when they cover the position.\<close>

definition in_zero_run :: "string \<Rightarrow> nat \<Rightarrow> bool" where
  "in_zero_run b i \<longleftrightarrow> (\<exists>s. s \<le> i \<and> i < s + 64 \<and> s + 64 \<le> length b \<and> (\<forall>j. s \<le> j \<and> j < s + 64 \<longrightarrow> b ! j = CHR ''0''))"

lemma contains_iff: "contains sub s \<longleftrightarrow> (\<exists>i. i + length sub \<le> length s \<and> take (length sub) (drop i s) = sub)"
proof -
  have "i + length sub \<le> length s" if "take (length sub) (drop i s) = sub" "i \<le> length s" for i
  proof -
    have "length sub = length (take (length sub) (drop i s))" using that(1) by simp
    with that(2) show ?thesis by simp
  qed
  then show ?thesis by (fastforce simp: contains_def list_ex_iff)
qed

lemma take_drop_zeros:
  assumes "s + n \<le> length b"
  shows "take n (drop s b) = replicate n c \<longleftrightarrow> (\<forall>j. s \<le> j \<and> j < s + n \<longrightarrow> b ! j = c)"
proof -
  have "take n (drop s b) = replicate n c \<longleftrightarrow> (\<forall>k < n. b ! (s + k) = c)"
    using assms by (auto simp: list_eq_iff_nth_eq)
  also have "\<dots> \<longleftrightarrow> (\<forall>j. s \<le> j \<and> j < s + n \<longrightarrow> b ! j = c)"
    by (metis add_less_cancel_left le_add1 le_Suc_ex)
  finally show ?thesis .
qed

lemma inside_iff:
  assumes "i < length b"
  shows "isInsideEmpty32bytes b i \<longleftrightarrow> in_zero_run b i"
proof -
  define start stop where "start = i - 63" and "stop = min (i + 64) (length b)"
  have w: "isInsideEmpty32bytes b i = contains empty32bytes (take (stop - start) (drop start b))"
    by (simp add: isInsideEmpty32bytes_def start_def stop_def Let_def min_def)
  have len: "start \<le> stop" "stop \<le> length b" using assms by (auto simp: start_def stop_def)
  have sub: "take 64 (drop k (take (stop - start) (drop start b))) = take 64 (drop (start + k) b)" if "k + 64 \<le> stop - start" for k
    using that by (simp add: drop_take take_take min_def add.commute)
  have "contains empty32bytes (take (stop - start) (drop start b)) \<longleftrightarrow>
      (\<exists>k. k + 64 \<le> stop - start \<and> take 64 (drop k (take (stop - start) (drop start b))) = replicate 64 (CHR ''0''))"
    using len by (simp add: contains_iff empty32bytes_def)
  also have "\<dots> \<longleftrightarrow> (\<exists>k. k + 64 \<le> stop - start \<and> take 64 (drop (start + k) b) = replicate 64 (CHR ''0''))"
    by (intro ex_cong1 conj_cong refl) (simp only: sub)
  also have "\<dots> \<longleftrightarrow> (\<exists>s. start \<le> s \<and> s + 64 \<le> stop \<and> take 64 (drop s b) = replicate 64 (CHR ''0''))"
  proof
    assume "\<exists>k. k + 64 \<le> stop - start \<and> take 64 (drop (start + k) b) = replicate 64 (CHR ''0'')"
    then obtain k where "k + 64 \<le> stop - start" "take 64 (drop (start + k) b) = replicate 64 (CHR ''0'')" by blast
    with len show "\<exists>s. start \<le> s \<and> s + 64 \<le> stop \<and> take 64 (drop s b) = replicate 64 (CHR ''0'')"
      by (intro exI [of _ "start + k"]) simp
  next
    assume "\<exists>s. start \<le> s \<and> s + 64 \<le> stop \<and> take 64 (drop s b) = replicate 64 (CHR ''0'')"
    then obtain s where "start \<le> s" "s + 64 \<le> stop" "take 64 (drop s b) = replicate 64 (CHR ''0'')" by blast
    then show "\<exists>k. k + 64 \<le> stop - start \<and> take 64 (drop (start + k) b) = replicate 64 (CHR ''0'')"
      by (intro exI [of _ "s - start"]) simp
  qed
  also have "\<dots> \<longleftrightarrow> (\<exists>s. s \<le> i \<and> i < s + 64 \<and> s + 64 \<le> length b \<and> take 64 (drop s b) = replicate 64 (CHR ''0''))"
    unfolding start_def stop_def using assms by (intro ex_cong1) auto
  also have "\<dots> \<longleftrightarrow> in_zero_run b i"
    unfolding in_zero_run_def by (intro ex_cong1) (auto simp: take_drop_zeros)
  finally show ?thesis using w by simp
qed

lemma similarFrom_iff:
  "similarFrom a b i n \<longleftrightarrow>
     list_all (\<lambda>j. a ! j = b ! j \<or> isInsideEmpty32bytes a j \<or> isInsideEmpty32bytes b j) [i..<i + n]"
  by (induction n arbitrary: i) (auto simp: upt_rec)

section \<open>What solc appends\<close>

text \<open>The last two bytes hold the length of the metadata before them.\<close>

lemma digits_are_hex: "0 \<le> n \<Longrightarrow> \<forall>c \<in> set (hex_digits n). hex_val c \<noteq> None"
proof (induction n rule: hex_digits.induct)
  case (1 n)
  then show ?case by (subst hex_digits.simps) (auto simp: hex_val_hex_char)
qed

lemma length_hex_digits: "0 \<le> n \<Longrightarrow> n < 16 ^ k \<Longrightarrow> 0 < k \<Longrightarrow> length (hex_digits n) \<le> k"
proof (induction k arbitrary: n)
  case (Suc k)
  show ?case
  proof (cases "n < 16")
    case False
    with Suc.prems have "n div 16 < 16 ^ k" "0 < k" by (auto intro!: Nat.gr0I)
    with Suc.IH [of "n div 16"] Suc.prems False show ?thesis by (subst hex_digits.simps) simp
  qed (subst hex_digits.simps, simp)
qed simp

definition hex4 :: "nat \<Rightarrow> string" where
  "hex4 n = pad_hex 4 (hex_digits (int n))"

lemma length_hex4: "n < 65536 \<Longrightarrow> length (hex4 n) = 4"
proof -
  assume "n < 65536"
  then have "length (hex_digits (int n)) \<le> 4" using length_hex_digits [of "int n" 4] by simp
  moreover have "0 < length (hex_digits (int n))" by simp
  ultimately have "length (hex_digits (int n)) \<in> {1, 2, 3, 4}" by (simp only: insert_iff empty_iff) linarith
  then show ?thesis by (auto simp: hex4_def pad_hex_def)
qed

lemma parseInt16_hex4: "parseInt16 (hex4 n) = Some (int n)"
proof -
  have hex: "\<forall>c \<in> set (hex4 n). hex_val c \<noteq> None"
    using digits_are_hex [of "int n"] by (auto simp: hex4_def pad_hex_def hex_val_def)
  obtain c t where ct: "hex4 n = c # t" by (cases "hex4 n") (auto simp: hex4_def pad_hex_def)
  have sp: "\<not> is_space c" "c \<noteq> CHR ''-''" "c \<noteq> CHR ''+''" using hex by (auto simp: ct is_space_def hex_val_def)
  have x: "\<not> starts_with ''0x'' (c # t)" "\<not> starts_with ''0X'' (c # t)"
    using hex by (cases t; auto simp: ct starts_with_def hex_val_def)+
  have all: "takeWhile (\<lambda>c. hex_val c \<noteq> None) (c # t) = hex4 n"
    using hex by (simp add: takeWhile_eq_all_conv flip: ct)
  have "parse_hex (hex4 n) = Some (int n)"
    by (simp add: parse_hex_def hex4_def pad_hex_def parse_hex_digits parse_digits_zeros)
  moreover have "\<not> starts_with ''-'' (c # t)" "\<not> starts_with ''+'' (c # t)" using sp by (simp_all add: starts_with_def)
  ultimately show ?thesis
    using sp(1) x all unfolding parseInt16_def Let_def ct by simp
qed

section \<open>Properties\<close>

text \<open>
  C31: two bytecodes are similar exactly when they have the same length and differ only at positions
  that lie inside a run of 32 zero bytes of one of the two: the window the check looks at contains
  such a run if and only if the run covers the position.
\<close>

theorem bytecode_similar_iff:
  "isBytecodeSimilar a b False \<longleftrightarrow>
     length a = length b \<and> list_all (\<lambda>i. a ! i = b ! i \<or> in_zero_run a i \<or> in_zero_run b i) [0..<length a]"
  by (auto simp: isBytecodeSimilar_def similarFrom_iff list_all_iff inside_iff)

text \<open>
  stripping is the inverse of what solc appends: a bytecode followed by metadata of any length
  below 65536 bytes and by that length in two bytes is cut back to the bytecode itself.
\<close>

theorem stripMetadata_appended:
  assumes "length metadata = 2 * n" and "n < 65536" and "code \<noteq> []"
  shows "stripMetadata (code @ metadata @ hex4 n) = code"
proof -
  have "slice_last 4 (code @ metadata @ hex4 n) = hex4 n"
    using length_hex4 [OF assms(2)] by (simp add: slice_last_def)
  moreover have "length (code @ metadata @ hex4 n) = length code + 2 * n + 4"
    using length_hex4 [OF assms(2)] assms(1) by simp
  ultimately show ?thesis using assms(1,3) by (simp add: stripMetadata_def parseInt16_hex4 Let_def)
qed

theorem stripMetadata_appended_witness:
  "stripMetadata (''6080'' @ ''a265'' @ hex4 2) = ''6080''"
  by (rule stripMetadata_appended) simp_all

section \<open>What a passing check means\<close>

text \<open>The compiled code of an artifact, the code at an address, and how they may differ.\<close>

definition codes :: "env \<Rightarrow> string \<Rightarrow> jsval \<Rightarrow> jsval \<Rightarrow> string \<Rightarrow> string \<Rightarrow> bool" where
  "codes E name address artifact compiled onChain \<longleftrightarrow>
     read_artifact E name = Inr artifact \<and> getp artifact ''deployedBytecode'' = Inr (JStr compiled) \<and>
     get_code E address = Inr onChain"

definition exact_code :: "env \<Rightarrow> string \<Rightarrow> jsval \<Rightarrow> bool" where
  "exact_code E name address \<longleftrightarrow>
     (\<exists>artifact compiled onChain. codes E name address artifact compiled onChain \<and> to_lower onChain = to_lower compiled)"

text \<open>Same length but for zero runs and metadata, and the deploy transaction starts with the creation code.\<close>

definition double_checked :: "env \<Rightarrow> (jsval \<Rightarrow> jsval res) \<Rightarrow> string \<Rightarrow> jsval \<Rightarrow> jsval \<Rightarrow> bool" where
  "double_checked E getTx name address deployTx \<longleftrightarrow>
     (\<exists>artifact compiled onChain tx input creation strip.
        codes E name address artifact compiled onChain \<and> strip = (if name = ''WstETH'' then stripMetadata else id) \<and>
        isBytecodeSimilar (strip (to_lower compiled)) (strip (to_lower onChain)) False \<and>
        getTx deployTx = Inr tx \<and> getp tx ''input'' = Inr (JStr input) \<and> getp artifact ''bytecode'' = Inr (JStr creation) \<and>
        starts_with (strip creation) (to_lower input))"

lemma as_str_ok: "as_str v = Inr s \<longleftrightarrow> v = JStr s"
  by (auto simp: as_str_def split: jsval.splits)

lemma similar_strip:
  "isBytecodeSimilar a b ign = isBytecodeSimilar ((if ign then stripMetadata else id) a) ((if ign then stripMetadata else id) b) False"
  by (simp add: isBytecodeSimilar_def)

lemma assertByteCode_sound:
  assumes "assertByteCode E getTx address name deployTx = Inr ()"
  shows "exact_code E name address \<or> truthy deployTx \<and> double_checked E getTx name address deployTx"
proof -
  from assms obtain artifact compiled onChain where c: "codes E name address artifact compiled onChain"
    and r: "to_lower onChain = to_lower compiled \<or>
      isBytecodeSimilar (to_lower compiled) (to_lower onChain) (name \<in> set IGNORE_METADATA_CONTRACTS) \<and> truthy deployTx \<and>
      assertByteCodeByDeployTx getTx deployTx artifact (name \<in> set IGNORE_METADATA_CONTRACTS) = Inr ()"
    by (auto simp: assertByteCode_def codes_def Let_def bindR_eq_Inr as_str_ok split: if_splits)
  show ?thesis
  proof (cases "to_lower onChain = to_lower compiled")
    case True
    with c show ?thesis by (auto simp: exact_code_def)
  next
    case False
    with r have s: "isBytecodeSimilar (to_lower compiled) (to_lower onChain) (name = ''WstETH'')" and t: "truthy deployTx"
      and d: "assertByteCodeByDeployTx getTx deployTx artifact (name = ''WstETH'') = Inr ()"
      by (simp_all add: IGNORE_METADATA_CONTRACTS_def)
    from d obtain tx input creation where "getTx deployTx = Inr tx" "getp tx ''input'' = Inr (JStr input)"
      "getp artifact ''bytecode'' = Inr (JStr creation)"
      "starts_with ((if name = ''WstETH'' then stripMetadata else id) creation) (to_lower input)"
      by (auto simp: assertByteCodeByDeployTx_def Let_def bindR_eq_Inr as_str_ok split: if_splits)
    with c s t show ?thesis unfolding double_checked_def similar_strip [of _ _ "name = ''WstETH''"] by blast
  qed
qed

lemma assertByteCode_no_deployTx:
  "assertByteCode E getTx address name JUndef = Inr () \<Longrightarrow> exact_code E name address"
  using assertByteCode_sound by fastforce

lemma rejected_Nil: "rejected rs = [] \<longleftrightarrow> list_all (\<lambda>r. r = Inr ()) rs"
  by (induction rs rule: rejected.induct) auto


definition mainnet_env :: env where
  "mainnet_env = offline_env\<lparr>
     read_json := (\<lambda>_. Inr (JObj [(''app:lido'', JObj [(''baseAddress'', JStr ''0x1'')]), (''app:aragon-voting'', JObj []),
        (''depositorAddress'', JStr ''0x2''), (''depositorDeployTx'', JStr ''0x7'')])),
     read_artifact := (\<lambda>_. Inr (JObj [(''deployedBytecode'', JStr (''60'' @ replicate 64 (CHR ''0''))), (''bytecode'', JStr ''0x61'')])),
     get_code := (\<lambda>a. Inr (if a = JStr ''0x2'' then ''60'' @ replicate 63 (CHR ''0'') @ ''7'' else ''60'' @ replicate 64 (CHR ''0'')))\<rparr>"

lemma mainnet_run: "assertDeployedByteCodeMain mainnet_env (\<lambda>_. Inr (JObj [(''input'', JStr ''0x61FF'')])) = Inr ()"
  by code_simp


end
